(* ===== verification/QP_Prelude.thy ===== *)
theory QP_Prelude
  imports Complex_Main "HOL-Library.AList"
begin

text \<open>
  Shared vocabulary of the QuickPrice development: Python exceptions as values of a sum
  type, the string and dictionary operations the sources use, instants and durations, and
  the generic lemmas the component theories rely on.

  Conventions.
  \<^item> A Python exception is an \<^verbatim>\<open>Inl\<close> value. Its constructor is the exception class; the
    string is the constant part of the message (an f-string is kept up to its first
    interpolated value).
  \<^item> A Python \<^verbatim>\<open>str\<close> is a list of characters read as code points below 128;
    \<^verbatim>\<open>strip\<close>, \<^verbatim>\<open>upper\<close> and \<^verbatim>\<open>lower\<close> act as CPython does on that range.
  \<^item> A \<^verbatim>\<open>dict\<close> (insertion ordered, unique keys) is an association list; assignment is
    \<^const>\<open>AList.update\<close> (in place for a known key, else at the end), \<^verbatim>\<open>pop\<close> is
    \<^const>\<open>AList.delete\<close>, \<^verbatim>\<open>get\<close> is \<^const>\<open>map_of\<close>.
  \<^item> An aware \<^verbatim>\<open>datetime\<close> is its UTC instant in microseconds since the epoch, a
    \<^verbatim>\<open>timedelta\<close> a number of microseconds; both are unbounded integers here.
  \<^item> A Python \<^verbatim>\<open>float\<close> used for clocks and durations is a rational number: sums and
    products are exact where the program rounds to 53 bits. Conversions that raise
    (an integer beyond the float range) are modelled as raising.
\<close>

named_theorems res_simps "unfolding fallible computations"

subsection \<open>Exceptions as values\<close>

datatype py_error =
    ValueError string
  | TypeError string
  | KeyError string
  | RuntimeError string
  | OverflowError string
  | ZeroDivisionError string
  | ArithmeticError string
  | AttributeError string

type_synonym 'a result = "py_error + 'a"

definition res_bind :: "'e + 'a \<Rightarrow> ('a \<Rightarrow> 'e + 'b) \<Rightarrow> 'e + 'b" where
  "res_bind m f = (case m of Inl e \<Rightarrow> Inl e | Inr x \<Rightarrow> f x)"

lemma res_bind_simps [simp, code]:
  "res_bind (Inl e) f = Inl e"
  "res_bind (Inr x) f = f x"
  by (simp_all add: res_bind_def)

lemma res_bind_Inr_iff [res_simps]:
  "res_bind m f = Inr y \<longleftrightarrow> (\<exists>x. m = Inr x \<and> f x = Inr y)"
  by (cases m) auto

lemma res_bind_Inl_iff [res_simps]:
  "res_bind m f = Inl e \<longleftrightarrow> m = Inl e \<or> (\<exists>x. m = Inr x \<and> f x = Inl e)"
  by (cases m) auto

lemma res_bind_cong [fundef_cong]:
  "m = m' \<Longrightarrow> (\<And>x. m' = Inr x \<Longrightarrow> f x = f' x) \<Longrightarrow> res_bind m f = res_bind m' f'"
  by (cases m') auto

text \<open>\<^verbatim>\<open>if cond: raise e\<close> followed by the rest of the body.\<close>

definition raise_if :: "bool \<Rightarrow> 'e \<Rightarrow> 'e + 'a \<Rightarrow> 'e + 'a" where
  "raise_if c e k = (if c then Inl e else k)"

lemma raise_if_Inr_iff [res_simps]: "raise_if c e k = Inr y \<longleftrightarrow> \<not> c \<and> k = Inr y"
  by (simp add: raise_if_def)

lemma raise_if_simps [simp]:
  "raise_if True e k = Inl e"
  "raise_if False e k = k"
  by (simp_all add: raise_if_def)

text \<open>A comprehension whose body may raise stops at the first exception.\<close>

fun res_map :: "('a \<Rightarrow> 'e + 'b) \<Rightarrow> 'a list \<Rightarrow> 'e + 'b list" where
  "res_map f [] = Inr []"
| "res_map f (x # xs) =
     (case f x of Inl e \<Rightarrow> Inl e
      | Inr y \<Rightarrow> (case res_map f xs of Inl e \<Rightarrow> Inl e | Inr ys \<Rightarrow> Inr (y # ys)))"

lemma res_map_Inr_iff [res_simps]:
  "res_map f xs = Inr ys \<longleftrightarrow> list_all2 (\<lambda>x y. f x = Inr y) xs ys"
proof (induction xs arbitrary: ys)
  case Nil
  then show ?case by auto
next
  case (Cons x xs)
  show ?case
  proof (cases "f x")
    case (Inr y)
    then show ?thesis
      by (cases "res_map f xs"; cases ys) (auto simp: Cons.IH [symmetric])
  qed (cases ys, auto)
qed

lemma res_map_length: "res_map f xs = Inr ys \<Longrightarrow> length ys = length xs"
  by (simp add: res_map_Inr_iff list_all2_lengthD)

subsection \<open>Strings\<close>

definition py_isspace :: "char \<Rightarrow> bool" where
  "py_isspace c = (let n = (of_char c :: nat) in (9 \<le> n \<and> n \<le> 13) \<or> (28 \<le> n \<and> n \<le> 32))"

definition char_upper :: "char \<Rightarrow> char" where
  "char_upper c = (let n = (of_char c :: nat) in if 97 \<le> n \<and> n \<le> 122 then char_of (n - 32) else c)"

definition char_lower :: "char \<Rightarrow> char" where
  "char_lower c = (let n = (of_char c :: nat) in if 65 \<le> n \<and> n \<le> 90 then char_of (n + 32) else c)"

definition lstrip :: "string \<Rightarrow> string" where
  "lstrip = dropWhile py_isspace"

definition strip :: "string \<Rightarrow> string" where
  "strip s = rev (dropWhile py_isspace (rev (dropWhile py_isspace s)))"

definition upper :: "string \<Rightarrow> string" where
  "upper = map char_upper"

definition lower :: "string \<Rightarrow> string" where
  "lower = map char_lower"

definition replace_char :: "char \<Rightarrow> char \<Rightarrow> string \<Rightarrow> string" where
  "replace_char a b = map (\<lambda>c. if c = a then b else c)"

text \<open>\<^verbatim>\<open>needle in haystack\<close> and \<^verbatim>\<open>str.startswith\<close>.\<close>

fun is_prefix :: "string \<Rightarrow> string \<Rightarrow> bool" where
  "is_prefix [] ys = True"
| "is_prefix (x # xs) [] = False"
| "is_prefix (x # xs) (y # ys) = (x = y \<and> is_prefix xs ys)"

fun is_infix :: "string \<Rightarrow> string \<Rightarrow> bool" where
  "is_infix xs [] = (xs = [])"
| "is_infix xs (y # ys) = (is_prefix xs (y # ys) \<or> is_infix xs ys)"

lemma of_char_char_of_small [simp]: "n < 256 \<Longrightarrow> (of_char (char_of n :: char) :: nat) = n"
  by simp


lemma char_upper_idem [simp]: "char_upper (char_upper c) = char_upper c"
  by (auto simp: char_upper_def Let_def)

lemma py_isspace_upper [simp]: "py_isspace (char_upper c) = py_isspace c"
  by (auto simp: char_upper_def py_isspace_def Let_def)

lemma dropWhile_map_upper:
  "dropWhile py_isspace (map char_upper s) = map char_upper (dropWhile py_isspace s)"
  by (simp add: dropWhile_map comp_def)

lemma strip_upper: "strip (upper s) = upper (strip s)"
  by (simp add: strip_def upper_def dropWhile_map_upper rev_map)

lemma upper_idem [simp]: "upper (upper s) = upper s"
  by (simp add: upper_def)

lemma dropWhile_takes_suffix: "\<exists>ys. xs = ys @ dropWhile P xs"
  by (rule exI [where x = "takeWhile P xs"]) simp

lemma dropWhile_fix_iff: "dropWhile P xs = xs \<longleftrightarrow> (xs = [] \<or> \<not> P (hd xs))"
proof (cases xs)
  case Nil
  then show ?thesis by simp
next
  case (Cons a list)
  have "length (dropWhile P list) < length (a # list)"
    using length_dropWhile_le [of P list] by simp
  then have "dropWhile P list \<noteq> a # list" by (metis less_irrefl)
  with Cons show ?thesis by auto
qed

lemma strip_hd_last:
  assumes "strip s \<noteq> []"
  shows "\<not> py_isspace (hd (strip s))" and "\<not> py_isspace (last (strip s))"
proof -
  define m where "m = dropWhile py_isspace s"
  define t where "t = dropWhile py_isspace (rev m)"
  have strip: "strip s = rev t" by (simp add: strip_def m_def t_def)
  with assms have t: "t \<noteq> []" by simp
  then show "\<not> py_isspace (last (strip s))"
    using hd_dropWhile [of py_isspace "rev m"] by (simp add: strip last_rev t_def)
  obtain ys where ys: "rev m = ys @ t" using dropWhile_takes_suffix t_def by metis
  then have "m = rev t @ rev ys" by (metis rev_append rev_rev_ident)
  with t have "hd m = hd (rev t)" and "m \<noteq> []" by auto
  then show "\<not> py_isspace (hd (strip s))"
    using hd_dropWhile [of py_isspace s] by (simp add: strip m_def)
qed

lemma strip_fix_iff: "strip s = s \<longleftrightarrow> s = [] \<or> (\<not> py_isspace (hd s) \<and> \<not> py_isspace (last s))"
proof
  assume "strip s = s"
  then show "s = [] \<or> (\<not> py_isspace (hd s) \<and> \<not> py_isspace (last s))"
    using strip_hd_last [of s] by auto
next
  assume *: "s = [] \<or> (\<not> py_isspace (hd s) \<and> \<not> py_isspace (last s))"
  then have "dropWhile py_isspace s = s" by (auto simp: dropWhile_fix_iff)
  moreover from * have "dropWhile py_isspace (rev s) = rev s"
    by (auto simp: dropWhile_fix_iff hd_rev)
  ultimately show "strip s = s" by (simp add: strip_def)
qed

lemma strip_idem [simp]: "strip (strip s) = strip s"
  using strip_hd_last [of s] by (auto simp: strip_fix_iff)

text \<open>\<^verbatim>\<open>symbol.strip().upper()\<close>, the normal form of symbols in the provider packages.\<close>

definition normal_symbol :: "string \<Rightarrow> string" where
  "normal_symbol s = upper (strip s)"

lemma normal_symbol_idem [simp]: "normal_symbol (normal_symbol s) = normal_symbol s"
  by (simp add: normal_symbol_def strip_upper)

subsection \<open>Instants and durations\<close>

type_synonym instant = int
type_synonym duration = int

definition usec :: "int" where "usec = 1"
definition second :: "int" where "second = 1000000"
definition minute :: "int" where "minute = 60000000"
definition hour :: "int" where "hour = 3600000000"
definition day :: "int" where "day = 86400000000"

lemmas time_units = usec_def second_def minute_def hour_def day_def

subsection \<open>Dictionaries\<close>

type_synonym ('k, 'v) dict = "('k \<times> 'v) list"

abbreviation dict_get :: "('k, 'v) dict \<Rightarrow> 'k \<Rightarrow> 'v option" where
  "dict_get d k \<equiv> map_of d k"

abbreviation dict_set :: "'k \<Rightarrow> 'v \<Rightarrow> ('k, 'v) dict \<Rightarrow> ('k, 'v) dict" where
  "dict_set k v d \<equiv> AList.update k v d"

abbreviation dict_pop :: "'k \<Rightarrow> ('k, 'v) dict \<Rightarrow> ('k, 'v) dict" where
  "dict_pop k d \<equiv> AList.delete k d"

abbreviation dict_keys :: "('k, 'v) dict \<Rightarrow> 'k list" where
  "dict_keys d \<equiv> map fst d"

abbreviation dict_wf :: "('k, 'v) dict \<Rightarrow> bool" where
  "dict_wf d \<equiv> distinct (map fst d)"

text \<open>\<^verbatim>\<open>dict.get(key, ())\<close> and \<^verbatim>\<open>defaultdict\<close> access for container-valued dictionaries.\<close>

definition dict_list :: "('k, 'v list) dict \<Rightarrow> 'k \<Rightarrow> 'v list" where
  "dict_list d k = (case map_of d k of None \<Rightarrow> [] | Some xs \<Rightarrow> xs)"

lemma dict_get_set: "dict_get (dict_set k v d) k' = (if k' = k then Some v else dict_get d k')"
  by (simp add: update_conv')

lemma dict_get_pop: "dict_get (dict_pop k d) k' = (if k' = k then None else dict_get d k')"
  by (simp add: delete_conv')

lemma dict_list_set: "dict_list (dict_set k v d) k' = (if k' = k then v else dict_list d k')"
  by (simp add: dict_list_def update_conv')

lemma dict_list_pop: "dict_list (dict_pop k d) k' = (if k' = k then [] else dict_list d k')"
  by (simp add: dict_list_def delete_conv')

lemmas dict_simps [simp] = dict_get_set dict_get_pop dict_list_set dict_list_pop

lemma dict_set_wf: "dict_wf d \<Longrightarrow> dict_wf (dict_set k v d)"
  by (rule distinct_update)

lemma dict_pop_wf: "dict_wf d \<Longrightarrow> dict_wf (dict_pop k d)"
  by (rule distinct_delete)

lemma dict_get_mem: "dict_wf d \<Longrightarrow> dict_get d k = Some v \<longleftrightarrow> (k, v) \<in> set d"
  by (rule map_of_eq_Some_iff)

lemma dict_keys_set: "set (dict_keys (dict_set k v d)) = insert k (set (dict_keys d))"
  by (induction d) auto

lemma dict_keys_pop: "set (dict_keys (dict_pop k d)) = set (dict_keys d) - {k}"
  by (auto simp: AList.delete_eq)

lemma dict_list_Nil_if: "k \<notin> set (dict_keys d) \<Longrightarrow> dict_list d k = []"
  by (simp add: dict_list_def iffD2 [OF map_of_eq_None_iff])

lemma length_dict_set:
  "length (dict_set k v d) = (if k \<in> set (dict_keys d) then length d else Suc (length d))"
  by (induction d) auto

text \<open>The values of a dictionary, in insertion order.\<close>

abbreviation dict_values :: "('k, 'v) dict \<Rightarrow> 'v list" where
  "dict_values d \<equiv> map snd d"

subsection \<open>Lists ordered by a key\<close>

text \<open>\<^verbatim>\<open>next((x for x in reversed(xs) if p(x)), None)\<close>.\<close>

definition find_last :: "('a \<Rightarrow> bool) \<Rightarrow> 'a list \<Rightarrow> 'a option" where
  "find_last P xs = List.find P (rev xs)"

lemma find_append:
  "List.find P (xs @ ys) = (case List.find P xs of None \<Rightarrow> List.find P ys | Some x \<Rightarrow> Some x)"
  by (induction xs) auto

lemma find_last_append:
  "find_last P (xs @ ys) = (case find_last P ys of None \<Rightarrow> find_last P xs | Some x \<Rightarrow> Some x)"
  by (simp add: find_last_def find_append split: option.splits)

lemma find_last_simps [simp]:
  "find_last P [] = None"
  "find_last P (xs @ [x]) = (if P x then Some x else find_last P xs)"
  by (simp_all add: find_last_def)

lemma find_last_None_iff: "find_last P xs = None \<longleftrightarrow> (\<forall>x \<in> set xs. \<not> P x)"
  by (auto simp: find_last_def find_None_iff)

lemma find_last_SomeD: "find_last P xs = Some x \<Longrightarrow> x \<in> set xs \<and> P x"
  by (metis find_Some_iff find_last_def nth_mem set_rev)

lemma find_last_cong:
  "(\<And>x. x \<in> set xs \<Longrightarrow> P x = Q x) \<Longrightarrow> find_last P xs = find_last Q xs"
  unfolding find_last_def by (rule find_cong) auto

lemma find_last_filter: "find_last P (filter Q xs) = find_last (\<lambda>x. Q x \<and> P x) xs"
  by (induction xs rule: rev_induct) auto

abbreviation sorted_on :: "('a \<Rightarrow> 'b::linorder) \<Rightarrow> 'a list \<Rightarrow> bool" where
  "sorted_on f xs \<equiv> sorted (map f xs)"

abbreviation strict_on :: "('a \<Rightarrow> 'b::linorder) \<Rightarrow> 'a list \<Rightarrow> bool" where
  "strict_on f xs \<equiv> sorted_wrt (<) (map f xs)"

lemma strict_on_append:
  "strict_on f (xs @ ys) \<longleftrightarrow>
     strict_on f xs \<and> strict_on f ys \<and> (\<forall>x \<in> set xs. \<forall>y \<in> set ys. f x < f y)"
  by (auto simp: sorted_wrt_append)

lemma strict_on_filter: "strict_on f xs \<Longrightarrow> strict_on f (filter P xs)"
  by (simp add: sorted_wrt_map sorted_wrt_filter)

lemma strict_on_sorted: "strict_on f xs \<Longrightarrow> sorted_on f xs"
  by (rule strict_sorted_imp_sorted)

lemma strict_on_distinct: "strict_on f xs \<Longrightarrow> distinct (map f xs)"
  by (simp add: strict_sorted_iff)

lemma strict_on_snoc_le:
  "strict_on f (xs @ [a]) \<Longrightarrow> x \<in> set xs \<Longrightarrow> f x < f a"
  by (simp add: sorted_wrt_append)

lemma sort_key_sorted_on: "sorted_on f xs \<Longrightarrow> sort_key f xs = xs"
  by (rule sort_key_id_if_sorted)

lemma strict_on_hd_le: "strict_on f xs \<Longrightarrow> x \<in> set xs \<Longrightarrow> f (hd xs) \<le> f x"
  by (cases xs) (auto simp: less_imp_le)

lemma find_last_greatest:
  assumes "sorted_on f xs" and "find_last P xs = Some x" and "y \<in> set xs" and "P y"
  shows "f y \<le> f x"
  using assms
proof (induction xs rule: rev_induct)
  case Nil
  then show ?case by simp
next
  case (snoc a xs)
  then show ?case by (auto simp: sorted_append split: if_splits)
qed

lemma dropWhile_less_strict:
  assumes "strict_on f xs"
  shows "dropWhile (\<lambda>x. f x < c) xs = filter (\<lambda>x. c \<le> f x) xs"
  using assms
proof (induction xs)
  case Nil
  then show ?case by simp
next
  case (Cons a xs)
  show ?case
  proof (cases "f a < c")
    case True
    with Cons show ?thesis by simp
  next
    case False
    with Cons.prems have "\<forall>x \<in> set xs. c \<le> f x" by force
    with False show ?thesis by simp
  qed
qed

end
