(* ===== verification/QP_Decimal.thy ===== *)
theory QP_Decimal
  imports QP_Prelude
begin

text \<open>
  Python's \<^verbatim>\<open>decimal.Decimal\<close> under the default context (precision 28, half-even
  rounding, exponents between -999999 and 999999; overflow, division by zero and invalid
  operations trapped). A finite Decimal is its numeric value: the sources compare,
  combine and convert decimals but never look at a stored exponent or a signed zero. Every
  arithmetic result is the exact value rounded to the context, as the General Decimal
  Arithmetic specification has it.
\<close>

type_synonym decimal = rat

subsection \<open>Decimal digits\<close>

fun ndigits :: "nat \<Rightarrow> nat" where
  "ndigits n = (if n < 10 then 1 else Suc (ndigits (n div 10)))"

declare ndigits.simps [simp del]

lemma ndigits_pos: "0 < ndigits n"
  by (subst ndigits.simps) simp

lemma ndigits_upper: "n < 10 ^ ndigits n"
proof (induction n rule: ndigits.induct)
  case (1 n)
  show ?case
  proof (cases "n < 10")
    case True
    then show ?thesis by (simp add: ndigits.simps [of n])
  next
    case False
    with 1 have "n div 10 < 10 ^ ndigits (n div 10)" by simp
    then have "n < 10 * 10 ^ ndigits (n div 10)" by linarith
    with False show ?thesis by (simp add: ndigits.simps [of n])
  qed
qed

lemma ndigits_lower: "0 < n \<Longrightarrow> 10 ^ (ndigits n - 1) \<le> n"
proof (induction n rule: ndigits.induct)
  case (1 n)
  show ?case
  proof (cases "n < 10")
    case True
    with 1 show ?thesis by (simp add: ndigits.simps [of n])
  next
    case False
    with 1 have "10 ^ (ndigits (n div 10) - 1) \<le> n div 10" by simp
    then have "10 * 10 ^ (ndigits (n div 10) - 1) \<le> n" by linarith
    moreover have "10 * 10 ^ (ndigits (n div 10) - 1) = (10 :: nat) ^ ndigits (n div 10)"
      using ndigits_pos [of "n div 10"] by (simp add: power_eq_if)
    ultimately show ?thesis using False by (simp add: ndigits.simps [of n])
  qed
qed

text \<open>The adjusted exponent: the power of ten of the leading digit.\<close>

definition adjusted :: "rat \<Rightarrow> int" where
  "adjusted q =
     (let (n, d) = quotient_of q; e = int (ndigits (nat n)) - int (ndigits (nat d))
      in if 10 powi e \<le> q then e else e - 1)"

lemma powi_ten_pos [simp]: "(0 :: rat) < 10 powi e"
  by simp

lemma ndigits_rat_bounds:
  assumes "0 < n"
  shows "(10 :: rat) ^ (ndigits (nat n) - 1) \<le> of_int n" and "of_int n < (10 :: rat) ^ ndigits (nat n)"
proof -
  have "10 ^ (ndigits (nat n) - 1) \<le> nat n" using assms by (intro ndigits_lower) simp
  then have "(of_nat (10 ^ (ndigits (nat n) - 1)) :: rat) \<le> of_nat (nat n)"
    by (simp only: of_nat_le_iff)
  then show "(10 :: rat) ^ (ndigits (nat n) - 1) \<le> of_int n" using assms by simp
  have "(of_nat (nat n) :: rat) < of_nat (10 ^ ndigits (nat n))"
    by (simp only: of_nat_less_iff ndigits_upper)
  then show "of_int n < (10 :: rat) ^ ndigits (nat n)" using assms by simp
qed

lemma adjusted_bounds:
  assumes "0 < q"
  shows "10 powi adjusted q \<le> q" and "q < 10 powi (adjusted q + 1)"
proof -
  obtain n d where nd: "quotient_of q = (n, d)" by (cases "quotient_of q")
  have q: "q = of_int n / of_int d" and d: "0 < d"
    using quotient_of_div [OF nd] quotient_of_denom_pos [OF nd] by auto
  with assms have n: "0 < n" by (simp add: zero_less_divide_iff)
  define a where "a = ndigits (nat n)"
  define b where "b = ndigits (nat d)"
  have n_up: "of_int n < (10 :: rat) ^ a" and n_lo: "(10 :: rat) ^ (a - 1) \<le> of_int n"
    using ndigits_rat_bounds [OF n] by (simp_all add: a_def)
  have d_up: "of_int d < (10 :: rat) ^ b" and d_lo: "(10 :: rat) ^ (b - 1) \<le> of_int d"
    using ndigits_rat_bounds [OF d] by (simp_all add: b_def)
  have ab: "0 < a" "0 < b" by (simp_all add: a_def b_def ndigits_pos)
  let ?e = "int a - int b"
  have up: "q < 10 powi (?e + 1)"
  proof -
    have "q < 10 ^ a / of_int d" using n_up d by (simp add: q divide_strict_right_mono)
    also have "\<dots> \<le> 10 ^ a / 10 ^ (b - 1)" using d_lo d by (intro divide_left_mono) simp_all
    also have "\<dots> = 10 powi (int a - int (b - 1))"
      by (simp add: power_int_diff)
    also have "int a - int (b - 1) = ?e + 1" using ab by simp
    finally show ?thesis .
  qed
  have lo: "10 powi (?e - 1) \<le> q"
  proof -
    have "10 powi (?e - 1) = 10 powi (int (a - 1) - int b)"
      using ab by (simp add: of_nat_diff algebra_simps)
    also have "\<dots> = (10 :: rat) ^ (a - 1) / 10 ^ b"
      by (simp add: power_int_diff)
    also have "\<dots> \<le> of_int n / 10 ^ b" using n_lo by (simp add: divide_right_mono)
    also have "\<dots> \<le> of_int n / of_int d" using d_up d n by (intro divide_left_mono) simp_all
    finally show ?thesis by (simp add: q)
  qed
  have adj: "adjusted q = (if 10 powi ?e \<le> q then ?e else ?e - 1)"
    by (simp add: adjusted_def nd a_def b_def Let_def)
  show "10 powi adjusted q \<le> q" using lo by (simp add: adj)
  show "q < 10 powi (adjusted q + 1)" using up by (simp add: adj)
qed

subsection \<open>Rounding to the context\<close>

definition round_half_even :: "rat \<Rightarrow> int" where
  "round_half_even x =
     (let f = \<lfloor>x\<rfloor>; r = x - of_int f
      in if 1/2 < r \<or> (r = 1/2 \<and> odd f) then f + 1 else f)"

lemma round_half_even_error: "\<bar>of_int (round_half_even x) - x\<bar> \<le> 1/2"
proof -
  have "of_int \<lfloor>x\<rfloor> \<le> x" and "x < of_int \<lfloor>x\<rfloor> + 1" by linarith+
  then show ?thesis unfolding round_half_even_def Let_def abs_if by (simp; linarith)
qed

lemma round_half_even_int [simp]: "round_half_even (of_int n) = n"
  by (simp add: round_half_even_def)

lemma round_half_even_ge: "of_int n \<le> x \<Longrightarrow> n \<le> round_half_even x"
proof -
  assume "of_int n \<le> x"
  then have "n \<le> \<lfloor>x\<rfloor>" by (simp add: le_floor_iff)
  then show ?thesis by (auto simp: round_half_even_def Let_def)
qed

lemma round_half_even_le: "x \<le> of_int n \<Longrightarrow> round_half_even x \<le> n"
proof -
  assume le: "x \<le> of_int n"
  show ?thesis
  proof (cases "x = of_int n")
    case False
    with le have "\<lfloor>x\<rfloor> < n" by (simp add: floor_less_iff)
    then show ?thesis by (auto simp: round_half_even_def Let_def)
  qed simp
qed

definition emax :: int where "emax = 999999"
definition emin :: int where "emin = - 999999"

text \<open>\<^verbatim>\<open>Decimal._fix\<close>: round to \<^verbatim>\<open>prec\<close> digits (fewer below \<^verbatim>\<open>Emin\<close>), raise on overflow.\<close>

definition dec_round :: "nat \<Rightarrow> rat \<Rightarrow> decimal result" where
  "dec_round prec q =
     (if q = 0 then Inr 0
      else let adj = adjusted \<bar>q\<bar>;
               e = max (adj - int prec + 1) (emin - int prec + 1);
               m = round_half_even (\<bar>q\<bar> / 10 powi e)
           in if emax < (if m = 10 ^ prec then adj + 1 else adj)
              then Inl (ArithmeticError ''Overflow'')
              else Inr (sgn q * of_int m * 10 powi e))"

definition dec_prec :: nat where "dec_prec = 28"

definition dec_add :: "decimal \<Rightarrow> decimal \<Rightarrow> decimal result" where
  "dec_add a b = dec_round dec_prec (a + b)"

definition dec_sub :: "decimal \<Rightarrow> decimal \<Rightarrow> decimal result" where
  "dec_sub a b = dec_round dec_prec (a - b)"

definition dec_mul :: "decimal \<Rightarrow> decimal \<Rightarrow> decimal result" where
  "dec_mul a b = dec_round dec_prec (a * b)"

definition dec_div :: "decimal \<Rightarrow> decimal \<Rightarrow> decimal result" where
  "dec_div a b =
     (if b = 0 then Inl (if a = 0 then ArithmeticError ''InvalidOperation''
                         else ZeroDivisionError ''DivisionByZero'')
      else dec_round dec_prec (a / b))"

lemmas dec_defs = dec_add_def dec_sub_def dec_mul_def dec_div_def dec_prec_def

lemma dec_round_zero [simp]: "dec_round p 0 = Inr 0"
  by (simp add: dec_round_def)

text \<open>The unit in the last place of the result, and the rounding error it bounds.\<close>

definition dec_ulp :: "nat \<Rightarrow> rat \<Rightarrow> rat" where
  "dec_ulp prec q = 10 powi (max (adjusted \<bar>q\<bar> - int prec + 1) (emin - int prec + 1))"

lemma dec_ulp_pos: "0 < dec_ulp p q"
  by (simp add: dec_ulp_def)

theorem dec_round_error:
  assumes "dec_round p q = Inr r"
  shows "\<bar>r - q\<bar> \<le> dec_ulp p q / 2"
proof (cases "q = 0")
  case True
  with assms show ?thesis using dec_ulp_pos [of p q] by simp
next
  case False
  define u where "u = dec_ulp p q"
  define m where "m = round_half_even (\<bar>q\<bar> / u)"
  have u: "0 < u" by (simp add: u_def dec_ulp_pos)
  from assms False have r: "r = sgn q * of_int m * u"
    by (auto simp: dec_round_def Let_def m_def u_def dec_ulp_def split: if_splits)
  have "q = sgn q * \<bar>q\<bar>" by (simp add: sgn_mult_abs)
  then have "r - q = sgn q * (of_int m * u - \<bar>q\<bar>)" by (simp add: r algebra_simps)
  then have "\<bar>r - q\<bar> = \<bar>of_int m * u - \<bar>q\<bar>\<bar>"
    using False by (simp add: abs_mult abs_sgn_eq)
  also have "of_int m * u - \<bar>q\<bar> = (of_int m - \<bar>q\<bar> / u) * u" using u by (simp add: field_simps)
  also have "\<bar>(of_int m - \<bar>q\<bar> / u) * u\<bar> \<le> 1/2 * u"
    using round_half_even_error [of "\<bar>q\<bar> / u"] u
    by (simp add: abs_mult m_def mult_right_mono del: divide_le_eq)
  finally show ?thesis by (simp add: u_def)
qed

lemma dec_ulp_relative:
  assumes "q \<noteq> 0" and "emin \<le> adjusted \<bar>q\<bar>"
  shows "dec_ulp p q \<le> \<bar>q\<bar> * 10 powi (1 - int p)"
proof -
  have "dec_ulp p q = 10 powi (adjusted \<bar>q\<bar> + (1 - int p))"
    using assms(2) by (simp add: dec_ulp_def algebra_simps)
  also have "\<dots> = 10 powi adjusted \<bar>q\<bar> * 10 powi (1 - int p)"
    by (simp add: power_int_add)
  also have "\<dots> \<le> \<bar>q\<bar> * 10 powi (1 - int p)"
    using adjusted_bounds(1) [of "\<bar>q\<bar>"] assms(1) by (intro mult_right_mono) simp_all
  finally show ?thesis .
qed

text \<open>Values whose magnitude lies well inside the exponent range neither overflow nor vanish.\<close>

definition dec_range :: int where "dec_range = 5000"

definition dec_moderate :: "rat \<Rightarrow> bool" where
  "dec_moderate q \<longleftrightarrow> q = 0 \<or> (10 powi (- dec_range) \<le> \<bar>q\<bar> \<and> \<bar>q\<bar> < 10 powi dec_range)"

lemma powi_ten_less_iff: "(10 :: rat) powi a < 10 powi b \<longleftrightarrow> a < b"
  using power_int_strict_increasing [of a b "10 :: rat"] power_int_increasing [of b a "10 :: rat"]
  by (cases "a < b") auto

lemma adjusted_moderate:
  assumes "dec_moderate q" and "q \<noteq> 0"
  shows "- dec_range < adjusted \<bar>q\<bar> + 1" and "adjusted \<bar>q\<bar> < dec_range"
proof -
  have pos: "0 < \<bar>q\<bar>" using assms(2) by simp
  have "10 powi (- dec_range) \<le> \<bar>q\<bar>" and "\<bar>q\<bar> < 10 powi dec_range"
    using assms by (auto simp: dec_moderate_def)
  then have "10 powi (- dec_range) < (10 :: rat) powi (adjusted \<bar>q\<bar> + 1)"
    and "(10 :: rat) powi adjusted \<bar>q\<bar> < 10 powi dec_range"
    using adjusted_bounds [OF pos] by (meson le_less_trans)+
  then show "- dec_range < adjusted \<bar>q\<bar> + 1" and "adjusted \<bar>q\<bar> < dec_range"
    unfolding powi_ten_less_iff .
qed

theorem dec_round_moderate: "dec_moderate q \<Longrightarrow> \<exists>r. dec_round p q = Inr r"
  using adjusted_moderate [of q] by (cases "q = 0") (auto simp: dec_round_def Let_def emax_def dec_range_def)

lemma dec_round_nonneg: "dec_round p q = Inr r \<Longrightarrow> 0 \<le> q \<Longrightarrow> 0 \<le> r"
proof -
  assume r: "dec_round p q = Inr r" and q: "0 \<le> q"
  have "0 \<le> round_half_even (\<bar>q\<bar> / x)" if "0 < x" for x
    using that by (intro round_half_even_ge) simp
  then show "0 \<le> r" using r q
    by (auto simp: dec_round_def Let_def sgn_if split: if_splits)
qed

theorem dec_round_pos:
  assumes "dec_round p q = Inr r" and "0 < q" and "dec_moderate q" and "0 < p"
  shows "0 < r"
proof -
  let ?u = "10 powi (adjusted q - int p + 1) :: rat"
  have adj: "- dec_range < adjusted q + 1"
    using adjusted_moderate(1) [OF assms(3)] assms(2) by simp
  then have max: "max (adjusted q - int p + 1) (emin - int p + 1) = adjusted q - int p + 1"
    by (simp add: emin_def dec_range_def)
  have "?u \<le> 10 powi adjusted q" using assms(4) by (intro power_int_increasing) simp_all
  then have "?u \<le> q" using adjusted_bounds(1) [OF assms(2)] by linarith
  then have "1 \<le> round_half_even (q / ?u)" by (intro round_half_even_ge) simp
  moreover from assms(1,2) have "r = of_int (round_half_even (q / ?u)) * ?u"
    by (auto simp: dec_round_def Let_def max split: if_splits)
  ultimately show ?thesis by simp
qed

lemma dec_div_nonzero_Inr:
  "dec_div a b = Inr r \<longleftrightarrow> b \<noteq> 0 \<and> dec_round dec_prec (a / b) = Inr r"
  by (auto simp: dec_div_def)

subsection \<open>The JSON number boundary\<close>

text \<open>
  \<^verbatim>\<open>float(Decimal)\<close> rounds to the nearest binary64 value: the result is infinite from
  \<^verbatim>\<open>2**1024 - 2**970\<close> on and zero up to \<^verbatim>\<open>2**-1075\<close>.
\<close>

definition float_finite :: "rat \<Rightarrow> bool" where
  "float_finite q \<longleftrightarrow> \<bar>q\<bar> < 2 ^ 1024 - 2 ^ 970"

definition float_zero :: "rat \<Rightarrow> bool" where
  "float_zero q \<longleftrightarrow> \<bar>q\<bar> \<le> 1 / 2 ^ 1075"

definition json_number :: "rat \<Rightarrow> bool" where
  "json_number q \<longleftrightarrow> float_finite q \<and> (q = 0 \<or> \<not> float_zero q)"

lemma json_number_bounds:
  assumes "json_number q" and "q \<noteq> 0"
  shows "10 powi (-324) < \<bar>q\<bar>" and "\<bar>q\<bar> < 10 powi 309"
proof -
  from assms have a: "\<bar>q\<bar> < 2 ^ 1024 - 2 ^ 970" and b: "1 / 2 ^ 1075 < \<bar>q\<bar>"
    by (auto simp: json_number_def float_finite_def float_zero_def)
  have "(2 :: rat) ^ 1024 - 2 ^ 970 < 10 powi 309"
    by (simp add: power_int_def)
  with a show "\<bar>q\<bar> < 10 powi 309" by linarith
  have "10 powi (-324) < (1 :: rat) / 2 ^ 1075"
    by (simp add: power_int_def field_simps)
  with b show "10 powi (-324) < \<bar>q\<bar>" by linarith
qed

end
