(* ===== verification/QP_Domain.thy ===== *)
theory QP_Domain
  imports QP_Decimal
begin

text \<open>
  The immutable domain objects of \<^verbatim>\<open>quickprice/domain.py\<close>. Each dataclass is a record and
  each \<^verbatim>\<open>__post_init__\<close> a fallible constructor: the checks are made in the source's order
  and every \<^verbatim>\<open>raise\<close> is an \<^const>\<open>Inl\<close>. The well-formedness predicates state what a
  constructed object satisfies; the lemmas show that construction succeeds exactly on
  well-formed arguments and returns them unchanged.
\<close>

subsection \<open>Numbers and timestamps at the boundary\<close>

text \<open>
  What \<^verbatim>\<open>value if isinstance(value, Decimal) else Decimal(str(value))\<close> denotes: a finite
  number, an infinity, a NaN, or a conversion that raises.
\<close>

datatype num_arg = NumFinite rat | NumInfinite | NumNaN | NumInvalid

text \<open>A \<^verbatim>\<open>datetime\<close>: naive, or aware with its UTC instant.\<close>

datatype dt_arg = Naive int | Aware instant

definition ensure_utc :: "dt_arg \<Rightarrow> instant result" where
  "ensure_utc value =
     (case value of
        Naive _ \<Rightarrow> Inl (ValueError ''timestamps must be timezone-aware'')
      | Aware t \<Rightarrow> Inr t)"

definition decimal :: "num_arg \<Rightarrow> decimal result" where
  "decimal value =
     (case value of
        NumInvalid \<Rightarrow> Inl (ValueError ''invalid decimal value'')
      | NumInfinite \<Rightarrow> Inl (ValueError ''numeric value must be finite'')
      | NumNaN \<Rightarrow> Inl (ValueError ''numeric value must be finite'')
      | NumFinite result \<Rightarrow>
          (if \<not> float_finite result \<or> (result \<noteq> 0 \<and> float_zero result)
           then Inl (ValueError ''numeric value is not representable as a finite JSON number'')
           else Inr result))"

lemma ensure_utc_Inr_iff [res_simps]: "ensure_utc v = Inr t \<longleftrightarrow> v = Aware t"
  by (cases v) (auto simp: ensure_utc_def)

lemma ensure_utc_Aware [simp]: "ensure_utc (Aware t) = Inr t"
  by (simp add: ensure_utc_def)

lemma decimal_Inr_iff [res_simps]: "decimal v = Inr q \<longleftrightarrow> v = NumFinite q \<and> json_number q"
  by (cases v) (auto simp: decimal_def json_number_def)

lemma decimal_NumFinite: "json_number q \<Longrightarrow> decimal (NumFinite q) = Inr q"
  by (simp add: decimal_Inr_iff)

lemma json_number_zero [simp]: "json_number 0"
  by (simp add: json_number_def float_finite_def)

lemma json_number_of_range:
  assumes "1 / 10 ^ 300 \<le> q" and "q \<le> 10 ^ 300"
  shows "json_number q"
proof -
  have "(10 :: rat) ^ 300 < 2 ^ 1024 - 2 ^ 970" and "1 / 2 ^ 1075 < (1 :: rat) / 10 ^ 300"
    by simp_all
  moreover have "0 < q" using assms(1) by (rule less_le_trans [rotated]) simp
  ultimately show ?thesis
    using assms unfolding json_number_def float_finite_def float_zero_def by linarith
qed

subsection \<open>Source components\<close>

record source_component =
  sc_symbol :: string
  sc_provider :: string
  sc_price :: decimal
  sc_as_of :: instant
  sc_feed :: "string option"
  sc_role :: "string option"

definition mk_source_component ::
  "string \<Rightarrow> string \<Rightarrow> num_arg \<Rightarrow> dt_arg \<Rightarrow> string option \<Rightarrow> string option \<Rightarrow>
   source_component result" where
  "mk_source_component symbol provider price as_of feed role =
     res_bind (decimal price) (\<lambda>price.
     res_bind (ensure_utc as_of) (\<lambda>as_of.
     raise_if (price \<le> 0) (ValueError ''component price must be finite and positive'')
     (Inr \<lparr>sc_symbol = symbol, sc_provider = provider, sc_price = price, sc_as_of = as_of,
           sc_feed = feed, sc_role = role\<rparr>)))"

definition wf_component :: "source_component \<Rightarrow> bool" where
  "wf_component c \<longleftrightarrow> json_number (sc_price c) \<and> 0 < sc_price c"

lemma mk_source_component_wf: "mk_source_component s p v t f r = Inr c \<Longrightarrow> wf_component c"
  by (auto simp: mk_source_component_def wf_component_def res_simps)

subsection \<open>Provider quotes\<close>

record provider_quote =
  pq_symbol :: string
  pq_price :: decimal
  pq_as_of :: instant
  pq_provider :: string
  pq_feed :: string
  pq_price_basis :: string
  pq_market_status :: string
  pq_is_derived :: bool
  pq_components :: "source_component list"
  pq_fallback_level :: int
  pq_license_scope :: string
  pq_coverage :: "string option"
  pq_market_status_as_of :: "instant option"

definition market_statuses :: "string list" where
  "market_statuses = [''open'', ''closed'', ''unknown'']"

text \<open>An optional timestamp is normalised only when present.\<close>

definition ensure_utc_opt :: "dt_arg option \<Rightarrow> instant option result" where
  "ensure_utc_opt v =
     (case v of None \<Rightarrow> Inr None | Some d \<Rightarrow> res_bind (ensure_utc d) (\<lambda>t. Inr (Some t)))"

definition mk_provider_quote ::
  "string \<Rightarrow> num_arg \<Rightarrow> dt_arg \<Rightarrow> string \<Rightarrow> string \<Rightarrow> string \<Rightarrow> string \<Rightarrow> bool \<Rightarrow>
   source_component list \<Rightarrow> int \<Rightarrow> string \<Rightarrow> string option \<Rightarrow> dt_arg option \<Rightarrow>
   provider_quote result" where
  "mk_provider_quote symbol price as_of provider feed price_basis market_status is_derived
       components fallback_level license_scope coverage market_status_as_of =
     res_bind (decimal price) (\<lambda>price.
     res_bind (ensure_utc as_of) (\<lambda>as_of.
     res_bind (ensure_utc_opt market_status_as_of) (\<lambda>market_status_as_of.
     raise_if (price \<le> 0) (ValueError ''price must be finite and positive'')
     (raise_if (fallback_level < 0) (ValueError ''fallback level cannot be negative'')
     (raise_if (market_status \<notin> set market_statuses) (ValueError ''invalid market_status: '')
     (Inr \<lparr>pq_symbol = symbol, pq_price = price, pq_as_of = as_of, pq_provider = provider,
           pq_feed = feed, pq_price_basis = price_basis, pq_market_status = market_status,
           pq_is_derived = is_derived, pq_components = components,
           pq_fallback_level = fallback_level, pq_license_scope = license_scope,
           pq_coverage = coverage, pq_market_status_as_of = market_status_as_of\<rparr>))))))"

definition wf_quote :: "provider_quote \<Rightarrow> bool" where
  "wf_quote q \<longleftrightarrow> json_number (pq_price q) \<and> 0 < pq_price q \<and> 0 \<le> pq_fallback_level q
     \<and> pq_market_status q \<in> set market_statuses"

lemma ensure_utc_opt_Inr_iff [res_simps]:
  "ensure_utc_opt v = Inr t \<longleftrightarrow> v = map_option Aware t"
  by (cases v; cases t) (auto simp: ensure_utc_opt_def res_simps)

lemma mk_provider_quote_wf:
  "mk_provider_quote s v t p f b m d cs l ls cv mt = Inr q \<Longrightarrow> wf_quote q"
  by (auto simp: mk_provider_quote_def wf_quote_def res_simps)

text \<open>Rebuilding a well-formed quote from its own fields returns it.\<close>

lemma mk_provider_quote_id:
  assumes "wf_quote q"
  shows "mk_provider_quote (pq_symbol q) (NumFinite (pq_price q)) (Aware (pq_as_of q))
     (pq_provider q) (pq_feed q) (pq_price_basis q) (pq_market_status q) (pq_is_derived q)
     (pq_components q) (pq_fallback_level q) (pq_license_scope q) (pq_coverage q)
     (map_option Aware (pq_market_status_as_of q)) = Inr q"
  using assms
  by (cases "pq_market_status_as_of q")
    (auto simp: mk_provider_quote_def wf_quote_def decimal_NumFinite ensure_utc_opt_def)

subsection \<open>Price points\<close>

record price_point =
  pp_symbol :: string
  pp_timestamp :: instant
  pp_price :: decimal
  pp_provider :: string
  pp_is_derived :: bool
  pp_interval :: string

definition mk_price_point ::
  "string \<Rightarrow> dt_arg \<Rightarrow> num_arg \<Rightarrow> string \<Rightarrow> bool \<Rightarrow> string \<Rightarrow> price_point result" where
  "mk_price_point symbol timestamp price provider is_derived interval =
     res_bind (ensure_utc timestamp) (\<lambda>timestamp.
     res_bind (decimal price) (\<lambda>price.
     raise_if (price \<le> 0) (ValueError ''price must be finite and positive'')
     (Inr \<lparr>pp_symbol = symbol, pp_timestamp = timestamp, pp_price = price,
           pp_provider = provider, pp_is_derived = is_derived, pp_interval = interval\<rparr>)))"

definition wf_point :: "price_point \<Rightarrow> bool" where
  "wf_point p \<longleftrightarrow> json_number (pp_price p) \<and> 0 < pp_price p"

lemma mk_price_point_Inr_iff [res_simps]:
  "mk_price_point s t v p d i = Inr x \<longleftrightarrow>
     t = Aware (pp_timestamp x) \<and> v = NumFinite (pp_price x) \<and> wf_point x \<and> pp_symbol x = s
     \<and> pp_provider x = p \<and> pp_is_derived x = d \<and> pp_interval x = i"
  by (cases x) (auto simp: mk_price_point_def wf_point_def res_simps)

subsection \<open>Aggregates\<close>

record aggregate_price =
  ag_symbol :: string
  ag_bucket_start :: instant
  ag_interval_seconds :: int
  ag_open :: decimal
  ag_high :: decimal
  ag_low :: decimal
  ag_close :: decimal
  ag_sample_count :: int
  ag_provider :: string
  ag_is_derived :: bool

definition mk_aggregate_price ::
  "string \<Rightarrow> dt_arg \<Rightarrow> int \<Rightarrow> num_arg \<Rightarrow> num_arg \<Rightarrow> num_arg \<Rightarrow> num_arg \<Rightarrow> int \<Rightarrow> string \<Rightarrow> bool \<Rightarrow>
   aggregate_price result" where
  "mk_aggregate_price symbol bucket_start interval_seconds op hi lo cl sample_count provider
       is_derived =
     res_bind (ensure_utc bucket_start) (\<lambda>bucket_start.
     res_bind (decimal op) (\<lambda>op.
     res_bind (decimal hi) (\<lambda>hi.
     res_bind (decimal lo) (\<lambda>lo.
     res_bind (decimal cl) (\<lambda>cl.
     raise_if (interval_seconds \<le> 0 \<or> sample_count \<le> 0)
       (ValueError ''aggregate interval and sample count must be positive'')
     (raise_if (lo \<le> 0 \<or> hi < max op cl \<or> min op cl < lo)
       (ValueError ''invalid aggregate OHLC values'')
     (Inr \<lparr>ag_symbol = symbol, ag_bucket_start = bucket_start,
           ag_interval_seconds = interval_seconds, ag_open = op, ag_high = hi, ag_low = lo,
           ag_close = cl, ag_sample_count = sample_count, ag_provider = provider,
           ag_is_derived = is_derived\<rparr>)))))))"

definition wf_aggregate :: "aggregate_price \<Rightarrow> bool" where
  "wf_aggregate a \<longleftrightarrow> 0 < ag_low a \<and> ag_low a \<le> ag_open a \<and> ag_low a \<le> ag_close a
     \<and> ag_open a \<le> ag_high a \<and> ag_close a \<le> ag_high a
     \<and> 0 < ag_interval_seconds a \<and> 0 < ag_sample_count a"

lemma mk_aggregate_price_wf:
  "mk_aggregate_price s t i op hi lo cl n p d = Inr a \<Longrightarrow> wf_aggregate a"
  by (auto simp: mk_aggregate_price_def wf_aggregate_def res_simps not_le not_less)

subsection \<open>Dividends\<close>

text \<open>A calendar date is its proleptic ordinal.\<close>

type_synonym date = int

record dividend_event =
  de_symbol :: string
  de_ex_date :: date
  de_payment_date :: "date option"
  de_amount :: decimal
  de_currency :: string
  de_frequency :: string
  de_provider :: string
  de_event_type :: string
  de_declared_date :: "date option"

definition mk_dividend_event ::
  "string \<Rightarrow> date \<Rightarrow> date option \<Rightarrow> num_arg \<Rightarrow> string \<Rightarrow> string \<Rightarrow> string \<Rightarrow> string \<Rightarrow> date option \<Rightarrow>
   dividend_event result" where
  "mk_dividend_event symbol ex_date payment_date amount currency frequency provider event_type
       declared_date =
     res_bind (decimal amount) (\<lambda>amount.
     raise_if (amount < 0) (ValueError ''dividend amount cannot be negative'')
     (Inr \<lparr>de_symbol = symbol, de_ex_date = ex_date, de_payment_date = payment_date,
           de_amount = amount, de_currency = currency, de_frequency = frequency,
           de_provider = provider, de_event_type = event_type,
           de_declared_date = declared_date\<rparr>))"

record dividend_metric =
  dm_yield_percent :: decimal
  dm_ex_date :: date
  dm_payment_date :: "date option"
  dm_amount :: decimal
  dm_currency :: string
  dm_frequency :: string
  dm_method :: string
  dm_provider :: string

definition mk_dividend_metric ::
  "num_arg \<Rightarrow> date \<Rightarrow> date option \<Rightarrow> num_arg \<Rightarrow> string \<Rightarrow> string \<Rightarrow> string \<Rightarrow> string \<Rightarrow>
   dividend_metric result" where
  "mk_dividend_metric yield_percent ex_date payment_date amount currency frequency meth provider =
     res_bind (decimal yield_percent) (\<lambda>yield_percent.
     res_bind (decimal amount) (\<lambda>amount.
     Inr \<lparr>dm_yield_percent = yield_percent, dm_ex_date = ex_date,
          dm_payment_date = payment_date, dm_amount = amount, dm_currency = currency,
          dm_frequency = frequency, dm_method = meth, dm_provider = provider\<rparr>))"

subsection \<open>Yields\<close>

datatype reward_accrual_mode =
  VALUE_ACCRUING | REBASING_BALANCE | DISTRIBUTED_UNITS | CLAIMABLE_REWARDS

datatype yield_rate_type = APR | APY

text \<open>The \<^verbatim>\<open>StrEnum\<close> constructors: look a value up or raise.\<close>

definition reward_accrual_mode_of :: "string \<Rightarrow> reward_accrual_mode result" where
  "reward_accrual_mode_of v =
     (if v = ''value_accruing'' then Inr VALUE_ACCRUING
      else if v = ''rebasing_balance'' then Inr REBASING_BALANCE
      else if v = ''distributed_units'' then Inr DISTRIBUTED_UNITS
      else if v = ''claimable_rewards'' then Inr CLAIMABLE_REWARDS
      else Inl (ValueError ''not a valid RewardAccrualMode''))"

definition yield_rate_type_of :: "string \<Rightarrow> yield_rate_type result" where
  "yield_rate_type_of v =
     (if v = ''apr'' then Inr APR else if v = ''apy'' then Inr APY
      else Inl (ValueError ''not a valid YieldRateType''))"

record accrual_index_point =
  ai_symbol :: string
  ai_underlying_asset :: string
  ai_value :: decimal
  ai_as_of :: instant
  ai_provider :: string
  ai_kind :: string

definition mk_accrual_index_point ::
  "string \<Rightarrow> string \<Rightarrow> num_arg \<Rightarrow> dt_arg \<Rightarrow> string \<Rightarrow> string \<Rightarrow> accrual_index_point result" where
  "mk_accrual_index_point symbol underlying_asset value as_of provider kind =
     res_bind (decimal value) (\<lambda>value.
     res_bind (ensure_utc as_of) (\<lambda>as_of.
     raise_if (strip symbol = [] \<or> strip underlying_asset = [])
       (ValueError ''accrual index symbols must not be empty'')
     (raise_if (strip provider = [] \<or> strip kind = [])
       (ValueError ''accrual index provider and kind must not be empty'')
     (raise_if (value \<le> 0) (ValueError ''accrual index value must be positive'')
     (Inr \<lparr>ai_symbol = symbol, ai_underlying_asset = underlying_asset, ai_value = value,
           ai_as_of = as_of, ai_provider = provider, ai_kind = kind\<rparr>)))))"

record yield_quality =
  yq_stale :: bool
  yq_staleness_ms :: int
  yq_confidence :: string

definition mk_yield_quality :: "bool \<Rightarrow> int \<Rightarrow> string \<Rightarrow> yield_quality result" where
  "mk_yield_quality stale staleness_ms confidence =
     raise_if (staleness_ms < 0) (ValueError ''yield staleness cannot be negative'')
     (raise_if (confidence \<notin> {''high'', ''medium'', ''low''})
       (ValueError ''yield confidence must be high, medium, or low'')
     (Inr \<lparr>yq_stale = stale, yq_staleness_ms = staleness_ms, yq_confidence = confidence\<rparr>))"

text \<open>
  \<^verbatim>\<open>YieldMetric\<close> and \<^verbatim>\<open>YieldEstimate\<close> share the coercions and checks of their optional
  fields: the enums (kept when already a member, looked up by value otherwise), the observation window, the underlying asset and the
  fallback level, in that order.
\<close>

datatype 'a enum_arg = Member 'a | ByValue string

definition coerce_enum :: "(string \<Rightarrow> 'a result) \<Rightarrow> 'a enum_arg option \<Rightarrow> 'a option result" where
  "coerce_enum f v =
     (case v of None \<Rightarrow> Inr None
      | Some (Member m) \<Rightarrow> Inr (Some m)
      | Some (ByValue x) \<Rightarrow> res_bind (f x) (\<lambda>y. Inr (Some y)))"

definition coerce_window :: "num_arg option \<Rightarrow> decimal option result" where
  "coerce_window v =
     (case v of None \<Rightarrow> Inr None
      | Some d \<Rightarrow> res_bind (decimal d) (\<lambda>d.
          raise_if (d \<le> 0) (ValueError ''yield observation window must be positive'')
            (Inr (Some d))))"

definition blank_asset :: "string option \<Rightarrow> bool" where
  "blank_asset a = (case a of None \<Rightarrow> False | Some s \<Rightarrow> strip s = [])"

record yield_metric =
  ym_symbol :: string
  ym_value :: decimal
  ym_as_of :: instant
  ym_method :: string
  ym_provider :: string
  ym_is_proxy :: bool
  ym_components :: "source_component list"
  ym_rate_type :: "yield_rate_type option"
  ym_observation_window_days :: "decimal option"
  ym_accrual_mode :: "reward_accrual_mode option"
  ym_underlying_asset :: "string option"
  ym_is_estimate :: bool
  ym_accrual_index :: "accrual_index_point option"
  ym_quality :: "yield_quality option"
  ym_fallback_level :: int

definition mk_yield_metric ::
  "string \<Rightarrow> num_arg \<Rightarrow> dt_arg \<Rightarrow> string \<Rightarrow> string \<Rightarrow> bool \<Rightarrow> source_component list \<Rightarrow>
   yield_rate_type enum_arg option \<Rightarrow> num_arg option \<Rightarrow> reward_accrual_mode enum_arg option \<Rightarrow>
   string option \<Rightarrow> bool \<Rightarrow> accrual_index_point option \<Rightarrow>
   yield_quality option \<Rightarrow> int \<Rightarrow> yield_metric result" where
  "mk_yield_metric symbol value as_of meth provider is_proxy components rate_type window
       accrual_mode underlying_asset is_estimate accrual_index quality fallback_level =
     res_bind (decimal value) (\<lambda>value.
     res_bind (ensure_utc as_of) (\<lambda>as_of.
     res_bind (coerce_enum yield_rate_type_of rate_type) (\<lambda>rate_type.
     res_bind (coerce_enum reward_accrual_mode_of accrual_mode) (\<lambda>accrual_mode.
     res_bind (coerce_window window) (\<lambda>window.
     raise_if (blank_asset underlying_asset) (ValueError ''underlying asset must not be empty'')
     (raise_if (fallback_level < 0) (ValueError ''yield fallback level cannot be negative'')
     (Inr \<lparr>ym_symbol = symbol, ym_value = value, ym_as_of = as_of, ym_method = meth,
           ym_provider = provider, ym_is_proxy = is_proxy, ym_components = components,
           ym_rate_type = rate_type, ym_observation_window_days = window,
           ym_accrual_mode = accrual_mode, ym_underlying_asset = underlying_asset,
           ym_is_estimate = is_estimate, ym_accrual_index = accrual_index,
           ym_quality = quality, ym_fallback_level = fallback_level\<rparr>)))))))"

text \<open>Entries of the \<^verbatim>\<open>inputs\<close> mapping: floats of a Decimal, integers, texts, ISO dates.\<close>

datatype input_value = FloatOf decimal | IntVal int | Text string | IsoDate date | IsoInstant instant

record yield_estimate =
  ye_percent :: decimal
  ye_as_of :: instant
  ye_method :: string
  ye_provider :: string
  ye_is_proxy :: bool
  ye_inputs :: "(string, input_value) dict"
  ye_rate_type :: "yield_rate_type option"
  ye_observation_window_days :: "decimal option"
  ye_accrual_mode :: "reward_accrual_mode option"
  ye_underlying_asset :: "string option"
  ye_is_estimate :: bool
  ye_accrual_index :: "accrual_index_point option"
  ye_quality :: "yield_quality option"
  ye_components :: "source_component list"
  ye_fallback_level :: int

definition mk_yield_estimate ::
  "num_arg \<Rightarrow> dt_arg \<Rightarrow> string \<Rightarrow> string \<Rightarrow> bool \<Rightarrow> (string, input_value) dict \<Rightarrow>
   yield_rate_type enum_arg option \<Rightarrow> num_arg option \<Rightarrow> reward_accrual_mode enum_arg option \<Rightarrow>
   string option \<Rightarrow> bool \<Rightarrow> accrual_index_point option \<Rightarrow> yield_quality option \<Rightarrow> source_component list \<Rightarrow> int \<Rightarrow>
   yield_estimate result" where
  "mk_yield_estimate percent as_of meth provider is_proxy inputs rate_type window accrual_mode
       underlying_asset is_estimate accrual_index quality components fallback_level =
     res_bind (decimal percent) (\<lambda>percent.
     res_bind (ensure_utc as_of) (\<lambda>as_of.
     res_bind (coerce_enum yield_rate_type_of rate_type) (\<lambda>rate_type.
     res_bind (coerce_enum reward_accrual_mode_of accrual_mode) (\<lambda>accrual_mode.
     res_bind (coerce_window window) (\<lambda>window.
     raise_if (blank_asset underlying_asset) (ValueError ''underlying asset must not be empty'')
     (raise_if (fallback_level < 0) (ValueError ''yield fallback level cannot be negative'')
     (Inr \<lparr>ye_percent = percent, ye_as_of = as_of, ye_method = meth, ye_provider = provider,
           ye_is_proxy = is_proxy, ye_inputs = inputs, ye_rate_type = rate_type,
           ye_observation_window_days = window, ye_accrual_mode = accrual_mode,
           ye_underlying_asset = underlying_asset, ye_is_estimate = is_estimate,
           ye_accrual_index = accrual_index, ye_quality = quality,
           ye_components = components, ye_fallback_level = fallback_level\<rparr>)))))))"

definition wf_metric :: "yield_metric \<Rightarrow> bool" where
  "wf_metric m \<longleftrightarrow> json_number (ym_value m) \<and> 0 \<le> ym_fallback_level m
     \<and> \<not> blank_asset (ym_underlying_asset m)
     \<and> (case ym_observation_window_days m of None \<Rightarrow> True | Some d \<Rightarrow> json_number d \<and> 0 < d)"

definition wf_estimate :: "yield_estimate \<Rightarrow> bool" where
  "wf_estimate e \<longleftrightarrow> json_number (ye_percent e) \<and> 0 \<le> ye_fallback_level e
     \<and> \<not> blank_asset (ye_underlying_asset e)
     \<and> (case ye_observation_window_days e of None \<Rightarrow> True | Some d \<Rightarrow> json_number d \<and> 0 < d)"

lemma coerce_window_Inr_iff [res_simps]:
  "coerce_window v = Inr w \<longleftrightarrow>
     v = map_option NumFinite w \<and> (case w of None \<Rightarrow> True | Some d \<Rightarrow> json_number d \<and> 0 < d)"
  by (cases v; cases w) (auto simp: coerce_window_def res_simps not_le)

lemma coerce_enum_Member [simp]:
  "coerce_enum f (map_option Member v) = Inr v"
  by (cases v) (simp_all add: coerce_enum_def)

lemma mk_yield_metric_wf:
  "mk_yield_metric s v t me p px cs rt w am ua ie ai q l = Inr m \<Longrightarrow> wf_metric m"
  by (auto simp: mk_yield_metric_def wf_metric_def res_simps)

lemma mk_yield_estimate_wf:
  "mk_yield_estimate v t me p px i rt w am ua ie ai q cs l = Inr e \<Longrightarrow> wf_estimate e"
  by (auto simp: mk_yield_estimate_def wf_estimate_def res_simps)

subsection \<open>Changes and snapshots\<close>

record change_value =
  cv_percent :: decimal
  cv_reference_price :: decimal
  cv_reference_as_of :: instant

definition mk_change_value :: "num_arg \<Rightarrow> num_arg \<Rightarrow> dt_arg \<Rightarrow> change_value result" where
  "mk_change_value percent reference_price reference_as_of =
     res_bind (decimal percent) (\<lambda>percent.
     res_bind (decimal reference_price) (\<lambda>reference_price.
     res_bind (ensure_utc reference_as_of) (\<lambda>reference_as_of.
     raise_if (reference_price \<le> 0)
       (ValueError ''change values must be finite with a positive reference'')
     (Inr \<lparr>cv_percent = percent, cv_reference_price = reference_price,
           cv_reference_as_of = reference_as_of\<rparr>))))"

lemma mk_change_value_Inr_iff [res_simps]:
  "mk_change_value v r t = Inr c \<longleftrightarrow>
     v = NumFinite (cv_percent c) \<and> r = NumFinite (cv_reference_price c)
     \<and> t = Aware (cv_reference_as_of c) \<and> json_number (cv_percent c)
     \<and> json_number (cv_reference_price c) \<and> 0 < cv_reference_price c"
  by (cases c) (auto simp: mk_change_value_def res_simps)

record quote_snapshot =
  qs_quote :: provider_quote
  qs_changes :: "(string, change_value option) dict"
  qs_dividend :: "dividend_metric option"
  qs_estimated_annual_yield :: "yield_estimate option"
  qs_published_at :: instant

end
