(* ===== verification/QP_Snapshots.thy ===== *)
theory QP_Snapshots
  imports QP_Domain
begin

text \<open>
  \<^verbatim>\<open>SnapshotStore\<close> of \<^verbatim>\<open>quickprice/cache.py\<close>: per-symbol snapshots in a fixed number of
  lock-protected shards. Each operation holds the lock of the shard it touches, so a
  concurrent execution is a sequence of these operations. Python's \<^verbatim>\<open>hash\<close> is an argument.

  The locale \<^verbatim>\<open>latest_store\<close> is the contract readers rely on: publishing replaces a
  snapshot unless it is older than the stored one. The store is interpreted in it.
\<close>

subsection \<open>The contract: the newest version wins\<close>

locale latest_store =
  fixes get :: "'s \<Rightarrow> 'k \<Rightarrow> 'v option"
    and publish :: "'v \<Rightarrow> 's \<Rightarrow> 's"
    and key :: "'v \<Rightarrow> 'k"
    and version :: "'v \<Rightarrow> 't::linorder"
    and invar :: "'s \<Rightarrow> bool"
  assumes invar_publish: "invar s \<Longrightarrow> invar (publish v s)"
    and get_publish: "invar s \<Longrightarrow> get (publish v s) k =
      (if k = key v \<and> (case get s k of None \<Rightarrow> True | Some c \<Rightarrow> version c \<le> version v)
       then Some v else get s k)"
begin

lemma invar_run: "invar s \<Longrightarrow> invar (fold publish vs s)"
  by (induction vs arbitrary: s) (auto simp: invar_publish)

lemma run_never_older:
  "invar s \<Longrightarrow> get s k = Some c \<Longrightarrow> \<exists>d. get (fold publish vs s) k = Some d \<and> version c \<le> version d"
proof (induction vs arbitrary: s c)
  case Nil
  then show ?case by auto
next
  case (Cons v vs)
  obtain d where d: "get (publish v s) k = Some d" and le: "version c \<le> version d"
    using Cons.prems by (cases "k = key v \<and> version c \<le> version v") (auto simp: get_publish)
  from Cons.IH [OF invar_publish [OF Cons.prems(1)] d] le show ?case
    by (auto intro: order_trans)
qed

lemma run_origin:
  "invar s \<Longrightarrow> get (fold publish vs s) k = Some d \<Longrightarrow> get s k = Some d \<or> (d \<in> set vs \<and> key d = k)"
proof (induction vs arbitrary: s)
  case Nil
  then show ?case by simp
next
  case (Cons v vs)
  then have "get (publish v s) k = Some d \<or> (d \<in> set vs \<and> key d = k)"
    by (simp add: invar_publish)
  then show ?case using Cons.prems(1) by (auto simp: get_publish split: if_splits)
qed

lemma run_covers:
  assumes "invar s" and "v \<in> set vs"
  shows "\<exists>d. get (fold publish vs s) (key v) = Some d \<and> version v \<le> version d"
proof -
  from assms(2) obtain us ws where vs: "vs = us @ v # ws" by (auto simp: in_set_conv_decomp)
  let ?s = "fold publish us s"
  have inv: "invar ?s" by (rule invar_run [OF assms(1)])
  obtain d where "get (publish v ?s) (key v) = Some d" and le: "version v \<le> version d"
    using get_publish [OF inv, of v "key v"] by (cases "get ?s (key v)") (auto simp: not_le split: if_splits)
  with run_never_older [OF invar_publish [OF inv]] show ?thesis
    by (fastforce simp: vs intro: order_trans)
qed

end

subsection \<open>The sharded store\<close>

record snapshot_store =
  shards :: "(string, quote_snapshot) dict list"

definition snapshot_symbol :: "quote_snapshot \<Rightarrow> string" where
  "snapshot_symbol s = pq_symbol (qs_quote s)"

definition snapshot_as_of :: "quote_snapshot \<Rightarrow> instant" where
  "snapshot_as_of s = pq_as_of (qs_quote s)"

definition mk_snapshot_store :: "int \<Rightarrow> snapshot_store result" where
  "mk_snapshot_store shard_count =
     raise_if (shard_count \<le> 0) (ValueError ''snapshot shard count must be positive'')
       (Inr \<lparr>shards = replicate (nat shard_count) []\<rparr>)"

definition shard_index :: "(string \<Rightarrow> int) \<Rightarrow> snapshot_store \<Rightarrow> string \<Rightarrow> nat" where
  "shard_index hash st symbol = nat (hash symbol mod int (length (shards st)))"

definition store_publish :: "(string \<Rightarrow> int) \<Rightarrow> quote_snapshot \<Rightarrow> snapshot_store \<Rightarrow> snapshot_store" where
  "store_publish hash snapshot st =
     (let symbol = snapshot_symbol snapshot;
          index = shard_index hash st symbol;
          shard = shards st ! index
      in case dict_get shard symbol of
           Some current \<Rightarrow>
             if snapshot_as_of snapshot < snapshot_as_of current then st
             else st\<lparr>shards := (shards st)[index := dict_set symbol snapshot shard]\<rparr>
         | None \<Rightarrow> st\<lparr>shards := (shards st)[index := dict_set symbol snapshot shard]\<rparr>)"

definition store_get :: "(string \<Rightarrow> int) \<Rightarrow> snapshot_store \<Rightarrow> string \<Rightarrow> quote_snapshot option" where
  "store_get hash st symbol = dict_get (shards st ! shard_index hash st symbol) symbol"

text \<open>\<^verbatim>\<open>combined.update(shard)\<close>, shard by shard.\<close>

definition dict_update :: "('k, 'v) dict \<Rightarrow> ('k, 'v) dict \<Rightarrow> ('k, 'v) dict" where
  "dict_update d new = fold (\<lambda>(k, v) acc. dict_set k v acc) new d"

definition store_all :: "snapshot_store \<Rightarrow> (string, quote_snapshot) dict" where
  "store_all st = fold (\<lambda>shard combined. dict_update combined shard) (shards st) []"

definition store_clone :: "(string \<Rightarrow> int) \<Rightarrow> snapshot_store \<Rightarrow> snapshot_store result" where
  "store_clone hash st =
     res_bind (mk_snapshot_store (int (length (shards st)))) (\<lambda>replacement.
       Inr (fold (store_publish hash) (dict_values (store_all st)) replacement))"

definition store_retain_symbols :: "string list \<Rightarrow> snapshot_store \<Rightarrow> snapshot_store \<times> nat" where
  "store_retain_symbols symbols st =
     (let keep = (\<lambda>(symbol, _). symbol \<in> set symbols)
      in (st\<lparr>shards := map (filter keep) (shards st)\<rparr>,
          sum_list (map (\<lambda>shard. length (filter (\<lambda>e. \<not> keep e) shard)) (shards st))))"

subsection \<open>Invariant and behaviour\<close>

text \<open>Every shard is a dictionary and holds only symbols that hash to it, under their own key.\<close>

definition store_inv :: "(string \<Rightarrow> int) \<Rightarrow> snapshot_store \<Rightarrow> bool" where
  "store_inv hash st \<longleftrightarrow> shards st \<noteq> [] \<and>
     (\<forall>i < length (shards st). dict_wf (shards st ! i) \<and>
        (\<forall>(k, v) \<in> set (shards st ! i). shard_index hash st k = i \<and> snapshot_symbol v = k))"

lemma shard_index_less: "shards st \<noteq> [] \<Longrightarrow> shard_index hash st symbol < length (shards st)"
  by (simp add: shard_index_def nat_less_iff)

lemma shard_index_update [simp]:
  "shard_index hash (st\<lparr>shards := (shards st)[i := d]\<rparr>) = shard_index hash st"
  by (simp add: shard_index_def fun_eq_iff)

lemma set_dict_set: "set (dict_set k v d) \<subseteq> insert (k, v) (set d)"
  by (induction d) auto

lemma store_inv_set:
  assumes "store_inv hash st" and "symbol = snapshot_symbol v" and "i = shard_index hash st symbol"
  shows "store_inv hash (st\<lparr>shards := (shards st)[i := dict_set symbol v (shards st ! i)]\<rparr>)"
proof -
  have i: "i < length (shards st)" using assms by (simp add: store_inv_def shard_index_less)
  show ?thesis
    unfolding store_inv_def
  proof (intro conjI allI impI)
    show "shards (st\<lparr>shards := (shards st)[i := dict_set symbol v (shards st ! i)]\<rparr>) \<noteq> []"
      using assms(1) by (simp add: store_inv_def)
  next
    fix j
    assume j: "j < length (shards (st\<lparr>shards := (shards st)[i := dict_set symbol v (shards st ! i)]\<rparr>))"
    then have dj: "dict_wf (shards st ! j)"
      and ej: "\<forall>(k, w) \<in> set (shards st ! j). shard_index hash st k = j \<and> snapshot_symbol w = k"
      using assms(1) by (auto simp: store_inv_def)
    show "dict_wf (shards (st\<lparr>shards := (shards st)[i := dict_set symbol v (shards st ! i)]\<rparr>) ! j)"
      using dj j by (cases "i = j") (auto simp: dict_set_wf)
    show "\<forall>(k, w) \<in> set (shards (st\<lparr>shards := (shards st)[i := dict_set symbol v (shards st ! i)]\<rparr>) ! j).
        shard_index hash (st\<lparr>shards := (shards st)[i := dict_set symbol v (shards st ! i)]\<rparr>) k = j
        \<and> snapshot_symbol w = k"
      using ej j i assms(2,3) set_dict_set [of symbol v "shards st ! i"] by (cases "i = j") auto
  qed
qed

lemma store_inv_publish: "store_inv hash st \<Longrightarrow> store_inv hash (store_publish hash v st)"
  by (auto simp: store_publish_def Let_def store_inv_set split: option.splits)

lemma store_get_publish:
  assumes "store_inv hash st"
  shows "store_get hash (store_publish hash v st) k =
    (if k = snapshot_symbol v \<and> (case store_get hash st k of None \<Rightarrow> True
        | Some c \<Rightarrow> snapshot_as_of c \<le> snapshot_as_of v)
     then Some v else store_get hash st k)"
proof -
  let ?i = "shard_index hash st (snapshot_symbol v)"
  have i: "?i < length (shards st)" using assms by (simp add: store_inv_def shard_index_less)
  have upd: "store_get hash (st\<lparr>shards := (shards st)[?i := dict_set (snapshot_symbol v) v (shards st ! ?i)]\<rparr>) k
      = (if k = snapshot_symbol v then Some v else store_get hash st k)" for k
    using i by (cases "shard_index hash st k = ?i") (auto simp: store_get_def)
  have cur: "dict_get (shards st ! ?i) (snapshot_symbol v) = store_get hash st (snapshot_symbol v)"
    by (simp add: store_get_def)
  show ?thesis
    by (auto simp: store_publish_def Let_def cur upd not_le [symmetric] split: option.splits)
qed

interpretation snap: latest_store "store_get hash" "store_publish hash" snapshot_symbol
  snapshot_as_of "store_inv hash" for hash
  by unfold_locales (auto simp: store_inv_publish store_get_publish)

lemma mk_snapshot_store_inv: "mk_snapshot_store n = Inr st \<Longrightarrow> store_inv hash st"
  by (auto simp: mk_snapshot_store_def res_simps store_inv_def)

lemma mk_snapshot_store_get:
  "mk_snapshot_store n = Inr st \<Longrightarrow> store_get hash st k = None"
proof -
  assume st: "mk_snapshot_store n = Inr st"
  then have "shard_index hash st k < length (shards st)"
    using mk_snapshot_store_inv [OF st, of hash] by (simp add: store_inv_def shard_index_less)
  with st show ?thesis by (auto simp: mk_snapshot_store_def res_simps store_get_def)
qed

lemma dict_get_update:
  "dict_wf new \<Longrightarrow> dict_get (dict_update d new) k = (case dict_get new k of None \<Rightarrow> dict_get d k | Some v \<Rightarrow> Some v)"
proof (induction new arbitrary: d)
  case Nil
  then show ?case by (simp add: dict_update_def)
next
  case (Cons e new)
  obtain a b where e: "e = (a, b)" by (cases e)
  have "dict_get (dict_update d (e # new)) k = dict_get (dict_update (dict_set a b d) new) k"
    by (simp add: dict_update_def e)
  also have "\<dots> = (case dict_get new k of None \<Rightarrow> dict_get (dict_set a b d) k | Some v \<Rightarrow> Some v)"
    using Cons by (simp add: e)
  finally have step: "dict_get (dict_update d (e # new)) k =
      (case dict_get new k of None \<Rightarrow> dict_get (dict_set a b d) k | Some v \<Rightarrow> Some v)" .
  have "dict_get new a = None" using Cons.prems by (simp add: e map_of_eq_None_iff)
  with step show ?case by (cases "k = a") (simp_all add: e split: option.splits)
qed

lemma dict_update_wf: "dict_wf d \<Longrightarrow> dict_wf (dict_update d new)"
  unfolding dict_update_def by (induction new arbitrary: d) (auto simp: dict_set_wf split: prod.splits)

lemma fold_update_get:
  assumes "\<forall>d \<in> set ds. dict_wf d" and "\<And>d. d \<in> set ds \<Longrightarrow> d \<noteq> home \<Longrightarrow> dict_get d k = None"
    and "home \<in> set ds \<or> dict_get home k = None"
  shows "dict_get (fold (\<lambda>d acc. dict_update acc d) ds acc) k =
    (if home \<in> set ds then (case dict_get home k of None \<Rightarrow> dict_get acc k | Some v \<Rightarrow> Some v)
     else dict_get acc k)"
  using assms
proof (induction ds arbitrary: acc)
  case Nil
  then show ?case by simp
next
  case (Cons d ds)
  have step: "dict_get (dict_update acc d) k = (case dict_get d k of None \<Rightarrow> dict_get acc k | Some v \<Rightarrow> Some v)"
    using Cons.prems(1) by (intro dict_get_update) simp
  show ?case
  proof (cases "home \<in> set ds \<or> dict_get home k = None")
    case True
    then show ?thesis
      using Cons.IH [of "dict_update acc d"] Cons.prems step
      by (cases "d = home") (auto split: option.splits)
  next
    case False
    then have none: "\<forall>e \<in> set ds. dict_get e k = None" using Cons.prems(2) by auto
    have rest: "dict_get (fold (\<lambda>d acc. dict_update acc d) ds a) k = dict_get a k" for a
      using none Cons.prems(1) by (induction ds arbitrary: a) (auto simp: dict_get_update)
    from False Cons.prems(3) have "d = home" by auto
    with step rest show ?thesis by simp
  qed
qed

theorem store_all_get:
  assumes "store_inv hash st"
  shows "dict_get (store_all st) k = store_get hash st k"
proof -
  let ?i = "shard_index hash st k"
  have i: "?i < length (shards st)" using assms by (simp add: store_inv_def shard_index_less)
  have "dict_get d k = None" if "d \<in> set (shards st)" "d \<noteq> shards st ! ?i" for d
  proof (rule ccontr)
    assume "dict_get d k \<noteq> None"
    then obtain v where "(k, v) \<in> set d" by (auto dest: map_of_SomeD)
    moreover from that(1) obtain j where "j < length (shards st)" "d = shards st ! j"
      by (auto simp: in_set_conv_nth)
    ultimately have "j = ?i" using assms by (auto simp: store_inv_def)
    with \<open>d = shards st ! j\<close> that(2) show False by simp
  qed
  moreover have home: "shards st ! ?i \<in> set (shards st)" using i by simp
  moreover have "\<forall>d \<in> set (shards st). dict_wf d"
    using assms by (auto simp: store_inv_def in_set_conv_nth)
  ultimately have "dict_get (fold (\<lambda>d acc. dict_update acc d) (shards st) []) k =
      (case dict_get (shards st ! ?i) k of None \<Rightarrow> None | Some v \<Rightarrow> Some v)"
    using fold_update_get [of "shards st" "shards st ! ?i" k "[]"] by (simp split: option.splits)
  then show ?thesis by (simp add: store_all_def store_get_def split: option.splits)
qed

lemma store_all_wf: "dict_wf (store_all st)"
proof -
  have "dict_wf acc \<Longrightarrow> dict_wf (fold (\<lambda>d acc. dict_update acc d) ds acc)" for acc ds
    by (induction ds arbitrary: acc) (auto simp: dict_update_wf)
  from this [of "[]" "shards st"] show ?thesis by (simp add: store_all_def)
qed

theorem store_clone_get:
  assumes "store_inv hash st" and "store_clone hash st = Inr st'"
  shows "store_inv hash st' \<and> store_get hash st' k = store_get hash st k"
proof -
  from assms(2) obtain new where new: "mk_snapshot_store (int (length (shards st))) = Inr new"
    and st': "st' = fold (store_publish hash) (dict_values (store_all st)) new"
    by (auto simp: store_clone_def res_simps)
  have inv: "store_inv hash new" by (rule mk_snapshot_store_inv [OF new])
  have own: "snapshot_symbol v = k" if "dict_get (store_all st) k = Some v" for k v
  proof -
    from that have "store_get hash st k = Some v" by (simp add: store_all_get [OF assms(1)])
    then have "(k, v) \<in> set (shards st ! shard_index hash st k)"
      by (auto simp: store_get_def dest: map_of_SomeD)
    moreover have "shard_index hash st k < length (shards st)"
      using assms(1) by (simp add: store_inv_def shard_index_less)
    ultimately show ?thesis using assms(1) by (auto simp: store_inv_def)
  qed
  have mem: "v \<in> set (dict_values (store_all st)) \<longleftrightarrow> dict_get (store_all st) (snapshot_symbol v) = Some v" for v
    using own store_all_wf [of st] by (force simp: dict_get_mem)
  have "store_get hash st' k = dict_get (store_all st) k"
  proof (cases "dict_get (store_all st) k")
    case None
    then have "store_get hash st' k = None"
      using snap.run_origin [OF inv, of "dict_values (store_all st)" k] mk_snapshot_store_get [OF new] mem
      by (cases "store_get hash st' k") (auto simp: st')
    with None show ?thesis by simp
  next
    case (Some v)
    then have v: "v \<in> set (dict_values (store_all st))" and key: "snapshot_symbol v = k"
      using own mem by auto
    from snap.run_covers [OF inv v] obtain d where d: "store_get hash st' k = Some d"
      by (auto simp: st' key)
    then have "d \<in> set (dict_values (store_all st)) \<and> snapshot_symbol d = k"
      using snap.run_origin [OF inv, of "dict_values (store_all st)" k d]
        mk_snapshot_store_get [OF new, of hash k] by (auto simp: st' simp del: set_map)
    then have "dict_get (store_all st) k = Some d" using mem by auto
    with d Some show ?thesis by simp
  qed
  then show ?thesis using snap.invar_run [OF inv] by (simp add: st' store_all_get [OF assms(1)])
qed

lemma dict_get_filter_key: "dict_get (filter (\<lambda>(s, _). s \<in> A) d) k = (if k \<in> A then dict_get d k else None)"
  by (induction d) auto

theorem store_retain_symbols_get:
  assumes "store_inv hash st"
  shows "store_inv hash (fst (store_retain_symbols symbols st))"
    and "store_get hash (fst (store_retain_symbols symbols st)) k =
      (if k \<in> set symbols then store_get hash st k else None)"
proof -
  let ?st = "fst (store_retain_symbols symbols st)"
  have idx: "shard_index hash ?st = shard_index hash st"
    by (simp add: store_retain_symbols_def Let_def shard_index_def fun_eq_iff)
  show "store_inv hash ?st"
    using assms idx by (auto simp: store_inv_def store_retain_symbols_def Let_def distinct_map_filter)
  have "shard_index hash st k < length (shards st)"
    using assms by (simp add: store_inv_def shard_index_less)
  then show "store_get hash ?st k = (if k \<in> set symbols then store_get hash st k else None)"
    by (simp add: store_get_def idx) (simp add: store_retain_symbols_def Let_def dict_get_filter_key)
qed

end
