(* ===== verification/QP_Graph.thy ===== *)
theory QP_Graph
  imports QP_Prelude
begin

text \<open>
  Depth-first traversals over dependency dictionaries. The history cache, the instrument
  registry and the managed catalog each walk a dictionary \<^verbatim>\<open>symbol \<mapsto> inputs\<close> with a
  mutable set of visited symbols; the walks below are those loops with the set passed
  explicitly, and the lemmas relate them to reachability in the edge relation.
\<close>

type_synonym 'a graph = "('a, 'a list) dict"

definition edges :: "'a graph \<Rightarrow> ('a \<times> 'a) set" where
  "edges g = {(a, b). \<exists>bs. dict_get g a = Some bs \<and> b \<in> set bs}"

lemma edges_iff: "(a, b) \<in> edges g \<longleftrightarrow> b \<in> set (dict_list g a)"
  by (cases "dict_get g a") (auto simp: edges_def dict_list_def)

lemma edges_source: "(a, b) \<in> edges g \<Longrightarrow> a \<in> set (dict_keys g)"
  by (auto simp: edges_def dest: map_of_SomeD intro: rev_image_eqI)

lemma finite_edges: "finite (edges g)"
proof (rule finite_subset)
  show "edges g \<subseteq> (\<Union>(k, bs) \<in> set g. {k} \<times> set bs)"
    by (auto simp: edges_def dest!: map_of_SomeD)
  show "finite (\<Union>(k, bs) \<in> set g. {k} \<times> set bs)"
    by auto
qed

lemma card_minus_insert:
  "finite K \<Longrightarrow> x \<in> K \<Longrightarrow> x \<notin> V \<Longrightarrow> card (K - insert x V) < card (K - V)"
  by (rule psubset_card_mono) auto

subsection \<open>Is a target reachable?\<close>

function reaches :: "'a graph \<Rightarrow> 'a \<Rightarrow> 'a list \<Rightarrow> 'a list \<Rightarrow> bool" where
  "reaches g t [] visited = False"
| "reaches g t (c # pending) visited =
     (if c = t then True
      else if c \<in> set visited then reaches g t pending visited
      else reaches g t (dict_list g c @ pending) (c # visited))"
  by pat_completeness auto
termination
proof (relation "measures [\<lambda>(g, t, p, v). card (set (dict_keys g) - set v), \<lambda>(g, t, p, v). length p]",
    goal_cases)
  case (3 g t c pending visited)
  show ?case
  proof (cases "c \<in> set (dict_keys g)")
    case True
    with 3 have "card (set (dict_keys g) - insert c (set visited)) < card (set (dict_keys g) - set visited)"
      by (intro card_minus_insert) auto
    then show ?thesis by simp
  next
    case False
    then have "set (dict_keys g) - insert c (set visited) = set (dict_keys g) - set visited"
      by auto
    with False show ?thesis by (simp add: dict_list_Nil_if)
  qed
qed auto

lemma reaches_sound:
  "reaches g t pending visited \<Longrightarrow> \<exists>c \<in> set pending. (c, t) \<in> (edges g)\<^sup>*"
proof (induction g t pending visited rule: reaches.induct)
  case (2 g t c pending visited)
  show ?case
  proof (cases "c = t \<or> c \<in> set visited")
    case True
    with 2 show ?thesis by (auto split: if_splits)
  next
    case False
    with 2 obtain d where "d \<in> set (dict_list g c @ pending)" and d: "(d, t) \<in> (edges g)\<^sup>*"
      by (auto split: if_splits)
    then consider "(c, d) \<in> edges g" | "d \<in> set pending" by (auto simp: edges_iff)
    then show ?thesis
      by cases (use d in \<open>auto intro: converse_rtrancl_into_rtrancl\<close>)
  qed
qed simp

lemma closed_set_rtrancl:
  "(a, b) \<in> r\<^sup>* \<Longrightarrow> a \<in> S \<Longrightarrow> (\<And>x y. x \<in> S \<Longrightarrow> (x, y) \<in> r \<Longrightarrow> y \<in> S) \<Longrightarrow> b \<in> S"
  by (induction rule: rtrancl_induct) auto

lemma reaches_complete:
  assumes "\<not> reaches g t pending visited" and "t \<notin> set visited"
    and "\<And>x y. x \<in> set visited \<Longrightarrow> (x, y) \<in> edges g \<Longrightarrow> y \<in> set visited \<union> set pending"
    and "c \<in> set visited \<union> set pending"
  shows "(c, t) \<notin> (edges g)\<^sup>*"
  using assms
proof (induction g t pending visited arbitrary: c rule: reaches.induct)
  case (1 g t visited)
  then show ?case using closed_set_rtrancl [of c t "edges g" "set visited"] by auto
next
  case (2 g t a pending visited)
  show ?case
  proof (cases "a \<in> set visited")
    case True
    with "2.prems"(1,2) have "a \<noteq> t" and no: "\<not> reaches g t pending visited"
      by (auto split: if_splits)
    from True "2.prems"(4) have c: "c \<in> set visited \<union> set pending" by auto
    show ?thesis
      by (rule "2.IH"(1) [OF \<open>a \<noteq> t\<close> True no "2.prems"(2) _ c])
        (use "2.prems"(3) True in fastforce)
  next
    case False
    from "2.prems"(1) have "a \<noteq> t" and no: "\<not> reaches g t (dict_list g a @ pending) (a # visited)"
      using False by (auto split: if_splits)
    from "2.prems"(3) have closed: "\<And>x y. x \<in> set (a # visited) \<Longrightarrow> (x, y) \<in> edges g \<Longrightarrow>
        y \<in> set (a # visited) \<union> set (dict_list g a @ pending)"
      by (auto simp: edges_iff)
    show ?thesis
      using "2.IH"(2) [OF \<open>a \<noteq> t\<close> False no _ closed] \<open>a \<noteq> t\<close> "2.prems"(2,4) by auto
  qed
qed

theorem reaches_iff: "reaches g t pending [] \<longleftrightarrow> (\<exists>c \<in> set pending. (c, t) \<in> (edges g)\<^sup>*)"
  using reaches_sound reaches_complete [of g t pending "[]"] by fastforce

subsection \<open>Everything reachable, in visiting order\<close>

function dfs_collect :: "'a graph \<Rightarrow> 'a list \<Rightarrow> 'a list \<Rightarrow> 'a list" where
  "dfs_collect g [] visited = visited"
| "dfs_collect g (c # pending) visited =
     (if c \<in> set visited then dfs_collect g pending visited
      else dfs_collect g (dict_list g c @ pending) (visited @ [c]))"
  by pat_completeness auto
termination
proof (relation "measures [\<lambda>(g, p, v). card (set (dict_keys g) - set v), \<lambda>(g, p, v). length p]",
    goal_cases)
  case (3 g c pending visited)
  show ?case
  proof (cases "c \<in> set (dict_keys g)")
    case True
    with 3 have "card (set (dict_keys g) - insert c (set visited)) < card (set (dict_keys g) - set visited)"
      by (intro card_minus_insert) auto
    then show ?thesis by simp
  next
    case False
    then have "set (dict_keys g) - insert c (set visited) = set (dict_keys g) - set visited"
      by auto
    with False show ?thesis by (simp add: dict_list_Nil_if)
  qed
qed auto

lemma dfs_collect_closed:
  assumes "\<And>x y. x \<in> set visited \<Longrightarrow> (x, y) \<in> edges g \<Longrightarrow> y \<in> set visited \<union> set pending"
  shows "set visited \<union> set pending \<subseteq> set (dfs_collect g pending visited)
    \<and> (\<forall>x y. x \<in> set (dfs_collect g pending visited) \<longrightarrow> (x, y) \<in> edges g \<longrightarrow>
          y \<in> set (dfs_collect g pending visited))"
  using assms
proof (induction g pending visited rule: dfs_collect.induct)
  case (1 g visited)
  then show ?case by auto
next
  case (2 g c pending visited)
  show ?case
  proof (cases "c \<in> set visited")
    case True
    with 2 show ?thesis by auto
  next
    case False
    have "\<And>x y. x \<in> set (visited @ [c]) \<Longrightarrow> (x, y) \<in> edges g \<Longrightarrow>
        y \<in> set (visited @ [c]) \<union> set (dict_list g c @ pending)"
      using "2.prems" by (auto simp: edges_iff)
    from "2.IH"(2) [OF False this] False show ?thesis by auto
  qed
qed

lemma dfs_collect_sound:
  "x \<in> set (dfs_collect g pending visited) \<Longrightarrow>
     x \<in> set visited \<or> (\<exists>c \<in> set pending. (c, x) \<in> (edges g)\<^sup>*)"
proof (induction g pending visited rule: dfs_collect.induct)
  case (1 g visited)
  then show ?case by simp
next
  case (2 g c pending visited)
  show ?case
  proof (cases "c \<in> set visited")
    case True
    with 2 show ?thesis by auto
  next
    case False
    with 2 have "x \<in> set (visited @ [c]) \<or> (\<exists>d \<in> set (dict_list g c @ pending). (d, x) \<in> (edges g)\<^sup>*)"
      by simp
    then show ?thesis
      by (auto simp: edges_iff [symmetric] intro: converse_rtrancl_into_rtrancl)
  qed
qed

theorem set_dfs_collect: "set (dfs_collect g pending []) = (edges g)\<^sup>* `` set pending"
proof
  show "set (dfs_collect g pending []) \<subseteq> (edges g)\<^sup>* `` set pending"
    using dfs_collect_sound [of _ g pending "[]"] by auto
  show "(edges g)\<^sup>* `` set pending \<subseteq> set (dfs_collect g pending [])"
  proof
    fix x
    assume "x \<in> (edges g)\<^sup>* `` set pending"
    then obtain c where "c \<in> set pending" and path: "(c, x) \<in> (edges g)\<^sup>*" by auto
    then show "x \<in> set (dfs_collect g pending [])"
      using dfs_collect_closed [of "[]" g pending] closed_set_rtrancl [OF path] by auto
  qed
qed

lemma distinct_dfs_collect: "distinct visited \<Longrightarrow> distinct (dfs_collect g pending visited)"
  by (induction g pending visited rule: dfs_collect.induct) auto

subsection \<open>Closing a set under dependencies\<close>

text \<open>The inner \<^verbatim>\<open>for\<close> loop: dependencies not yet retained, each once, in order.\<close>

fun fresh :: "'a list \<Rightarrow> 'a list \<Rightarrow> 'a list" where
  "fresh retained [] = []"
| "fresh retained (d # ds) =
     (if d \<in> set retained then fresh retained ds else d # fresh (retained @ [d]) ds)"

lemma set_fresh: "set (fresh retained ds) = set ds - set retained"
  by (induction retained ds rule: fresh.induct) auto

text \<open>\<^verbatim>\<open>pending.pop()\<close> takes the most recently appended symbol: the pending list is a stack.\<close>

function close_pending :: "'a graph \<Rightarrow> 'a list \<Rightarrow> 'a list \<Rightarrow> 'a list" where
  "close_pending g retained [] = retained"
| "close_pending g retained (p # pending) =
     (let new = fresh retained (dict_list g p)
      in close_pending g (retained @ new) (rev new @ pending))"
  by pat_completeness auto
termination
proof (relation "measures [\<lambda>(g, r, p). card (\<Union>(set ` set (dict_values g)) - set r), \<lambda>(g, r, p). length p]",
    goal_cases)
  case (2 g retained p pending new)
  let ?U = "\<Union>(set ` set (dict_values g))"
  have new: "set new = set (dict_list g p) - set retained"
    using 2 by (simp add: set_fresh)
  have sub: "set (dict_list g p) \<subseteq> ?U"
    by (cases "dict_get g p") (auto simp: dict_list_def dest!: map_of_SomeD intro: rev_bexI)
  show ?case
  proof (cases new)
    case Nil
    then show ?thesis by simp
  next
    case (Cons a list)
    then have a: "a \<in> set new" by simp
    then have "a \<in> ?U - set retained" using new sub by auto
    moreover have "?U - (set retained \<union> set new) \<subseteq> ?U - set retained" by auto
    ultimately have "card (?U - (set retained \<union> set new)) < card (?U - set retained)"
      using a by (intro psubset_card_mono) auto
    then show ?thesis by simp
  qed
qed auto

lemma close_pending_props:
  assumes "set pending \<subseteq> set retained"
    and "\<And>x y. x \<in> set retained - set pending \<Longrightarrow> (x, y) \<in> edges g \<Longrightarrow> y \<in> set retained"
  shows "set (close_pending g retained pending) = (edges g)\<^sup>* `` set retained"
  using assms
proof (induction g retained pending rule: close_pending.induct)
  case (1 g retained)
  then show ?case using closed_set_rtrancl [of _ _ "edges g" "set retained"] by auto
next
  case (2 g retained p pending)
  define new where "new = fresh retained (dict_list g p)"
  have new: "set new = set (dict_list g p) - set retained"
    by (simp add: new_def set_fresh)
  have p: "p \<in> set retained" using "2.prems"(1) by simp
  have "set (close_pending g (retained @ new) (rev new @ pending)) = (edges g)\<^sup>* `` set (retained @ new)"
  proof (rule "2.IH" [OF new_def])
    show "set (rev new @ pending) \<subseteq> set (retained @ new)" using "2.prems"(1) by auto
  next
    fix x y
    assume x: "x \<in> set (retained @ new) - set (rev new @ pending)" and e: "(x, y) \<in> edges g"
    then consider "x = p" | "x \<in> set retained - set (p # pending)" by auto
    then show "y \<in> set (retained @ new)"
    proof cases
      case 1
      with e have "y \<in> set (dict_list g p)" by (simp add: edges_iff)
      then show ?thesis by (simp add: new)
    next
      case 2
      from "2.prems"(2) [OF 2 e] show ?thesis by simp
    qed
  qed
  also have "\<dots> = (edges g)\<^sup>* `` set retained"
  proof -
    have "x \<in> (edges g)\<^sup>* `` set retained" if "y \<in> set new" "(y, x) \<in> (edges g)\<^sup>*" for x y
    proof -
      from that(1) new have "(p, y) \<in> edges g" by (auto simp: edges_iff)
      with that(2) p show ?thesis by (auto intro: converse_rtrancl_into_rtrancl)
    qed
    then show ?thesis by auto
  qed
  finally show ?case by (simp add: new_def Let_def)
qed

theorem set_close_pending: "set (close_pending g retained (rev retained)) = (edges g)\<^sup>* `` set retained"
  by (rule close_pending_props) auto

subsection \<open>Cycle detection with visiting and visited sets\<close>

text \<open>
  The recursive \<^verbatim>\<open>visit\<close> over a list of symbols: \<^const>\<open>None\<close> is the raised
  cycle error, \<^const>\<open>Some\<close> returns the visited set. A symbol that is not a key of the
  graph returns at once; \<^verbatim>\<open>visiting\<close> holds the symbols of the current call stack.
\<close>

function visit_all :: "'a graph \<Rightarrow> 'a list \<Rightarrow> 'a list \<Rightarrow> 'a list \<Rightarrow> 'a list option" where
  "visit_all g visiting visited [] = Some visited"
| "visit_all g visiting visited (s # ss) =
     (if s \<in> set visited \<or> s \<notin> set (dict_keys g) then visit_all g visiting visited ss
      else if s \<in> set visiting then None
      else (case visit_all g (s # visiting) visited (dict_list g s) of
              None \<Rightarrow> None
            | Some visited' \<Rightarrow> visit_all g visiting (visited' @ [s]) ss))"
  by pat_completeness auto
termination
proof (relation "measures [\<lambda>(g, i, d, ss). card (set (dict_keys g) - set i), \<lambda>(g, i, d, ss). length ss]",
    goal_cases)
  case (3 g visiting visited s ss)
  then have "card (set (dict_keys g) - insert s (set visiting)) < card (set (dict_keys g) - set visiting)"
    by (intro card_minus_insert) auto
  then show ?case by simp
qed auto

abbreviation terminal_part :: "'a graph \<Rightarrow> 'a set" where
  "terminal_part g \<equiv> Wellfounded.acc ((edges g)\<inverse>)"

lemma terminal_leaf: "s \<notin> set (dict_keys g) \<Longrightarrow> s \<in> terminal_part g"
  by (rule accI) (metis converseD edges_source)

lemma visit_all_sound:
  "visit_all g visiting visited ss = Some visited' \<Longrightarrow> set visited \<subseteq> terminal_part g \<Longrightarrow>
     set visited' \<subseteq> terminal_part g \<and> set ss \<subseteq> terminal_part g"
proof (induction g visiting visited ss arbitrary: visited' rule: visit_all.induct)
  case (1 g visiting visited)
  then show ?case by simp
next
  case (2 g visiting visited s ss)
  consider (skip) "s \<in> set visited" | (leaf) "s \<notin> set visited" "s \<notin> set (dict_keys g)"
    | (walk) "s \<notin> set visited" "s \<in> set (dict_keys g)" by auto
  then show ?case
  proof cases
    case skip
    with "2.prems" "2.IH"(1) [of visited'] show ?thesis by auto
  next
    case leaf
    have "s \<in> terminal_part g"
      by (rule terminal_leaf [OF leaf(2)])
    with "2.prems" "2.IH"(1) [of visited'] leaf show ?thesis by auto
  next
    case walk
    with "2.prems"(1) obtain v1 where vis: "s \<notin> set visiting"
      and v1: "visit_all g (s # visiting) visited (dict_list g s) = Some v1"
      and rest: "visit_all g visiting (v1 @ [s]) ss = Some visited'"
      by (auto split: if_splits option.splits)
    from walk have ns: "\<not> (s \<in> set visited \<or> s \<notin> set (dict_keys g))" by simp
    have kids: "set v1 \<subseteq> terminal_part g \<and> set (dict_list g s) \<subseteq> terminal_part g"
      using "2.IH"(2) [OF ns vis v1 "2.prems"(2)] .
    then have "s \<in> terminal_part g"
      by (intro accI [of s]) (metis converseD edges_iff subsetD)
    then have "set (v1 @ [s]) \<subseteq> terminal_part g" using kids by simp
    from "2.IH"(3) [OF ns vis v1 rest this] \<open>s \<in> terminal_part g\<close> show ?thesis by simp
  qed
qed

lemma visit_all_complete:
  assumes "acyclic (edges g)" and "\<And>x s. x \<in> set visiting \<Longrightarrow> s \<in> set ss \<Longrightarrow> (x, s) \<in> (edges g)\<^sup>+"
  shows "\<exists>visited'. visit_all g visiting visited ss = Some visited'"
  using assms
proof (induction g visiting visited ss rule: visit_all.induct)
  case (1 g visiting visited)
  then show ?case by simp
next
  case (2 g visiting visited s ss)
  show ?case
  proof (cases "s \<in> set visited \<or> s \<notin> set (dict_keys g)")
    case True
    with 2 show ?thesis by auto
  next
    case False
    have vis: "s \<notin> set visiting"
      using "2.prems" by (auto simp: acyclic_def)
    have "\<exists>v1. visit_all g (s # visiting) visited (dict_list g s) = Some v1"
    proof (rule "2.IH"(2) [OF False vis "2.prems"(1)])
      fix x c
      assume "x \<in> set (s # visiting)" and "c \<in> set (dict_list g s)"
      then show "(x, c) \<in> (edges g)\<^sup>+"
        using "2.prems"(2) by (auto simp: edges_iff [symmetric] intro: trancl_into_trancl)
    qed
    then obtain v1 where v1: "visit_all g (s # visiting) visited (dict_list g s) = Some v1" ..
    have "\<exists>v2. visit_all g visiting (v1 @ [s]) ss = Some v2"
      using "2.IH"(3) [OF False vis v1 "2.prems"(1)] "2.prems"(2) by auto
    with False vis v1 show ?thesis by auto
  qed
qed

theorem visit_all_iff_acyclic:
  "(visit_all g [] [] (dict_keys g) \<noteq> None) \<longleftrightarrow> acyclic (edges g)"
proof
  assume "visit_all g [] [] (dict_keys g) \<noteq> None"
  then obtain v where v: "visit_all g [] [] (dict_keys g) = Some v" by auto
  have keys: "set (dict_keys g) \<subseteq> terminal_part g"
    using visit_all_sound [OF v] by simp
  have "x \<in> terminal_part g" for x
    using keys terminal_leaf [of x g] by blast
  then have "wf ((edges g)\<inverse>)" by (intro acc_wfI) auto
  then show "acyclic (edges g)" by (metis acyclic_converse wf_acyclic)
next
  assume "acyclic (edges g)"
  then show "visit_all g [] [] (dict_keys g) \<noteq> None"
    using visit_all_complete [of g "[]" "dict_keys g" "[]"] by auto
qed

end
