(* ===== verification/QP_Analytics.thy ===== *)
theory QP_Analytics
  imports QP_Domain
begin

text \<open>
  The calculation rules of \<^verbatim>\<open>quickprice/analytics.py\<close> and \<^verbatim>\<open>quickprice/staking.py\<close>:
  rolling changes, annualised dividends and distributions, Treasury proxies and staking
  index growth. Every Decimal operation is the rounded one of the context in force.
\<close>

subsection \<open>Rolling windows\<close>

definition WINDOWS :: "(string \<times> duration) list" where
  "WINDOWS =
     [(''1h'', hour), (''4h'', 4 * hour), (''1d'', day), (''1w'', 7 * day),
      (''1mo'', 30 * day), (''1y'', 365 * day)]"

lemma WINDOWS_wf: "distinct (map fst WINDOWS)" "(n, d) \<in> set WINDOWS \<Longrightarrow> 0 < d"
  by (auto simp: WINDOWS_def time_units)

text \<open>\<^verbatim>\<open>(current_price / reference.price - Decimal(1)) * Decimal(100)\<close>.\<close>

definition percent_change :: "decimal \<Rightarrow> decimal \<Rightarrow> decimal result" where
  "percent_change current reference =
     res_bind (dec_div current reference) (\<lambda>ratio.
     res_bind (dec_sub ratio 1) (\<lambda>delta. dec_mul delta 100))"

definition change_for :: "decimal \<Rightarrow> price_point option \<Rightarrow> change_value option result" where
  "change_for current reference =
     (case reference of
        None \<Rightarrow> Inr None
      | Some p \<Rightarrow>
          res_bind (percent_change current (pp_price p)) (\<lambda>percent.
          res_bind (mk_change_value (NumFinite percent) (NumFinite (pp_price p))
                      (Aware (pp_timestamp p))) (\<lambda>c. Inr (Some c))))"

definition calculate_changes ::
  "num_arg \<Rightarrow> instant \<Rightarrow> price_point list \<Rightarrow> (string, change_value option) dict result" where
  "calculate_changes current_price current_as_of points =
     res_bind (decimal current_price) (\<lambda>current.
     let ordered = sort_key pp_timestamp (filter (\<lambda>p. pp_timestamp p \<le> current_as_of) points)
     in res_map (\<lambda>(name, duration).
          let cutoff = current_as_of - duration;
              reference = find_last (\<lambda>p. pp_timestamp p \<le> cutoff) ordered
          in res_bind (change_for current reference) (\<lambda>c. Inr (name, c))) WINDOWS)"

definition calculate_changes_from_references ::
  "num_arg \<Rightarrow> (string, price_point option) dict \<Rightarrow> (string, change_value option) dict result" where
  "calculate_changes_from_references current_price references =
     res_bind (decimal current_price) (\<lambda>current.
     res_map (\<lambda>(name, _).
       res_bind (change_for current (Option.bind (dict_get references name) id))
         (\<lambda>c. Inr (name, c))) WINDOWS)"

text \<open>The two paths agree whenever the references are the cutoff predecessors.\<close>

lemma res_map_cong:
  "(\<And>x. x \<in> set xs \<Longrightarrow> f x = g x) \<Longrightarrow> res_map f xs = res_map g xs"
  by (induction xs) (auto split: sum.splits)

theorem changes_from_references_eq:
  assumes "\<And>name duration. (name, duration) \<in> set WINDOWS \<Longrightarrow>
      Option.bind (dict_get references name) id =
      find_last (\<lambda>p. pp_timestamp p \<le> as_of - duration)
        (sort_key pp_timestamp (filter (\<lambda>p. pp_timestamp p \<le> as_of) points))"
  shows "calculate_changes_from_references price references = calculate_changes price as_of points"
  unfolding calculate_changes_from_references_def calculate_changes_def
  by (cases "decimal price") (auto simp: Let_def assms intro!: res_map_cong)

lemma change_for_Inr_iff [res_simps]:
  "change_for cur ref = Inr r \<longleftrightarrow>
     (case ref of
        None \<Rightarrow> r = None
      | Some p \<Rightarrow> (\<exists>c. r = Some c \<and> percent_change cur (pp_price p) = Inr (cv_percent c)
          \<and> cv_reference_price c = pp_price p \<and> cv_reference_as_of c = pp_timestamp p
          \<and> json_number (cv_percent c) \<and> json_number (pp_price p) \<and> 0 < pp_price p))"
  by (cases ref) (auto simp: change_for_def res_simps)

lemma list_all2_mem_left:
  "list_all2 P xs ys \<Longrightarrow> x \<in> set xs \<Longrightarrow> \<exists>y \<in> set ys. P x y"
  by (induction rule: list_all2_induct) auto

lemma list_all2_map_fst:
  "list_all2 (\<lambda>x y. fst y = fst x \<and> Q x y) xs ys \<Longrightarrow> map fst ys = map fst xs"
  by (induction rule: list_all2_induct) auto

text \<open>The shape of the result: one entry per window, holding what its reference gives.\<close>

lemma calculate_changes_entry:
  assumes "calculate_changes price as_of points = Inr res" and "(name, duration) \<in> set WINDOWS"
  shows "\<exists>current r. decimal price = Inr current \<and> dict_get res name = Some r
    \<and> change_for current (find_last (\<lambda>p. pp_timestamp p \<le> as_of - duration)
        (sort_key pp_timestamp (filter (\<lambda>p. pp_timestamp p \<le> as_of) points))) = Inr r"
proof -
  let ?ref = "\<lambda>d. find_last (\<lambda>p. pp_timestamp p \<le> as_of - d)
        (sort_key pp_timestamp (filter (\<lambda>p. pp_timestamp p \<le> as_of) points))"
  from assms(1) obtain current where cur: "decimal price = Inr current"
    and raw: "list_all2 (\<lambda>w y. \<exists>c. change_for current (?ref (snd w)) = Inr c \<and> (fst w, c) = y) WINDOWS res"
    by (auto simp: calculate_changes_def Let_def res_bind_Inr_iff res_map_Inr_iff split_def)
  have all: "list_all2 (\<lambda>w y. fst y = fst w \<and> change_for current (?ref (snd w)) = Inr (snd y)) WINDOWS res"
    by (rule list_all2_mono [OF raw]) auto
  have "map fst res = map fst WINDOWS" using all by (rule list_all2_map_fst)
  then have dist: "distinct (map fst res)" by (simp add: WINDOWS_wf)
  from list_all2_mem_left [OF all assms(2)] obtain y where "y \<in> set res"
    and "fst y = name" and "change_for current (?ref duration) = Inr (snd y)" by auto
  then show ?thesis using cur dist by (auto intro!: exI [where x = "snd y"])
qed

lemma find_last_sorted_reference:
  assumes "0 \<le> d"
  shows "case find_last (\<lambda>p. pp_timestamp p \<le> t - d)
           (sort_key pp_timestamp (filter (\<lambda>p. pp_timestamp p \<le> t) ps)) of
      None \<Rightarrow> \<forall>p \<in> set ps. t - d < pp_timestamp p
    | Some p \<Rightarrow> p \<in> set ps \<and> pp_timestamp p \<le> t - d
        \<and> (\<forall>q \<in> set ps. pp_timestamp q \<le> t - d \<longrightarrow> pp_timestamp q \<le> pp_timestamp p)"
proof -
  let ?xs = "sort_key pp_timestamp (filter (\<lambda>p. pp_timestamp p \<le> t) ps)"
  have set: "set ?xs = {p \<in> set ps. pp_timestamp p \<le> t}" by simp
  have sorted: "sorted_on pp_timestamp ?xs" by simp
  show ?thesis
  proof (cases "find_last (\<lambda>p. pp_timestamp p \<le> t - d) ?xs")
    case None
    then have "\<forall>p \<in> set ?xs. \<not> pp_timestamp p \<le> t - d" by (simp add: find_last_None_iff)
    then have "\<forall>p \<in> set ps. t - d < pp_timestamp p" using assms by (auto simp: set not_le)
    with None show ?thesis by simp
  next
    case (Some p)
    have "pp_timestamp q \<le> pp_timestamp p" if "q \<in> set ps" "pp_timestamp q \<le> t - d" for q
      using find_last_greatest [OF sorted Some, of q] that assms by (auto simp: set)
    with Some find_last_SomeD [OF Some] show ?thesis by (auto simp: set)
  qed
qed

subsection \<open>Accuracy of the percentage\<close>

text \<open>Relative rounding error of one context operation, with slack for subnormal results.\<close>

definition eps :: rat where "eps = 1 / (2 * 10 ^ 27)"

lemma dec_round_error_eps:
  assumes "dec_round dec_prec q = Inr r"
  shows "\<bar>r - q\<bar> \<le> eps * \<bar>q\<bar> + eps / 100"
proof (cases "q = 0")
  case True
  with assms show ?thesis by (simp add: eps_def)
next
  case False
  have base: "(10 :: rat) powi (1 - int dec_prec) = 1 / 10 ^ 27"
    by (simp add: dec_prec_def power_int_def power_divide)
  have "dec_ulp dec_prec q \<le> \<bar>q\<bar> * 10 powi (1 - int dec_prec) + 10 powi (- 29)"
  proof (cases "emin \<le> adjusted \<bar>q\<bar>")
    case True
    have "dec_ulp dec_prec q \<le> \<bar>q\<bar> * 10 powi (1 - int dec_prec)"
      by (rule dec_ulp_relative [OF False True])
    then show ?thesis by (simp add: add_increasing2)
  next
    case sub: False
    then have "dec_ulp dec_prec q = 10 powi (emin - int dec_prec + 1)"
      by (simp add: dec_ulp_def)
    also have "\<dots> \<le> 10 powi (- 29)"
      by (rule power_int_increasing) (simp_all add: emin_def dec_prec_def)
    finally show ?thesis by (simp add: add_increasing)
  qed
  moreover have "(10 :: rat) powi (- 29) = 1 / 10 ^ 29"
    by (simp add: power_int_def power_divide)
  ultimately have "dec_ulp dec_prec q \<le> \<bar>q\<bar> / 10 ^ 27 + 1 / 10 ^ 29" by (simp add: base)
  with dec_round_error [OF assms] show ?thesis by (simp add: eps_def field_simps)
qed

lemma abs_triangle_sum3: "\<bar>a + (b + c)\<bar> \<le> \<bar>a\<bar> + (\<bar>b\<bar> + \<bar>c\<bar> :: rat)"
  using abs_triangle_ineq [of a "b + c"] abs_triangle_ineq [of b c] by linarith

theorem percent_change_accuracy:
  assumes "percent_change current reference = Inr percent" and "0 \<le> current" and "0 < reference"
  shows "\<bar>percent - (current / reference - 1) * 100\<bar> \<le> (current / reference + 1) / (2 * 10 ^ 24)"
proof -
  define x where "x = current / reference"
  from assms(1) obtain r d where r: "dec_round dec_prec x = Inr r"
    and d: "dec_round dec_prec (r - 1) = Inr d" and p: "dec_round dec_prec (d * 100) = Inr percent"
    by (auto simp: percent_change_def res_simps dec_div_nonzero_Inr dec_sub_def dec_mul_def x_def)
  have x: "0 \<le> x" using assms(2,3) by (simp add: x_def)
  have e1: "\<bar>r - x\<bar> \<le> eps * x + eps / 100" using dec_round_error_eps [OF r] x by simp
  have e2: "\<bar>d - (r - 1)\<bar> \<le> eps * \<bar>r - 1\<bar> + eps / 100" by (rule dec_round_error_eps [OF d])
  have e3: "\<bar>percent - d * 100\<bar> \<le> eps * \<bar>d * 100\<bar> + eps / 100" by (rule dec_round_error_eps [OF p])
  have small: "eps \<le> 1 / 100" "0 < eps" by (simp_all add: eps_def)
  have ex: "eps * x \<le> x / 100" using small x mult_right_mono [of eps "1/100" x] by simp
  have r1: "\<bar>r - 1\<bar> \<le> x + x / 100 + 2" using e1 ex small by linarith
  have er: "eps * \<bar>r - 1\<bar> \<le> eps * (x + x / 100 + 2)"
    using r1 small by (intro mult_left_mono) simp_all
  have er2: "eps * \<bar>r - 1\<bar> \<le> (x + x / 100 + 2) / 100"
    using r1 small mult_mono [of eps "1/100" "\<bar>r - 1\<bar>" "x + x / 100 + 2"] x by simp
  have "\<bar>d - (r - 1)\<bar> \<le> (x + x / 100 + 2) / 100 + eps / 100"
    using e2 er2 by (rule order_trans [OF _ add_right_mono])
  then have "\<bar>d - (r - 1)\<bar> + \<bar>r - 1\<bar> \<le> ((x + x / 100 + 2) / 100 + eps / 100) + (x + x / 100 + 2)"
    using r1 by (rule add_mono)
  moreover have "\<bar>d\<bar> \<le> \<bar>d - (r - 1)\<bar> + \<bar>r - 1\<bar>" by linarith
  ultimately have "\<bar>d\<bar> \<le> ((x + x / 100 + 2) / 100 + eps / 100) + (x + x / 100 + 2)"
    by (rule order_trans [rotated])
  also have "\<dots> \<le> 2 * x + 3" using small x by (simp add: add_divide_distrib)
  finally have d1: "\<bar>d\<bar> \<le> 2 * x + 3" .
  have ed: "eps * \<bar>d * 100\<bar> \<le> eps * ((2 * x + 3) * 100)"
    using d1 small by (intro mult_left_mono) (simp_all add: abs_mult)
  have "percent - (x - 1) * 100 = (percent - d * 100) + ((d - (r - 1)) * 100 + (r - x) * 100)"
    by (simp add: algebra_simps)
  then have "\<bar>percent - (x - 1) * 100\<bar>
      \<le> \<bar>percent - d * 100\<bar> + (\<bar>(d - (r - 1)) * 100\<bar> + \<bar>(r - x) * 100\<bar>)"
    using abs_triangle_sum3 [of "percent - d * 100" "(d - (r - 1)) * 100" "(r - x) * 100"] by simp
  also have "\<dots> \<le> (eps * ((2 * x + 3) * 100) + eps / 100)
      + ((eps * (x + x / 100 + 2) + eps / 100) * 100 + (eps * x + eps / 100) * 100)"
  proof (intro add_mono)
    show "\<bar>percent - d * 100\<bar> \<le> eps * ((2 * x + 3) * 100) + eps / 100"
      using e3 ed by (rule order_trans [OF _ add_right_mono])
    have "\<bar>d - (r - 1)\<bar> \<le> eps * (x + x / 100 + 2) + eps / 100"
      using e2 er by (rule order_trans [OF _ add_right_mono])
    then show "\<bar>(d - (r - 1)) * 100\<bar> \<le> (eps * (x + x / 100 + 2) + eps / 100) * 100"
      by (simp add: abs_mult)
    show "\<bar>(r - x) * 100\<bar> \<le> (eps * x + eps / 100) * 100"
      using e1 by (simp add: abs_mult)
  qed
  also have "\<dots> = eps * (401 * x + 100 * 5 + 2 + 1 / 100)"
    by (simp add: field_simps)
  also have "\<dots> \<le> eps * (400 * 2 * (x + 1))"
    using x small by (intro mult_left_mono) simp_all
  also have "\<dots> = (x + 1) * (400 / 10 ^ 27)" by (simp add: eps_def field_simps)
  also have "\<dots> \<le> (x + 1) * (1 / (2 * 10 ^ 24))"
    using x by (intro mult_left_mono) simp_all
  finally show ?thesis by (simp add: x_def)
qed

subsection \<open>Dividends and distributions\<close>

definition annualize_dividend ::
  "dividend_event \<Rightarrow> num_arg \<Rightarrow> int \<Rightarrow> string \<Rightarrow> dividend_metric result" where
  "annualize_dividend event current_price periods_per_year meth =
     res_bind (decimal current_price) (\<lambda>current_price.
     raise_if (current_price \<le> 0) (ValueError ''current price must be positive'')
     (raise_if (de_event_type event \<noteq> ''regular_cash'')
       (ValueError ''only regular cash dividends may be annualized'')
     (res_bind (dec_mul (de_amount event) (of_int periods_per_year)) (\<lambda>annual.
      res_bind (dec_div annual current_price) (\<lambda>fraction.
      res_bind (dec_mul fraction 100) (\<lambda>yield_percent.
      mk_dividend_metric (NumFinite yield_percent) (de_ex_date event) (de_payment_date event)
        (NumFinite (de_amount event)) (de_currency event) (de_frequency event) meth
        (de_provider event)))))))"

definition quarterly_dividend :: "dividend_event \<Rightarrow> num_arg \<Rightarrow> dividend_metric result" where
  "quarterly_dividend event current_price =
     annualize_dividend event current_price 4 ''latest_regular_cash_annualized_x4''"

definition qqqm_dividend :: "dividend_event \<Rightarrow> num_arg \<Rightarrow> dividend_metric result" where
  "qqqm_dividend event current_price = quarterly_dividend event current_price"

definition sgov_yield :: "dividend_event \<Rightarrow> num_arg \<Rightarrow> dt_arg \<Rightarrow> yield_estimate result" where
  "sgov_yield event current_price as_of =
     res_bind (annualize_dividend event current_price 12 ''latest_distribution_annualized'')
       (\<lambda>dividend.
     res_bind (decimal current_price) (\<lambda>price.
     mk_yield_estimate (NumFinite (dm_yield_percent dividend)) as_of
       ''latest_distribution_annualized'' (de_provider event) False
       [(''latest_distribution'', FloatOf (de_amount event)), (''periods_per_year'', IntVal 12),
        (''price'', FloatOf price), (''ex_date'', IsoDate (de_ex_date event))]
       None None None None False None None [] 0))"

subsection \<open>Treasury proxies\<close>

definition BOXX_NET_EXPENSE_PERCENT :: decimal where
  "BOXX_NET_EXPENSE_PERCENT = 1949 / 10000"

definition boxx_yield :: "yield_metric \<Rightarrow> yield_estimate result" where
  "boxx_yield metric =
     (let already_derived = (ym_method metric = ''treasury_3m_proxy_minus_expense'') in
      res_bind (if already_derived then Inr (ym_value metric)
                else dec_sub (ym_value metric) BOXX_NET_EXPENSE_PERCENT) (\<lambda>value.
      res_bind (if already_derived \<and> ym_components metric \<noteq> []
                then Inr (sc_price (hd (ym_components metric)))
                else if already_derived
                then dec_add (ym_value metric) BOXX_NET_EXPENSE_PERCENT
                else Inr (ym_value metric)) (\<lambda>treasury_value.
      mk_yield_estimate (NumFinite value) (Aware (ym_as_of metric))
        ''treasury_3m_proxy_minus_expense'' (ym_provider metric) True
        [(''fred_series'', Text ''DGS3MO''), (''treasury_3m_percent'', FloatOf treasury_value),
         (''net_expense_percent'', FloatOf BOXX_NET_EXPENSE_PERCENT)]
        None None None None False None None (ym_components metric) (ym_fallback_level metric))))"

definition treasury_proxy_yield :: "yield_metric \<Rightarrow> yield_estimate result" where
  "treasury_proxy_yield metric =
     raise_if (ym_method metric \<noteq> ''treasury_series_proxy_minus_expense'')
       (ValueError ''generic Treasury proxy metric has an unexpected method'')
     (case ym_components metric of
        [] \<Rightarrow> Inl (ValueError ''generic Treasury proxy metric is missing its FRED component'')
      | component # _ \<Rightarrow>
          res_bind (dec_sub (sc_price component) (ym_value metric)) (\<lambda>expense.
          raise_if (expense < 0) (ValueError ''generic Treasury proxy expense cannot be negative'')
          (mk_yield_estimate (NumFinite (ym_value metric)) (Aware (ym_as_of metric))
             (ym_method metric) (ym_provider metric) True
             [(''fred_series'', Text (sc_symbol component)),
              (''treasury_percent'', FloatOf (sc_price component)),
              (''net_expense_percent'', FloatOf expense)]
             None None None None False None None (ym_components metric)
             (ym_fallback_level metric))))"

subsection \<open>Staking\<close>

text \<open>
  \<^verbatim>\<open>localcontext\<close> with precision 40 around the annualisation. The transcendental
  operations \<^verbatim>\<open>Decimal.ln\<close> and \<^verbatim>\<open>Decimal.exp\<close> at that precision are arguments. The elapsed
  time is the exact decimal of \<^verbatim>\<open>total_seconds()\<close>.
\<close>

definition staking_prec :: nat where "staking_prec = 40"

definition seconds_per_year :: decimal where "seconds_per_year = 365 * 24 * 60 * 60"

definition annualize_index_growth ::
  "(decimal \<Rightarrow> decimal result) \<Rightarrow> (decimal \<Rightarrow> decimal result) \<Rightarrow> accrual_index_point \<Rightarrow>
   accrual_index_point \<Rightarrow> yield_rate_type \<Rightarrow> (decimal \<times> decimal) result" where
  "annualize_index_growth ln40 exp40 reference current rate_type =
     raise_if (ai_symbol reference \<noteq> ai_symbol current)
       (ValueError ''accrual index symbols must match'')
     (raise_if (ai_underlying_asset reference \<noteq> ai_underlying_asset current)
       (ValueError ''accrual index underlying assets must match'')
     (let elapsed_seconds = of_int (ai_as_of current - ai_as_of reference) / of_int second in
      raise_if (elapsed_seconds \<le> 0)
        (ValueError ''current accrual index must be newer than the reference'')
      (res_bind (dec_div (ai_value current) (ai_value reference)) (\<lambda>growth.
       res_bind (dec_div seconds_per_year elapsed_seconds) (\<lambda>factor.
       res_bind (case rate_type of
                   APY \<Rightarrow> res_bind (ln40 growth) (\<lambda>l.
                          res_bind (dec_round staking_prec (l * factor)) (\<lambda>y.
                          res_bind (exp40 y) (\<lambda>g. dec_round staking_prec (g - 1))))
                 | APR \<Rightarrow> res_bind (dec_round staking_prec (growth - 1)) (\<lambda>g.
                          dec_round staking_prec (g * factor))) (\<lambda>annual_growth.
       res_bind (dec_round staking_prec (annual_growth * 100)) (\<lambda>p.
       res_bind (decimal (NumFinite p)) (\<lambda>percent.
       res_bind (dec_round staking_prec (elapsed_seconds / 86400)) (\<lambda>w.
       res_bind (decimal (NumFinite w)) (\<lambda>window_days.
       Inr (percent, window_days)))))))))))"

definition estimate_from_staking_metric :: "yield_metric \<Rightarrow> yield_estimate result" where
  "estimate_from_staking_metric metric =
     raise_if (ym_accrual_mode metric = None)
       (ValueError ''staking yield metrics require an accrual mode'')
     (raise_if (ym_rate_type metric = None)
       (ValueError ''staking yield metrics require an APR or APY rate type'')
     (let inputs = (case ym_accrual_index metric of
                      None \<Rightarrow> []
                    | Some i \<Rightarrow> [(''accrual_index'', FloatOf (ai_value i)),
                                (''accrual_index_as_of'', IsoInstant (ai_as_of i)),
                                (''accrual_index_kind'', Text (ai_kind i))])
      in mk_yield_estimate (NumFinite (ym_value metric)) (Aware (ym_as_of metric))
           (ym_method metric) (ym_provider metric) (ym_is_proxy metric) inputs
           (map_option Member (ym_rate_type metric))
           (map_option NumFinite (ym_observation_window_days metric))
           (map_option Member (ym_accrual_mode metric)) (ym_underlying_asset metric)
           (ym_is_estimate metric) (ym_accrual_index metric) (ym_quality metric)
           (ym_components metric) (ym_fallback_level metric)))"

definition requires_staking_yield :: "reward_accrual_mode option \<Rightarrow> bool" where
  "requires_staking_yield accrual_mode \<longleftrightarrow> accrual_mode \<noteq> None"

end
