(* ===== verification/QP_History.thy ===== *)
theory QP_History
  imports QP_Graph QP_Analytics
begin

text \<open>
  \<^verbatim>\<open>HistoryCache\<close> of \<^verbatim>\<open>quickprice/cache.py\<close>: three rings of price points per symbol (one
  minute, five minutes, daily), virtual synthetic histories derived from component rings,
  and the minute-local cache of rolling references. One re-entrant lock guards every
  method, so the methods are the atomic steps of the component.

  A Python \<^verbatim>\<open>set\<close> whose iteration order does not matter is a list without duplicates.
  Rebuilding a \<^verbatim>\<open>PricePoint\<close> from a valid one with another timestamp or interval cannot
  raise and is a record update; points built from a computed price go through the
  constructor and may raise.
\<close>

subsection \<open>State\<close>

record synthetic_recipe =
  sr_inputs :: "string list"
  sr_operation :: string
  sr_max_skew :: duration
  sr_provider :: string

definition floor_minute :: "instant \<Rightarrow> instant" where
  "floor_minute t = t - t mod minute"

record reference_entry =
  re_as_of :: instant
  re_references :: "(string, price_point option) dict"

definition re_minute :: "reference_entry \<Rightarrow> instant" where
  "re_minute e = floor_minute (re_as_of e)"

type_synonym rings = "(string, price_point list) dict"

record history_cache =
  one_minute :: rings
  five_minute :: rings
  daily :: rings
  reference_cache :: "(string, reference_entry) dict"
  synthetic_recipes :: "(string, synthetic_recipe) dict"
  synthetic_dependents :: "(string, string list) dict"

definition empty_history :: history_cache where
  "empty_history = \<lparr>one_minute = [], five_minute = [], daily = [], reference_cache = [],
     synthetic_recipes = [], synthetic_dependents = []\<rparr>"

definition ONE_MINUTE_RETENTION :: duration where "ONE_MINUTE_RETENTION = 48 * hour"
definition FIVE_MINUTE_RETENTION :: duration where "FIVE_MINUTE_RETENTION = 45 * day"
definition DAILY_RETENTION :: duration where "DAILY_RETENTION = 400 * day"

lemmas retention_defs = ONE_MINUTE_RETENTION_def FIVE_MINUTE_RETENTION_def DAILY_RETENTION_def

definition recipe_graph :: "(string, synthetic_recipe) dict \<Rightarrow> string graph" where
  "recipe_graph recipes = map (\<lambda>(s, r). (s, sr_inputs r)) recipes"

subsection \<open>Rings\<close>

text \<open>\<^verbatim>\<open>timestamp.replace(minute=..., second=0, microsecond=0)\<close> on a UTC instant.\<close>

definition bucket_of :: "instant \<Rightarrow> int \<Rightarrow> instant" where
  "bucket_of timestamp minutes =
     (let m = timestamp div minute mod 60 in (timestamp div minute - m mod minutes) * minute)"

definition points_by_time :: "price_point list \<Rightarrow> (instant, price_point) dict" where
  "points_by_time ps = fold (\<lambda>p d. dict_set (pp_timestamp p) p d) ps []"

text \<open>\<^verbatim>\<open>[values[key] for key in sorted(values)]\<close>.\<close>

definition in_key_order :: "(instant, 'a) dict \<Rightarrow> 'a list" where
  "in_key_order d = map (\<lambda>k. the (dict_get d k)) (sort (dict_keys d))"

definition upsert_bucket :: "price_point list \<Rightarrow> price_point \<Rightarrow> instant \<Rightarrow> price_point list" where
  "upsert_bucket target point bucket =
     (let bucketed = point\<lparr>pp_timestamp := bucket\<rparr> in
      if target \<noteq> [] \<and> pp_timestamp (last target) = bucket then butlast target @ [bucketed]
      else if target = [] \<or> pp_timestamp (last target) < bucket then target @ [bucketed]
      else in_key_order (dict_set bucket bucketed (points_by_time target)))"

definition replace_ring :: "rings \<Rightarrow> string \<Rightarrow> price_point list \<Rightarrow> rings" where
  "replace_ring rings symbol points =
     (if points \<noteq> [] then dict_set symbol points rings else dict_pop symbol rings)"

definition prune_ring :: "rings \<Rightarrow> string \<Rightarrow> instant \<Rightarrow> rings \<times> nat" where
  "prune_ring rings symbol cutoff =
     (case dict_get rings symbol of
        None \<Rightarrow> (rings, 0)
      | Some ring \<Rightarrow>
          (let kept = dropWhile (\<lambda>p. pp_timestamp p < cutoff) ring
           in (if kept = [] then dict_pop symbol rings else dict_set symbol kept rings,
               length ring - length kept)))"

definition latest_at_or_before :: "price_point list option \<Rightarrow> instant \<Rightarrow> price_point option" where
  "latest_at_or_before ring cutoff =
     (case ring of None \<Rightarrow> None | Some r \<Rightarrow> find_last (\<lambda>p. pp_timestamp p \<le> cutoff) r)"

subsection \<open>Invalidation and pruning\<close>

definition drop_reference ::
  "instant option \<Rightarrow> string \<Rightarrow> (string, reference_entry) dict \<Rightarrow> (string, reference_entry) dict" where
  "drop_reference timestamp symbol refs =
     (case timestamp of
        None \<Rightarrow> dict_pop symbol refs
      | Some t \<Rightarrow>
          (case dict_get refs symbol of
             None \<Rightarrow> refs
           | Some cached \<Rightarrow> if t \<le> re_as_of cached - hour then dict_pop symbol refs else refs))"

text \<open>
  The recursion over \<^verbatim>\<open>_synthetic_dependents\<close> with its \<^verbatim>\<open>visited\<close> set visits every
  symbol reachable from the start once; each visit touches only that symbol's entry.
\<close>

definition invalidate_references :: "string \<Rightarrow> instant option \<Rightarrow> history_cache \<Rightarrow> history_cache" where
  "invalidate_references symbol timestamp hc =
     hc\<lparr>reference_cache :=
       fold (drop_reference timestamp) (dfs_collect (synthetic_dependents hc) [symbol] [])
         (reference_cache hc)\<rparr>"

definition prune_symbol :: "string \<Rightarrow> instant \<Rightarrow> history_cache \<Rightarrow> history_cache \<times> nat" where
  "prune_symbol symbol now hc =
     (let (one, n1) = prune_ring (one_minute hc) symbol (now - ONE_MINUTE_RETENTION);
          (five, n2) = prune_ring (five_minute hc) symbol (now - FIVE_MINUTE_RETENTION);
          (dly, n3) = prune_ring (daily hc) symbol (now - DAILY_RETENTION);
          hc' = hc\<lparr>one_minute := one, five_minute := five, daily := dly\<rparr>;
          removed = n1 + n2 + n3
      in (if removed \<noteq> 0 then invalidate_references symbol None hc' else hc', removed))"

definition ring_symbols :: "history_cache \<Rightarrow> string list" where
  "ring_symbols hc =
     remdups (dict_keys (one_minute hc) @ dict_keys (five_minute hc) @ dict_keys (daily hc))"

definition prune_history :: "instant \<Rightarrow> history_cache \<Rightarrow> history_cache \<times> nat" where
  "prune_history now hc =
     fold (\<lambda>symbol (hc, total). let (hc', n) = prune_symbol symbol now hc in (hc', total + n))
       (ring_symbols hc) (hc, 0)"

subsection \<open>Adding and loading points\<close>

definition add_point :: "price_point \<Rightarrow> history_cache \<Rightarrow> history_cache result" where
  "add_point point hc =
     res_bind
       (if pp_interval point = ''1d'' then
          Inr (hc\<lparr>daily := dict_set (pp_symbol point)
            (upsert_bucket (dict_list (daily hc) (pp_symbol point)) point (pp_timestamp point))
            (daily hc)\<rparr>)
        else if pp_interval point = ''5m'' then
          Inr (hc\<lparr>five_minute := dict_set (pp_symbol point)
            (upsert_bucket (dict_list (five_minute hc) (pp_symbol point)) point
              (bucket_of (pp_timestamp point) 5)) (five_minute hc)\<rparr>)
        else if pp_interval point = ''1m'' then
          Inr (hc\<lparr>one_minute := dict_set (pp_symbol point)
                (upsert_bucket (dict_list (one_minute hc) (pp_symbol point)) point
                  (bucket_of (pp_timestamp point) 1)) (one_minute hc),
               five_minute := dict_set (pp_symbol point)
                (upsert_bucket (dict_list (five_minute hc) (pp_symbol point))
                  (point\<lparr>pp_interval := ''5m''\<rparr>)
                  (bucket_of (pp_timestamp point) 5)) (five_minute hc)\<rparr>)
        else Inl (ValueError ''unsupported history interval: ''))
       (\<lambda>hc1.
          let (hc2, _) = prune_symbol (pp_symbol point) (pp_timestamp point) hc1
          in Inr (invalidate_references (pp_symbol point) (Some (pp_timestamp point)) hc2))"

text \<open>The bootstrap dictionaries of \<^verbatim>\<open>load\<close>: per symbol, bucket to point; later points win.\<close>

type_synonym incoming = "(string, (instant, price_point) dict) dict"

record incoming_rings =
  in_one :: incoming
  in_five :: incoming
  in_daily :: incoming

definition incoming_put :: "string \<Rightarrow> instant \<Rightarrow> price_point \<Rightarrow> incoming \<Rightarrow> incoming" where
  "incoming_put symbol t p d = dict_set symbol (dict_set t p (dict_list d symbol)) d"

definition load_point :: "price_point \<Rightarrow> incoming_rings \<Rightarrow> incoming_rings result" where
  "load_point point inc =
     (let symbol = pp_symbol point;
          one_bucket = bucket_of (pp_timestamp point) 1;
          five_bucket = bucket_of (pp_timestamp point) 5;
          five_point = point\<lparr>pp_timestamp := five_bucket, pp_interval := ''5m''\<rparr>
      in if pp_interval point = ''1d'' then
           Inr (inc\<lparr>in_daily := incoming_put symbol (pp_timestamp point) point (in_daily inc)\<rparr>)
         else if pp_interval point = ''1m'' then
           Inr (inc\<lparr>in_one := incoming_put symbol one_bucket
                       (point\<lparr>pp_timestamp := one_bucket\<rparr>) (in_one inc),
                    in_five := incoming_put symbol five_bucket five_point (in_five inc)\<rparr>)
         else if pp_interval point \<noteq> ''5m'' then
           Inl (ValueError ''unsupported history interval: '')
         else Inr (inc\<lparr>in_five := incoming_put symbol five_bucket five_point (in_five inc)\<rparr>))"

fun load_points :: "price_point list \<Rightarrow> incoming_rings \<Rightarrow> incoming_rings result" where
  "load_points [] inc = Inr inc"
| "load_points (p # ps) inc = res_bind (load_point p inc) (load_points ps)"

text \<open>Existing ring entries win an exact bucket collision.\<close>

definition merge_ring :: "(instant, price_point) dict \<Rightarrow> price_point list \<Rightarrow> (instant, price_point) dict" where
  "merge_ring incoming ring = fold (\<lambda>p d. dict_set (pp_timestamp p) p d) ring incoming"

definition kept_from :: "instant \<Rightarrow> (instant, price_point) dict \<Rightarrow> price_point list" where
  "kept_from cutoff d = map (\<lambda>k. the (dict_get d k)) (filter (\<lambda>k. cutoff \<le> k) (sort (dict_keys d)))"

definition load_symbol :: "incoming_rings \<Rightarrow> string \<Rightarrow> history_cache \<Rightarrow> history_cache" where
  "load_symbol inc symbol hc =
     (let hc1 = invalidate_references symbol None hc;
          one = merge_ring (dict_list (in_one inc) symbol) (dict_list (one_minute hc1) symbol);
          five = merge_ring (dict_list (in_five inc) symbol) (dict_list (five_minute hc1) symbol);
          dly = merge_ring (dict_list (in_daily inc) symbol) (dict_list (daily hc1) symbol);
          latest = Max (set (dict_keys one @ dict_keys five @ dict_keys dly))
      in hc1\<lparr>one_minute := replace_ring (one_minute hc1) symbol
                (kept_from (latest - ONE_MINUTE_RETENTION) one),
             five_minute := replace_ring (five_minute hc1) symbol
                (kept_from (latest - FIVE_MINUTE_RETENTION) five),
             daily := replace_ring (daily hc1) symbol
                (kept_from (latest - DAILY_RETENTION) dly)\<rparr>)"

definition load_history :: "price_point list \<Rightarrow> history_cache \<Rightarrow> history_cache result" where
  "load_history points hc =
     (if points = [] then Inr hc
      else res_bind (load_points (sort_key pp_timestamp points)
                       \<lparr>in_one = [], in_five = [], in_daily = []\<rparr>) (\<lambda>inc.
        Inr (fold (load_symbol inc)
          (remdups (dict_keys (in_one inc) @ dict_keys (in_five inc) @ dict_keys (in_daily inc)))
          hc)))"

subsection \<open>Reading\<close>

definition points_for :: "string \<Rightarrow> history_cache \<Rightarrow> price_point list" where
  "points_for symbol hc =
     (let one = dict_list (one_minute hc) symbol;
          five = dict_list (five_minute hc) symbol;
          merged = dict_list (daily hc) symbol;
          merged = (if five \<noteq> [] then
            filter (\<lambda>p. pp_timestamp p < pp_timestamp (hd five)) merged @ five else merged);
          merged = (if one \<noteq> [] then
            filter (\<lambda>p. pp_timestamp p < pp_timestamp (hd one)) merged @ one else merged)
      in merged)"

definition points_for_interval :: "string \<Rightarrow> string \<Rightarrow> history_cache \<Rightarrow> price_point list result" where
  "points_for_interval symbol interval hc =
     (if interval = ''1m'' then Inr (dict_list (one_minute hc) symbol)
      else if interval = ''5m'' then Inr (dict_list (five_minute hc) symbol)
      else if interval = ''1d'' then Inr (dict_list (daily hc) symbol)
      else Inl (ValueError ''unsupported history interval: ''))"

definition history_sizes :: "history_cache \<Rightarrow> (string, (string, nat) dict) dict" where
  "history_sizes hc =
     map (\<lambda>s. (s, [(''1m'', length (dict_list (one_minute hc) s)),
                   (''5m'', length (dict_list (five_minute hc) s)),
                   (''1d'', length (dict_list (daily hc) s))])) (ring_symbols hc)"

subsection \<open>Synthetic histories\<close>

definition set_add :: "'a \<Rightarrow> 'a list \<Rightarrow> 'a list" where
  "set_add x xs = (if x \<in> set xs then xs else xs @ [x])"

lemma set_set_add [simp]: "set (set_add x xs) = insert x (set xs)"
  by (auto simp: set_add_def)

definition register_synthetic_history ::
  "string \<Rightarrow> string list \<Rightarrow> string \<Rightarrow> duration \<Rightarrow> string \<Rightarrow> history_cache \<Rightarrow> history_cache result" where
  "register_synthetic_history symbol inputs operation max_skew provider hc =
     (let expected = (if operation = ''inverse'' then 1 else 2);
          recipe = \<lparr>sr_inputs = inputs, sr_operation = operation, sr_max_skew = max_skew,
                    sr_provider = provider\<rparr>;
          current = dict_get (synthetic_recipes hc) symbol
      in raise_if (operation \<notin> {''inverse'', ''multiply'', ''divide''} \<or> length inputs \<noteq> expected)
           (ValueError ''invalid synthetic history recipe'')
         (raise_if (max_skew < 0)
           (ValueError ''synthetic history maximum skew cannot be negative'')
         (raise_if (\<exists>d \<in> set inputs. reaches (recipe_graph (synthetic_recipes hc)) symbol [d] [])
           (ValueError ''synthetic history recipes cannot contain a dependency cycle'')
         (if current = Some recipe then Inr hc
          else
            let deps1 = (case current of
                   None \<Rightarrow> synthetic_dependents hc
                 | Some r \<Rightarrow> fold (\<lambda>d ds. dict_set d (removeAll symbol (dict_list ds d)) ds)
                     (sr_inputs r) (synthetic_dependents hc));
                deps2 = fold (\<lambda>d ds. dict_set d (set_add symbol (dict_list ds d)) ds) inputs deps1
            in Inr (invalidate_references symbol None
                 (hc\<lparr>synthetic_recipes := dict_set symbol recipe (synthetic_recipes hc),
                     synthetic_dependents := deps2,
                     one_minute := dict_pop symbol (one_minute hc),
                     five_minute := dict_pop symbol (five_minute hc),
                     daily := dict_pop symbol (daily hc)\<rparr>))))))"

text \<open>\<^verbatim>\<open>retain_symbols\<close>: the closure of the active symbols, then the two eviction loops.\<close>

definition drop_dependent :: "string \<Rightarrow> string \<Rightarrow> (string, string list) dict \<Rightarrow> (string, string list) dict" where
  "drop_dependent symbol d deps =
     (case dict_get deps d of
        None \<Rightarrow> deps
      | Some ss \<Rightarrow>
          (let rest = removeAll symbol ss
           in if rest = [] then dict_pop d deps else dict_set d rest deps))"

definition drop_recipe :: "string \<Rightarrow> history_cache \<Rightarrow> history_cache" where
  "drop_recipe symbol hc =
     (case dict_get (synthetic_recipes hc) symbol of
        None \<Rightarrow> hc
      | Some recipe \<Rightarrow>
          hc\<lparr>synthetic_recipes := dict_pop symbol (synthetic_recipes hc),
             reference_cache := dict_pop symbol (reference_cache hc),
             synthetic_dependents :=
               fold (drop_dependent symbol) (sr_inputs recipe) (synthetic_dependents hc)\<rparr>)"

definition drop_rings :: "string \<Rightarrow> history_cache \<Rightarrow> history_cache" where
  "drop_rings symbol hc =
     hc\<lparr>one_minute := dict_pop symbol (one_minute hc),
        five_minute := dict_pop symbol (five_minute hc),
        daily := dict_pop symbol (daily hc),
        reference_cache := dict_pop symbol (reference_cache hc)\<rparr>"

definition ring_total :: "history_cache \<Rightarrow> string \<Rightarrow> nat" where
  "ring_total hc s = length (dict_list (one_minute hc) s) + length (dict_list (five_minute hc) s)
     + length (dict_list (daily hc) s)"

definition retain_history_symbols :: "string list \<Rightarrow> history_cache \<Rightarrow> history_cache \<times> nat" where
  "retain_history_symbols symbols hc =
     (let requested = remdups symbols;
          retained = close_pending (recipe_graph (synthetic_recipes hc)) requested (rev requested);
          gone = filter (\<lambda>s. s \<notin> set retained) (ring_symbols hc);
          hc1 = fold drop_rings gone hc;
          hc2 = fold drop_recipe
                  (filter (\<lambda>s. s \<notin> set retained) (dict_keys (synthetic_recipes hc1))) hc1
      in (hc2, sum_list (map (ring_total hc) gone)))"

subsection \<open>References\<close>

definition recipe_price :: "string \<Rightarrow> decimal \<Rightarrow> decimal \<Rightarrow> decimal result" where
  "recipe_price operation left right =
     (if operation = ''multiply'' then dec_mul left right else dec_div left right)"

fun inverse_reference ::
  "string \<Rightarrow> synthetic_recipe \<Rightarrow> string \<Rightarrow> price_point list \<Rightarrow> price_point option result" where
  "inverse_reference symbol recipe interval [] = Inr None"
| "inverse_reference symbol recipe interval (left # rest) =
     (case dec_div 1 (pp_price left) of
        Inl _ \<Rightarrow> inverse_reference symbol recipe interval rest
      | Inr price \<Rightarrow>
          if 0 < price then
            res_bind (mk_price_point symbol (Aware (pp_timestamp left)) (NumFinite price)
              (sr_provider recipe) True interval) (\<lambda>p. Inr (Some p))
          else inverse_reference symbol recipe interval rest)"

text \<open>
  The pairing loop: the right iterator only moves towards older points; running out of
  right points leaves the loop.
\<close>

fun pair_reference ::
  "string \<Rightarrow> synthetic_recipe \<Rightarrow> string \<Rightarrow> price_point list \<Rightarrow> price_point list \<Rightarrow>
   price_point option result" where
  "pair_reference symbol recipe interval [] rights = Inr None"
| "pair_reference symbol recipe interval (left # rest) rights =
     (let rights' = dropWhile (\<lambda>r. pp_timestamp left < pp_timestamp r) rights
      in case rights' of
           [] \<Rightarrow> Inr None
         | right # _ \<Rightarrow>
             if sr_max_skew recipe < pp_timestamp left - pp_timestamp right
             then pair_reference symbol recipe interval rest rights'
             else (case recipe_price (sr_operation recipe) (pp_price left) (pp_price right) of
                     Inl _ \<Rightarrow> pair_reference symbol recipe interval rest rights'
                   | Inr price \<Rightarrow>
                       if price \<le> 0 then pair_reference symbol recipe interval rest rights'
                       else res_bind (mk_price_point symbol (Aware (pp_timestamp left))
                              (NumFinite price) (sr_provider recipe) True interval)
                              (\<lambda>p. Inr (Some p))))"

definition synthetic_reference_in ::
  "string \<Rightarrow> synthetic_recipe \<Rightarrow> instant \<Rightarrow> string \<Rightarrow> rings \<Rightarrow> price_point option result" where
  "synthetic_reference_in symbol recipe cutoff interval rings =
     (let left_ring = dict_list rings (sr_inputs recipe ! 0);
          eligible = filter (\<lambda>p. pp_timestamp p \<le> cutoff) (rev left_ring)
      in if left_ring = [] then Inr None
         else if sr_operation recipe = ''inverse'' then
           inverse_reference symbol recipe interval eligible
         else
           let right_ring = dict_list rings (sr_inputs recipe ! 1)
           in if right_ring = [] then Inr None
              else pair_reference symbol recipe interval eligible (rev right_ring))"

definition first_found :: "'a option result \<Rightarrow> 'a option result \<Rightarrow> 'a option result" where
  "first_found a b = res_bind a (\<lambda>x. case x of None \<Rightarrow> b | Some y \<Rightarrow> Inr (Some y))"

definition synthetic_reference_at ::
  "string \<Rightarrow> synthetic_recipe \<Rightarrow> instant \<Rightarrow> history_cache \<Rightarrow> price_point option result" where
  "synthetic_reference_at symbol recipe cutoff hc =
     first_found (synthetic_reference_in symbol recipe cutoff ''1m'' (one_minute hc))
       (first_found (synthetic_reference_in symbol recipe cutoff ''5m'' (five_minute hc))
         (synthetic_reference_in symbol recipe cutoff ''1d'' (daily hc)))"

definition reference_at :: "string \<Rightarrow> instant \<Rightarrow> history_cache \<Rightarrow> price_point option result" where
  "reference_at symbol cutoff hc =
     (case dict_get (synthetic_recipes hc) symbol of
        Some recipe \<Rightarrow> synthetic_reference_at symbol recipe cutoff hc
      | None \<Rightarrow>
          (let one = dict_list (one_minute hc) symbol; five = dict_list (five_minute hc) symbol
           in if one \<noteq> [] \<and> pp_timestamp (hd one) \<le> cutoff
              then Inr (latest_at_or_before (dict_get (one_minute hc) symbol) cutoff)
              else if five \<noteq> [] \<and> pp_timestamp (hd five) \<le> cutoff
              then Inr (latest_at_or_before (dict_get (five_minute hc) symbol) cutoff)
              else Inr (latest_at_or_before (dict_get (daily hc) symbol) cutoff)))"

definition compute_references ::
  "string \<Rightarrow> instant \<Rightarrow> history_cache \<Rightarrow> (string, price_point option) dict result" where
  "compute_references symbol as_of hc =
     res_map (\<lambda>(name, duration).
       res_bind (reference_at symbol (as_of - duration) hc) (\<lambda>r. Inr (name, r))) WINDOWS"

definition change_references ::
  "string \<Rightarrow> instant \<Rightarrow> history_cache \<Rightarrow>
   (history_cache \<times> (string, price_point option) dict) result" where
  "change_references symbol current_as_of hc =
     (case dict_get (reference_cache hc) symbol of
        Some cached \<Rightarrow>
          if re_minute cached = floor_minute current_as_of then Inr (hc, re_references cached)
          else res_bind (compute_references symbol current_as_of hc) (\<lambda>references.
                 Inr (hc\<lparr>reference_cache := dict_set symbol
                        \<lparr>re_as_of = current_as_of, re_references = references\<rparr>
                        (reference_cache hc)\<rparr>, references))
      | None \<Rightarrow> res_bind (compute_references symbol current_as_of hc) (\<lambda>references.
                 Inr (hc\<lparr>reference_cache := dict_set symbol
                        \<lparr>re_as_of = current_as_of, re_references = references\<rparr>
                        (reference_cache hc)\<rparr>, references)))"

end
