(* ===== verification/QP_History_Inv.thy ===== *)
theory QP_History_Inv
  imports QP_History
begin

text \<open>
  The invariant of the history cache and its preservation by every method: rings are
  non-empty, strictly increasing in time and aligned to their bucket width; the recipe
  graph is acyclic; the dependents index is the inverse of the recipes. The locale
  \<^verbatim>\<open>time_ring\<close> is the contract of one ring as a map from buckets to points.
\<close>

subsection \<open>Buckets\<close>

lemma bucket_of_eq:
  assumes "k dvd 60" and "0 < k"
  shows "bucket_of t k = t - t mod (minute * k)"
proof -
  define q where "q = t div minute"
  have "q mod 60 mod k = q mod k" using assms(1) by (rule mod_mod_cancel)
  then have "bucket_of t k = (q - q mod k) * minute"
    by (simp add: bucket_of_def Let_def q_def)
  also have "q - q mod k = t div (minute * k) * k"
    using assms(2) by (simp add: q_def minus_mod_eq_div_mult zdiv_zmult2_eq)
  also have "t div (minute * k) * k * minute = t - t mod (minute * k)"
    by (simp add: minus_mod_eq_div_mult algebra_simps)
  finally show ?thesis .
qed

lemma bucket_one: "bucket_of t 1 = t - t mod minute" and bucket_five: "bucket_of t 5 = t - t mod (5 * minute)"
  using bucket_of_eq [of 1 t] bucket_of_eq [of 5 t] by (simp_all add: mult.commute)

lemma bucket_one_minute: "bucket_of t 1 = floor_minute t"
  by (simp add: bucket_one floor_minute_def)

lemma bucket_aligned: "bucket_of t 1 mod minute = 0" "bucket_of t 5 mod (5 * minute) = 0"
  by (simp_all add: bucket_one bucket_five)

lemma bucket_bounds:
  "bucket_of t 1 \<le> t" "t < bucket_of t 1 + minute" "bucket_of t 5 \<le> t" "t < bucket_of t 5 + 5 * minute"
  by (simp_all add: bucket_one bucket_five minute_def)

subsection \<open>Dictionaries keyed by time\<close>

definition timed :: "(instant, price_point) dict \<Rightarrow> bool" where
  "timed d \<longleftrightarrow> dict_wf d \<and> (\<forall>k p. dict_get d k = Some p \<longrightarrow> pp_timestamp p = k)"

lemma timed_empty [simp]: "timed []"
  by (simp add: timed_def)

lemma timed_set: "timed d \<Longrightarrow> pp_timestamp p = k \<Longrightarrow> timed (dict_set k p d)"
  by (auto simp: timed_def dict_set_wf split: if_splits)

lemma timed_fold: "timed d \<Longrightarrow> timed (fold (\<lambda>p d. dict_set (pp_timestamp p) p d) ps d)"
  by (induction ps arbitrary: d) (auto simp: timed_set)

lemma timed_points_by_time: "timed (points_by_time ps)"
  unfolding points_by_time_def by (rule timed_fold) simp

lemma get_fold_set:
  "dict_get (fold (\<lambda>p d. dict_set (pp_timestamp p) p d) ps d) t =
     (case find_last (\<lambda>p. pp_timestamp p = t) ps of None \<Rightarrow> dict_get d t | Some p \<Rightarrow> Some p)"
  by (induction ps rule: rev_induct) auto

text \<open>The point of a ring at a bucket.\<close>

definition ring_at :: "price_point list \<Rightarrow> instant \<Rightarrow> price_point option" where
  "ring_at ring t = find_last (\<lambda>p. pp_timestamp p = t) ring"

lemma ring_at_Some_iff:
  assumes "strict_on pp_timestamp ring"
  shows "ring_at ring t = Some p \<longleftrightarrow> p \<in> set ring \<and> pp_timestamp p = t"
proof
  assume "ring_at ring t = Some p"
  then show "p \<in> set ring \<and> pp_timestamp p = t"
    unfolding ring_at_def by (rule find_last_SomeD)
next
  assume p: "p \<in> set ring \<and> pp_timestamp p = t"
  then obtain q where q: "ring_at ring t = Some q"
    by (cases "ring_at ring t") (auto simp: ring_at_def find_last_None_iff)
  then have "q \<in> set ring \<and> pp_timestamp q = t"
    unfolding ring_at_def by (rule find_last_SomeD)
  with p q strict_on_distinct [OF assms] show "ring_at ring t = Some p"
    by (metis distinct_map inj_onD)
qed

lemma ring_at_None_iff: "ring_at ring t = None \<longleftrightarrow> (\<forall>p \<in> set ring. pp_timestamp p \<noteq> t)"
  by (simp add: ring_at_def find_last_None_iff)

lemma timed_in_key_order_times: "timed d \<Longrightarrow> map pp_timestamp (in_key_order d) = sort (dict_keys d)"
proof -
  assume d: "timed d"
  have "pp_timestamp (the (dict_get d k)) = k" if "k \<in> set (dict_keys d)" for k
    using d that by (cases "dict_get d k") (auto simp: timed_def map_of_eq_None_iff)
  then show ?thesis unfolding in_key_order_def map_map comp_def by (intro map_idI) simp
qed

lemma strict_in_key_order: "timed d \<Longrightarrow> strict_on pp_timestamp (in_key_order d)"
  by (simp add: timed_in_key_order_times) (simp add: timed_def strict_sorted_iff)

lemma set_in_key_order_raw: "p \<in> set (in_key_order d) \<longleftrightarrow> (\<exists>k. dict_get d k = Some p)"
proof
  assume "p \<in> set (in_key_order d)"
  then obtain k where "k \<in> set (dict_keys d)" and "p = the (dict_get d k)"
    by (auto simp: in_key_order_def)
  then show "\<exists>k. dict_get d k = Some p"
    by (cases "dict_get d k") (auto simp: map_of_eq_None_iff)
next
  assume "\<exists>k. dict_get d k = Some p"
  then obtain k where k: "dict_get d k = Some p" ..
  then have "k \<in> set (dict_keys d)" by (metis map_of_eq_None_iff option.distinct(1) set_map)
  then have "the (dict_get d k) \<in> set (in_key_order d)" by (simp add: in_key_order_def)
  with k show "p \<in> set (in_key_order d)" by simp
qed

lemma option_eqI: "(\<And>x. a = Some x \<longleftrightarrow> b = Some x) \<Longrightarrow> a = b"
  by (metis option.exhaust)

lemma set_in_key_order: "timed d \<Longrightarrow> p \<in> set (in_key_order d) \<longleftrightarrow> dict_get d (pp_timestamp p) = Some p"
proof -
  assume d: "timed d"
  have "p \<in> set (in_key_order d) \<longleftrightarrow> (\<exists>k. dict_get d k = Some p)"
    by (rule set_in_key_order_raw)
  also have "\<dots> \<longleftrightarrow> dict_get d (pp_timestamp p) = Some p" using d by (auto simp: timed_def)
  finally show ?thesis .
qed

lemma ring_at_in_key_order: "timed d \<Longrightarrow> ring_at (in_key_order d) t = dict_get d t"
proof (rule option_eqI)
  fix p
  assume d: "timed d"
  show "ring_at (in_key_order d) t = Some p \<longleftrightarrow> dict_get d t = Some p"
    using d by (auto simp: ring_at_Some_iff [OF strict_in_key_order [OF d]] set_in_key_order timed_def)
qed

subsection \<open>One ring as a map from buckets to points\<close>

locale time_ring =
  fixes invar :: "'r \<Rightarrow> bool"
    and lookup :: "'r \<Rightarrow> instant \<Rightarrow> 'p option"
    and put :: "'r \<Rightarrow> 'p \<Rightarrow> instant \<Rightarrow> 'r"
    and stamp :: "'p \<Rightarrow> instant \<Rightarrow> 'p"
    and trim :: "instant \<Rightarrow> 'r \<Rightarrow> 'r"
  assumes invar_put: "invar r \<Longrightarrow> invar (put r p b)"
    and lookup_put: "invar r \<Longrightarrow> lookup (put r p b) = (lookup r)(b \<mapsto> stamp p b)"
    and invar_trim: "invar r \<Longrightarrow> invar (trim c r)"
    and lookup_trim: "invar r \<Longrightarrow> lookup (trim c r) t = (if c \<le> t then lookup r t else None)"
    and ext: "invar r \<Longrightarrow> invar r' \<Longrightarrow> lookup r = lookup r' \<Longrightarrow> r = r'"
begin

lemma put_again: "invar r \<Longrightarrow> put (put r p b) q b = put r q b"
  by (rule ext) (simp_all add: invar_put lookup_put)

lemma put_commute: "invar r \<Longrightarrow> b \<noteq> c \<Longrightarrow> put (put r p b) q c = put (put r q c) p b"
  by (rule ext) (simp_all add: invar_put lookup_put fun_upd_twist)

lemma trim_put: "invar r \<Longrightarrow> c \<le> b \<Longrightarrow> trim c (put r p b) = put (trim c r) p b"
  by (rule ext) (auto simp: invar_put invar_trim lookup_put lookup_trim fun_eq_iff)

lemma trim_trim: "invar r \<Longrightarrow> trim c (trim d r) = trim (max c d) r"
  by (rule ext) (auto simp: invar_trim lookup_trim fun_eq_iff)

end

lemma strict_on_unique:
  assumes "strict_on f xs" and "strict_on f ys" and "set xs = set ys"
  shows "xs = ys"
proof -
  have "map f xs = map f ys"
    using assms by (intro strict_sorted_equal) auto
  moreover have "inj_on f (set xs \<union> set ys)"
    using strict_on_distinct [OF assms(1)] assms(3) by (simp add: distinct_map)
  ultimately show ?thesis by (rule map_inj_on)
qed

lemma upsert_bucket_cases:
  assumes "strict_on pp_timestamp ring"
  shows "strict_on pp_timestamp (upsert_bucket ring p b)"
    and "set (upsert_bucket ring p b) = insert (p\<lparr>pp_timestamp := b\<rparr>) {q \<in> set ring. pp_timestamp q \<noteq> b}"
proof -
  let ?p = "p\<lparr>pp_timestamp := b\<rparr>"
  have stamp: "pp_timestamp ?p = b" by simp
  consider (replace) "ring \<noteq> []" "pp_timestamp (last ring) = b"
    | (append) "ring = [] \<or> pp_timestamp (last ring) < b"
    | (insert) "ring \<noteq> []" "b < pp_timestamp (last ring)"
    by fastforce
  then have "strict_on pp_timestamp (upsert_bucket ring p b) \<and>
    set (upsert_bucket ring p b) = Set.insert ?p {q \<in> set ring. pp_timestamp q \<noteq> b}"
  proof cases
    case replace
    then obtain xs q where ring: "ring = xs @ [q]" and q: "pp_timestamp q = b"
      by (cases ring rule: rev_cases) auto
    have "upsert_bucket ring p b = xs @ [?p]" by (simp add: upsert_bucket_def ring q)
    with assms q show ?thesis by (force simp: ring sorted_wrt_append)
  next
    case append
    have less: "pp_timestamp q < b" if "q \<in> set ring" for q
    proof -
      from that have "ring \<noteq> []" by auto
      then obtain xs l where ring: "ring = xs @ [l]" by (cases ring rule: rev_cases) auto
      with append assms that show ?thesis by (force simp: sorted_wrt_append)
    qed
    have "upsert_bucket ring p b = ring @ [?p]"
      using append by (auto simp: upsert_bucket_def)
    with assms less show ?thesis by (force simp: sorted_wrt_append)
  next
    case insert
    let ?d = "dict_set b ?p (points_by_time ring)"
    have d: "timed ?d" by (rule timed_set [OF timed_points_by_time]) simp
    have up: "upsert_bucket ring p b = in_key_order ?d"
      using insert by (simp add: upsert_bucket_def Let_def)
    have get: "dict_get ?d t = (if t = b then Some ?p else ring_at ring t)" for t
      by (simp add: points_by_time_def get_fold_set ring_at_def split: option.splits)
    have "q \<in> set (in_key_order ?d) \<longleftrightarrow> q = ?p \<or> (q \<in> set ring \<and> pp_timestamp q \<noteq> b)" for q
      unfolding set_in_key_order [OF d] get by (auto simp: ring_at_Some_iff [OF assms])
    with strict_in_key_order [OF d] show ?thesis by (auto simp: up)
  qed
  then show "strict_on pp_timestamp (upsert_bucket ring p b)"
    and "set (upsert_bucket ring p b) = Set.insert ?p {q \<in> set ring. pp_timestamp q \<noteq> b}"
    by simp_all
qed

text \<open>Removing the expired prefix.\<close>

definition trim_ring :: "instant \<Rightarrow> price_point list \<Rightarrow> price_point list" where
  "trim_ring cutoff ring = dropWhile (\<lambda>p. pp_timestamp p < cutoff) ring"

lemma trim_ring_filter:
  "strict_on pp_timestamp ring \<Longrightarrow> trim_ring c ring = filter (\<lambda>p. c \<le> pp_timestamp p) ring"
  unfolding trim_ring_def by (rule dropWhile_less_strict)

interpretation ring: time_ring "strict_on pp_timestamp :: price_point list \<Rightarrow> bool" ring_at upsert_bucket
  "\<lambda>p b. p\<lparr>pp_timestamp := b\<rparr>" trim_ring
proof
  fix r :: "price_point list" and p b
  assume r: "strict_on pp_timestamp r"
  show s: "strict_on pp_timestamp (upsert_bucket r p b)" by (rule upsert_bucket_cases [OF r])
  show "ring_at (upsert_bucket r p b) = (ring_at r)(b \<mapsto> p\<lparr>pp_timestamp := b\<rparr>)"
  proof (rule ext, rule option_eqI)
    fix t q
    show "ring_at (upsert_bucket r p b) t = Some q \<longleftrightarrow> ((ring_at r)(b \<mapsto> p\<lparr>pp_timestamp := b\<rparr>)) t = Some q"
      by (auto simp: ring_at_Some_iff [OF s] ring_at_Some_iff [OF r] upsert_bucket_cases(2) [OF r])
  qed
next
  fix r :: "price_point list" and c t
  assume r: "strict_on pp_timestamp r"
  show s: "strict_on pp_timestamp (trim_ring c r)"
    by (simp add: trim_ring_filter [OF r] strict_on_filter [OF r])
  show "ring_at (trim_ring c r) t = (if c \<le> t then ring_at r t else None)"
    by (rule option_eqI, unfold ring_at_Some_iff [OF s])
      (auto simp: ring_at_Some_iff [OF r] trim_ring_filter [OF r])
next
  fix r r' :: "price_point list"
  assume r: "strict_on pp_timestamp r" and r': "strict_on pp_timestamp r'"
    and eq: "ring_at r = ring_at r'"
  have "set r = set r'"
    using eq ring_at_Some_iff [OF r] ring_at_Some_iff [OF r'] by (metis (no_types) subsetI subset_antisym)
  then show "r = r'" by (rule strict_on_unique [OF r r'])
qed

subsection \<open>The invariant\<close>

definition ring_ok :: "int \<Rightarrow> string \<Rightarrow> price_point list \<Rightarrow> bool" where
  "ring_ok step symbol ring \<longleftrightarrow> ring \<noteq> [] \<and> strict_on pp_timestamp ring
     \<and> (\<forall>p \<in> set ring. pp_timestamp p mod step = 0 \<and> pp_symbol p = symbol)"

definition rings_ok :: "int \<Rightarrow> rings \<Rightarrow> bool" where
  "rings_ok step rings \<longleftrightarrow> dict_wf rings
     \<and> (\<forall>symbol ring. dict_get rings symbol = Some ring \<longrightarrow> ring_ok step symbol ring)"

definition recipe_ok :: "synthetic_recipe \<Rightarrow> bool" where
  "recipe_ok r \<longleftrightarrow> sr_operation r \<in> {''inverse'', ''multiply'', ''divide''}
     \<and> length (sr_inputs r) = (if sr_operation r = ''inverse'' then 1 else 2) \<and> 0 \<le> sr_max_skew r"

definition recipes_inv :: "history_cache \<Rightarrow> bool" where
  "recipes_inv hc \<longleftrightarrow> dict_wf (synthetic_recipes hc)
     \<and> (\<forall>s r. dict_get (synthetic_recipes hc) s = Some r \<longrightarrow> recipe_ok r)
     \<and> acyclic (edges (recipe_graph (synthetic_recipes hc)))
     \<and> (\<forall>s d. s \<in> set (dict_list (synthetic_dependents hc) d) \<longleftrightarrow>
          (s, d) \<in> edges (recipe_graph (synthetic_recipes hc)))"

definition history_inv :: "history_cache \<Rightarrow> bool" where
  "history_inv hc \<longleftrightarrow> rings_ok minute (one_minute hc) \<and> rings_ok (5 * minute) (five_minute hc)
     \<and> rings_ok 1 (daily hc) \<and> recipes_inv hc"

lemma empty_history_inv: "history_inv empty_history"
  by (simp add: history_inv_def empty_history_def rings_ok_def recipes_inv_def recipe_graph_def
      edges_def dict_list_def wf_acyclic)

lemma rings_ok_list: "rings_ok step rings \<Longrightarrow> dict_list rings s = [] \<or> ring_ok step s (dict_list rings s)"
  by (cases "dict_get rings s") (auto simp: rings_ok_def dict_list_def)

lemma rings_ok_strict: "rings_ok step rings \<Longrightarrow> strict_on pp_timestamp (dict_list rings s)"
  using rings_ok_list [of step rings s] by (auto simp: ring_ok_def)

lemma rings_ok_aligned:
  "rings_ok step rings \<Longrightarrow> p \<in> set (dict_list rings s) \<Longrightarrow> pp_timestamp p mod step = 0 \<and> pp_symbol p = s"
  using rings_ok_list [of step rings s] by (auto simp: ring_ok_def)

lemma rings_ok_set: "rings_ok step rings \<Longrightarrow> ring_ok step s ring \<Longrightarrow> rings_ok step (dict_set s ring rings)"
  by (auto simp: rings_ok_def dict_set_wf split: if_splits)

lemma rings_ok_pop: "rings_ok step rings \<Longrightarrow> rings_ok step (dict_pop s rings)"
  by (auto simp: rings_ok_def dict_pop_wf split: if_splits)

lemma rings_ok_get_iff: "rings_ok step rings \<Longrightarrow> dict_get rings s = (if dict_list rings s = [] then None else Some (dict_list rings s))"
  by (cases "dict_get rings s") (auto simp: rings_ok_def dict_list_def ring_ok_def)

lemma rings_ok_upsert:
  assumes "rings_ok step rings" and "b mod step = 0" and "pp_symbol p = s"
  shows "rings_ok step (dict_set s (upsert_bucket (dict_list rings s) p b) rings)"
proof (rule rings_ok_set [OF assms(1)])
  note strict = rings_ok_strict [OF assms(1), of s]
  have "upsert_bucket (dict_list rings s) p b \<noteq> []"
    using upsert_bucket_cases(2) [OF strict, of p b] by auto
  then show "ring_ok step s (upsert_bucket (dict_list rings s) p b)"
    unfolding ring_ok_def upsert_bucket_cases(2) [OF strict]
    using rings_ok_aligned [OF assms(1)] upsert_bucket_cases(1) [OF strict] assms(2,3) by auto
qed

lemma ring_ok_filter:
  "ring_ok step s ring \<Longrightarrow> filter P ring \<noteq> [] \<Longrightarrow> ring_ok step s (filter P ring)"
  by (auto simp: ring_ok_def strict_on_filter)

lemma prune_ring_list:
  assumes "rings_ok step rings"
  shows "dict_list (fst (prune_ring rings s cutoff)) s' =
    (if s' = s then trim_ring cutoff (dict_list rings s) else dict_list rings s')"
  by (cases "dict_get rings s")
    (auto simp: prune_ring_def trim_ring_def Let_def dict_list_def simp del: dropWhile_eq_Nil_conv)

lemma prune_ring_count:
  "snd (prune_ring rings s cutoff) =
     length (dict_list rings s) - length (trim_ring cutoff (dict_list rings s))"
  by (cases "dict_get rings s") (auto simp: prune_ring_def trim_ring_def Let_def dict_list_def)

lemma rings_ok_prune:
  assumes "rings_ok step rings"
  shows "rings_ok step (fst (prune_ring rings s cutoff))"
proof (cases "dict_get rings s")
  case None
  then show ?thesis using assms by (simp add: prune_ring_def)
next
  case (Some ring)
  then have ok: "ring_ok step s ring" using assms by (simp add: rings_ok_def)
  then have "dropWhile (\<lambda>p. pp_timestamp p < cutoff) ring = filter (\<lambda>p. cutoff \<le> pp_timestamp p) ring"
    by (intro dropWhile_less_strict) (simp add: ring_ok_def)
  then show ?thesis
    using Some assms ok
    by (auto simp: prune_ring_def Let_def rings_ok_pop simp del: filter_empty_conv
        intro!: rings_ok_set ring_ok_filter)
qed

lemma prune_ring_pair: "prune_ring rings s c = (fst (prune_ring rings s c), snd (prune_ring rings s c))"
  by simp

text \<open>Fields that an operation leaves alone.\<close>

lemma invalidate_references_fields [simp]:
  "one_minute (invalidate_references s t hc) = one_minute hc"
  "five_minute (invalidate_references s t hc) = five_minute hc"
  "daily (invalidate_references s t hc) = daily hc"
  "synthetic_recipes (invalidate_references s t hc) = synthetic_recipes hc"
  "synthetic_dependents (invalidate_references s t hc) = synthetic_dependents hc"
  by (simp_all add: invalidate_references_def)

lemma history_inv_invalidate [simp]: "history_inv (invalidate_references s t hc) = history_inv hc"
  by (simp add: history_inv_def recipes_inv_def)

lemma prune_symbol_fields [simp]:
  "one_minute (fst (prune_symbol s now hc)) = fst (prune_ring (one_minute hc) s (now - ONE_MINUTE_RETENTION))"
  "five_minute (fst (prune_symbol s now hc)) = fst (prune_ring (five_minute hc) s (now - FIVE_MINUTE_RETENTION))"
  "daily (fst (prune_symbol s now hc)) = fst (prune_ring (daily hc) s (now - DAILY_RETENTION))"
  "synthetic_recipes (fst (prune_symbol s now hc)) = synthetic_recipes hc"
  "synthetic_dependents (fst (prune_symbol s now hc)) = synthetic_dependents hc"
  by (simp_all add: prune_symbol_def Let_def split_def)

lemma recipes_inv_cong:
  "synthetic_recipes hc' = synthetic_recipes hc \<Longrightarrow> synthetic_dependents hc' = synthetic_dependents hc \<Longrightarrow>
   recipes_inv hc' = recipes_inv hc"
  by (simp add: recipes_inv_def)

lemma history_inv_prune_symbol: "history_inv hc \<Longrightarrow> history_inv (fst (prune_symbol s now hc))"
  by (auto simp: history_inv_def rings_ok_prune intro: iffD2 [OF recipes_inv_cong])

lemma prune_history_run:
  "fst (prune_history now hc) = fold (\<lambda>s hc. fst (prune_symbol s now hc)) (ring_symbols hc) hc"
proof -
  have "fst (fold (\<lambda>s (hc, total). let (hc', n) = prune_symbol s now hc in (hc', total + n)) ss (hc, k))
      = fold (\<lambda>s hc. fst (prune_symbol s now hc)) ss hc" for ss hc and k :: nat
    by (induction ss arbitrary: hc k) (auto simp: split_def Let_def)
  then show ?thesis by (simp add: prune_history_def)
qed

lemma history_inv_prune: "history_inv hc \<Longrightarrow> history_inv (fst (prune_history now hc))"
proof -
  have "history_inv hc \<Longrightarrow> history_inv (fold (\<lambda>s hc. fst (prune_symbol s now hc)) ss hc)" for ss hc
    by (induction ss arbitrary: hc) (auto simp: history_inv_prune_symbol)
  then show "history_inv hc \<Longrightarrow> ?thesis" by (simp add: prune_history_run)
qed

subsection \<open>Adding points\<close>

lemma add_point_Inr:
  assumes "add_point p hc = Inr hc'"
  shows "pp_interval p \<in> {''1d'', ''5m'', ''1m''}"
  using assms by (auto simp: add_point_def res_simps split: if_splits)

lemma history_inv_add:
  assumes "history_inv hc" and "add_point p hc = Inr hc'"
  shows "history_inv hc'"
proof -
  from assms(2) obtain hc1 where hc': "hc' = invalidate_references (pp_symbol p) (Some (pp_timestamp p))
      (fst (prune_symbol (pp_symbol p) (pp_timestamp p) hc1))" and
    cases: "(hc1 = hc\<lparr>daily := dict_set (pp_symbol p)
        (upsert_bucket (dict_list (daily hc) (pp_symbol p)) p (pp_timestamp p)) (daily hc)\<rparr>)
      \<or> (hc1 = hc\<lparr>five_minute := dict_set (pp_symbol p)
          (upsert_bucket (dict_list (five_minute hc) (pp_symbol p)) p
            (bucket_of (pp_timestamp p) 5)) (five_minute hc)\<rparr>)
      \<or> (hc1 = hc\<lparr>one_minute := dict_set (pp_symbol p)
            (upsert_bucket (dict_list (one_minute hc) (pp_symbol p)) p
              (bucket_of (pp_timestamp p) 1)) (one_minute hc),
           five_minute := dict_set (pp_symbol p)
            (upsert_bucket (dict_list (five_minute hc) (pp_symbol p)) (p\<lparr>pp_interval := ''5m''\<rparr>)
              (bucket_of (pp_timestamp p) 5)) (five_minute hc)\<rparr>)"
    by (auto simp: add_point_def res_simps split_def Let_def split: if_splits)
  have "history_inv hc1"
    using cases assms(1)
    by (elim disjE) (auto simp: history_inv_def recipes_inv_def bucket_aligned intro!: rings_ok_upsert)
  then show ?thesis by (simp add: hc' history_inv_prune_symbol)
qed

subsection \<open>Loading points\<close>

definition incoming_ok :: "int \<Rightarrow> incoming \<Rightarrow> bool" where
  "incoming_ok step d \<longleftrightarrow> (\<forall>s. timed (dict_list d s) \<and>
     (\<forall>k p. dict_get (dict_list d s) k = Some p \<longrightarrow> k mod step = 0 \<and> pp_symbol p = s))"

lemma incoming_ok_empty [simp]: "incoming_ok step []"
  by (simp add: incoming_ok_def dict_list_def)

lemma incoming_ok_put:
  "incoming_ok step d \<Longrightarrow> pp_timestamp p = t \<Longrightarrow> t mod step = 0 \<Longrightarrow> pp_symbol p = s \<Longrightarrow>
   incoming_ok step (incoming_put s t p d)"
  by (auto simp: incoming_ok_def incoming_put_def timed_set split: if_splits)

definition incoming_inv :: "incoming_rings \<Rightarrow> bool" where
  "incoming_inv inc \<longleftrightarrow> incoming_ok minute (in_one inc) \<and> incoming_ok (5 * minute) (in_five inc)
     \<and> incoming_ok 1 (in_daily inc)"

lemma incoming_inv_point: "incoming_inv inc \<Longrightarrow> load_point p inc = Inr inc' \<Longrightarrow> incoming_inv inc'"
  by (auto simp: load_point_def incoming_inv_def Let_def bucket_aligned split: if_splits
      intro!: incoming_ok_put)

lemma incoming_inv_points: "incoming_inv inc \<Longrightarrow> load_points ps inc = Inr inc' \<Longrightarrow> incoming_inv inc'"
  by (induction ps arbitrary: inc) (auto simp: res_simps dest: incoming_inv_point)

lemma kept_from_filter:
  assumes "timed d"
  shows "kept_from c d = filter (\<lambda>p. c \<le> pp_timestamp p) (in_key_order d)"
proof -
  have stamp: "pp_timestamp (the (dict_get d k)) = k" if "k \<in> set (dict_keys d)" for k
    using assms that by (cases "dict_get d k") (auto simp: timed_def map_of_eq_None_iff)
  have "filter (\<lambda>k. c \<le> k) (sort (dict_keys d))
      = filter (\<lambda>k. c \<le> pp_timestamp (the (dict_get d k))) (sort (dict_keys d))"
    by (rule filter_cong) (simp_all add: stamp)
  then show ?thesis by (simp add: kept_from_def in_key_order_def filter_map comp_def)
qed

lemma merge_ring_timed: "timed d \<Longrightarrow> timed (merge_ring d ring)"
  unfolding merge_ring_def by (rule timed_fold)

lemma merge_ring_get:
  "dict_get (merge_ring d ring) t = (case ring_at ring t of None \<Rightarrow> dict_get d t | Some p \<Rightarrow> Some p)"
  by (simp add: merge_ring_def get_fold_set ring_at_def)

lemma rings_ok_replace:
  "rings_ok step rings \<Longrightarrow> (ring \<noteq> [] \<Longrightarrow> ring_ok step s ring) \<Longrightarrow> rings_ok step (replace_ring rings s ring)"
  by (simp add: replace_ring_def rings_ok_set rings_ok_pop)

lemma rings_ok_merge:
  assumes "rings_ok step rings" and "incoming_ok step inc"
  shows "rings_ok step (replace_ring rings s
    (kept_from c (merge_ring (dict_list inc s) (dict_list rings s))))"
proof (rule rings_ok_replace [OF assms(1)])
  let ?d = "merge_ring (dict_list inc s) (dict_list rings s)"
  have d: "timed ?d" using assms(2) by (simp add: incoming_ok_def merge_ring_timed)
  have mem: "pp_timestamp p mod step = 0 \<and> pp_symbol p = s" if "p \<in> set (in_key_order ?d)" for p
  proof -
    from that have "dict_get ?d (pp_timestamp p) = Some p" by (simp add: set_in_key_order [OF d])
    then show ?thesis
      using assms(2) rings_ok_aligned [OF assms(1)] ring_at_Some_iff [OF rings_ok_strict [OF assms(1)]]
      by (auto simp: merge_ring_get incoming_ok_def split: option.splits)
  qed
  assume "kept_from c ?d \<noteq> []"
  then show "ring_ok step s (kept_from c ?d)"
    using mem strict_in_key_order [OF d] by (auto simp: kept_from_filter [OF d] ring_ok_def strict_on_filter)
qed

lemma history_inv_load_symbol: "history_inv hc \<Longrightarrow> incoming_inv inc \<Longrightarrow> history_inv (load_symbol inc s hc)"
  by (auto simp: load_symbol_def Let_def history_inv_def incoming_inv_def rings_ok_merge
      intro: iffD2 [OF recipes_inv_cong])

lemma history_inv_load:
  assumes "history_inv hc" and "load_history ps hc = Inr hc'"
  shows "history_inv hc'"
proof -
  have run: "history_inv hc \<Longrightarrow> incoming_inv inc \<Longrightarrow> history_inv (fold (load_symbol inc) ss hc)" for inc ss hc
    by (induction ss arbitrary: hc) (auto simp: history_inv_load_symbol)
  have "incoming_inv \<lparr>in_one = [], in_five = [], in_daily = []\<rparr>" by (simp add: incoming_inv_def)
  then show ?thesis
    using assms by (auto simp: load_history_def res_simps split: if_splits intro!: run dest: incoming_inv_points)
qed

subsection \<open>Registering synthetic histories\<close>

lemma dict_get_recipe_graph: "dict_get (recipe_graph rs) s = map_option sr_inputs (dict_get rs s)"
  by (simp add: recipe_graph_def map_of_map)

lemma recipe_edges: "(s, d) \<in> edges (recipe_graph rs) \<longleftrightarrow> (\<exists>r. dict_get rs s = Some r \<and> d \<in> set (sr_inputs r))"
  by (auto simp: edges_def dict_get_recipe_graph)

lemma rtrancl_to_source: "(d, s) \<in> (E \<union> {s} \<times> D)\<^sup>* \<Longrightarrow> (d, s) \<in> E\<^sup>*"
  by (induction rule: converse_rtrancl_induct) (auto intro: converse_rtrancl_into_rtrancl)

lemma acyclic_replace_source:
  assumes "acyclic E" and "\<And>d. d \<in> D \<Longrightarrow> (d, s) \<notin> E\<^sup>*"
  shows "acyclic (E \<union> {s} \<times> D)"
proof (rule acyclicI, rule allI, rule notI)
  let ?F = "E \<union> {s} \<times> D"
  fix x
  assume cyc: "(x, x) \<in> ?F\<^sup>+"
  have "\<not> (\<exists>d \<in> D. (d, s) \<in> ?F\<^sup>*)" using assms(2) rtrancl_to_source [of _ s E D] by blast
  moreover have "(a, b) \<in> ?F\<^sup>+ \<Longrightarrow> (a, b) \<in> E\<^sup>+ \<or> (\<exists>d \<in> D. (a, s) \<in> ?F\<^sup>* \<and> (d, b) \<in> ?F\<^sup>*)" for a b
  proof (induction rule: trancl_induct)
    case (base y)
    then show ?case by auto
  next
    case (step y z)
    then show ?case by (auto intro: trancl_into_trancl rtrancl_into_rtrancl trancl_into_rtrancl)
  qed
  ultimately show False using cyc assms(1) rtrancl_trans [of _ x ?F s] by (metis acyclic_def)
qed

lemma edges_recipe_set:
  "edges (recipe_graph (dict_set s r rs)) =
     (edges (recipe_graph rs) - {s} \<times> UNIV) \<union> {s} \<times> set (sr_inputs r)"
  by (auto simp: recipe_edges split: if_splits)

lemma acyclic_register:
  assumes "acyclic (edges (recipe_graph rs))"
    and "\<forall>d \<in> set (sr_inputs r). \<not> reaches (recipe_graph rs) s [d] []"
  shows "acyclic (edges (recipe_graph (dict_set s r rs)))"
  unfolding edges_recipe_set
proof (rule acyclic_replace_source)
  show "acyclic (edges (recipe_graph rs) - {s} \<times> UNIV)"
    using assms(1) by (rule acyclic_subset) auto
  fix d
  assume "d \<in> set (sr_inputs r)"
  with assms(2) have "(d, s) \<notin> (edges (recipe_graph rs))\<^sup>*" by (simp add: reaches_iff)
  then show "(d, s) \<notin> (edges (recipe_graph rs) - {s} \<times> UNIV)\<^sup>*"
    by (meson Diff_subset rtrancl_mono subsetD)
qed

lemma dependents_discard:
  "x \<in> set (dict_list (fold (\<lambda>d ds. dict_set d (removeAll s (dict_list ds d)) ds) is deps) d') \<longleftrightarrow>
     x \<in> set (dict_list deps d') \<and> \<not> (x = s \<and> d' \<in> set is)"
  by (induction "is" arbitrary: deps) auto

lemma dependents_add:
  "x \<in> set (dict_list (fold (\<lambda>d ds. dict_set d (set_add s (dict_list ds d)) ds) is deps) d') \<longleftrightarrow>
     x \<in> set (dict_list deps d') \<or> (x = s \<and> d' \<in> set is)"
  by (induction "is" arbitrary: deps) auto

lemma recipes_inv_register:
  assumes "recipes_inv hc" and "recipe_ok r"
    and "\<forall>d \<in> set (sr_inputs r). \<not> reaches (recipe_graph (synthetic_recipes hc)) s [d] []"
    and "synthetic_recipes hc' = dict_set s r (synthetic_recipes hc)"
    and "synthetic_dependents hc' =
      fold (\<lambda>d ds. dict_set d (set_add s (dict_list ds d)) ds) (sr_inputs r)
        (case dict_get (synthetic_recipes hc) s of
           None \<Rightarrow> synthetic_dependents hc
         | Some old \<Rightarrow> fold (\<lambda>d ds. dict_set d (removeAll s (dict_list ds d)) ds) (sr_inputs old)
             (synthetic_dependents hc))"
  shows "recipes_inv hc'"
proof -
  let ?rs = "synthetic_recipes hc"
  have inv: "x \<in> set (dict_list (synthetic_dependents hc) d) \<longleftrightarrow> (x, d) \<in> edges (recipe_graph ?rs)" for x d
    using assms(1) by (simp add: recipes_inv_def)
  have "x \<in> set (dict_list (synthetic_dependents hc') d) \<longleftrightarrow> (x, d) \<in> edges (recipe_graph (dict_set s r ?rs))" for x d
    unfolding assms(5) dependents_add edges_recipe_set
    by (cases "dict_get ?rs s") (auto simp: dependents_discard inv recipe_edges)
  moreover have "acyclic (edges (recipe_graph (dict_set s r ?rs)))"
    using assms(1,3) by (intro acyclic_register) (auto simp: recipes_inv_def)
  ultimately show ?thesis
    using assms(1,2) by (auto simp: recipes_inv_def assms(4) dict_set_wf split: if_splits)
qed

lemma register_split:
  assumes "register_synthetic_history s inputs op skew prov hc = Inr hc'"
  obtains (same) "hc' = hc"
  | (registered) r deps where "recipe_ok r"
      "r = \<lparr>sr_inputs = inputs, sr_operation = op, sr_max_skew = skew, sr_provider = prov\<rparr>"
      "\<forall>d \<in> set (sr_inputs r). \<not> reaches (recipe_graph (synthetic_recipes hc)) s [d] []"
      "hc' = invalidate_references s None
        (hc\<lparr>synthetic_recipes := dict_set s r (synthetic_recipes hc), synthetic_dependents := deps,
           one_minute := dict_pop s (one_minute hc), five_minute := dict_pop s (five_minute hc),
           daily := dict_pop s (daily hc)\<rparr>)"
      "deps = fold (\<lambda>d ds. dict_set d (set_add s (dict_list ds d)) ds) (sr_inputs r)
        (case dict_get (synthetic_recipes hc) s of
           None \<Rightarrow> synthetic_dependents hc
         | Some old \<Rightarrow> fold (\<lambda>d ds. dict_set d (removeAll s (dict_list ds d)) ds) (sr_inputs old)
             (synthetic_dependents hc))"
proof -
  define r where "r = \<lparr>sr_inputs = inputs, sr_operation = op, sr_max_skew = skew, sr_provider = prov\<rparr>"
  from assms have "recipe_ok r"
    and "\<forall>d \<in> set (sr_inputs r). \<not> reaches (recipe_graph (synthetic_recipes hc)) s [d] []"
    by (auto simp: register_synthetic_history_def Let_def raise_if_Inr_iff recipe_ok_def r_def split: if_splits)
  with assms that show thesis
    by (simp add: register_synthetic_history_def Let_def raise_if_Inr_iff r_def split: if_splits)
qed

lemma history_inv_register:
  assumes "history_inv hc" and "register_synthetic_history s inputs op skew prov hc = Inr hc'"
  shows "history_inv hc'"
  using assms(2)
proof (cases rule: register_split)
  case same
  with assms(1) show ?thesis by simp
next
  case (registered r deps)
  have "recipes_inv hc'"
    by (rule recipes_inv_register [OF _ registered(1,3)])
      (use assms(1) in \<open>auto simp: history_inv_def registered(4,5)\<close>)
  with assms(1) show ?thesis by (simp add: history_inv_def registered(4) rings_ok_pop)
qed

subsection \<open>Evicting symbols\<close>

lemma drop_dependent_list:
  "dict_list (drop_dependent s d deps) d' =
     (if d' = d then removeAll s (dict_list deps d) else dict_list deps d')"
  by (cases "dict_get deps d") (auto simp: drop_dependent_def Let_def dict_list_def)

lemma fold_drop_dependent:
  "x \<in> set (dict_list (fold (drop_dependent s) is deps) d') \<longleftrightarrow>
     x \<in> set (dict_list deps d') \<and> \<not> (x = s \<and> d' \<in> set is)"
  by (induction "is" arbitrary: deps) (auto simp: drop_dependent_list)

lemma edges_recipe_pop: "edges (recipe_graph (dict_pop s rs)) = edges (recipe_graph rs) - {s} \<times> UNIV"
  by (auto simp: recipe_edges split: if_splits)

lemma drop_recipe_fields [simp]:
  "one_minute (drop_recipe s hc) = one_minute hc"
  "five_minute (drop_recipe s hc) = five_minute hc"
  "daily (drop_recipe s hc) = daily hc"
  "synthetic_recipes (drop_recipe s hc) = dict_pop s (synthetic_recipes hc)"
  by (auto simp: drop_recipe_def delete_id map_of_eq_None_iff split: option.splits)

lemma recipes_inv_drop:
  assumes "recipes_inv hc"
  shows "recipes_inv (drop_recipe s hc)"
proof (cases "dict_get (synthetic_recipes hc) s")
  case None
  then show ?thesis using assms by (simp add: drop_recipe_def)
next
  case (Some r)
  have inv: "x \<in> set (dict_list (synthetic_dependents hc) d) \<longleftrightarrow> (x, d) \<in> edges (recipe_graph (synthetic_recipes hc))" for x d
    using assms by (simp add: recipes_inv_def)
  have deps: "synthetic_dependents (drop_recipe s hc) = fold (drop_dependent s) (sr_inputs r) (synthetic_dependents hc)"
    by (simp add: drop_recipe_def Some)
  have "acyclic (edges (recipe_graph (dict_pop s (synthetic_recipes hc))))"
    unfolding edges_recipe_pop using assms by (auto simp: recipes_inv_def intro: acyclic_subset)
  moreover have "x \<in> set (dict_list (synthetic_dependents (drop_recipe s hc)) d) \<longleftrightarrow>
      (x, d) \<in> edges (recipe_graph (dict_pop s (synthetic_recipes hc)))" for x d
    unfolding deps fold_drop_dependent edges_recipe_pop inv using Some by (auto simp: recipe_edges)
  ultimately show ?thesis
    using assms by (auto simp: recipes_inv_def dict_pop_wf split: if_splits)
qed

lemma history_inv_drop_recipe: "history_inv hc \<Longrightarrow> history_inv (drop_recipe s hc)"
  by (simp add: history_inv_def recipes_inv_drop)

lemma history_inv_drop_rings: "history_inv hc \<Longrightarrow> history_inv (drop_rings s hc)"
  by (auto simp: history_inv_def drop_rings_def rings_ok_pop intro: iffD2 [OF recipes_inv_cong])

lemma fold_drop_recipe_fields:
  "one_minute (fold drop_recipe ss hc) = one_minute hc"
  "five_minute (fold drop_recipe ss hc) = five_minute hc"
  "daily (fold drop_recipe ss hc) = daily hc"
  "dict_get (synthetic_recipes (fold drop_recipe ss hc)) s =
     (if s \<in> set ss then None else dict_get (synthetic_recipes hc) s)"
  by (induction ss arbitrary: hc) auto

lemma fold_drop_rings_fields:
  "dict_list (one_minute (fold drop_rings ss hc)) s = (if s \<in> set ss then [] else dict_list (one_minute hc) s)"
  "dict_list (five_minute (fold drop_rings ss hc)) s = (if s \<in> set ss then [] else dict_list (five_minute hc) s)"
  "dict_list (daily (fold drop_rings ss hc)) s = (if s \<in> set ss then [] else dict_list (daily hc) s)"
  "synthetic_recipes (fold drop_rings ss hc) = synthetic_recipes hc"
  by (induction ss arbitrary: hc) (auto simp: drop_rings_def)

lemma history_inv_retain:
  assumes "history_inv hc"
  shows "history_inv (fst (retain_history_symbols symbols hc))"
proof -
  have "history_inv hc \<Longrightarrow> history_inv (fold drop_rings ss hc)" for ss hc
    by (induction ss arbitrary: hc) (auto simp: history_inv_drop_rings)
  moreover have "history_inv hc \<Longrightarrow> history_inv (fold drop_recipe ss hc)" for ss hc
    by (induction ss arbitrary: hc) (auto simp: history_inv_drop_recipe)
  ultimately show ?thesis using assms by (simp add: retain_history_symbols_def Let_def)
qed

lemma history_inv_change_references:
  "history_inv hc \<Longrightarrow> change_references s t hc = Inr (hc', refs) \<Longrightarrow> history_inv hc'"
  by (auto simp: change_references_def history_inv_def recipes_inv_def res_simps
      split: option.splits if_splits)

end
