(* ===== verification/QP_History_Refs.thy ===== *)
theory QP_History_Refs
  imports QP_History_Inv
begin

text \<open>
  Reading the history cache. Three results: the rolling references read from the rings
  are the predecessors in the merged history of \<^verbatim>\<open>points()\<close>, so the live path and the
  reference calculation of the changes agree; references depend only on ring points at or
  before the cutoff, hence are stable within a quote minute; and the minute-local cache is
  coherent: under every operation a cached entry equals what recomputation would give,
  provided no point arrives late into a bucket that a cached one-hour cutoff splits.
\<close>

subsection \<open>What a cutoff can see\<close>

definition visible :: "instant \<Rightarrow> price_point list \<Rightarrow> price_point list" where
  "visible cutoff ring = filter (\<lambda>p. pp_timestamp p \<le> cutoff) ring"

abbreviation last_opt :: "'a list \<Rightarrow> 'a option" where
  "last_opt xs \<equiv> (if xs = [] then None else Some (last xs))"

lemma find_last_visible: "find_last (\<lambda>p. pp_timestamp p \<le> c) ring = last_opt (visible c ring)"
  by (induction ring rule: rev_induct) (auto simp: visible_def)

lemma hd_visible:
  assumes "strict_on pp_timestamp ring"
  shows "(ring \<noteq> [] \<and> pp_timestamp (hd ring) \<le> c) \<longleftrightarrow> visible c ring \<noteq> []"
proof
  assume "ring \<noteq> [] \<and> pp_timestamp (hd ring) \<le> c"
  then have "hd ring \<in> set (visible c ring)" by (simp add: visible_def)
  then show "visible c ring \<noteq> []" by auto
next
  assume "visible c ring \<noteq> []"
  then obtain p where "p \<in> set ring" "pp_timestamp p \<le> c"
    by (auto simp: visible_def filter_empty_conv)
  with strict_on_hd_le [OF assms, of p] show "ring \<noteq> [] \<and> pp_timestamp (hd ring) \<le> c" by auto
qed

lemma latest_get: "latest_at_or_before (dict_get rings s) c = last_opt (visible c (dict_list rings s))"
  by (cases "dict_get rings s") (simp_all add: latest_at_or_before_def dict_list_def find_last_visible visible_def)

lemma dropWhile_rev_visible:
  assumes "strict_on pp_timestamp ring"
  shows "dropWhile (\<lambda>p. c < pp_timestamp p) (rev ring) = rev (visible c ring)"
  using assms
proof (induction ring rule: rev_induct)
  case Nil
  then show ?case by (simp add: visible_def)
next
  case (snoc a ring)
  show ?case
  proof (cases "c < pp_timestamp a")
    case True
    with snoc show ?thesis by (simp add: visible_def sorted_wrt_append)
  next
    case False
    have "pp_timestamp q \<le> c" if "q \<in> set ring" for q
      using strict_on_snoc_le [OF snoc.prems that] False by simp
    then have "visible c ring = ring" by (simp add: visible_def)
    with False show ?thesis by (simp add: visible_def)
  qed
qed

lemma pair_reference_visible:
  assumes "\<forall>l \<in> set lefts. pp_timestamp l \<le> c"
  shows "pair_reference s r i lefts rights =
    pair_reference s r i lefts (dropWhile (\<lambda>p. c < pp_timestamp p) rights)"
proof (cases lefts)
  case Nil
  then show ?thesis by simp
next
  case (Cons l rest)
  have "dropWhile (\<lambda>p. pp_timestamp l < pp_timestamp p) (dropWhile (\<lambda>p. c < pp_timestamp p) rights)
      = dropWhile (\<lambda>p. pp_timestamp l < pp_timestamp p) rights"
    using assms Cons by (induction rights) auto
  then show ?thesis by (simp add: Cons)
qed

text \<open>A synthetic lookup in one ring, as a function of the visible parts only.\<close>

definition synthetic_of ::
  "string \<Rightarrow> synthetic_recipe \<Rightarrow> string \<Rightarrow> price_point list \<Rightarrow> price_point list \<Rightarrow> price_point option result" where
  "synthetic_of symbol recipe interval left right =
     (if sr_operation recipe = ''inverse'' then inverse_reference symbol recipe interval (rev left)
      else pair_reference symbol recipe interval (rev left) (rev right))"

lemma synthetic_reference_in_visible:
  assumes "rings_ok step rings"
  shows "synthetic_reference_in symbol recipe c interval rings =
    synthetic_of symbol recipe interval (visible c (dict_list rings (sr_inputs recipe ! 0)))
      (visible c (dict_list rings (sr_inputs recipe ! 1)))"
proof -
  let ?l = "dict_list rings (sr_inputs recipe ! 0)" and ?r = "dict_list rings (sr_inputs recipe ! 1)"
  have el: "filter (\<lambda>p. pp_timestamp p \<le> c) (rev ?l) = rev (visible c ?l)"
    by (simp add: visible_def rev_filter)
  have "pair_reference symbol recipe interval (rev (visible c ?l)) (rev ?r)
      = pair_reference symbol recipe interval (rev (visible c ?l)) (dropWhile (\<lambda>p. c < pp_timestamp p) (rev ?r))"
    by (rule pair_reference_visible) (simp add: visible_def)
  also have "\<dots> = pair_reference symbol recipe interval (rev (visible c ?l)) (rev (visible c ?r))"
    by (simp add: dropWhile_rev_visible [OF rings_ok_strict [OF assms]])
  finally have pair: "pair_reference symbol recipe interval (rev (visible c ?l)) (rev ?r)
      = pair_reference symbol recipe interval (rev (visible c ?l)) (rev (visible c ?r))" .
  have empty: "pair_reference symbol recipe interval xs [] = Inr None" for xs
    by (cases xs) simp_all
  have nil: "visible c [] = []" by (simp add: visible_def)
  show ?thesis
    unfolding synthetic_reference_in_def Let_def el synthetic_of_def pair [symmetric]
    by (auto simp: empty nil)
qed

subsection \<open>Locality of references\<close>

definition sources :: "history_cache \<Rightarrow> string \<Rightarrow> string list" where
  "sources hc symbol =
     (case dict_get (synthetic_recipes hc) symbol of None \<Rightarrow> [symbol] | Some r \<Rightarrow> sr_inputs r)"

definition same_view :: "instant \<Rightarrow> string \<Rightarrow> history_cache \<Rightarrow> history_cache \<Rightarrow> bool" where
  "same_view c y hc hc' \<longleftrightarrow>
     visible c (dict_list (one_minute hc) y) = visible c (dict_list (one_minute hc') y)
     \<and> visible c (dict_list (five_minute hc) y) = visible c (dict_list (five_minute hc') y)
     \<and> visible c (dict_list (daily hc) y) = visible c (dict_list (daily hc') y)"

lemma reference_at_plain:
  assumes "history_inv hc" and "dict_get (synthetic_recipes hc) symbol = None"
  shows "reference_at symbol c hc =
    Inr (let one = visible c (dict_list (one_minute hc) symbol);
             five = visible c (dict_list (five_minute hc) symbol)
         in if one \<noteq> [] then Some (last one) else if five \<noteq> [] then Some (last five)
            else last_opt (visible c (dict_list (daily hc) symbol)))"
proof -
  have "strict_on pp_timestamp (dict_list (one_minute hc) symbol)"
    and "strict_on pp_timestamp (dict_list (five_minute hc) symbol)"
    using assms(1) by (auto simp: history_inv_def intro: rings_ok_strict)
  then show ?thesis
    using assms(2) unfolding reference_at_def Let_def
    by (simp only: hd_visible latest_get option.case) simp
qed

lemma reference_at_local:
  assumes "history_inv hc" and "history_inv hc'"
    and "dict_get (synthetic_recipes hc') symbol = dict_get (synthetic_recipes hc) symbol"
    and "\<forall>y \<in> set (sources hc symbol). same_view c y hc hc'"
  shows "reference_at symbol c hc' = reference_at symbol c hc"
proof (cases "dict_get (synthetic_recipes hc) symbol")
  case None
  then have view: "same_view c symbol hc hc'" using assms(4) by (simp add: sources_def)
  note hc = reference_at_plain [OF assms(1) None, of c]
  note hc' = reference_at_plain [OF assms(2), of symbol c, unfolded assms(3), OF None]
  show ?thesis using view unfolding hc hc' same_view_def by (simp only: Let_def)
next
  case (Some r)
  then have ok: "recipe_ok r" using assms(1) by (auto simp: history_inv_def recipes_inv_def)
  have zero: "sr_inputs r ! 0 \<in> set (sr_inputs r)"
    using ok by (cases "sr_inputs r") (auto simp: recipe_ok_def split: if_splits)
  have one: "sr_operation r \<noteq> ''inverse'' \<Longrightarrow> sr_inputs r ! 1 \<in> set (sr_inputs r)"
    using ok by (intro nth_mem) (simp add: recipe_ok_def)
  have view: "same_view c y hc hc'" if "y \<in> set (sr_inputs r)" for y
    using assms(4) that by (simp add: sources_def Some)
  have "synthetic_of symbol r i (visible c (dict_list a (sr_inputs r ! 0))) (visible c (dict_list a (sr_inputs r ! 1)))
      = synthetic_of symbol r i (visible c (dict_list b (sr_inputs r ! 0))) (visible c (dict_list b (sr_inputs r ! 1)))"
    if "\<And>y. y \<in> set (sr_inputs r) \<Longrightarrow> visible c (dict_list a y) = visible c (dict_list b y)" for i a b
    using that [OF zero] that [OF one] by (cases "sr_operation r = ''inverse''") (simp_all add: synthetic_of_def)
  note eq = this
  have same: "synthetic_reference_in symbol r c i a = synthetic_reference_in symbol r c i b"
    if "rings_ok st a" "rings_ok st b" "\<And>y. y \<in> set (sr_inputs r) \<Longrightarrow> visible c (dict_list a y) = visible c (dict_list b y)"
    for i st a b
    using eq [of a b i, OF that(3)]
    by (simp add: synthetic_reference_in_visible [OF that(1)] synthetic_reference_in_visible [OF that(2)])
  have "synthetic_reference_in symbol r c ''1m'' (one_minute hc') = synthetic_reference_in symbol r c ''1m'' (one_minute hc)"
    by (rule same) (use assms(1,2) view in \<open>auto simp: history_inv_def same_view_def\<close>)
  moreover have "synthetic_reference_in symbol r c ''5m'' (five_minute hc') = synthetic_reference_in symbol r c ''5m'' (five_minute hc)"
    by (rule same) (use assms(1,2) view in \<open>auto simp: history_inv_def same_view_def\<close>)
  moreover have "synthetic_reference_in symbol r c ''1d'' (daily hc') = synthetic_reference_in symbol r c ''1d'' (daily hc)"
    by (rule same) (use assms(1,2) view in \<open>auto simp: history_inv_def same_view_def\<close>)
  ultimately show ?thesis
    by (simp add: reference_at_def synthetic_reference_at_def assms(3) Some)
qed

lemma compute_references_local:
  assumes "history_inv hc" and "history_inv hc'"
    and "dict_get (synthetic_recipes hc') symbol = dict_get (synthetic_recipes hc) symbol"
    and "\<And>c y. c \<le> t - hour \<Longrightarrow> y \<in> set (sources hc symbol) \<Longrightarrow> same_view c y hc hc'"
  shows "compute_references symbol t hc' = compute_references symbol t hc"
proof -
  have "reference_at symbol (t - d) hc' = reference_at symbol (t - d) hc" if "(n, d) \<in> set WINDOWS" for n d
  proof (rule reference_at_local [OF assms(1-3)])
    have "hour \<le> d" using that by (auto simp: WINDOWS_def time_units)
    then show "\<forall>y \<in> set (sources hc symbol). same_view (t - d) y hc hc'" using assms(4) by auto
  qed
  then show ?thesis unfolding compute_references_def by (intro res_map_cong) auto
qed

subsection \<open>Live path and reference calculation agree\<close>

lemma visible_points_for:
  assumes "history_inv hc"
  shows "last_opt (visible c (points_for s hc)) =
    (let one = visible c (dict_list (one_minute hc) s);
         five = visible c (dict_list (five_minute hc) s)
     in if one \<noteq> [] then Some (last one) else if five \<noteq> [] then Some (last five)
        else last_opt (visible c (dict_list (daily hc) s)))"
proof -
  let ?one = "dict_list (one_minute hc) s" and ?five = "dict_list (five_minute hc) s"
  let ?day = "dict_list (daily hc) s"
  have one: "strict_on pp_timestamp ?one" and five: "strict_on pp_timestamp ?five"
    using assms by (auto simp: history_inv_def intro: rings_ok_strict)
  have step: "last_opt (visible c (if top \<noteq> [] then filter (\<lambda>p. pp_timestamp p < pp_timestamp (hd top)) low @ top else low))
      = (if visible c top \<noteq> [] then Some (last (visible c top)) else last_opt (visible c low))"
    if "strict_on pp_timestamp top" for top low
  proof (cases "visible c top = []")
    case True
    have "visible c (filter (\<lambda>p. pp_timestamp p < pp_timestamp (hd top)) low) = visible c low" if "top \<noteq> []"
    proof -
      have "c < pp_timestamp (hd top)" using hd_visible [OF \<open>strict_on pp_timestamp top\<close>, of c] True that by auto
      then show ?thesis unfolding visible_def filter_filter by (intro filter_cong) auto
    qed
    moreover have "visible c (xs @ ys) = visible c xs @ visible c ys" for xs ys
      by (simp add: visible_def)
    ultimately show ?thesis using True by simp
  next
    case False
    then have "top \<noteq> []" by (auto simp: visible_def)
    moreover have "visible c (xs @ ys) = visible c xs @ visible c ys" for xs ys
      by (simp add: visible_def)
    ultimately show ?thesis using False by simp
  qed
  show ?thesis unfolding points_for_def Let_def step [OF one] step [OF five] ..
qed

lemma reference_at_points:
  assumes "history_inv hc" and "dict_get (synthetic_recipes hc) s = None"
  shows "reference_at s c hc = Inr (find_last (\<lambda>p. pp_timestamp p \<le> c) (points_for s hc))"
  unfolding find_last_visible visible_points_for [OF assms(1)] by (rule reference_at_plain [OF assms])

lemma points_for_strict:
  assumes "history_inv hc"
  shows "strict_on pp_timestamp (points_for s hc)"
proof -
  have step: "strict_on pp_timestamp (if top \<noteq> [] then filter (\<lambda>p. pp_timestamp p < pp_timestamp (hd top)) low @ top else low)"
    if "strict_on pp_timestamp top" "strict_on pp_timestamp low" for top low
    using that strict_on_hd_le [OF that(1)]
    by (auto simp: strict_on_append strict_on_filter simp del: map_append intro: less_le_trans)
  show ?thesis
    unfolding points_for_def Let_def
    by (intro step) (use assms in \<open>auto simp: history_inv_def intro: rings_ok_strict\<close>)
qed

subsection \<open>References within a quote minute\<close>

definition daily_aligned :: "history_cache \<Rightarrow> bool" where
  "daily_aligned hc \<longleftrightarrow> (\<forall>(s, ring) \<in> set (daily hc). \<forall>p \<in> set ring. pp_timestamp p mod minute = 0)"

lemma aligned_le_floor:
  assumes "(x :: int) mod minute = 0"
  shows "x \<le> c \<longleftrightarrow> x \<le> floor_minute c"
proof
  assume "x \<le> c"
  have "x = minute * (x div minute)" using assms by (simp add: minus_mod_eq_mult_div [symmetric])
  also have "\<dots> \<le> minute * (c div minute)"
    using \<open>x \<le> c\<close> by (simp add: minute_def zdiv_mono1)
  also have "\<dots> = floor_minute c" by (simp add: floor_minute_def minus_mod_eq_mult_div)
  finally show "x \<le> floor_minute c" .
next
  assume "x \<le> floor_minute c"
  moreover have "0 \<le> c mod minute" by (simp add: minute_def)
  ultimately show "x \<le> c" by (simp add: floor_minute_def)
qed

lemma visible_floor:
  assumes "\<forall>p \<in> set ring. pp_timestamp p mod minute = 0" and "floor_minute c = floor_minute c'"
  shows "visible c ring = visible c' ring"
  unfolding visible_def
proof (rule filter_cong [OF refl])
  fix p
  assume "p \<in> set ring"
  with assms(1) have "pp_timestamp p mod minute = 0" by simp
  then show "pp_timestamp p \<le> c \<longleftrightarrow> pp_timestamp p \<le> c'"
    by (simp only: aligned_le_floor [of _ c] aligned_le_floor [of _ c'] assms(2))
qed

lemma floor_minute_shift: "d mod minute = 0 \<Longrightarrow> floor_minute (t - d) = floor_minute t - d"
  using mod_diff_right_eq [of t d minute] by (simp add: floor_minute_def)

lemma ring_minute_aligned:
  assumes "history_inv hc" and "daily_aligned hc"
  shows "\<forall>p \<in> set (dict_list (one_minute hc) s). pp_timestamp p mod minute = 0"
    and "\<forall>p \<in> set (dict_list (five_minute hc) s). pp_timestamp p mod minute = 0"
    and "\<forall>p \<in> set (dict_list (daily hc) s). pp_timestamp p mod minute = 0"
proof -
  show "\<forall>p \<in> set (dict_list (one_minute hc) s). pp_timestamp p mod minute = 0"
    using assms(1) by (auto simp: history_inv_def dest: rings_ok_aligned)
  have "x mod (5 * minute) = 0 \<Longrightarrow> x mod minute = 0" for x :: int
    using dvd_mult_right [of 5 minute x] by (simp add: mod_eq_0_iff_dvd)
  then show "\<forall>p \<in> set (dict_list (five_minute hc) s). pp_timestamp p mod minute = 0"
    using assms(1) by (auto simp: history_inv_def dest: rings_ok_aligned)
  show "\<forall>p \<in> set (dict_list (daily hc) s). pp_timestamp p mod minute = 0"
    using assms(2) by (cases "dict_get (daily hc) s") (auto simp: daily_aligned_def dict_list_def dest!: map_of_SomeD)
qed

text \<open>Moving the cutoff is the same as looking at another cache: compare the visible parts.\<close>

lemma reference_at_shift:
  assumes inv: "history_inv hc"
    and same: "\<And>y. visible c (dict_list (one_minute hc) y) = visible c' (dict_list (one_minute hc) y)
      \<and> visible c (dict_list (five_minute hc) y) = visible c' (dict_list (five_minute hc) y)
      \<and> visible c (dict_list (daily hc) y) = visible c' (dict_list (daily hc) y)"
  shows "reference_at symbol c hc = reference_at symbol c' hc"
proof (cases "dict_get (synthetic_recipes hc) symbol")
  case None
  show ?thesis using same unfolding reference_at_plain [OF inv None] by (simp only: Let_def)
next
  case (Some r)
  have ok: "rings_ok minute (one_minute hc)" "rings_ok (5 * minute) (five_minute hc)" "rings_ok 1 (daily hc)"
    using inv by (auto simp: history_inv_def)
  note vis = synthetic_reference_in_visible [OF ok(1)] synthetic_reference_in_visible [OF ok(2)]
    synthetic_reference_in_visible [OF ok(3)]
  show ?thesis using same by (simp add: reference_at_def synthetic_reference_at_def Some vis)
qed

lemma compute_references_minute:
  assumes "history_inv hc" and "daily_aligned hc" and "floor_minute t = floor_minute t'"
  shows "compute_references s t hc = compute_references s t' hc"
proof -
  have "reference_at s (t - d) hc = reference_at s (t' - d) hc" if "(n, d) \<in> set WINDOWS" for n d
  proof -
    have "d mod minute = 0" using that by (auto simp: WINDOWS_def time_units)
    then have "floor_minute (t - d) = floor_minute (t' - d)" using assms(3) by (simp add: floor_minute_shift)
    then show ?thesis
      using ring_minute_aligned [OF assms(1,2)] by (intro reference_at_shift [OF assms(1)]) (blast intro: visible_floor)
  qed
  then show ?thesis unfolding compute_references_def by (intro res_map_cong) auto
qed

subsection \<open>Coherence of the reference cache\<close>

definition coherent :: "history_cache \<Rightarrow> bool" where
  "coherent hc \<longleftrightarrow> (\<forall>s e. dict_get (reference_cache hc) s = Some e \<longrightarrow>
     compute_references s (re_as_of e) hc = Inr (re_references e))"

lemma coherent_frame:
  assumes "history_inv hc" and "history_inv hc'" and "coherent hc"
    and "\<And>s e. dict_get (reference_cache hc') s = Some e \<Longrightarrow>
      dict_get (reference_cache hc) s = Some e
      \<and> dict_get (synthetic_recipes hc') s = dict_get (synthetic_recipes hc) s
      \<and> (\<forall>c y. c \<le> re_as_of e - hour \<longrightarrow> y \<in> set (sources hc s) \<longrightarrow> same_view c y hc hc')"
  shows "coherent hc'"
  unfolding coherent_def
proof (intro allI impI)
  fix s e
  assume e: "dict_get (reference_cache hc') s = Some e"
  have "compute_references s (re_as_of e) hc' = compute_references s (re_as_of e) hc"
    by (rule compute_references_local [OF assms(1,2)]) (use assms(4) [OF e] in auto)
  also have "\<dots> = Inr (re_references e)"
    using assms(3) assms(4) [OF e] by (simp add: coherent_def)
  finally show "compute_references s (re_as_of e) hc' = Inr (re_references e)" .
qed

lemma same_view_refl [simp]: "same_view c y hc hc"
  by (simp add: same_view_def)

lemma fold_drop_reference:
  "dict_get (fold (drop_reference t) ss refs) x =
     (if x \<in> set ss then
        (case t of None \<Rightarrow> None
         | Some t \<Rightarrow> (case dict_get refs x of None \<Rightarrow> None
             | Some e \<Rightarrow> if t \<le> re_as_of e - hour then None else Some e))
      else dict_get refs x)"
  by (induction ss arbitrary: refs) (auto simp: drop_reference_def split: option.splits)

lemma invalidated_get:
  "dict_get (reference_cache (invalidate_references s t hc)) x =
     (if (s, x) \<in> (edges (synthetic_dependents hc))\<^sup>* then
        (case t of None \<Rightarrow> None
         | Some t \<Rightarrow> (case dict_get (reference_cache hc) x of None \<Rightarrow> None
             | Some e \<Rightarrow> if t \<le> re_as_of e - hour then None else Some e))
      else dict_get (reference_cache hc) x)"
proof -
  have "x \<in> set (dfs_collect (synthetic_dependents hc) [s] []) \<longleftrightarrow> (s, x) \<in> (edges (synthetic_dependents hc))\<^sup>*"
    unfolding set_dfs_collect by simp
  then show ?thesis
    by (simp add: invalidate_references_def fold_drop_reference del: dfs_collect.simps)
qed

text \<open>A symbol that is a source of another is followed by it in the dependents.\<close>

lemma source_dependent:
  assumes "recipes_inv hc" and "y \<in> set (sources hc s)"
  shows "(y, s) \<in> (edges (synthetic_dependents hc))\<^sup>*"
proof (cases "dict_get (synthetic_recipes hc) s")
  case None
  then show ?thesis using assms(2) by (simp add: sources_def)
next
  case (Some r)
  then have "(s, y) \<in> edges (recipe_graph (synthetic_recipes hc))"
    using assms(2) by (simp add: sources_def recipe_edges)
  then have "(y, s) \<in> edges (synthetic_dependents hc)"
    using assms(1) unfolding recipes_inv_def edges_iff [of y] by blast
  then show ?thesis by (rule r_into_rtrancl)
qed

text \<open>
  Changing the rings of one symbol and dropping every cached reference that could see them
  keeps the cache coherent. The operations below are instances.
\<close>

lemma coherent_invalidate_all:
  assumes "history_inv hc" and "history_inv hc1" and "coherent hc"
    and "reference_cache hc1 = reference_cache hc"
    and "\<And>x. x \<noteq> s \<Longrightarrow> dict_get (synthetic_recipes hc1) x = dict_get (synthetic_recipes hc) x"
    and "\<And>c y. y \<noteq> s \<Longrightarrow> same_view c y hc hc1"
  shows "coherent (invalidate_references s None hc1)"
proof (rule coherent_frame [OF assms(1) _ assms(3)])
  show "history_inv (invalidate_references s None hc1)" using assms(2) by simp
  fix x e
  assume e: "dict_get (reference_cache (invalidate_references s None hc1)) x = Some e"
  then have far: "(s, x) \<notin> (edges (synthetic_dependents hc1))\<^sup>*"
    by (auto simp: invalidated_get split: if_splits)
  have inv1: "recipes_inv hc1" using assms(2) by (simp add: history_inv_def)
  have "x \<noteq> s" using far by auto
  moreover have "s \<notin> set (sources hc1 x)" using source_dependent [OF inv1, of s x] far by auto
  moreover have "sources hc1 x = sources hc x" using \<open>x \<noteq> s\<close> assms(5) by (simp add: sources_def)
  moreover have "same_view c y hc (invalidate_references s None hc1) = same_view c y hc hc1" for c y
    by (simp add: same_view_def)
  ultimately show "dict_get (reference_cache hc) x = Some e
      \<and> dict_get (synthetic_recipes (invalidate_references s None hc1)) x = dict_get (synthetic_recipes hc) x
      \<and> (\<forall>c y. c \<le> re_as_of e - hour \<longrightarrow> y \<in> set (sources hc x) \<longrightarrow>
           same_view c y hc (invalidate_references s None hc1))"
    using e assms(4,5,6) far by (auto simp: invalidated_get) metis
qed

lemma trim_ring_same: "length (trim_ring c ring) = length ring \<Longrightarrow> trim_ring c ring = ring"
  unfolding trim_ring_def by (metis append_self_conv2 dropWhile_takes_suffix length_append add_cancel_left_left length_0_conv)

lemma trim_ring_length: "length (trim_ring c ring) \<le> length ring"
  by (simp add: trim_ring_def length_dropWhile_le)

lemma prune_ring_none:
  assumes "rings_ok step rings" and "snd (prune_ring rings s c) = 0"
  shows "dict_list (fst (prune_ring rings s c)) y = dict_list rings y"
proof -
  have "trim_ring c (dict_list rings s) = dict_list rings s"
    using assms(2) trim_ring_length [of c "dict_list rings s"]
    by (intro trim_ring_same) (simp add: prune_ring_count)
  then show ?thesis by (simp add: prune_ring_list [OF assms(1)])
qed

lemma coherent_prune_symbol:
  assumes inv: "history_inv hc" and coh: "coherent hc"
  shows "coherent (fst (prune_symbol s now hc))"
proof -
  let ?one = "prune_ring (one_minute hc) s (now - ONE_MINUTE_RETENTION)"
  let ?five = "prune_ring (five_minute hc) s (now - FIVE_MINUTE_RETENTION)"
  let ?day = "prune_ring (daily hc) s (now - DAILY_RETENTION)"
  let ?hc1 = "hc\<lparr>one_minute := fst ?one, five_minute := fst ?five, daily := fst ?day\<rparr>"
  have ok: "rings_ok minute (one_minute hc)" "rings_ok (5 * minute) (five_minute hc)" "rings_ok 1 (daily hc)"
    using inv by (auto simp: history_inv_def)
  have inv1: "history_inv ?hc1"
    using inv by (auto simp: history_inv_def rings_ok_prune intro: iffD2 [OF recipes_inv_cong])
  have run: "fst (prune_symbol s now hc) =
      (if snd ?one + snd ?five + snd ?day \<noteq> 0 then invalidate_references s None ?hc1 else ?hc1)"
    by (simp add: prune_symbol_def split_def Let_def)
  show ?thesis
  proof (cases "snd ?one + snd ?five + snd ?day = 0")
    case True
    then have "same_view c y hc ?hc1" for c y
      using ok by (simp add: same_view_def prune_ring_none)
    then have "coherent ?hc1" by (intro coherent_frame [OF inv inv1 coh]) auto
    then show ?thesis unfolding run using True by simp
  next
    case False
    have "coherent (invalidate_references s None ?hc1)"
      by (rule coherent_invalidate_all [OF inv inv1 coh])
        (use ok in \<open>auto simp: same_view_def prune_ring_list\<close>)
    then show ?thesis unfolding run using False by simp
  qed
qed

lemma coherent_prune:
  assumes "history_inv hc" and "coherent hc"
  shows "coherent (fst (prune_history now hc))"
proof -
  have "history_inv hc \<Longrightarrow> coherent hc \<Longrightarrow> coherent (fold (\<lambda>s hc. fst (prune_symbol s now hc)) ss hc)" for ss hc
    by (induction ss arbitrary: hc) (auto simp: history_inv_prune_symbol coherent_prune_symbol)
  then show ?thesis using assms by (simp add: prune_history_run)
qed

lemma visible_upsert:
  assumes "strict_on pp_timestamp ring" and "c < b"
  shows "visible c (upsert_bucket ring p b) = visible c ring"
proof (rule strict_on_unique)
  note up = upsert_bucket_cases [OF assms(1), of p b]
  show "strict_on pp_timestamp (visible c (upsert_bucket ring p b))"
    unfolding visible_def by (rule strict_on_filter [OF up(1)])
  show "strict_on pp_timestamp (visible c ring)"
    unfolding visible_def by (rule strict_on_filter [OF assms(1)])
  show "set (visible c (upsert_bucket ring p b)) = set (visible c ring)"
    using assms(2) by (auto simp: visible_def up(2))
qed

text \<open>
  A point is on time for the cache when no cached one-hour cutoff splits its five-minute
  bucket: the bucket starts at or before the cutoff only if the point does too.
\<close>

definition on_time :: "price_point \<Rightarrow> history_cache \<Rightarrow> bool" where
  "on_time p hc \<longleftrightarrow> (\<forall>(s, e) \<in> set (reference_cache hc).
     re_as_of e - hour < pp_timestamp p \<longrightarrow> re_as_of e - hour < bucket_of (pp_timestamp p) 5)"

definition insert_point :: "price_point \<Rightarrow> history_cache \<Rightarrow> history_cache" where
  "insert_point p hc =
     (if pp_interval p = ''1d'' then
        hc\<lparr>daily := dict_set (pp_symbol p)
          (upsert_bucket (dict_list (daily hc) (pp_symbol p)) p (pp_timestamp p)) (daily hc)\<rparr>
      else
        (if pp_interval p = ''1m'' then
           hc\<lparr>one_minute := dict_set (pp_symbol p)
             (upsert_bucket (dict_list (one_minute hc) (pp_symbol p)) p (bucket_of (pp_timestamp p) 1))
             (one_minute hc)\<rparr> else hc)
         \<lparr>five_minute := dict_set (pp_symbol p)
            (upsert_bucket (dict_list (five_minute hc) (pp_symbol p)) (p\<lparr>pp_interval := ''5m''\<rparr>)
              (bucket_of (pp_timestamp p) 5)) (five_minute hc)\<rparr>)"

lemma add_point_split:
  "add_point p hc =
     (if pp_interval p \<in> {''1d'', ''5m'', ''1m''} then
        Inr (invalidate_references (pp_symbol p) (Some (pp_timestamp p))
          (fst (prune_symbol (pp_symbol p) (pp_timestamp p) (insert_point p hc))))
      else Inl (ValueError ''unsupported history interval: ''))"
proof -
  have same: "pp_interval p = ''5m'' \<Longrightarrow> p\<lparr>pp_interval := ''5m''\<rparr> = p" by (cases p) simp
  show ?thesis
    by (cases "pp_interval p = ''5m''") (simp_all add: same add_point_def insert_point_def split_def Let_def)
qed

lemma insert_point_fields [simp]:
  "reference_cache (insert_point p hc) = reference_cache hc"
  "synthetic_recipes (insert_point p hc) = synthetic_recipes hc"
  "synthetic_dependents (insert_point p hc) = synthetic_dependents hc"
  by (simp_all add: insert_point_def)

lemma insert_point_inv: "history_inv hc \<Longrightarrow> history_inv (insert_point p hc)"
  by (auto simp: insert_point_def history_inv_def recipes_inv_def bucket_aligned intro!: rings_ok_upsert)

lemma insert_point_other: "y \<noteq> pp_symbol p \<Longrightarrow> same_view c y hc (insert_point p hc)"
  by (simp add: same_view_def insert_point_def)

lemma bucket_five_le_one: "bucket_of t 5 \<le> bucket_of t 1"
proof -
  have "minute * k \<le> floor_minute t" if "minute * k \<le> t" for k
    using aligned_le_floor [of "minute * k" t] that by simp
  moreover have "bucket_of t 5 = minute * (5 * (t div (5 * minute)))"
    by (simp add: bucket_five minus_mod_eq_mult_div)
  ultimately show ?thesis using bucket_bounds(3) [of t] by (simp add: bucket_one_minute)
qed

lemma insert_point_later:
  assumes "history_inv hc" and "c < bucket_of (pp_timestamp p) 5"
  shows "same_view c y hc (insert_point p hc)"
proof (cases "y = pp_symbol p")
  case True
  have "c < bucket_of (pp_timestamp p) 1" "c < pp_timestamp p"
    using assms(2) bucket_five_le_one [of "pp_timestamp p"] bucket_bounds(3) [of "pp_timestamp p"] by simp_all
  moreover have "strict_on pp_timestamp (dict_list (one_minute hc) y)" "strict_on pp_timestamp (dict_list (five_minute hc) y)"
    "strict_on pp_timestamp (dict_list (daily hc) y)"
    using assms(1) by (auto simp: history_inv_def intro: rings_ok_strict)
  ultimately show ?thesis
    using assms(2) True by (simp add: same_view_def insert_point_def visible_upsert)
qed (simp add: insert_point_other)

lemma prune_symbol_other: "history_inv hc \<Longrightarrow> y \<noteq> s \<Longrightarrow> same_view c y hc (fst (prune_symbol s now hc))"
  by (auto simp: same_view_def history_inv_def prune_ring_list)

lemma prune_symbol_kept:
  assumes "history_inv hc" and "(s, x) \<in> (edges (synthetic_dependents hc))\<^sup>*"
    and "dict_get (reference_cache (fst (prune_symbol s now hc))) x = Some e"
  shows "dict_get (reference_cache hc) x = Some e \<and> same_view c y hc (fst (prune_symbol s now hc))"
proof -
  have run: "reference_cache (fst (prune_symbol s now hc)) =
     (if snd (prune_symbol s now hc) \<noteq> 0
      then reference_cache (invalidate_references s None hc) else reference_cache hc)"
    by (simp add: prune_symbol_def split_def Let_def invalidate_references_def)
  have none: "snd (prune_symbol s now hc) = 0"
  proof (rule ccontr)
    assume "snd (prune_symbol s now hc) \<noteq> 0"
    then show False using assms(2,3) by (simp add: run invalidated_get)
  qed
  then have "snd (prune_ring (one_minute hc) s (now - ONE_MINUTE_RETENTION)) = 0"
    "snd (prune_ring (five_minute hc) s (now - FIVE_MINUTE_RETENTION)) = 0"
    "snd (prune_ring (daily hc) s (now - DAILY_RETENTION)) = 0"
    by (simp_all add: prune_symbol_def split_def Let_def)
  then show ?thesis
    using assms(1,3) none by (auto simp: same_view_def history_inv_def prune_ring_none run)
qed

lemma same_view_trans: "same_view c y a b \<Longrightarrow> same_view c y b d \<Longrightarrow> same_view c y a d"
  by (simp add: same_view_def)

lemma coherent_add:
  assumes inv: "history_inv hc" and coh: "coherent hc" and on: "on_time p hc"
    and add: "add_point p hc = Inr hc'"
  shows "coherent hc'"
proof (rule coherent_frame [OF inv _ coh])
  show "history_inv hc'" using history_inv_add [OF inv add] .
  let ?s = "pp_symbol p" and ?t = "pp_timestamp p"
  let ?hc1 = "insert_point p hc"
  let ?hc2 = "fst (prune_symbol ?s ?t ?hc1)"
  have inv1: "history_inv ?hc1" using inv by (rule insert_point_inv)
  have hc': "hc' = invalidate_references ?s (Some ?t) ?hc2"
    using add by (simp add: add_point_split split: if_splits)
  fix x e
  assume e: "dict_get (reference_cache hc') x = Some e"
  have view': "same_view c y hc ?hc2 \<Longrightarrow> same_view c y hc hc'" for c y
    by (simp add: hc' same_view_def)
  have e2: "dict_get (reference_cache ?hc2) x = Some e"
    using e by (simp add: hc' invalidated_get split: if_splits option.splits)
  show "dict_get (reference_cache hc) x = Some e
      \<and> dict_get (synthetic_recipes hc') x = dict_get (synthetic_recipes hc) x
      \<and> (\<forall>c y. c \<le> re_as_of e - hour \<longrightarrow> y \<in> set (sources hc x) \<longrightarrow> same_view c y hc hc')"
  proof (cases "(?s, x) \<in> (edges (synthetic_dependents hc))\<^sup>*")
    case True
    note kept = prune_symbol_kept [OF inv1, of ?s x ?t e, simplified, OF True e2]
    have "re_as_of e - hour < ?t"
      using e True by (simp add: hc' invalidated_get split: if_splits option.splits)
    moreover have "(x, e) \<in> set (reference_cache hc)" using kept by (auto dest: map_of_SomeD)
    ultimately have "re_as_of e - hour < bucket_of ?t 5" using on by (auto simp: on_time_def)
    then have "c \<le> re_as_of e - hour \<Longrightarrow> same_view c y hc ?hc2" for c y
      using kept by (intro same_view_trans [OF insert_point_later [OF inv, of c p]]) auto
    then show ?thesis using kept view' by (simp add: hc')
  next
    case False
    have "same_view c y hc ?hc2" if "y \<noteq> ?s" for c y
      using same_view_trans [OF insert_point_other [OF that] prune_symbol_other [OF inv1 that]] .
    moreover have "?s \<notin> set (sources hc x)"
      using False source_dependent [of hc ?s x] inv by (auto simp: history_inv_def)
    moreover have "dict_get (reference_cache hc) x = Some e"
      using e2 False by (simp add: prune_symbol_def split_def Let_def invalidated_get split: if_splits)
    ultimately show ?thesis using view' by (auto simp: hc') metis
  qed
qed

lemma coherent_load_symbol:
  assumes "history_inv hc" and "incoming_inv inc" and "coherent hc"
  shows "coherent (load_symbol inc s hc)"
proof (rule coherent_frame [OF assms(1) history_inv_load_symbol [OF assms(1,2)] assms(3)])
  fix x e
  assume "dict_get (reference_cache (load_symbol inc s hc)) x = Some e"
  then have e: "dict_get (reference_cache (invalidate_references s None hc)) x = Some e"
    by (simp add: load_symbol_def Let_def)
  then have far: "(s, x) \<notin> (edges (synthetic_dependents hc))\<^sup>*"
    by (auto simp: invalidated_get split: if_splits)
  then have "s \<notin> set (sources hc x)"
    using source_dependent [of hc s x] assms(1) by (auto simp: history_inv_def)
  moreover have "same_view c y hc (load_symbol inc s hc)" if "y \<noteq> s" for c y
    using that by (simp add: same_view_def load_symbol_def Let_def replace_ring_def)
  moreover have fields: "synthetic_recipes (load_symbol inc s hc) = synthetic_recipes hc"
    by (simp add: load_symbol_def Let_def)
  ultimately show "dict_get (reference_cache hc) x = Some e
      \<and> dict_get (synthetic_recipes (load_symbol inc s hc)) x = dict_get (synthetic_recipes hc) x
      \<and> (\<forall>c y. c \<le> re_as_of e - hour \<longrightarrow> y \<in> set (sources hc x) \<longrightarrow> same_view c y hc (load_symbol inc s hc))"
    using e far fields by (auto simp: invalidated_get) metis
qed

lemma coherent_load:
  assumes "history_inv hc" and "coherent hc" and "load_history ps hc = Inr hc'"
  shows "coherent hc'"
proof -
  have run: "history_inv hc \<Longrightarrow> incoming_inv inc \<Longrightarrow> coherent hc \<Longrightarrow> coherent (fold (load_symbol inc) ss hc)"
    for inc ss hc
    by (induction ss arbitrary: hc) (auto simp: history_inv_load_symbol coherent_load_symbol)
  have "incoming_inv \<lparr>in_one = [], in_five = [], in_daily = []\<rparr>" by (simp add: incoming_inv_def)
  then show ?thesis
    using assms incoming_inv_points [of "\<lparr>in_one = [], in_five = [], in_daily = []\<rparr>" "sort_key pp_timestamp ps"]
    by (auto simp: load_history_def res_simps run split: if_splits)
qed

lemma coherent_register:
  assumes inv: "history_inv hc" and coh: "coherent hc"
    and reg: "register_synthetic_history s inputs op skew prov hc = Inr hc'"
  shows "coherent hc'"
  using reg
proof (cases rule: register_split)
  case same
  with coh show ?thesis by simp
next
  case (registered r deps)
  have "history_inv (hc\<lparr>synthetic_recipes := dict_set s r (synthetic_recipes hc), synthetic_dependents := deps,
      one_minute := dict_pop s (one_minute hc), five_minute := dict_pop s (five_minute hc),
      daily := dict_pop s (daily hc)\<rparr>)"
    using history_inv_register [OF inv reg] by (simp add: registered(4))
  then show ?thesis
    unfolding registered(4) by (rule coherent_invalidate_all [OF inv _ coh]) (auto simp: same_view_def)
qed

lemma fold_drop_rings_refs:
  "dict_get (reference_cache (fold drop_rings ss hc)) x =
     (if x \<in> set ss then None else dict_get (reference_cache hc) x)"
  by (induction ss arbitrary: hc) (auto simp: drop_rings_def)

lemma fold_drop_recipe_refs:
  "dict_get (reference_cache (fold drop_recipe ss hc)) x = Some e \<Longrightarrow>
     dict_get (reference_cache hc) x = Some e
     \<and> (x \<in> set ss \<longrightarrow> dict_get (synthetic_recipes hc) x = None)"
proof (induction ss arbitrary: hc)
  case Nil
  then show ?case by simp
next
  case (Cons a ss)
  then have "dict_get (reference_cache (drop_recipe a hc)) x = Some e"
    and "x \<in> set ss \<Longrightarrow> dict_get (dict_pop a (synthetic_recipes hc)) x = None"
    using Cons.IH [of "drop_recipe a hc"] by auto
  then show ?case
    by (cases "dict_get (synthetic_recipes hc) a") (auto simp: drop_recipe_def split: if_splits)
qed

text \<open>What survives an eviction: the dependency closure of the requested symbols.\<close>

definition retained_closure :: "string list \<Rightarrow> history_cache \<Rightarrow> string set" where
  "retained_closure symbols hc = (edges (recipe_graph (synthetic_recipes hc)))\<^sup>* `` set symbols"

lemma retain_history_split:
  obtains gone dropped where
    "fst (retain_history_symbols symbols hc) = fold drop_recipe dropped (fold drop_rings gone hc)"
    "set gone = set (ring_symbols hc) - retained_closure symbols hc"
    "set dropped = set (dict_keys (synthetic_recipes hc)) - retained_closure symbols hc"
    "snd (retain_history_symbols symbols hc) = sum_list (map (ring_total hc) gone)" "distinct gone"
proof
  let ?g = "recipe_graph (synthetic_recipes hc)"
  let ?retained = "close_pending ?g (remdups symbols) (rev (remdups symbols))"
  let ?gone = "filter (\<lambda>s. s \<notin> set ?retained) (ring_symbols hc)"
  let ?dropped = "filter (\<lambda>s. s \<notin> set ?retained) (dict_keys (synthetic_recipes hc))"
  have retained: "set ?retained = retained_closure symbols hc"
    unfolding set_close_pending retained_closure_def by simp
  show "fst (retain_history_symbols symbols hc) = fold drop_recipe ?dropped (fold drop_rings ?gone hc)"
    by (simp add: retain_history_symbols_def Let_def fold_drop_rings_fields)
  show "set ?gone = set (ring_symbols hc) - retained_closure symbols hc"
    and "set ?dropped = set (dict_keys (synthetic_recipes hc)) - retained_closure symbols hc"
    unfolding retained [symmetric] by auto
  show "snd (retain_history_symbols symbols hc) = sum_list (map (ring_total hc) ?gone)"
    by (simp add: retain_history_symbols_def Let_def)
  show "distinct ?gone" by (simp add: ring_symbols_def)
qed

lemma retained_inputs:
  assumes "x \<in> retained_closure symbols hc" and "dict_get (synthetic_recipes hc) x = Some r" and "d \<in> set (sr_inputs r)"
  shows "d \<in> retained_closure symbols hc"
proof -
  have "(x, d) \<in> edges (recipe_graph (synthetic_recipes hc))" using assms(2,3) by (auto simp: recipe_edges)
  with assms(1) show ?thesis by (auto simp: retained_closure_def intro: rtrancl_into_rtrancl)
qed

lemma coherent_retain:
  assumes inv: "history_inv hc" and coh: "coherent hc"
  shows "coherent (fst (retain_history_symbols symbols hc))"
proof (rule coherent_frame [OF inv history_inv_retain [OF inv] coh])
  let ?hc' = "fst (retain_history_symbols symbols hc)"
  fix x e
  assume e: "dict_get (reference_cache ?hc') x = Some e"
  obtain gone dropped where run: "?hc' = fold drop_recipe dropped (fold drop_rings gone hc)"
    and gone: "set gone = set (ring_symbols hc) - retained_closure symbols hc"
    and dropped: "set dropped = set (dict_keys (synthetic_recipes hc)) - retained_closure symbols hc"
    by (rule retain_history_split)
  have kept: "dict_get (reference_cache hc) x = Some e" and here: "x \<notin> set gone"
    and norecipe: "x \<in> set dropped \<longrightarrow> dict_get (synthetic_recipes hc) x = None"
    using fold_drop_recipe_refs [OF e [unfolded run]]
    by (auto simp: fold_drop_rings_refs fold_drop_rings_fields split: if_splits)
  have view: "same_view c y hc ?hc'" if "y \<notin> set gone" for c y
    using that by (simp add: run same_view_def fold_drop_recipe_fields fold_drop_rings_fields)
  have "y \<notin> set gone" if "y \<in> set (sources hc x)" for y
  proof (cases "dict_get (synthetic_recipes hc) x")
    case None
    with that here show ?thesis by (simp add: sources_def)
  next
    case (Some r)
    then have "x \<in> set (dict_keys (synthetic_recipes hc))" by (force dest: map_of_SomeD)
    then have "x \<in> retained_closure symbols hc" using norecipe dropped Some by auto
    with Some that show ?thesis using retained_inputs gone by (fastforce simp: sources_def)
  qed
  moreover have "dict_get (synthetic_recipes ?hc') x = dict_get (synthetic_recipes hc) x"
    using norecipe by (auto simp: run fold_drop_recipe_fields fold_drop_rings_fields)
  ultimately show "dict_get (reference_cache hc) x = Some e
      \<and> dict_get (synthetic_recipes ?hc') x = dict_get (synthetic_recipes hc) x
      \<and> (\<forall>c y. c \<le> re_as_of e - hour \<longrightarrow> y \<in> set (sources hc x) \<longrightarrow> same_view c y hc ?hc')"
    using kept view by auto
qed

lemma coherent_change_references:
  assumes "coherent hc" and "change_references s t hc = Inr (hc', refs)"
  shows "coherent hc'"
proof -
  have ref: "reference_at x u (hc\<lparr>reference_cache := c\<rparr>) = reference_at x u hc" for x u c
    by (cases "dict_get (synthetic_recipes hc) x") (simp_all add: reference_at_def synthetic_reference_at_def Let_def)
  have same: "compute_references x u (hc\<lparr>reference_cache := c\<rparr>) = compute_references x u hc" for x u c
    unfolding compute_references_def ref ..
  show ?thesis
    using assms by (auto simp: change_references_def coherent_def res_simps same split: option.splits if_splits)
qed

lemma change_references_hit:
  assumes "history_inv hc" and "coherent hc" and "daily_aligned hc"
    and "change_references s t hc = Inr (hc', refs)"
  shows "compute_references s t hc = Inr refs"
proof (cases "dict_get (reference_cache hc) s")
  case None
  then show ?thesis using assms(4) by (auto simp: change_references_def res_simps)
next
  case (Some e)
  then have "compute_references s (re_as_of e) hc = Inr (re_references e)"
    using assms(2) by (simp add: coherent_def)
  moreover have "floor_minute (re_as_of e) = floor_minute t \<Longrightarrow>
      compute_references s t hc = compute_references s (re_as_of e) hc"
    using compute_references_minute [OF assms(1,3)] by metis
  ultimately show ?thesis
    using assms(4) Some by (auto simp: change_references_def re_minute_def res_simps split: if_splits)
qed

subsection \<open>The component as a transition system\<close>

text \<open>
  Every public method takes the lock for its whole body, so a run of the cache is a
  sequence of these steps. A method that raises leaves the cache as it was.
\<close>

inductive history_step :: "history_cache \<Rightarrow> history_cache \<Rightarrow> bool" where
  Add: "add_point p hc = Inr hc' \<Longrightarrow> on_time p hc \<Longrightarrow> history_step hc hc'"
| Load: "load_history ps hc = Inr hc' \<Longrightarrow> history_step hc hc'"
| Prune: "history_step hc (fst (prune_history now hc))"
| Register: "register_synthetic_history s inputs op skew prov hc = Inr hc' \<Longrightarrow> history_step hc hc'"
| Retain: "history_step hc (fst (retain_history_symbols symbols hc))"
| References: "change_references s t hc = Inr (hc', refs) \<Longrightarrow> history_step hc hc'"

lemma history_step_inv:
  "history_step hc hc' \<Longrightarrow> history_inv hc \<Longrightarrow> coherent hc \<Longrightarrow> history_inv hc' \<and> coherent hc'"
  by (induction rule: history_step.induct)
    (auto simp: history_inv_prune history_inv_retain coherent_prune coherent_retain
      dest: history_inv_add history_inv_load history_inv_register history_inv_change_references
        coherent_add coherent_load coherent_register coherent_change_references)

lemma empty_history_coherent: "coherent empty_history"
  by (simp add: coherent_def empty_history_def)

lemma history_reachable_inv: "history_step\<^sup>*\<^sup>* empty_history hc \<Longrightarrow> history_inv hc \<and> coherent hc"
  by (induction rule: rtranclp_induct) (auto simp: empty_history_inv empty_history_coherent dest: history_step_inv)

end
