(* ===== verification/QP_History_Props.thy ===== *)
theory QP_History_Props
  imports QP_History_Refs
begin

text \<open>
  The properties of the history cache (\<^verbatim>\<open>HistoryCache\<close> in \<^verbatim>\<open>quickprice/cache.py\<close>): the
  representation invariant under every method, exact functional descriptions of
  inserting, bootstrapping and evicting, cycle rejection, and the coherence of the cached
  rolling references with what \<^verbatim>\<open>analytics.py\<close> computes from the merged history.
\<close>

subsection \<open>Retention after an insertion\<close>

lemma prune_symbol_rings:
  assumes "history_inv hc"
  shows "dict_list (one_minute (fst (prune_symbol s now hc))) s = filter (\<lambda>p. now - ONE_MINUTE_RETENTION \<le> pp_timestamp p) (dict_list (one_minute hc) s)"
    and "dict_list (five_minute (fst (prune_symbol s now hc))) s = filter (\<lambda>p. now - FIVE_MINUTE_RETENTION \<le> pp_timestamp p) (dict_list (five_minute hc) s)"
    and "dict_list (daily (fst (prune_symbol s now hc))) s = filter (\<lambda>p. now - DAILY_RETENTION \<le> pp_timestamp p) (dict_list (daily hc) s)"
proof -
  have ok: "rings_ok minute (one_minute hc)" "rings_ok (5 * minute) (five_minute hc)" "rings_ok 1 (daily hc)"
    using assms by (auto simp: history_inv_def)
  show "dict_list (one_minute (fst (prune_symbol s now hc))) s = filter (\<lambda>p. now - ONE_MINUTE_RETENTION \<le> pp_timestamp p) (dict_list (one_minute hc) s)"
    "dict_list (five_minute (fst (prune_symbol s now hc))) s = filter (\<lambda>p. now - FIVE_MINUTE_RETENTION \<le> pp_timestamp p) (dict_list (five_minute hc) s)"
    "dict_list (daily (fst (prune_symbol s now hc))) s = filter (\<lambda>p. now - DAILY_RETENTION \<le> pp_timestamp p) (dict_list (daily hc) s)"
    using ok rings_ok_strict by (auto simp: prune_ring_list trim_ring_filter)
qed

lemma ring_at_filter: "ring_at (filter P ring) t = find_last (\<lambda>p. P p \<and> pp_timestamp p = t) ring"
  by (simp add: ring_at_def find_last_filter)

lemma ring_at_kept:
  "ring_at (filter (\<lambda>p. c \<le> pp_timestamp p) ring) t = (if c \<le> t then ring_at ring t else None)"
proof -
  have "find_last (\<lambda>p. c \<le> pp_timestamp p \<and> pp_timestamp p = t) ring = (if c \<le> t then find_last (\<lambda>p. pp_timestamp p = t) ring else None)"
    by (induction ring rule: rev_induct) auto
  then show ?thesis by (simp add: ring_at_filter) (simp add: ring_at_def)
qed

lemma ring_at_upsert:
  "strict_on pp_timestamp ring \<Longrightarrow>
     ring_at (upsert_bucket ring p b) t = (if t = b then Some (p\<lparr>pp_timestamp := b\<rparr>) else ring_at ring t)"
  using ring.lookup_put [of ring p b] by (simp add: fun_upd_def)

lemma ring_at_insert:
  assumes "history_inv hc"
  shows "ring_at (dict_list (one_minute (insert_point p hc)) s) t =
      (if s = pp_symbol p \<and> pp_interval p = ''1m'' \<and> t = bucket_of (pp_timestamp p) 1
       then Some (p\<lparr>pp_timestamp := t\<rparr>) else ring_at (dict_list (one_minute hc) s) t)"
    and "ring_at (dict_list (five_minute (insert_point p hc)) s) t =
      (if s = pp_symbol p \<and> pp_interval p \<noteq> ''1d'' \<and> t = bucket_of (pp_timestamp p) 5
       then Some (p\<lparr>pp_timestamp := t, pp_interval := ''5m''\<rparr>) else ring_at (dict_list (five_minute hc) s) t)"
    and "ring_at (dict_list (daily (insert_point p hc)) s) t =
      (if s = pp_symbol p \<and> pp_interval p = ''1d'' \<and> t = pp_timestamp p
       then Some p else ring_at (dict_list (daily hc) s) t)"
proof -
  have strict: "strict_on pp_timestamp (dict_list (one_minute hc) s)" "strict_on pp_timestamp (dict_list (five_minute hc) s)"
    "strict_on pp_timestamp (dict_list (daily hc) s)" for s
    using assms by (auto simp: history_inv_def intro: rings_ok_strict)
  have self: "p\<lparr>pp_timestamp := pp_timestamp p\<rparr> = p" by simp
  show "ring_at (dict_list (one_minute (insert_point p hc)) s) t =
      (if s = pp_symbol p \<and> pp_interval p = ''1m'' \<and> t = bucket_of (pp_timestamp p) 1
       then Some (p\<lparr>pp_timestamp := t\<rparr>) else ring_at (dict_list (one_minute hc) s) t)"
    by (simp add: insert_point_def ring_at_upsert strict)
  show "ring_at (dict_list (five_minute (insert_point p hc)) s) t =
      (if s = pp_symbol p \<and> pp_interval p \<noteq> ''1d'' \<and> t = bucket_of (pp_timestamp p) 5
       then Some (p\<lparr>pp_timestamp := t, pp_interval := ''5m''\<rparr>) else ring_at (dict_list (five_minute hc) s) t)"
    by (simp add: insert_point_def ring_at_upsert strict)
  show "ring_at (dict_list (daily (insert_point p hc)) s) t =
      (if s = pp_symbol p \<and> pp_interval p = ''1d'' \<and> t = pp_timestamp p
       then Some p else ring_at (dict_list (daily hc) s) t)"
    by (simp add: insert_point_def ring_at_upsert strict self)
qed

lemma ring_at_prune:
  assumes "history_inv hc"
  shows "ring_at (dict_list (one_minute (fst (prune_symbol s now hc))) x) t =
      (if x = s \<and> t < now - ONE_MINUTE_RETENTION then None else ring_at (dict_list (one_minute hc) x) t)"
    and "ring_at (dict_list (five_minute (fst (prune_symbol s now hc))) x) t =
      (if x = s \<and> t < now - FIVE_MINUTE_RETENTION then None else ring_at (dict_list (five_minute hc) x) t)"
    and "ring_at (dict_list (daily (fst (prune_symbol s now hc))) x) t =
      (if x = s \<and> t < now - DAILY_RETENTION then None else ring_at (dict_list (daily hc) x) t)"
proof -
  have ok: "rings_ok minute (one_minute hc)" "rings_ok (5 * minute) (five_minute hc)" "rings_ok 1 (daily hc)"
    using assms by (auto simp: history_inv_def)
  show "ring_at (dict_list (one_minute (fst (prune_symbol s now hc))) x) t =
      (if x = s \<and> t < now - ONE_MINUTE_RETENTION then None else ring_at (dict_list (one_minute hc) x) t)"
    by (cases "x = s") (auto simp: prune_symbol_rings [OF assms] ring_at_kept prune_ring_list [OF ok(1)]
      simp del: prune_symbol_fields, simp add: prune_ring_list [OF ok(1)])
  show "ring_at (dict_list (five_minute (fst (prune_symbol s now hc))) x) t =
      (if x = s \<and> t < now - FIVE_MINUTE_RETENTION then None else ring_at (dict_list (five_minute hc) x) t)"
    by (cases "x = s") (auto simp: prune_symbol_rings [OF assms] ring_at_kept prune_ring_list [OF ok(2)]
      simp del: prune_symbol_fields, simp add: prune_ring_list [OF ok(2)])
  show "ring_at (dict_list (daily (fst (prune_symbol s now hc))) x) t =
      (if x = s \<and> t < now - DAILY_RETENTION then None else ring_at (dict_list (daily hc) x) t)"
    by (cases "x = s") (auto simp: prune_symbol_rings [OF assms] ring_at_kept prune_ring_list [OF ok(3)]
      simp del: prune_symbol_fields, simp add: prune_ring_list [OF ok(3)])
qed

subsection \<open>Concrete caches for the witnesses\<close>

definition sample_point :: "string \<Rightarrow> int \<Rightarrow> rat \<Rightarrow> string \<Rightarrow> price_point" where
  "sample_point s t price interval = \<lparr>pp_symbol = s, pp_timestamp = t, pp_price = price,
     pp_provider = ''kraken'', pp_is_derived = False, pp_interval = interval\<rparr>"

definition sample_history :: history_cache where
  "sample_history = \<lparr>
     one_minute = [(''BTC'', [sample_point ''BTC'' (600 * minute) 100 ''1m'', sample_point ''BTC'' (660 * minute) 110 ''1m''])],
     five_minute = [(''BTC'', [sample_point ''BTC'' (600 * minute) 100 ''5m'', sample_point ''BTC'' (660 * minute) 110 ''5m''])],
     daily = [], reference_cache = [], synthetic_recipes = [], synthetic_dependents = []\<rparr>"

lemma sample_history_run:
  "res_bind (add_point (sample_point ''BTC'' (600 * minute) 100 ''1m'') empty_history)
     (add_point (sample_point ''BTC'' (660 * minute) 110 ''1m'')) = Inr sample_history"
  by (simp add: add_point_split insert_point_def prune_symbol_def prune_ring_def sample_point_def sample_history_def
      empty_history_def upsert_bucket_def bucket_of_def time_units retention_defs invalidate_references_def
      drop_reference_def dict_list_def)

lemma sample_history_reachable: "history_step\<^sup>*\<^sup>* empty_history sample_history"
proof -
  let ?p = "sample_point ''BTC'' (600 * minute) 100 ''1m''"
  let ?q = "sample_point ''BTC'' (660 * minute) 110 ''1m''"
  from sample_history_run obtain hc where first: "add_point ?p empty_history = Inr hc"
    and second: "add_point ?q hc = Inr sample_history" by (auto simp: res_bind_Inr_iff)
  have "reference_cache hc = []"
    using first by (auto simp: add_point_split insert_point_def prune_symbol_def prune_ring_def sample_point_def
      empty_history_def invalidate_references_def drop_reference_def dict_list_def upsert_bucket_def
      time_units retention_defs bucket_of_def)
  then have "on_time ?q hc" by (simp add: on_time_def)
  moreover have "on_time ?p empty_history" by (simp add: on_time_def empty_history_def)
  ultimately have "history_step empty_history hc" "history_step hc sample_history"
    using first second history_step.Add by blast+
  then show ?thesis by (rule converse_rtranclp_into_rtranclp [OF _ r_into_rtranclp])
qed

lemma sample_history_inv: "history_inv sample_history" "coherent sample_history"
  using history_reachable_inv [OF sample_history_reachable] by simp_all

lemma sample_history_daily: "daily_aligned sample_history"
  by (simp add: daily_aligned_def sample_history_def)

definition sample_references :: "(string, price_point option) dict" where
  "sample_references = map (\<lambda>(n, _). (n, if n = ''1h'' then Some (sample_point ''BTC'' (660 * minute) 110 ''1m'') else None)) WINDOWS"

lemma sample_references_run:
  "change_references ''BTC'' (720 * minute) sample_history =
     Inr (sample_history\<lparr>reference_cache := [(''BTC'', \<lparr>re_as_of = 720 * minute, re_references = sample_references\<rparr>)]\<rparr>,
          sample_references)"
  by (simp add: change_references_def compute_references_def reference_at_def sample_history_def Let_def dict_list_def
      WINDOWS_def latest_at_or_before_def find_last_def sample_point_def time_units sample_references_def)

subsection \<open>Properties\<close>

text \<open>
  C24. Every public method of \<^verbatim>\<open>HistoryCache\<close> preserves its representation invariant: per
  symbol each ring is non-empty, strictly ordered by time, aligned to its bucket width and
  filed under its own symbol; the recipes are well formed and acyclic, and the dependents
  index is exactly the converse of the recipe inputs.
\<close>

theorem history_methods_preserve_invariant:
  assumes "history_inv hc"
  shows "(\<forall>p hc'. add_point p hc = Inr hc' \<longrightarrow> history_inv hc')
    \<and> (\<forall>ps hc'. load_history ps hc = Inr hc' \<longrightarrow> history_inv hc')
    \<and> (\<forall>now. history_inv (fst (prune_history now hc)))
    \<and> (\<forall>s inputs op skew prov hc'.
         register_synthetic_history s inputs op skew prov hc = Inr hc' \<longrightarrow> history_inv hc')
    \<and> (\<forall>symbols. history_inv (fst (retain_history_symbols symbols hc)))
    \<and> (\<forall>s t hc' refs. change_references s t hc = Inr (hc', refs) \<longrightarrow> history_inv hc')"
  using assms by (auto simp: history_inv_prune history_inv_retain
      dest: history_inv_add history_inv_load history_inv_register history_inv_change_references)

theorem history_methods_preserve_invariant_witness:
  "history_inv (fst (prune_history (4000 * minute) sample_history))"
  using history_methods_preserve_invariant [OF sample_history_inv(1)] by blast

text \<open>
  C28. \<^verbatim>\<open>HistoryCache.add\<close>, exactly: a point of a supported interval lands in its minute
  bucket (1m only), its five-minute bucket (1m and 5m) or at its own instant (1d); it
  replaces what was there; everything of the symbol older than the retention counted from
  the point is gone, and nothing else changes in any ring.
\<close>

theorem add_point_exact:
  assumes "history_inv hc" and "pp_interval p \<in> {''1d'', ''5m'', ''1m''}"
  shows "\<exists>hc'. add_point p hc = Inr hc'
    \<and> (\<forall>s t. ring_at (dict_list (one_minute hc') s) t =
        (if s = pp_symbol p \<and> t < pp_timestamp p - 48 * hour then None
         else if s = pp_symbol p \<and> pp_interval p = ''1m'' \<and> t = bucket_of (pp_timestamp p) 1
         then Some (p\<lparr>pp_timestamp := t\<rparr>)
         else ring_at (dict_list (one_minute hc) s) t))
    \<and> (\<forall>s t. ring_at (dict_list (five_minute hc') s) t =
        (if s = pp_symbol p \<and> t < pp_timestamp p - 45 * day then None
         else if s = pp_symbol p \<and> pp_interval p \<noteq> ''1d'' \<and> t = bucket_of (pp_timestamp p) 5
         then Some (p\<lparr>pp_timestamp := t, pp_interval := ''5m''\<rparr>)
         else ring_at (dict_list (five_minute hc) s) t))
    \<and> (\<forall>s t. ring_at (dict_list (daily hc') s) t =
        (if s = pp_symbol p \<and> t < pp_timestamp p - 400 * day then None
         else if s = pp_symbol p \<and> pp_interval p = ''1d'' \<and> t = pp_timestamp p then Some p
         else ring_at (dict_list (daily hc) s) t))"
  unfolding add_point_split if_P [OF assms(2)]
  by (intro exI conjI, rule refl)
    (simp_all only: invalidate_references_fields ring_at_prune [OF insert_point_inv [OF assms(1)]]
      ring_at_insert [OF assms(1)] retention_defs, simp_all)

theorem add_point_exact_witness:
  "\<exists>hc'. add_point (sample_point ''BTC'' (661 * minute) 111 ''1m'') sample_history = Inr hc'
     \<and> ring_at (dict_list (one_minute hc') ''BTC'') (661 * minute) = Some (sample_point ''BTC'' (661 * minute) 111 ''1m'')
     \<and> ring_at (dict_list (five_minute hc') ''BTC'') (660 * minute) = Some (sample_point ''BTC'' (660 * minute) 111 ''5m'')"
  using add_point_exact [OF sample_history_inv(1), of "sample_point ''BTC'' (661 * minute) 111 ''1m''"]
  by (auto simp: sample_point_def bucket_of_def time_units)

text \<open>
  C4. Cache coherence under two conditions: in every state the cache can reach from empty
  when every added point is on time (it does not fall into a bucket that a cached cutoff has
  split; a late point can break coherence, as shown below), the references \<^verbatim>\<open>change_references\<close> returns, cached or
  not, are the ones a fresh computation at the requested instant would give, provided the
  daily points are aligned to minutes.
\<close>

theorem change_references_coherent:
  assumes "history_step\<^sup>*\<^sup>* empty_history hc" and "daily_aligned hc"
    and "change_references s t hc = Inr (hc', refs)"
  shows "compute_references s t hc = Inr refs"
  using history_reachable_inv [OF assms(1)] assms(2,3) by (auto intro: change_references_hit)

theorem change_references_coherent_witness:
  "compute_references ''BTC'' (720 * minute) sample_history = Inr sample_references"
  using change_references_coherent [OF sample_history_reachable sample_history_daily sample_references_run] .

text \<open>
  C6. The live path and the reference calculation agree, in every state reached with points
  that are on time and with daily points aligned to minutes: for a symbol that is not
  synthetic, with rings of its own, the six rolling changes computed from \<^verbatim>\<open>change_references\<close> are those that
  \<^verbatim>\<open>calculate_changes\<close> computes from the merged history \<^verbatim>\<open>points(symbol)\<close>, for any price
  and any instant, exceptions included.
\<close>

theorem live_changes_agree:
  assumes "history_step\<^sup>*\<^sup>* empty_history hc" and "daily_aligned hc"
    and "dict_get (synthetic_recipes hc) s = None"
    and "change_references s t hc = Inr (hc', refs)"
  shows "calculate_changes_from_references price refs = calculate_changes price t (points_for s hc)"
proof (rule changes_from_references_eq)
  fix name d
  assume w: "(name, d) \<in> set WINDOWS"
  have inv: "history_inv hc" using history_reachable_inv [OF assms(1)] by simp
  have run: "compute_references s t hc = Inr refs"
    using history_reachable_inv [OF assms(1)] assms(2,4) by (auto intro: change_references_hit)
  have "list_all2 (\<lambda>w y. fst y = fst w \<and> reference_at s (t - snd w) hc = Inr (snd y)) WINDOWS refs"
    by (rule list_all2_mono [OF run [unfolded compute_references_def res_map_Inr_iff]])
      (auto simp: res_bind_Inr_iff split: prod.splits)
  note all = this
  have "map fst refs = map fst WINDOWS" using all by (rule list_all2_map_fst)
  then have dist: "distinct (map fst refs)" by (simp add: WINDOWS_wf)
  from list_all2_mem_left [OF all w] obtain y where "y \<in> set refs" "fst y = name"
    and ref: "reference_at s (t - d) hc = Inr (snd y)" by auto
  then have get: "dict_get refs name = Some (snd y)" using dist by auto
  have "0 \<le> d" using w by (auto simp: WINDOWS_def time_units)
  have sorted: "sorted_on pp_timestamp (filter (\<lambda>p. pp_timestamp p \<le> t) (points_for s hc))"
    by (intro strict_on_sorted strict_on_filter points_for_strict [OF inv])
  have "snd y = find_last (\<lambda>p. pp_timestamp p \<le> t - d) (points_for s hc)"
    using ref reference_at_points [OF inv assms(3), of "t - d"] by simp
  also have "\<dots> = find_last (\<lambda>p. pp_timestamp p \<le> t - d) (filter (\<lambda>p. pp_timestamp p \<le> t) (points_for s hc))"
    unfolding find_last_filter by (rule find_last_cong) (use \<open>0 \<le> d\<close> in auto)
  finally show "Option.bind (dict_get refs name) id = find_last (\<lambda>p. pp_timestamp p \<le> t - d)
      (sort_key pp_timestamp (filter (\<lambda>p. pp_timestamp p \<le> t) (points_for s hc)))"
    by (simp add: get sort_key_sorted_on [OF sorted])
qed

theorem live_changes_agree_witness:
  "calculate_changes_from_references (NumFinite 121) sample_references =
     calculate_changes (NumFinite 121) (720 * minute) (points_for ''BTC'' sample_history)"
  by (rule live_changes_agree [OF sample_history_reachable sample_history_daily _ sample_references_run])
    (simp add: sample_history_def)

text \<open>
  C30. The on-time condition is needed: a one-minute point whose five-minute bucket starts
  at or before the cached one-hour cutoff, while the point itself is later, does not drop
  the cached entry although recomputation selects the new bucket. Within the same quote
  minute \<^verbatim>\<open>change_references\<close> then returns the outdated reference.
\<close>

theorem late_point_leaves_stale_reference:
  "\<exists>hc p t hc1 refs hc2. history_inv hc \<and> coherent hc \<and> daily_aligned hc
     \<and> add_point p hc = Inr hc1 \<and> change_references ''BTC'' t hc1 = Inr (hc2, refs)
     \<and> compute_references ''BTC'' t hc1 \<noteq> Inr refs"
proof (intro exI conjI)
  let ?hc = "sample_history\<lparr>one_minute := [], reference_cache :=
     [(''BTC'', \<lparr>re_as_of = 720 * minute, re_references = map (\<lambda>(n, _). (n, if n = ''1h'' then Some (sample_point ''BTC'' (660 * minute) 110 ''5m'') else None)) WINDOWS\<rparr>)]\<rparr>"
  let ?p = "sample_point ''BTC'' (662 * minute) 120 ''1m''"
  show "history_inv ?hc"
    using sample_history_inv(1) by (simp add: history_inv_def recipes_inv_def rings_ok_def)
  show "coherent ?hc"
    by (simp add: coherent_def compute_references_def reference_at_def sample_history_def Let_def dict_list_def
      WINDOWS_def latest_at_or_before_def find_last_def sample_point_def time_units)
  show "daily_aligned ?hc" by (simp add: daily_aligned_def sample_history_def)
  show "add_point ?p ?hc = Inr (?hc\<lparr>one_minute := [(''BTC'', [?p])], five_minute := [(''BTC'',
      [sample_point ''BTC'' (600 * minute) 100 ''5m'', sample_point ''BTC'' (660 * minute) 120 ''5m''])]\<rparr>)"
    (is "_ = Inr ?hc1")
    by (simp add: add_point_split insert_point_def prune_symbol_def prune_ring_def sample_point_def sample_history_def
      upsert_bucket_def bucket_of_def time_units retention_defs invalidate_references_def drop_reference_def dict_list_def)
  show "change_references ''BTC'' (720 * minute) ?hc1 = Inr (?hc1, map (\<lambda>(n, _). (n, if n = ''1h'' then Some (sample_point ''BTC'' (660 * minute) 110 ''5m'') else None)) WINDOWS)"
    by (simp add: change_references_def re_minute_def sample_history_def)
  show "compute_references ''BTC'' (720 * minute) ?hc1 \<noteq> Inr (map (\<lambda>(n, _). (n, if n = ''1h'' then Some (sample_point ''BTC'' (660 * minute) 110 ''5m'') else None)) WINDOWS)"
    by (simp add: compute_references_def reference_at_def sample_history_def Let_def dict_list_def
      WINDOWS_def latest_at_or_before_def find_last_def sample_point_def time_units)
qed

text \<open>
  C29. \<^verbatim>\<open>register_synthetic_history\<close> accepts a recipe exactly when its operation, arity and
  skew are valid and the output is not reachable from any of its inputs over the
  registered recipes, so the recipe graph can never contain a cycle.
\<close>

theorem register_accepts_iff:
  "(\<exists>hc'. register_synthetic_history s inputs op skew prov hc = Inr hc') \<longleftrightarrow>
     op \<in> {''inverse'', ''multiply'', ''divide''} \<and> length inputs = (if op = ''inverse'' then 1 else 2)
     \<and> 0 \<le> skew \<and> (\<forall>d \<in> set inputs. (d, s) \<notin> (edges (recipe_graph (synthetic_recipes hc)))\<^sup>*)"
proof -
  have "reaches (recipe_graph (synthetic_recipes hc)) s [d] [] \<longleftrightarrow> (d, s) \<in> (edges (recipe_graph (synthetic_recipes hc)))\<^sup>*" for d
    unfolding reaches_iff by simp
  then show ?thesis
    by (auto simp: register_synthetic_history_def Let_def raise_if_def simp del: reaches.simps)
qed

theorem register_accepts_iff_witness:
  "(\<exists>hc'. register_synthetic_history ''EUR:USD'' [''USD:EUR''] ''inverse'' 0 ''fx'' empty_history = Inr hc')
   \<and> \<not> (\<exists>hc'. register_synthetic_history ''A'' [''B'', ''A''] ''divide'' 0 ''fx'' empty_history = Inr hc')"
proof
  have "edges (recipe_graph (synthetic_recipes empty_history)) = {}"
    by (simp add: empty_history_def recipe_graph_def edges_def dict_list_def)
  then show "\<exists>hc'. register_synthetic_history ''EUR:USD'' [''USD:EUR''] ''inverse'' 0 ''fx'' empty_history = Inr hc'"
    by (simp add: register_accepts_iff)
  show "\<not> (\<exists>hc'. register_synthetic_history ''A'' [''B'', ''A''] ''divide'' 0 ''fx'' empty_history = Inr hc')"
    by (simp add: register_accepts_iff)
qed

text \<open>
  \<^verbatim>\<open>retain_symbols\<close> keeps exactly the dependency closure of the requested symbols: a
  symbol inside keeps its rings and recipe, a symbol outside loses all three rings and
  its recipe; the returned count is the number of points removed.
\<close>

theorem retain_symbols_exact:
  "let (hc', removed) = retain_history_symbols symbols hc;
       kept = (edges (recipe_graph (synthetic_recipes hc)))\<^sup>* `` set symbols
   in (\<forall>s. dict_list (one_minute hc') s = (if s \<in> kept then dict_list (one_minute hc) s else [])
         \<and> dict_list (five_minute hc') s = (if s \<in> kept then dict_list (five_minute hc) s else [])
         \<and> dict_list (daily hc') s = (if s \<in> kept then dict_list (daily hc) s else [])
         \<and> dict_get (synthetic_recipes hc') s = (if s \<in> kept then dict_get (synthetic_recipes hc) s else None))
      \<and> removed = (\<Sum>s \<in> set (ring_symbols hc) - kept. ring_total hc s)"
proof -
  obtain gone dropped where run: "fst (retain_history_symbols symbols hc) = fold drop_recipe dropped (fold drop_rings gone hc)"
    and gone: "set gone = set (ring_symbols hc) - retained_closure symbols hc"
    and dropped: "set dropped = set (dict_keys (synthetic_recipes hc)) - retained_closure symbols hc"
    and count: "snd (retain_history_symbols symbols hc) = sum_list (map (ring_total hc) gone)" and "distinct gone"
    by (rule retain_history_split)
  have none: "s \<notin> set (ring_symbols hc) \<Longrightarrow> dict_list (one_minute hc) s = [] \<and> dict_list (five_minute hc) s = [] \<and> dict_list (daily hc) s = []" for s
    by (simp add: ring_symbols_def dict_list_Nil_if)
  have norec: "s \<notin> set (dict_keys (synthetic_recipes hc)) \<Longrightarrow> dict_get (synthetic_recipes hc) s = None" for s
    by (simp add: map_of_eq_None_iff)
  have "removed_sum": "sum_list (map (ring_total hc) gone) = (\<Sum>s \<in> set gone. ring_total hc s)"
    by (simp add: sum_list_distinct_conv_sum_set \<open>distinct gone\<close>)
  show ?thesis
    unfolding split_def Let_def run count removed_sum gone
    using none norec
    by (auto simp: fold_drop_recipe_fields fold_drop_rings_fields gone dropped retained_closure_def)
qed

end
