(* ===== verification/QP_Quota.thy ===== *)
theory QP_Quota
  imports QP_Prelude
begin

text \<open>
  The quota gates of \<^verbatim>\<open>quickprice/providers/quota.py\<close>: the fixed-window \<^verbatim>\<open>QuotaBudget\<close> and
  the \<^verbatim>\<open>SlidingWindowRateGate\<close>. Every method body runs under an \<^verbatim>\<open>asyncio.Lock\<close>, so a run
  is a sequence of calls; the clock reading is an argument of each call. The persistence
  callback is outside this file: whether it is set and whether it raised is an argument.
\<close>

type_synonym clock = rat

subsection \<open>QuotaBudget\<close>

record quota_budget =
  qb_limit :: int
  qb_period :: clock
  qb_reserve :: int
  qb_align :: bool
  qb_window_start :: clock
  qb_used :: int

text \<open>\<^verbatim>\<open>now - (now % period)\<close>; the period is positive, so \<^verbatim>\<open>%\<close> is the floored remainder.\<close>

definition float_mod :: "clock \<Rightarrow> clock \<Rightarrow> clock" where
  "float_mod a p = a - p * of_int \<lfloor>a / p\<rfloor>"

definition start_for :: "bool \<Rightarrow> clock \<Rightarrow> clock \<Rightarrow> clock" where
  "start_for align period now = (if align then now - float_mod now period else now)"

definition mk_quota_budget :: "int \<Rightarrow> clock \<Rightarrow> int \<Rightarrow> bool \<Rightarrow> clock \<Rightarrow> quota_budget result" where
  "mk_quota_budget limit period reserve align now =
     raise_if (limit \<le> 0 \<or> period \<le> 0) (ValueError ''limit and period_seconds must be positive'')
     (raise_if (\<not> (0 \<le> reserve \<and> reserve < limit)) (ValueError ''reserve must be between zero and limit'')
       (Inr \<lparr>qb_limit = limit, qb_period = period, qb_reserve = reserve, qb_align = align,
             qb_window_start = start_for align period now, qb_used = 0\<rparr>))"

definition roll :: "clock \<Rightarrow> quota_budget \<Rightarrow> quota_budget" where
  "roll now b =
     (if qb_window_start b + qb_period b \<le> now
      then b\<lparr>qb_window_start := start_for (qb_align b) (qb_period b) now, qb_used := 0\<rparr> else b)"

definition quota_ceiling :: "bool \<Rightarrow> quota_budget \<Rightarrow> int" where
  "quota_ceiling allow_reserve b = (if allow_reserve then qb_limit b else qb_limit b - qb_reserve b)"

text \<open>The persistence callback: not set, completed, or raised.\<close>

datatype persistence = NoCallback | Stored | Raised py_error

definition budget_acquire ::
  "clock \<Rightarrow> int \<Rightarrow> bool \<Rightarrow> persistence \<Rightarrow> quota_budget \<Rightarrow> quota_budget \<times> bool result" where
  "budget_acquire now cost allow_reserve persist b =
     (if cost \<le> 0 then (b, Inl (ValueError ''cost must be positive''))
      else
        let b1 = roll now b in
        if quota_ceiling allow_reserve b1 < qb_used b1 + cost then (b1, Inr False)
        else let b2 = b1\<lparr>qb_used := qb_used b1 + cost\<rparr> in
          (case persist of
             Raised e \<Rightarrow> (b2\<lparr>qb_window_start := qb_window_start b, qb_used := qb_used b\<rparr>, Inl e)
           | _ \<Rightarrow> (b2, Inr True)))"

definition can_acquire :: "clock \<Rightarrow> int \<Rightarrow> bool \<Rightarrow> quota_budget \<Rightarrow> quota_budget \<times> bool result" where
  "can_acquire now cost allow_reserve b =
     (if cost \<le> 0 then (b, Inl (ValueError ''cost must be positive''))
      else let b1 = roll now b in (b1, Inr (qb_used b1 + cost \<le> quota_ceiling allow_reserve b1)))"

text \<open>
  The checkpoint dictionary; \<^verbatim>\<open>None\<close> is a missing key. Values are taken after the
  conversions \<^verbatim>\<open>int(...)\<close> and \<^verbatim>\<open>float(...)\<close> succeeded.
\<close>

record quota_state =
  qs_version :: "int option"
  qs_limit :: "int option"
  qs_period :: "clock option"
  qs_reserve :: "int option"
  qs_window_start :: "clock option"
  qs_used :: "int option"

definition budget_state :: "quota_budget \<Rightarrow> quota_state" where
  "budget_state b = \<lparr>qs_version = Some 1, qs_limit = Some (qb_limit b), qs_period = Some (qb_period b),
     qs_reserve = Some (qb_reserve b), qs_window_start = Some (qb_window_start b), qs_used = Some (qb_used b)\<rparr>"

definition checkpoint :: "clock \<Rightarrow> quota_budget \<Rightarrow> quota_budget \<times> quota_state" where
  "checkpoint now b = (let b1 = roll now b in (b1, budget_state b1))"

definition or_default :: "'a option \<Rightarrow> 'a \<Rightarrow> 'a" where
  "or_default x d = (case x of None \<Rightarrow> d | Some v \<Rightarrow> v)"

definition budget_restore :: "clock \<Rightarrow> quota_state \<Rightarrow> quota_budget \<Rightarrow> quota_budget result" where
  "budget_restore now state b =
     raise_if (or_default (qs_version state) 0 \<noteq> 1) (ValueError ''unsupported quota checkpoint version'')
     (raise_if (or_default (qs_limit state) (- 1) \<noteq> qb_limit b)
       (ValueError ''quota checkpoint limit does not match configuration'')
     (raise_if (or_default (qs_period state) (- 1) \<noteq> qb_period b)
       (ValueError ''quota checkpoint period does not match configuration'')
     (case (qs_window_start state, qs_used state) of
        (None, _) \<Rightarrow> Inl (KeyError ''window_start'')
      | (Some _, None) \<Rightarrow> Inl (KeyError ''used'')
      | (Some window_start, Some used) \<Rightarrow>
          raise_if (used < 0) (ValueError ''quota checkpoint usage cannot be negative'')
          (Inr (if window_start = start_for (qb_align b) (qb_period b) now
                   \<and> now < window_start + qb_period b
                then b\<lparr>qb_window_start := window_start, qb_used := used\<rparr> else b)))))"

record quota_snapshot =
  qn_limit :: int
  qn_used :: int
  qn_remaining :: int
  qn_resets_at :: clock

definition budget_snapshot :: "clock \<Rightarrow> quota_budget \<Rightarrow> quota_budget \<times> quota_snapshot" where
  "budget_snapshot now b =
     (let b1 = roll now b in
      (b1, \<lparr>qn_limit = qb_limit b1, qn_used = qb_used b1, qn_remaining = max 0 (qb_limit b1 - qb_used b1),
            qn_resets_at = qb_window_start b1 + qb_period b1\<rparr>))"

definition daily_budget :: "int \<Rightarrow> int \<Rightarrow> clock \<Rightarrow> quota_budget result" where
  "daily_budget limit reserve now = mk_quota_budget limit 86400 reserve True now"

definition minute_budget :: "int \<Rightarrow> clock \<Rightarrow> quota_budget result" where
  "minute_budget limit now = mk_quota_budget limit 60 0 True now"

definition rolling_month_safe_daily_budget :: "int \<Rightarrow> int \<Rightarrow> clock \<Rightarrow> quota_budget result" where
  "rolling_month_safe_daily_budget limit reserve now =
     raise_if (limit < 31) (ValueError ''monthly limit must be at least 31'')
       (daily_budget (limit div 31) reserve now)"

subsection \<open>SlidingWindowRateGate\<close>

record rate_gate =
  rg_limit :: nat
  rg_period :: clock
  rg_events :: "clock list"

definition mk_rate_gate :: "int \<Rightarrow> clock \<Rightarrow> rate_gate result" where
  "mk_rate_gate limit period =
     raise_if (limit \<le> 0 \<or> period \<le> 0) (ValueError ''limit and period_seconds must be positive'')
       (Inr \<lparr>rg_limit = nat limit, rg_period = period, rg_events = []\<rparr>)"

text \<open>
  One turn of the loop in \<^verbatim>\<open>acquire\<close>, under the lock: \<^verbatim>\<open>None\<close> when the slot was taken,
  else the delay to sleep before trying again. The clock is rational where the program has
  floats: a sleep of exactly the delay can end just before the boundary there and be refused
  once more.
\<close>

definition gate_try :: "clock \<Rightarrow> rate_gate \<Rightarrow> rate_gate \<times> clock option" where
  "gate_try now g =
     (let events = dropWhile (\<lambda>e. e \<le> now - rg_period g) (rg_events g) in
      if length events < rg_limit g then (g\<lparr>rg_events := events @ [now]\<rparr>, None)
      else (g\<lparr>rg_events := events\<rparr>, Some (max 0 (hd events + rg_period g - now))))"

subsection \<open>Runs of a budget\<close>

type_synonym request = "clock \<times> int \<times> bool \<times> persistence"

text \<open>A sequence of \<^verbatim>\<open>acquire\<close> calls, returning the granted requests with their instants.\<close>

fun run_acquires :: "request list \<Rightarrow> quota_budget \<Rightarrow> quota_budget \<times> (clock \<times> int) list" where
  "run_acquires [] b = (b, [])"
| "run_acquires ((now, cost, allow, persist) # rs) b =
     (case budget_acquire now cost allow persist b of
        (b1, res) \<Rightarrow> (case run_acquires rs b1 of
           (b2, grants) \<Rightarrow> (b2, if res = Inr True then (now, cost) # grants else grants)))"

definition window_of :: "clock \<Rightarrow> clock \<Rightarrow> int" where
  "window_of p t = \<lfloor>t / p\<rfloor>"

definition spent :: "clock \<Rightarrow> int \<Rightarrow> (clock \<times> int) list \<Rightarrow> int" where
  "spent p k grants = sum_list (map snd (filter (\<lambda>(t, _). window_of p t = k) grants))"

lemma spent_simps [simp]:
  "spent p k [] = 0"
  "spent p k ((t, c) # grants) = (if window_of p t = k then c else 0) + spent p k grants"
  by (simp_all add: spent_def)

definition aligned_budget :: "int \<Rightarrow> quota_budget \<Rightarrow> bool" where
  "aligned_budget k b \<longleftrightarrow> 0 < qb_period b \<and> qb_align b \<and> qb_window_start b = qb_period b * of_int k
     \<and> 0 \<le> qb_reserve b \<and> qb_reserve b < qb_limit b \<and> 0 \<le> qb_used b"

lemma start_for_aligned: "start_for True p now = p * of_int (window_of p now)"
  by (simp add: start_for_def float_mod_def window_of_def)

lemma window_of_iff: "0 < p \<Longrightarrow> window_of p t = k \<longleftrightarrow> p * of_int k \<le> t \<and> t < p * of_int k + p"
  by (auto simp: window_of_def floor_eq_iff field_simps)

lemma roll_aligned:
  assumes "aligned_budget k b" and "qb_window_start b \<le> now"
  shows "aligned_budget (window_of (qb_period b) now) (roll now b)"
    and "k \<le> window_of (qb_period b) now"
    and "qb_used (roll now b) = (if window_of (qb_period b) now = k then qb_used b else 0)"
    and "qb_limit (roll now b) = qb_limit b" "qb_period (roll now b) = qb_period b" "qb_reserve (roll now b) = qb_reserve b"
    and "qb_window_start (roll now b) \<le> now"
proof -
  let ?p = "qb_period b"
  have p: "0 < ?p" and start: "qb_window_start b = ?p * of_int k" using assms(1) by (auto simp: aligned_budget_def)
  have le: "k \<le> window_of ?p now"
    using assms(2) p start by (simp add: window_of_def le_floor_iff field_simps)
  then show "k \<le> window_of ?p now" .
  have same: "?p * of_int k + ?p \<le> now \<longleftrightarrow> window_of ?p now \<noteq> k"
    using window_of_iff [OF p, of now k] assms(2) start by auto
  have low: "?p * of_int (window_of ?p now) \<le> now"
    using window_of_iff [OF p, of now "window_of ?p now"] by simp
  show "aligned_budget (window_of ?p now) (roll now b)"
    "qb_used (roll now b) = (if window_of ?p now = k then qb_used b else 0)"
    "qb_window_start (roll now b) \<le> now"
    using assms(1) start_for_aligned [of ?p now] same start low assms(2) by (auto simp: roll_def aligned_budget_def)
  show "qb_limit (roll now b) = qb_limit b" "qb_period (roll now b) = ?p" "qb_reserve (roll now b) = qb_reserve b"
    by (simp_all add: roll_def)
qed

lemma acquire_rollback: "budget_acquire now cost allow (Raised e) b = (b', Inl e') \<Longrightarrow> b' = b"
proof -
  have "(roll now b)\<lparr>qb_used := u, qb_window_start := qb_window_start b, qb_used := qb_used b\<rparr> = b" for u
    by (cases b) (simp add: roll_def)
  then show "budget_acquire now cost allow (Raised e) b = (b', Inl e') \<Longrightarrow> b' = b"
    by (auto simp: budget_acquire_def Let_def split: if_splits)
qed

text \<open>One call, on an aligned budget: what the state and the answer can be.\<close>

lemma acquire_aligned:
  assumes inv: "aligned_budget k b" and now: "qb_window_start b \<le> now"
    and run: "budget_acquire now cost allow persist b = (b', res)"
  shows "\<exists>k'. k \<le> k' \<and> k' \<le> window_of (qb_period b) now \<and> aligned_budget k' b' \<and> qb_window_start b' \<le> now
    \<and> qb_limit b' = qb_limit b \<and> qb_period b' = qb_period b
    \<and> (if res = Inr True
       then 0 < cost \<and> k' = window_of (qb_period b) now \<and> qb_used b' = (if k' = k then qb_used b else 0) + cost
         \<and> qb_used b' \<le> qb_limit b
       else qb_used b' = (if k' = k then qb_used b else 0))"
proof -
  note r = roll_aligned [OF inv now]
  have lim: "quota_ceiling allow (roll now b) \<le> qb_limit b"
    using inv r(4,6) by (simp add: quota_ceiling_def aligned_budget_def)
  consider (bad) "b' = b" "res \<noteq> Inr True"
    | (full) "b' = roll now b" "res \<noteq> Inr True"
    | (ok) "b' = (roll now b)\<lparr>qb_used := qb_used (roll now b) + cost\<rparr>" "res = Inr True" "0 < cost"
        "qb_used (roll now b) + cost \<le> qb_limit b"
  proof (cases persist)
    case (Raised e)
    then show thesis
      using run acquire_rollback [of now cost allow e b] that(1,2)
      by (auto simp: budget_acquire_def Let_def split: if_splits)
  qed (use run lim that in \<open>auto simp: budget_acquire_def Let_def split: if_splits\<close>)
  then show ?thesis
  proof cases
    case bad
    then show ?thesis using inv now r(2) by auto
  next
    case full
    then show ?thesis using r by auto
  next
    case ok
    then show ?thesis using r by (auto simp: aligned_budget_def)
  qed
qed

lemma run_acquires_spent:
  assumes "aligned_budget k b" and "qb_window_start b \<le> t0"
    and "\<forall>r \<in> set rs. t0 \<le> fst r" and "sorted (map fst rs)" and "run_acquires rs b = (b', grants)"
  shows "spent (qb_period b) j grants \<le> (if j < k then 0 else if j = k then max 0 (qb_limit b - qb_used b) else qb_limit b)
    \<and> (\<forall>(t, c) \<in> set grants. 0 < c)"
  using assms
proof (induction rs arbitrary: k b b' t0 grants)
  case Nil
  then show ?case by (auto simp: aligned_budget_def)
next
  case (Cons r rs)
  obtain now cost allow persist where r: "r = (now, cost, allow, persist)" by (cases r)
  obtain b1 res where step: "budget_acquire now cost allow persist b = (b1, res)" by fastforce
  obtain b2 grants1 where rest: "run_acquires rs b1 = (b2, grants1)" by fastforce
  have grants: "grants = (if res = Inr True then (now, cost) # grants1 else grants1)"
    using Cons.prems(5) by (simp add: r step rest)
  have "qb_window_start b \<le> now" using Cons.prems(2,3) r by auto
  from acquire_aligned [OF Cons.prems(1) this step] obtain k1 where k1: "k \<le> k1" "k1 \<le> window_of (qb_period b) now"
    and inv1: "aligned_budget k1 b1" "qb_window_start b1 \<le> now" "qb_limit b1 = qb_limit b" "qb_period b1 = qb_period b"
    and used: "if res = Inr True
       then 0 < cost \<and> k1 = window_of (qb_period b) now \<and> qb_used b1 = (if k1 = k then qb_used b else 0) + cost
         \<and> qb_used b1 \<le> qb_limit b
       else qb_used b1 = (if k1 = k then qb_used b else 0)" by blast
  have IH: "spent (qb_period b) j grants1 \<le> (if j < k1 then 0 else if j = k1 then max 0 (qb_limit b - qb_used b1) else qb_limit b)
      \<and> (\<forall>(t, c) \<in> set grants1. 0 < c)"
    using Cons.IH [OF inv1(1) inv1(2) _ _ rest, unfolded inv1(3,4)] Cons.prems(4) r by simp
  have lim: "0 < qb_limit b" "0 \<le> qb_used b" using Cons.prems(1) by (auto simp: aligned_budget_def)
  show ?case
  proof (cases "res = Inr True")
    case True
    with used IH k1 lim show ?thesis by (auto simp: grants split: if_splits)
  next
    case False
    with used IH k1 lim show ?thesis by (auto simp: grants split: if_splits)
  qed
qed

lemma mk_budget_aligned:
  assumes "mk_quota_budget limit p reserve True now = Inr b"
  shows "aligned_budget (window_of p now) b" and "qb_window_start b \<le> now" and "qb_period b = p"
    and "qb_limit b = limit" and "qb_used b = 0"
proof -
  have p: "0 < p" and b: "b = \<lparr>qb_limit = limit, qb_period = p, qb_reserve = reserve, qb_align = True,
      qb_window_start = p * of_int (window_of p now), qb_used = 0\<rparr>"
    and r: "0 \<le> reserve" "reserve < limit"
    using assms by (auto simp: mk_quota_budget_def raise_if_def start_for_aligned split: if_splits)
  show "aligned_budget (window_of p now) b" "qb_period b = p" "qb_limit b = limit" "qb_used b = 0"
    using p r by (simp_all add: b aligned_budget_def)
  show "qb_window_start b \<le> now" using window_of_iff [OF p, of now "window_of p now"] by (simp add: b)
qed

lemma fresh_budget_spent:
  assumes "mk_quota_budget limit p reserve True t0 = Inr b"
    and "sorted (t0 # map fst rs)" and "run_acquires rs b = (b', grants)"
  shows "spent p j grants \<le> limit" and "\<forall>(t, c) \<in> set grants. 0 < c"
proof -
  note b = mk_budget_aligned [OF assms(1)]
  have "0 < limit" using b(1,4) by (simp add: aligned_budget_def)
  moreover have "\<forall>r \<in> set rs. t0 \<le> fst r" "sorted (map fst rs)" using assms(2) by auto
  note run = run_acquires_spent [OF b(1,2) this assms(3), of j, unfolded b(3-5)]
  ultimately show "spent p j grants \<le> limit" using run by (auto split: if_splits)
  show "\<forall>(t, c) \<in> set grants. 0 < c" using run by blast
qed

text \<open>Every instant of a rolling interval lies in one of the aligned windows it touches.\<close>

definition spent_between :: "clock \<Rightarrow> clock \<Rightarrow> (clock \<times> int) list \<Rightarrow> int" where
  "spent_between a b grants = sum_list (map snd (filter (\<lambda>(t, _). a \<le> t \<and> t < b) grants))"

lemma sum_window_cost:
  assumes "finite K"
  shows "(\<Sum>k \<in> K. spent p k ((t, c) # grants)) = (if window_of p t \<in> K then c else 0) + (\<Sum>k \<in> K. spent p k grants)"
  using assms by (simp add: sum.distrib)

lemma spent_between_windows:
  assumes "0 < p" and "\<forall>(t, c) \<in> set grants. 0 < c"
  shows "spent_between a (a + of_nat n * p) grants \<le> (\<Sum>k \<in> {window_of p a .. window_of p a + int n}. spent p k grants)"
  using assms(2)
proof (induction grants)
  case Nil
  then show ?case by (simp add: spent_between_def)
next
  case (Cons g grants)
  obtain t c where g: "g = (t, c)" by (cases g)
  have mem: "window_of p t \<in> {window_of p a .. window_of p a + int n}" if "a \<le> t" "t < a + of_nat n * p"
  proof -
    have "window_of p a \<le> window_of p t"
      unfolding window_of_def using that(1) assms(1) by (intro floor_mono divide_right_mono) auto
    moreover have "window_of p t \<le> window_of p (a + of_nat n * p)"
      unfolding window_of_def using that(2) assms(1) by (intro floor_mono divide_right_mono) auto
    moreover have "window_of p (a + of_nat n * p) = window_of p a + int n"
      using assms(1) by (simp add: window_of_def add_divide_distrib)
    ultimately show ?thesis by simp
  qed
  have IH: "spent_between a (a + of_nat n * p) grants \<le> (\<Sum>k \<in> {window_of p a .. window_of p a + int n}. spent p k grants)"
    and c: "0 < c" using Cons g by auto
  have "spent_between a (a + of_nat n * p) (g # grants) =
      (if a \<le> t \<and> t < a + of_nat n * p then c else 0) + spent_between a (a + of_nat n * p) grants"
    by (simp add: spent_between_def g)
  also have "\<dots> \<le> (if window_of p t \<in> {window_of p a .. window_of p a + int n} then c else 0)
      + (\<Sum>k \<in> {window_of p a .. window_of p a + int n}. spent p k grants)"
    using IH mem c by auto
  finally show ?case by (simp only: g sum_window_cost [OF finite_atLeastAtMost_int])
qed

subsection \<open>Runs of a rate gate\<close>

fun run_gate :: "clock list \<Rightarrow> rate_gate \<Rightarrow> rate_gate \<times> clock list" where
  "run_gate [] g = (g, [])"
| "run_gate (now # ts) g =
     (case gate_try now g of
        (g1, res) \<Rightarrow> (case run_gate ts g1 of
           (g2, grants) \<Rightarrow> (g2, if res = None then now # grants else grants)))"

text \<open>The gate remembers every slot still in the window, and \<^verbatim>\<open>past\<close> are all slots taken.\<close>

definition inside_window :: "clock \<Rightarrow> clock \<Rightarrow> clock list \<Rightarrow> clock list" where
  "inside_window p t ts = filter (\<lambda>e. t - p < e \<and> e \<le> t) ts"

definition gate_inv :: "clock \<Rightarrow> clock list \<Rightarrow> rate_gate \<Rightarrow> bool" where
  "gate_inv t past g \<longleftrightarrow> 0 < rg_limit g \<and> 0 < rg_period g \<and> sorted past \<and> (\<forall>e \<in> set past. e \<le> t)
     \<and> (\<exists>c \<le> t - rg_period g. rg_events g = filter (\<lambda>e. c < e) past)
     \<and> (\<forall>u. length (inside_window (rg_period g) u past) \<le> rg_limit g)"

lemma dropWhile_sorted: "sorted xs \<Longrightarrow> dropWhile (\<lambda>x. x \<le> (c :: 'a :: linorder)) xs = filter (\<lambda>x. c < x) xs"
proof (induction xs)
  case (Cons a xs)
  then show ?case by (auto simp: not_le intro!: filter_True [symmetric] dest: less_le_trans)
qed simp

lemma gate_pruned:
  assumes inv: "gate_inv t past g" and le: "t \<le> now"
  shows "dropWhile (\<lambda>e. e \<le> now - rg_period g) (rg_events g) = inside_window (rg_period g) now past"
    and "filter (\<lambda>e. now - rg_period g < e) past = inside_window (rg_period g) now past"
proof -
  let ?p = "rg_period g"
  obtain c where c: "c \<le> t - ?p" "rg_events g = filter (\<lambda>e. c < e) past" using inv by (auto simp: gate_inv_def)
  have past: "sorted past" "\<forall>e \<in> set past. e \<le> t" using inv by (auto simp: gate_inv_def)
  have "sorted (rg_events g)" using past(1) by (simp add: c(2) sorted_wrt_filter)
  from dropWhile_sorted [OF this, of "now - ?p"]
  have "dropWhile (\<lambda>e. e \<le> now - ?p) (rg_events g) = filter (\<lambda>e. now - ?p < e) past"
    using c(1) le by (simp add: c(2)) (auto intro!: filter_cong)
  moreover show "filter (\<lambda>e. now - ?p < e) past = inside_window ?p now past"
    using past(2) le by (auto simp: inside_window_def intro!: filter_cong)
  ultimately show "dropWhile (\<lambda>e. e \<le> now - ?p) (rg_events g) = inside_window ?p now past" by simp
qed

lemma inside_window_shift:
  assumes "\<forall>e \<in> set past. e \<le> now" and "now \<le> u"
  shows "length (inside_window p u past) \<le> length (inside_window p now past)"
  using assms(1) by (induction past) (use assms(2) in \<open>auto simp: inside_window_def\<close>)

lemma gate_try_inv:
  assumes inv: "gate_inv t past g" and le: "t \<le> now" and run: "gate_try now g = (g', res)"
  shows "gate_inv now (if res = None then past @ [now] else past) g'" and "rg_limit g' = rg_limit g" "rg_period g' = rg_period g"
proof -
  let ?p = "rg_period g"
  note ev = gate_pruned [OF inv le]
  have past: "sorted past" "\<forall>e \<in> set past. e \<le> t" "0 < ?p" using inv by (auto simp: gate_inv_def)
  show fields: "rg_limit g' = rg_limit g" "rg_period g' = rg_period g"
    using run by (auto simp: gate_try_def Let_def split: if_splits)
  show "gate_inv now (if res = None then past @ [now] else past) g'"
  proof (cases "res = None")
    case True
    then have few: "length (inside_window ?p now past) < rg_limit g" and g': "rg_events g' = inside_window ?p now past @ [now]"
      using run by (auto simp: gate_try_def Let_def ev split: if_splits)
    have "length (inside_window ?p u (past @ [now])) \<le> rg_limit g" for u
    proof (cases "now \<le> u")
      case True
      then have "length (inside_window ?p u past) \<le> length (inside_window ?p now past)"
        using past(2) le by (intro inside_window_shift) auto
      then show ?thesis using few by (simp add: inside_window_def)
    next
      case False
      then show ?thesis using inv by (simp add: inside_window_def gate_inv_def)
    qed
    moreover have "\<exists>c \<le> now - ?p. rg_events g' = filter (\<lambda>e. c < e) (past @ [now])"
      using past(3) by (intro exI [where x = "now - ?p"]) (simp add: g' ev(2))
    ultimately show ?thesis
      using True inv past le by (auto simp: gate_inv_def fields sorted_append)
  next
    case False
    then have "rg_events g' = filter (\<lambda>e. now - ?p < e) past"
      using run by (auto simp: gate_try_def Let_def ev split: if_splits)
    then show ?thesis using False inv past le by (auto simp: gate_inv_def fields)
  qed
qed

lemma run_gate_inv:
  assumes "gate_inv t past g" and "sorted (t # ts)" and "run_gate ts g = (g', grants)"
  shows "gate_inv (last (t # ts)) (past @ grants) g' \<and> rg_limit g' = rg_limit g \<and> rg_period g' = rg_period g"
  using assms
proof (induction ts arbitrary: t past g g' grants)
  case Nil
  then show ?case by auto
next
  case (Cons now ts)
  obtain g1 res where step: "gate_try now g = (g1, res)" by fastforce
  obtain g2 grants1 where rest: "run_gate ts g1 = (g2, grants1)" by fastforce
  have le: "t \<le> now" "sorted (now # ts)" using Cons.prems(2) by auto
  note first = gate_try_inv [OF Cons.prems(1) le(1) step]
  have "gate_inv (last (now # ts)) ((if res = None then past @ [now] else past) @ grants1) g2"
    "rg_limit g2 = rg_limit g1" "rg_period g2 = rg_period g1"
    using Cons.IH [OF first(1) le(2) rest] by blast+
  moreover have "(if res = None then past @ [now] else past) @ grants1 = past @ grants" and "g' = g2"
    using Cons.prems(3) by (auto simp: step rest)
  ultimately show ?case using first(2,3) by auto
qed

lemma fresh_gate_inv:
  assumes "mk_rate_gate limit period = Inr g" and "sorted ts" and "run_gate ts g = (g', grants)"
  shows "\<exists>t. gate_inv t grants g' \<and> (\<forall>now. (\<forall>u \<in> set ts. u \<le> now) \<longrightarrow> ts \<noteq> [] \<longrightarrow> t \<le> now)
    \<and> (ts = [] \<longrightarrow> grants = [] \<and> g' = g)"
    and "rg_limit g' = nat limit" "rg_period g' = period" "0 < limit" "0 < period"
proof -
  have g: "g = \<lparr>rg_limit = nat limit, rg_period = period, rg_events = []\<rparr>" and pos: "0 < limit" "0 < period"
    using assms(1) by (auto simp: mk_rate_gate_def raise_if_def split: if_splits)
  define t where "t = (case ts of [] \<Rightarrow> 0 | x # _ \<Rightarrow> x)"
  have "gate_inv t [] g" using pos by (auto simp: gate_inv_def g inside_window_def)
  moreover have "sorted (t # ts)" using assms(2) by (cases ts) (auto simp: t_def)
  ultimately have run: "gate_inv (last (t # ts)) grants g'" "rg_limit g' = nat limit" "rg_period g' = period"
    using run_gate_inv [OF _ _ assms(3), of t "[]"] by (auto simp: g)
  then show "\<exists>t. gate_inv t grants g' \<and> (\<forall>now. (\<forall>u \<in> set ts. u \<le> now) \<longrightarrow> ts \<noteq> [] \<longrightarrow> t \<le> now)
    \<and> (ts = [] \<longrightarrow> grants = [] \<and> g' = g)"
    using assms(3) by (intro exI [where x = "last (t # ts)"]) auto
  show "rg_limit g' = nat limit" "rg_period g' = period" "0 < limit" "0 < period" using run pos by auto
qed

subsection \<open>Properties\<close>

text \<open>
  C20. A monthly allowance is never exceeded over any rolling thirty days: with
  \<^verbatim>\<open>rolling_month_safe_daily_budget\<close>, on any clock that does not run backwards, whatever
  the requests, reserve use and persistence failures, the credits granted in any interval
  of thirty days sum to at most the monthly limit.
\<close>

theorem rolling_month_never_exceeds_limit:
  assumes "rolling_month_safe_daily_budget monthly reserve t0 = Inr b"
    and "sorted (t0 # map fst rs)" and "run_acquires rs b = (b', grants)"
  shows "spent_between a (a + 30 * 86400) grants \<le> monthly"
proof -
  have mk: "mk_quota_budget (monthly div 31) 86400 reserve True t0 = Inr b"
    using assms(1) by (simp add: rolling_month_safe_daily_budget_def daily_budget_def raise_if_Inr_iff)
  have "spent_between a (a + of_nat 30 * 86400) grants
      \<le> (\<Sum>k \<in> {window_of 86400 a .. window_of 86400 a + int 30}. spent 86400 k grants)"
    by (rule spent_between_windows [OF _ fresh_budget_spent(2) [OF mk assms(2,3)]]) simp
  also have "\<dots> \<le> (\<Sum>k \<in> {window_of 86400 a .. window_of 86400 a + int 30}. monthly div 31)"
    by (rule sum_mono) (rule fresh_budget_spent(1) [OF mk assms(2,3)])
  also have "\<dots> \<le> monthly" by simp
  finally show ?thesis by simp
qed

theorem rolling_month_never_exceeds_limit_witness:
  "spent_between 0 (0 + 30 * 86400) [(10, 2)] \<le> (62 :: int)"
proof (rule rolling_month_never_exceeds_limit)
  have w: "window_of 86400 5 = 0" by (simp add: window_of_iff)
  show "rolling_month_safe_daily_budget 62 0 5 = Inr \<lparr>qb_limit = 2, qb_period = 86400, qb_reserve = 0,
      qb_align = True, qb_window_start = 0, qb_used = 0\<rparr>"
    by (simp add: rolling_month_safe_daily_budget_def daily_budget_def mk_quota_budget_def start_for_aligned w)
  show "run_acquires [(10, 2, False, NoCallback), (11, 1, True, Stored)] \<lparr>qb_limit = 2, qb_period = 86400, qb_reserve = 0,
      qb_align = True, qb_window_start = 0, qb_used = 0\<rparr> =
      (\<lparr>qb_limit = 2, qb_period = 86400, qb_reserve = 0, qb_align = True, qb_window_start = 0, qb_used = 2\<rparr>, [(10, 2)])"
    by (simp add: budget_acquire_def roll_def quota_ceiling_def Let_def)
qed simp

text \<open>
  C21. The sliding window gate never admits more than its limit within its period: on a
  clock that does not run backwards, every half-open window \<^verbatim>\<open>(u - period, u]\<close> contains at
  most \<^verbatim>\<open>limit\<close> granted slots, however the attempts of concurrent tasks interleave.
\<close>

theorem rate_gate_window_bound:
  assumes "mk_rate_gate limit period = Inr g" and "sorted ts" and "run_gate ts g = (g', grants)"
  shows "int (length (filter (\<lambda>e. u - period < e \<and> e \<le> u) grants)) \<le> limit"
proof -
  note run = fresh_gate_inv [OF assms]
  have "length (inside_window period u grants) \<le> nat limit" using run by (auto simp: gate_inv_def)
  then show ?thesis using run(4) by (simp add: inside_window_def)
qed

theorem rate_gate_window_bound_witness:
  "int (length (filter (\<lambda>e. 9 - 10 < e \<and> e \<le> 9) [1, 2 :: rat])) \<le> 2"
  by (rule rate_gate_window_bound [where ts = "[1, 2, 3]" and period = 10 and
      g' = "\<lparr>rg_limit = 2, rg_period = 10, rg_events = [1, 2]\<rparr>"
      and g = "\<lparr>rg_limit = 2, rg_period = 10, rg_events = []\<rparr>"])
    (simp_all add: mk_rate_gate_def gate_try_def Let_def)

text \<open>
  Checkpoints: what \<^verbatim>\<open>checkpoint\<close> stored is restored into a fresh budget of the same
  configuration exactly as long as the fixed window is still the current one; later the
  restored budget starts its window empty. Never does a restore raise on such a state.
\<close>

theorem quota_checkpoint_roundtrip:
  assumes "mk_quota_budget limit p reserve True t0 = Inr fresh" and "aligned_budget k b"
    and "qb_limit b = limit" and "qb_period b = p" and "qb_window_start b \<le> t" and "t \<le> t0"
  shows "budget_restore t0 (snd (checkpoint t b)) fresh =
    Inr (fresh\<lparr>qb_used := (if window_of p t = window_of p t0 then qb_used (roll t b) else 0)\<rparr>)"
proof -
  note f = mk_budget_aligned [OF assms(1)] and r = roll_aligned [OF assms(2,5)]
  have p: "0 < p" using f(1,3) by (simp add: aligned_budget_def)
  have start: "qb_window_start (roll t b) = p * of_int (window_of p t)" "0 \<le> qb_used (roll t b)"
    using r(1) by (simp_all add: aligned_budget_def assms(4) r(5))
  have fs: "qb_window_start fresh = p * of_int (window_of p t0)" "qb_align fresh"
    using f(1,3) by (simp_all add: aligned_budget_def)
  have cur: "t0 < p * of_int (window_of p t0) + p" using window_of_iff [OF p, of t0 "window_of p t0"] by simp
  have eq: "p * of_int (window_of p t) = p * of_int (window_of p t0) \<longleftrightarrow> window_of p t = window_of p t0"
    using p by simp
  show ?thesis
    using start fs cur f(3-5) r(4,5) p
    by (cases fresh) (auto simp: budget_restore_def checkpoint_def Let_def budget_state_def or_default_def
        assms(3,4) start_for_aligned raise_if_def eq)
qed

theorem quota_checkpoint_roundtrip_witness:
  "budget_restore 50 (snd (checkpoint 20 \<lparr>qb_limit = 9, qb_period = 60, qb_reserve = 0, qb_align = True,
       qb_window_start = 0, qb_used = 4\<rparr>))
     \<lparr>qb_limit = 9, qb_period = 60, qb_reserve = 0, qb_align = True, qb_window_start = 0, qb_used = 0\<rparr>
   = Inr \<lparr>qb_limit = 9, qb_period = 60, qb_reserve = 0, qb_align = True, qb_window_start = 0, qb_used = 4\<rparr>"
proof -
  have w: "window_of 60 20 = 0" "window_of 60 50 = 0" by (simp_all add: window_of_iff)
  have "mk_quota_budget 9 60 0 True 50 = Inr \<lparr>qb_limit = 9, qb_period = 60, qb_reserve = 0, qb_align = True, qb_window_start = 0, qb_used = 0\<rparr>"
    by (simp add: mk_quota_budget_def start_for_aligned w)
  from quota_checkpoint_roundtrip [OF this, of 0 "\<lparr>qb_limit = 9, qb_period = 60, qb_reserve = 0, qb_align = True,
       qb_window_start = 0, qb_used = 4\<rparr>" 20]
  show ?thesis by (simp add: aligned_budget_def w roll_def)
qed

end
