(* ===== verification/QP_Fx.thy ===== *)
theory QP_Fx
  imports QP_Prelude
begin

text \<open>
  \<^verbatim>\<open>quickprice/fx.py\<close>: the currency universe and its USD hub topology. Every pair is served
  from vendor-backed spokes \<^verbatim>\<open>USD:X\<close>: a direct spoke, an inverse, or a quotient of two.
\<close>

definition FX_CURRENCIES :: "string list" where
  "FX_CURRENCIES = [''USD'', ''EUR'', ''GBP'', ''HKD'', ''SGD'', ''CNH'']"

definition FX_CURRENCY_NAMES :: "(string, string) dict" where
  "FX_CURRENCY_NAMES =
     [(''USD'', ''United States Dollar''), (''EUR'', ''Euro''), (''GBP'', ''British Pound Sterling''),
      (''HKD'', ''Hong Kong Dollar''), (''SGD'', ''Singapore Dollar''), (''CNH'', ''Offshore Chinese Yuan'')]"

definition FX_HUB_SYMBOLS :: "string list" where
  "FX_HUB_SYMBOLS = map (\<lambda>c. ''USD:'' @ c) (filter (\<lambda>c. c \<noteq> ''USD'') FX_CURRENCIES)"

definition FX_SYMBOLS :: "string list" where
  "FX_SYMBOLS = concat (map (\<lambda>base. map (\<lambda>quote. base @ '':'' @ quote)
     (filter (\<lambda>quote. base \<noteq> quote) FX_CURRENCIES)) FX_CURRENCIES)"

text \<open>\<^verbatim>\<open>s.split(":", 1)\<close> unpacked into two names: \<^verbatim>\<open>None\<close> when there is no colon.\<close>

definition split_once :: "char \<Rightarrow> string \<Rightarrow> (string \<times> string) option" where
  "split_once c s =
     (case dropWhile (\<lambda>x. x \<noteq> c) s of [] \<Rightarrow> None | _ # rest \<Rightarrow> Some (takeWhile (\<lambda>x. x \<noteq> c) s, rest))"

definition split_fx_symbol :: "string \<Rightarrow> (string \<times> string) result" where
  "split_fx_symbol symbol =
     (case split_once (CHR '':'') (normal_symbol symbol) of
        None \<Rightarrow> Inl (ValueError ''invalid FX symbol '')
      | Some (base, quote) \<Rightarrow>
          raise_if (base = quote \<or> base \<notin> set FX_CURRENCIES \<or> quote \<notin> set FX_CURRENCIES)
            (ValueError ''unsupported FX symbol '') (Inr (base, quote)))"

definition hub_symbol :: "string \<Rightarrow> string result" where
  "hub_symbol currency =
     (let normalized = normal_symbol currency in
      raise_if (normalized = ''USD'' \<or> normalized \<notin> set FX_CURRENCIES)
        (ValueError ''no USD hub symbol for '') (Inr (''USD:'' @ normalized)))"

definition fx_hub_requirements :: "string \<Rightarrow> string list result" where
  "fx_hub_requirements symbol =
     res_bind (split_fx_symbol symbol) (\<lambda>(base, quote).
       if base = ''USD'' then res_bind (hub_symbol quote) (\<lambda>h. Inr [h])
       else if quote = ''USD'' then res_bind (hub_symbol base) (\<lambda>h. Inr [h])
       else res_bind (hub_symbol quote) (\<lambda>n. res_bind (hub_symbol base) (\<lambda>d. Inr [n, d])))"

subsection \<open>Splitting and joining pairs\<close>

lemma split_once_Some_iff:
  "split_once c s = Some (a, b) \<longleftrightarrow> c \<notin> set a \<and> s = a @ c # b"
proof
  assume "split_once c s = Some (a, b)"
  then obtain x where drop: "dropWhile (\<lambda>x. x \<noteq> c) s = x # b" and a: "a = takeWhile (\<lambda>x. x \<noteq> c) s"
    by (auto simp: split_once_def split: list.splits)
  from drop have "x = c" using hd_dropWhile [of "\<lambda>x. x \<noteq> c" s] by auto
  moreover have "s = a @ x # b" using takeWhile_dropWhile_id [of "\<lambda>x. x \<noteq> c" s] by (simp add: a drop)
  moreover have "c \<notin> set a" using a by (auto dest: set_takeWhileD)
  ultimately show "c \<notin> set a \<and> s = a @ c # b" by simp
next
  assume *: "c \<notin> set a \<and> s = a @ c # b"
  then have "dropWhile (\<lambda>x. x \<noteq> c) s = c # b" "takeWhile (\<lambda>x. x \<noteq> c) s = a"
    by (auto simp: dropWhile_append takeWhile_append)
  then show "split_once c s = Some (a, b)" by (simp add: split_once_def)
qed

lemma currency_plain:
  assumes "c \<in> set FX_CURRENCIES"
  shows "CHR '':'' \<notin> set c" and "normal_symbol c = c"
  using assms by (auto simp: FX_CURRENCIES_def normal_symbol_def strip_def upper_def char_upper_def py_isspace_def)

lemma split_fx_symbol_Inr_iff:
  "split_fx_symbol symbol = Inr (base, quote) \<longleftrightarrow>
     base \<in> set FX_CURRENCIES \<and> quote \<in> set FX_CURRENCIES \<and> base \<noteq> quote
     \<and> normal_symbol symbol = base @ '':'' @ quote"
proof -
  have "split_fx_symbol symbol = Inr (base, quote) \<longleftrightarrow>
      split_once (CHR '':'') (normal_symbol symbol) = Some (base, quote)
      \<and> base \<noteq> quote \<and> base \<in> set FX_CURRENCIES \<and> quote \<in> set FX_CURRENCIES"
    by (auto simp: split_fx_symbol_def raise_if_def split: option.splits if_splits)
  then show ?thesis by (auto simp: split_once_Some_iff currency_plain)
qed

lemma hub_symbol_currency:
  "c \<in> set FX_CURRENCIES \<Longrightarrow> c \<noteq> ''USD'' \<Longrightarrow> hub_symbol c = Inr (''USD:'' @ c)"
  by (simp add: hub_symbol_def currency_plain raise_if_def)

lemma fx_symbols_iff:
  "s \<in> set FX_SYMBOLS \<longleftrightarrow> (\<exists>b q. b \<in> set FX_CURRENCIES \<and> q \<in> set FX_CURRENCIES \<and> b \<noteq> q \<and> s = b @ '':'' @ q)"
  by (auto simp: FX_SYMBOLS_def)

subsection \<open>What the spokes compute\<close>

text \<open>
  Reading a spoke \<^verbatim>\<open>USD:X\<close> as units of X per US dollar, the value of a requirement list
  is the spoke itself, its inverse, or numerator over denominator.
\<close>

definition spoke_rate :: "(string \<Rightarrow> rat) \<Rightarrow> string \<Rightarrow> rat" where
  "spoke_rate per_usd hub = per_usd (drop 4 hub)"

definition required_rate :: "(string \<Rightarrow> rat) \<Rightarrow> string \<Rightarrow> string list \<Rightarrow> rat" where
  "required_rate per_usd symbol hubs =
     (case hubs of
        [h] \<Rightarrow> if h = symbol then spoke_rate per_usd h else 1 / spoke_rate per_usd h
      | n # d # _ \<Rightarrow> spoke_rate per_usd n / spoke_rate per_usd d
      | [] \<Rightarrow> 0)"

subsection \<open>Properties\<close>

text \<open>
  \<^verbatim>\<open>fx_hub_requirements\<close> succeeds exactly on the supported pairs (up to blanks and
  case), names only vendor-backed USD spokes, at most two and without repetition, and
  combining those spokes as listed gives the cross rate of the pair for any assignment of
  currencies to units per dollar in which the dollar is worth one.
\<close>

theorem fx_requirements_correct:
  fixes per_usd :: "string \<Rightarrow> rat"
  assumes "per_usd ''USD'' = 1"
  shows "((\<exists>hubs. fx_hub_requirements symbol = Inr hubs) \<longleftrightarrow> normal_symbol symbol \<in> set FX_SYMBOLS)
    \<and> (\<forall>hubs. fx_hub_requirements symbol = Inr hubs \<longrightarrow>
         set hubs \<subseteq> set FX_HUB_SYMBOLS \<and> distinct hubs \<and> length hubs \<in> {1, 2}
         \<and> (\<exists>base quote. normal_symbol symbol = base @ '':'' @ quote
             \<and> required_rate per_usd (normal_symbol symbol) hubs = per_usd quote / per_usd base))"
proof (cases "split_fx_symbol symbol")
  case (Inl e)
  then have "\<nexists>b q. split_fx_symbol symbol = Inr (b, q)" by simp
  then have "normal_symbol symbol \<notin> set FX_SYMBOLS" by (simp add: split_fx_symbol_Inr_iff fx_symbols_iff)
  then show ?thesis by (simp add: fx_hub_requirements_def Inl)
next
  case (Inr bq)
  then obtain b q where run: "split_fx_symbol symbol = Inr (b, q)" by (cases bq) auto
  then have c: "b \<in> set FX_CURRENCIES" "q \<in> set FX_CURRENCIES" "b \<noteq> q" and n: "normal_symbol symbol = b @ '':'' @ q"
    by (simp_all add: split_fx_symbol_Inr_iff)
  define hubs where "hubs = (if b = ''USD'' then [''USD:'' @ q] else if q = ''USD'' then [''USD:'' @ b] else [''USD:'' @ q, ''USD:'' @ b])"
  have req: "fx_hub_requirements symbol = Inr hubs"
    using c by (cases "b = ''USD''"; cases "q = ''USD''") (simp_all add: fx_hub_requirements_def run hubs_def hub_symbol_currency)
  have hub: "''USD:'' @ x \<in> set FX_HUB_SYMBOLS" if "x \<in> set FX_CURRENCIES" "x \<noteq> ''USD''" for x
    using that by (auto simp: FX_HUB_SYMBOLS_def)
  have "set hubs \<subseteq> set FX_HUB_SYMBOLS" "distinct hubs" "length hubs \<in> {1, 2}"
    using c hub [of b] hub [of q] unfolding hubs_def by auto
  moreover have "required_rate per_usd (normal_symbol symbol) hubs = per_usd q / per_usd b"
    using c assms by (auto simp: FX_CURRENCIES_def hubs_def required_rate_def spoke_rate_def n)
  moreover have "normal_symbol symbol \<in> set FX_SYMBOLS" using c n by (auto simp: fx_symbols_iff)
  ultimately show ?thesis using req n by auto
qed

theorem fx_requirements_correct_witness:
  "required_rate (\<lambda>c. if c = ''USD'' then 1 else if c = ''EUR'' then 4/5 else 8) ''EUR:HKD'' [''USD:HKD'', ''USD:EUR''] = 10"
proof -
  have n: "normal_symbol ''eur:hkd '' = ''EUR:HKD''"
    by code_simp
  have "split_fx_symbol ''eur:hkd '' = Inr (''EUR'', ''HKD'')"
    by (simp add: split_fx_symbol_Inr_iff n FX_CURRENCIES_def)
  then have "fx_hub_requirements ''eur:hkd '' = Inr [''USD:HKD'', ''USD:EUR'']"
    by (simp add: fx_hub_requirements_def hub_symbol_currency FX_CURRENCIES_def)
  then obtain base quote where "''EUR:HKD'' = base @ '':'' @ quote"
    and r: "required_rate (\<lambda>c. if c = ''USD'' then 1 else if c = ''EUR'' then 4/5 else 8) ''EUR:HKD'' [''USD:HKD'', ''USD:EUR'']
      = (if quote = ''USD'' then 1 else if quote = ''EUR'' then 4/5 else 8) / (if base = ''USD'' then 1 else if base = ''EUR'' then 4/5 else 8)"
    using fx_requirements_correct [of "\<lambda>c. if c = ''USD'' then 1 else if c = ''EUR'' then 4/5 else 8" "''eur:hkd ''"]
    by (auto simp: n)
  then show ?thesis by (simp add: required_rate_def spoke_rate_def)
qed

end
