(* ===== verification/QP_PluginApi.thy ===== *)
theory QP_PluginApi
  imports QP_Domain
begin

text \<open>
  \<^verbatim>\<open>quickprice/plugin_api.py\<close>: the declarations trusted instrument plugins make, as enums
  and plain records (the dataclasses validate nothing themselves; \<^verbatim>\<open>registry.py\<close> does), and
  the provider table an installer fills.
\<close>

datatype asset_class = CRYPTO | EQUITY | BOND | FX

datatype yield_strategy =
  LATEST_DISTRIBUTION_ANNUALIZED | TREASURY_3M_PROXY_MINUS_EXPENSE
| TREASURY_PROXY_MINUS_EXPENSE | STAKING_PROVIDER_METRIC

datatype market_calendar = ALWAYS_OPEN | US_EQUITY | FX_24X5

definition asset_class_of :: "string \<Rightarrow> asset_class result" where
  "asset_class_of v =
     (if v = ''crypto'' then Inr CRYPTO else if v = ''equity'' then Inr EQUITY
      else if v = ''bond'' then Inr BOND else if v = ''fx'' then Inr FX
      else Inl (ValueError ''not a valid AssetClass''))"

definition asset_class_value :: "asset_class \<Rightarrow> string" where
  "asset_class_value c =
     (case c of CRYPTO \<Rightarrow> ''crypto'' | EQUITY \<Rightarrow> ''equity'' | BOND \<Rightarrow> ''bond'' | FX \<Rightarrow> ''fx'')"

definition yield_strategy_of :: "string \<Rightarrow> yield_strategy result" where
  "yield_strategy_of v =
     (if v = ''latest_distribution_annualized'' then Inr LATEST_DISTRIBUTION_ANNUALIZED
      else if v = ''treasury_3m_proxy_minus_expense'' then Inr TREASURY_3M_PROXY_MINUS_EXPENSE
      else if v = ''treasury_proxy_minus_expense'' then Inr TREASURY_PROXY_MINUS_EXPENSE
      else if v = ''staking_provider_metric'' then Inr STAKING_PROVIDER_METRIC
      else Inl (ValueError ''not a valid YieldStrategy''))"

definition yield_strategy_value :: "yield_strategy \<Rightarrow> string" where
  "yield_strategy_value s =
     (case s of LATEST_DISTRIBUTION_ANNUALIZED \<Rightarrow> ''latest_distribution_annualized''
      | TREASURY_3M_PROXY_MINUS_EXPENSE \<Rightarrow> ''treasury_3m_proxy_minus_expense''
      | TREASURY_PROXY_MINUS_EXPENSE \<Rightarrow> ''treasury_proxy_minus_expense''
      | STAKING_PROVIDER_METRIC \<Rightarrow> ''staking_provider_metric'')"

definition market_calendar_of :: "string \<Rightarrow> market_calendar result" where
  "market_calendar_of v =
     (if v = ''always_open'' then Inr ALWAYS_OPEN else if v = ''us_equity'' then Inr US_EQUITY
      else if v = ''fx_24x5'' then Inr FX_24X5
      else Inl (ValueError ''not a valid MarketCalendar''))"

definition market_calendar_value :: "market_calendar \<Rightarrow> string" where
  "market_calendar_value c =
     (case c of ALWAYS_OPEN \<Rightarrow> ''always_open'' | US_EQUITY \<Rightarrow> ''us_equity'' | FX_24X5 \<Rightarrow> ''fx_24x5'')"

definition accrual_mode_value :: "reward_accrual_mode \<Rightarrow> string" where
  "accrual_mode_value m =
     (case m of VALUE_ACCRUING \<Rightarrow> ''value_accruing'' | REBASING_BALANCE \<Rightarrow> ''rebasing_balance''
      | DISTRIBUTED_UNITS \<Rightarrow> ''distributed_units'' | CLAIMABLE_REWARDS \<Rightarrow> ''claimable_rewards'')"

lemma enum_roundtrips [simp]:
  "asset_class_of (asset_class_value c) = Inr c"
  "yield_strategy_of (yield_strategy_value s) = Inr s"
  "market_calendar_of (market_calendar_value k) = Inr k"
  "reward_accrual_mode_of (accrual_mode_value m) = Inr m"
     apply (cases c; simp add: asset_class_of_def asset_class_value_def)
    apply (cases s; simp add: yield_strategy_of_def yield_strategy_value_def)
   apply (cases k; simp add: market_calendar_of_def market_calendar_value_def)
  apply (cases m; simp add: reward_accrual_mode_of_def accrual_mode_value_def)
  done

text \<open>An argument annotated \<^verbatim>\<open>Enum | str\<close> and converted by calling the enum.\<close>

definition enum_of :: "(string \<Rightarrow> 'a result) \<Rightarrow> 'a enum_arg \<Rightarrow> 'a result" where
  "enum_of f v = (case v of Member m \<Rightarrow> Inr m | ByValue x \<Rightarrow> f x)"

lemma enum_of_Member [simp]: "enum_of f (Member m) = Inr m"
  by (simp add: enum_of_def)

record instrument_spec =
  is_symbol :: string
  is_base :: string
  is_quote :: string
  is_name :: string
  is_description :: string
  is_asset_class :: asset_class
  is_asset_type :: string
  is_price_basis :: string
  is_change_basis :: string
  is_yield_strategy :: "yield_strategy option"
  is_dividend_strategy :: "string option"
  is_reward_accrual_mode :: "reward_accrual_mode option"
  is_underlying_asset :: "string option"
  is_aliases :: "string list"
  is_market_calendar :: market_calendar
  is_stale_after_seconds :: rat
  is_quote_poll_seconds :: rat
  is_history_enabled :: bool
  is_history_poll_seconds :: "rat option"

record provider_binding =
  pb_symbol :: string
  pb_capability :: string
  pb_providers :: "string list"

record plugin_recipe =
  pr_symbol :: string
  pr_left_symbol :: string
  pr_right_symbol :: string
  pr_operation :: string
  pr_max_skew_seconds :: rat
  pr_left_max_age_seconds :: "rat option"
  pr_right_max_age_seconds :: "rat option"
  pr_provider_name :: string
  pr_quote_enabled :: bool
  pr_history_enabled :: bool

text \<open>
  The provider installer is a callable or an import path; the registry only looks at
  whether one is given. Providers are compared by identity: they are object references.
\<close>

record instrument_plugin =
  ip_plugin_id :: string
  ip_version :: string
  ip_instruments :: "instrument_spec list"
  ip_provider_installer :: "string option"
  ip_provider_bindings :: "provider_binding list"
  ip_synthetic_recipes :: "plugin_recipe list"

type_synonym provider_ref = nat

definition add_provider ::
  "string \<Rightarrow> provider_ref \<Rightarrow> (string, provider_ref) dict \<Rightarrow> (string, provider_ref) dict result" where
  "add_provider name provider providers =
     (let normalized = strip name in
      raise_if (normalized = []) (ValueError ''provider name cannot be empty'')
      (case dict_get providers normalized of
         Some existing \<Rightarrow>
           raise_if (existing \<noteq> provider) (ValueError ''duplicate provider: '')
             (Inr (dict_set normalized provider providers))
       | None \<Rightarrow> Inr (dict_set normalized provider providers)))"

lemma add_provider_keeps:
  assumes "add_provider name provider providers = Inr providers'"
  shows "dict_get providers' (strip name) = Some provider"
    and "dict_get providers n = Some p \<Longrightarrow> dict_get providers' n = Some p"
  using assms by (auto simp: add_provider_def Let_def raise_if_def split: option.splits if_splits)

end
