(* ===== verification/QP_Market.thy ===== *)
theory QP_Market
  imports QP_PluginApi
begin

text \<open>
  \<^verbatim>\<open>quickprice/market.py\<close>: session status, next open and most recent close on a weekday
  schedule. The zone \<^verbatim>\<open>America/New_York\<close> comes from the tz database, outside the sources:
  its UTC offset at an instant (\<^verbatim>\<open>astimezone\<close>) and at a wall-clock time (\<^verbatim>\<open>combine\<close> with
  \<^verbatim>\<open>tzinfo\<close>, first occurrence) are parameters. Two datetimes with the same \<^verbatim>\<open>tzinfo\<close> are
  compared by their wall-clock fields, so the searches below run on wall time.
\<close>

type_synonym zone = "int \<Rightarrow> duration"

definition to_wall :: "zone \<Rightarrow> instant \<Rightarrow> int" where
  "to_wall offset t = t + offset t"

definition from_wall :: "zone \<Rightarrow> int \<Rightarrow> instant" where
  "from_wall wall_offset w = w - wall_offset w"

text \<open>Calendar day, weekday (Monday is 0; day 0 is Thursday 1 January 1970), minute of day.\<close>

definition wall_date :: "int \<Rightarrow> int" where "wall_date w = w div day"
definition weekday :: "int \<Rightarrow> int" where "weekday d = (d + 3) mod 7"
definition wall_minute :: "int \<Rightarrow> int" where "wall_minute w = (w mod day) div minute"

definition combine :: "int \<Rightarrow> int \<Rightarrow> int" where
  "combine date minutes = date * day + minutes * minute"

definition seconds_of :: "duration \<Rightarrow> rat" where
  "seconds_of d = of_int d / of_int second"

fun next_open_in :: "nat list \<Rightarrow> int \<Rightarrow> int option" where
  "next_open_in [] local = None"
| "next_open_in (n # ns) local =
     (let d = wall_date (local + int n * day); candidate = combine d 570 in
      if 5 \<le> weekday d then next_open_in ns local
      else if local < candidate then Some candidate
      else next_open_in ns local)"

definition seconds_until_next_us_equity_open :: "zone \<Rightarrow> zone \<Rightarrow> dt_arg \<Rightarrow> rat result" where
  "seconds_until_next_us_equity_open offset wall_offset when =
     res_bind (ensure_utc when) (\<lambda>current_utc.
       case next_open_in [0..<8] (to_wall offset current_utc) of
         None \<Rightarrow> Inl (RuntimeError ''unable to resolve the next US equity session open'')
       | Some candidate \<Rightarrow> Inr (max 1 (seconds_of (from_wall wall_offset candidate - current_utc))))"

definition status_at :: "market_calendar \<Rightarrow> int \<Rightarrow> string" where
  "status_at calendar local =
     (let m = wall_minute local; d = weekday (wall_date local) in
      case calendar of
        US_EQUITY \<Rightarrow> if d < 5 \<and> 570 \<le> m \<and> m < 960 then ''open'' else ''closed''
      | FX_24X5 \<Rightarrow>
          if (d = 6 \<and> 1020 \<le> m) \<or> d \<in> {0, 1, 2, 3} \<or> (d = 4 \<and> m < 1020) then ''open'' else ''closed''
      | ALWAYS_OPEN \<Rightarrow> ''open'')"

definition scheduled_market_status ::
  "zone \<Rightarrow> market_calendar enum_arg \<Rightarrow> dt_arg \<Rightarrow> string result" where
  "scheduled_market_status offset calendar when =
     res_bind (enum_of market_calendar_of calendar) (\<lambda>calendar.
     res_bind (ensure_utc when) (\<lambda>t. Inr (status_at calendar (to_wall offset t))))"

fun last_close_in :: "int \<Rightarrow> int set \<Rightarrow> nat list \<Rightarrow> int \<Rightarrow> int option" where
  "last_close_in close_at weekdays [] current = None"
| "last_close_in close_at weekdays (n # ns) current =
     (let d = wall_date (current - int n * day); candidate = combine d close_at in
      if weekday d \<notin> weekdays then last_close_in close_at weekdays ns current
      else if candidate \<le> current then Some candidate
      else last_close_in close_at weekdays ns current)"

definition last_close_wall :: "market_calendar \<Rightarrow> int \<Rightarrow> int option" where
  "last_close_wall calendar current =
     last_close_in (if calendar = US_EQUITY then 960 else 1020)
       (if calendar = US_EQUITY then {0, 1, 2, 3, 4} else {4}) [0..<8] current"

definition most_recent_scheduled_close ::
  "zone \<Rightarrow> zone \<Rightarrow> market_calendar enum_arg \<Rightarrow> dt_arg \<Rightarrow> instant option result" where
  "most_recent_scheduled_close offset wall_offset calendar when =
     res_bind (enum_of market_calendar_of calendar) (\<lambda>calendar.
       if calendar = ALWAYS_OPEN then Inr None
       else res_bind (ensure_utc when) (\<lambda>t.
         Inr (map_option (from_wall wall_offset) (last_close_wall calendar (to_wall offset t)))))"

subsection \<open>Wall-clock arithmetic\<close>

lemma wall_minute_ge_iff: "m \<le> wall_minute w \<longleftrightarrow> combine (wall_date w) m \<le> w"
proof -
  have "w = wall_date w * day + w mod day" by (simp add: wall_date_def)
  moreover have "m \<le> (w mod day) div minute \<longleftrightarrow> m * minute \<le> w mod day"
    by (simp add: minute_def) linarith
  ultimately show ?thesis by (simp add: wall_minute_def combine_def) linarith
qed

lemma wall_minute_less_iff: "wall_minute w < m \<longleftrightarrow> w < combine (wall_date w) m"
  using wall_minute_ge_iff [of m w] by linarith

lemma wall_date_bounds: "wall_date w * day \<le> w" "w < (wall_date w + 1) * day"
  by (simp_all add: wall_date_def day_def)

lemma wall_date_add: "wall_date (w + n * day) = wall_date w + n"
  by (simp add: wall_date_def day_def)

lemma wall_date_mono: "x \<le> w \<Longrightarrow> wall_date x \<le> wall_date w"
  by (simp add: wall_date_def day_def zdiv_mono1)

lemma wall_date_combine: "0 \<le> m \<Longrightarrow> m < 1440 \<Longrightarrow> wall_date (combine d m) = d"
  by (simp add: wall_date_def combine_def time_units)

lemma combine_mono: "d \<le> e \<Longrightarrow> combine d m \<le> combine e m"
  by (simp add: combine_def day_def)

lemma find_upt_Some:
  assumes "k < n" and "P k"
  shows "\<exists>i \<le> k. List.find P [0..<n] = Some i \<and> P i \<and> (\<forall>j < i. \<not> P j)"
proof -
  have "List.find P [0..<n] \<noteq> None" using assms by (auto simp: find_None_iff)
  then obtain i where i: "List.find P [0..<n] = Some i" by auto
  then obtain m where m: "m < n" "P m" "i = m" "\<forall>j < m. \<not> P j" by (auto simp: find_Some_iff)
  with assms(2) have "m \<le> k" by (meson not_le)
  with i m show ?thesis by auto
qed

subsection \<open>The searches\<close>

lemma next_open_find:
  "next_open_in ns w = map_option (\<lambda>n. combine (wall_date w + int n) 570)
     (List.find (\<lambda>n. weekday (wall_date w + int n) < 5 \<and> w < combine (wall_date w + int n) 570) ns)"
  by (induction ns) (auto simp: Let_def wall_date_add)

lemma last_close_find:
  "last_close_in m W ns w = map_option (\<lambda>n. combine (wall_date w - int n) m)
     (List.find (\<lambda>n. weekday (wall_date w - int n) \<in> W \<and> combine (wall_date w - int n) m \<le> w) ns)"
proof -
  have "wall_date (w - int n * day) = wall_date w - int n" for n
    using wall_date_add [of w "- int n"] by simp
  then show ?thesis by (induction ns) (auto simp: Let_def)
qed

definition equity_open_time :: "int \<Rightarrow> bool" where
  "equity_open_time x \<longleftrightarrow> (\<exists>d. weekday d < 5 \<and> x = combine d 570)"

lemma next_open_exists:
  "\<exists>c. next_open_in [0..<8] w = Some c \<and> equity_open_time c \<and> w < c \<and> c \<le> w + 4 * day
     \<and> (\<forall>x. equity_open_time x \<and> w < x \<longrightarrow> c \<le> x)"
proof -
  let ?d = "wall_date w"
  let ?P = "\<lambda>n. weekday (?d + int n) < 5 \<and> w < combine (?d + int n) 570"
  have "\<exists>k \<in> {1, 2, 3 :: nat}. weekday (?d + int k) < 5" by (simp add: weekday_def) presburger
  then obtain k :: nat where "k \<in> {1, 2, 3}" and weekend: "weekday (?d + int k) < 5" by blast
  then have k: "1 \<le> k" "k \<le> 3" "weekday (?d + int k) < 5" by auto
  have later: "w < combine (?d + int k) 570"
  proof -
    have "(?d + 1) * day \<le> (?d + int k) * day" using k(1) by (simp add: day_def)
    then show ?thesis using wall_date_bounds(2) [of w] by (simp add: combine_def minute_def)
  qed
  from find_upt_Some [of k 8 ?P] k later obtain i where i: "i \<le> k" "List.find ?P [0..<8] = Some i" "?P i" "\<forall>j < i. \<not> ?P j"
    by auto
  have "combine (?d + int i) 570 \<le> w + 4 * day"
  proof -
    have "(?d + int i) * day \<le> ?d * day + 3 * day" using i(1) k(2) by (simp add: day_def)
    then show ?thesis using wall_date_bounds(1) [of w] by (simp add: combine_def time_units)
  qed
  moreover have "combine (?d + int i) 570 \<le> x" if x: "equity_open_time x" "w < x" for x
  proof (rule ccontr)
    assume "\<not> combine (?d + int i) 570 \<le> x"
    obtain e where e: "weekday e < 5" "x = combine e 570" using x(1) by (auto simp: equity_open_time_def)
    then have "e < ?d + int i" using \<open>\<not> combine (?d + int i) 570 \<le> x\<close> combine_mono [of "?d + int i" e 570] by linarith
    moreover have "?d \<le> e" using wall_date_mono [of w x] x(2) e(2) by (simp add: wall_date_combine)
    ultimately have "nat (e - ?d) < i" and "?d + int (nat (e - ?d)) = e" by auto
    then show False using i(4) e x(2) by auto
  qed
  ultimately show ?thesis using i by (auto simp: next_open_find equity_open_time_def)
qed

definition close_minutes :: "market_calendar \<Rightarrow> int" where
  "close_minutes c = (if c = US_EQUITY then 960 else 1020)"

definition close_weekdays :: "market_calendar \<Rightarrow> int set" where
  "close_weekdays c = (if c = US_EQUITY then {0, 1, 2, 3, 4} else {4})"

definition close_time :: "market_calendar \<Rightarrow> int \<Rightarrow> bool" where
  "close_time c x \<longleftrightarrow> (\<exists>d. weekday d \<in> close_weekdays c \<and> x = combine d (close_minutes c))"

lemma friday_before: "\<exists>k :: nat. 1 \<le> k \<and> k \<le> 7 \<and> weekday (d - int k) = 4"
proof -
  define k where "k = nat ((d - 2) mod 7 + 1)"
  have k: "int k = (d - 2) mod 7 + 1" by (simp add: k_def)
  have "(d - int k + 3) mod 7 = 4" unfolding k by presburger
  moreover have "1 \<le> int k \<and> int k \<le> 7" unfolding k by presburger
  ultimately show ?thesis by (intro exI [where x = k]) (simp add: weekday_def)
qed

lemma last_close_exists:
  "\<exists>c. last_close_wall cal w = Some c \<and> close_time cal c \<and> c \<le> w \<and> (\<forall>x. close_time cal x \<and> x \<le> w \<longrightarrow> x \<le> c)"
proof -
  let ?d = "wall_date w" and ?m = "close_minutes cal" and ?W = "close_weekdays cal"
  let ?P = "\<lambda>n. weekday (?d - int n) \<in> ?W \<and> combine (?d - int n) ?m \<le> w"
  have m: "0 \<le> ?m" "?m < 1440" by (simp_all add: close_minutes_def)
  obtain k :: nat where k: "1 \<le> k" "k \<le> 7" "weekday (?d - int k) = 4" using friday_before by blast
  have "combine (?d - int k) ?m \<le> w"
  proof -
    have "(?d - int k) * day \<le> (?d - 1) * day" using k(1) by (simp add: day_def)
    then show ?thesis using wall_date_bounds(1) [of w] m(2) by (simp add: combine_def time_units algebra_simps)
  qed
  moreover have "4 \<in> ?W" by (simp add: close_weekdays_def)
  ultimately obtain i where i: "List.find ?P [0..<8] = Some i" "?P i" "\<forall>j < i. \<not> ?P j"
    using find_upt_Some [of k 8 ?P] k by auto
  have "x \<le> combine (?d - int i) ?m" if x: "close_time cal x" "x \<le> w" for x
  proof (rule ccontr)
    assume contra: "\<not> x \<le> combine (?d - int i) ?m"
    obtain e where e: "weekday e \<in> ?W" "x = combine e ?m" using x(1) by (auto simp: close_time_def)
    then have "?d - int i < e" using contra combine_mono [of e "?d - int i" ?m] by linarith
    moreover have "e \<le> ?d" using wall_date_mono [OF x(2)] m e(2) by (simp add: wall_date_combine)
    ultimately have "nat (?d - e) < i" and "?d - int (nat (?d - e)) = e" by auto
    then show False using i(3) e x(2) by auto
  qed
  then show ?thesis
    using i by (auto simp: last_close_wall_def last_close_find close_time_def close_minutes_def close_weekdays_def)
qed

subsection \<open>Between a close and the next open\<close>

lemma closed_since_close_equity:
  assumes close: "\<forall>x. close_time US_EQUITY x \<and> x \<le> w \<longrightarrow> x \<le> c" and now: "status_at US_EQUITY w = ''closed''"
    and x: "c \<le> x" "x \<le> w"
  shows "status_at US_EQUITY x = ''closed''"
proof (rule ccontr)
  assume "status_at US_EQUITY x \<noteq> ''closed''"
  then have op: "weekday (wall_date x) < 5" "combine (wall_date x) 570 \<le> x" "x < combine (wall_date x) 960"
    by (auto simp: status_at_def Let_def wall_minute_ge_iff wall_minute_less_iff split: if_splits)
  have day: "weekday (wall_date x) \<in> {0, 1, 2, 3, 4}" using op(1) by (auto simp: weekday_def)
  have "w < combine (wall_date x) 960"
  proof (rule ccontr)
    assume "\<not> w < combine (wall_date x) 960"
    moreover have "close_time US_EQUITY (combine (wall_date x) 960)"
      using day by (auto simp: close_time_def close_weekdays_def close_minutes_def)
    ultimately show False using close op(3) x(1) by force
  qed
  moreover from this have "wall_date w \<le> wall_date x"
    using wall_date_mono [of w "combine (wall_date x) 960"] by (simp add: wall_date_combine)
  then have "wall_date w = wall_date x" using wall_date_mono [OF x(2)] by simp
  ultimately have "status_at US_EQUITY w = ''open''"
    using op x(2) by (simp add: status_at_def Let_def wall_minute_ge_iff wall_minute_less_iff)
  with now show False by simp
qed

lemma weekday_back:
  assumes "weekday f = 4" and "0 \<le> j" and "j \<le> 4"
  shows "weekday (f - j) = 4 - j"
proof -
  have "f + 3 = 7 * ((f + 3) div 7) + 4" using assms(1) by (simp add: weekday_def) presburger
  then have "f - j + 3 = (4 - j) + 7 * ((f + 3) div 7)" by simp
  then have "(f - j + 3) mod 7 = (4 - j) mod 7" by (metis mod_mult_self2)
  then show ?thesis using assms(2,3) by (simp add: weekday_def)
qed

lemma closed_since_close_fx:
  assumes close: "\<forall>x. close_time FX_24X5 x \<and> x \<le> w \<longrightarrow> x \<le> c" and now: "status_at FX_24X5 w = ''closed''"
    and x: "c \<le> x" "x \<le> w"
  shows "status_at FX_24X5 x = ''closed''"
proof (rule ccontr)
  assume "status_at FX_24X5 x \<noteq> ''closed''"
  let ?dx = "wall_date x" and ?dw = "wall_date w"
  have op: "(weekday ?dx = 6 \<and> combine ?dx 1020 \<le> x) \<or> weekday ?dx \<in> {0, 1, 2, 3} \<or> (weekday ?dx = 4 \<and> x < combine ?dx 1020)"
    using \<open>status_at FX_24X5 x \<noteq> ''closed''\<close>
    by (auto simp: status_at_def Let_def wall_minute_ge_iff wall_minute_less_iff split: if_splits)
  define f where "f = ?dx + (1 - ?dx) mod 7"
  have f: "weekday f = 4" unfolding f_def weekday_def by presburger
  have fx: "?dx \<le> f" "f \<le> ?dx + 6" by (simp_all add: f_def)
  have before: "x < combine f 1020"
  proof (cases "f = ?dx")
    case True
    then show ?thesis using op f by auto
  next
    case False
    then have "(?dx + 1) * day \<le> f * day" using fx by (simp add: day_def)
    then show ?thesis using wall_date_bounds(2) [of x] by (simp add: combine_def time_units)
  qed
  have late: "w < combine f 1020"
  proof (rule ccontr)
    assume "\<not> w < combine f 1020"
    moreover have "close_time FX_24X5 (combine f 1020)"
      using f by (auto simp: close_time_def close_weekdays_def close_minutes_def)
    ultimately show False using close before x(1) by force
  qed
  then have dw: "?dx \<le> ?dw" "?dw \<le> f"
    using wall_date_mono [OF x(2)] wall_date_mono [of w "combine f 1020"] by (simp_all add: wall_date_combine)
  have "status_at FX_24X5 w = ''open''"
  proof (cases "?dw = ?dx")
    case True
    have "weekday ?dx = 4 \<Longrightarrow> f = ?dx" unfolding f_def weekday_def by presburger
    then show ?thesis
      using op x(2) late True by (auto simp: status_at_def Let_def wall_minute_ge_iff wall_minute_less_iff)
  next
    case False
    have "weekday ?dx \<noteq> 5" using op by auto
    moreover have "(1 - a) mod 7 = 6 \<Longrightarrow> (a + 3) mod 7 = (5 :: int)" for a by presburger
    ultimately have "f \<noteq> ?dx + 6" by (auto simp: f_def weekday_def)
    then have near: "0 \<le> f - ?dw" "f - ?dw \<le> 4" using fx dw False by auto
    then have wd: "weekday ?dw = 4 - (f - ?dw)" using weekday_back [OF f, of "f - ?dw"] by simp
    then have "weekday ?dw \<in> {0, 1, 2, 3} \<or> ?dw = f" using near by auto
    then show ?thesis using late wd by (auto simp: status_at_def Let_def wall_minute_less_iff)
  qed
  with now show False by simp
qed

subsection \<open>Properties\<close>

text \<open>
  The next-open search always resolves: for every aware instant and every zone,
  \<^verbatim>\<open>seconds_until_next_us_equity_open\<close> returns (its RuntimeError cannot occur) the time
  to the earliest weekday 09:30 after the local wall time, at most four days ahead on the
  wall clock, and never less than one second. A naive datetime is rejected.
\<close>

theorem next_open_resolves:
  "seconds_until_next_us_equity_open offset wall_offset (Naive n) = Inl (ValueError ''timestamps must be timezone-aware'')
   \<and> (\<exists>c. seconds_until_next_us_equity_open offset wall_offset (Aware t)
          = Inr (max 1 (seconds_of (from_wall wall_offset c - t)))
        \<and> equity_open_time c \<and> c \<in> {to_wall offset t <.. to_wall offset t + 4 * day}
        \<and> c = Min {x. equity_open_time x \<and> x \<in> {to_wall offset t <.. to_wall offset t + 4 * day}})"
proof -
  let ?w = "to_wall offset t"
  obtain c where c: "next_open_in [0..<8] ?w = Some c" "equity_open_time c" "?w < c" "c \<le> ?w + 4 * day"
    and least: "\<forall>x. equity_open_time x \<and> ?w < x \<longrightarrow> c \<le> x"
    using next_open_exists by blast
  have "finite {x. equity_open_time x \<and> x \<in> {?w <.. ?w + 4 * day}}"
    by (rule finite_subset [OF _ finite_greaterThanAtMost_int [of ?w "?w + 4 * day"]]) auto
  then have "c = Min {x. equity_open_time x \<and> x \<in> {?w <.. ?w + 4 * day}}"
    using c least by (intro Min_eqI [symmetric]) auto
  then show ?thesis
    using c by (auto simp: seconds_until_next_us_equity_open_def ensure_utc_def)
qed

text \<open>
  \<^verbatim>\<open>most_recent_scheduled_close\<close> finds the start of the closed stretch: for the equity
  and FX calendars it always returns a close, the latest scheduled one at or before the
  local wall time, and when the schedule says closed now, it has said closed at every wall
  time since that close.
\<close>

theorem most_recent_close_starts_closed_stretch:
  assumes "cal \<noteq> ALWAYS_OPEN"
  shows "\<exists>c. most_recent_scheduled_close offset wall_offset (Member cal) (Aware t) = Inr (Some (from_wall wall_offset c))
     \<and> close_time cal c \<and> c \<le> to_wall offset t
     \<and> (\<forall>x. close_time cal x \<and> x \<le> to_wall offset t \<longrightarrow> x \<le> c)
     \<and> (scheduled_market_status offset (Member cal) (Aware t) = Inr ''closed'' \<longrightarrow>
          (\<forall>x. c \<le> x \<and> x \<le> to_wall offset t \<longrightarrow> status_at cal x = ''closed''))"
proof -
  obtain c where c: "last_close_wall cal (to_wall offset t) = Some c" "close_time cal c" "c \<le> to_wall offset t"
    and latest: "\<forall>x. close_time cal x \<and> x \<le> to_wall offset t \<longrightarrow> x \<le> c"
    using last_close_exists by blast
  have "status_at cal x = ''closed''" if "status_at cal (to_wall offset t) = ''closed''" "c \<le> x" "x \<le> to_wall offset t" for x
    using that latest assms by (cases cal) (blast intro: closed_since_close_equity closed_since_close_fx)+
  then show ?thesis
    using c latest assms by (auto simp: most_recent_scheduled_close_def scheduled_market_status_def)
qed

theorem most_recent_close_starts_closed_stretch_witness:
  "\<exists>c. most_recent_scheduled_close (\<lambda>_. - 5 * hour) (\<lambda>_. - 5 * hour) (Member FX_24X5) (Aware (10 * day)) =
       Inr (Some (from_wall (\<lambda>_. - 5 * hour) c)) \<and> close_time FX_24X5 c"
  using most_recent_close_starts_closed_stretch [of FX_24X5 "\<lambda>_. - 5 * hour" "\<lambda>_. - 5 * hour" "10 * day"] by auto

end
