(* ===== verification/QP_Router.thy ===== *)
theory QP_Router
  imports QP_Domain
begin

text \<open>
  \<^verbatim>\<open>quickprice/providers/router.py\<close> with the error classes of \<^verbatim>\<open>providers/base.py\<close>:
  capability routes, ordered fallback, circuit breakers and history merging.

  A provider is an object reference with a name and the methods it implements; what a call
  to it does is outside the router and enters as the outcome of an attempt. An attempt also
  carries the two clock readings of the router around the call and what other tasks did to
  the circuits while this one awaited the provider (\<^verbatim>\<open>at_other\<close>), so the dispatch loop is
  modelled under arbitrary interleaving. Metrics and log lines are left out: they are
  written and never read here.
\<close>

subsection \<open>Capabilities, errors, payloads\<close>

datatype capability = QUOTE | HISTORY | DIVIDEND | YIELD

definition capability_value :: "capability \<Rightarrow> string" where
  "capability_value c =
     (case c of QUOTE \<Rightarrow> ''quote'' | HISTORY \<Rightarrow> ''history'' | DIVIDEND \<Rightarrow> ''dividend'' | YIELD \<Rightarrow> ''yield'')"

datatype error_class =
  ProviderError | ProviderUnavailable | NetworkUnavailable | ProviderRateLimited | ProviderBusy
| MalformedResponse | UnsupportedInstrument | AllProvidersFailed

text \<open>\<^verbatim>\<open>isinstance\<close> against the class hierarchy.\<close>

fun parent_class :: "error_class \<Rightarrow> error_class option" where
  "parent_class ProviderError = None"
| "parent_class NetworkUnavailable = Some ProviderUnavailable"
| "parent_class ProviderBusy = Some ProviderRateLimited"
| "parent_class _ = Some ProviderError"

definition is_instance :: "error_class \<Rightarrow> error_class \<Rightarrow> bool" where
  "is_instance c d \<longleftrightarrow> c = d \<or> parent_class c = Some d \<or> Option.bind (parent_class c) parent_class = Some d"

definition provider_error_outcome :: "error_class \<Rightarrow> string" where
  "provider_error_outcome e =
     (if is_instance e ProviderBusy then ''busy''
      else if is_instance e ProviderRateLimited then ''rate_limited''
      else if is_instance e MalformedResponse then ''malformed''
      else if is_instance e UnsupportedInstrument then ''unsupported''
      else if is_instance e ProviderUnavailable then ''unavailable''
      else ''rejected'')"

text \<open>What a provider method returned: a value of one of the shared models, or anything else.\<close>

datatype payload =
  QuoteValue provider_quote
| HistoryValue "price_point list"
| DividendValue "dividend_event option"
| YieldValue yield_metric
| OtherValue

datatype call_outcome =
  Returned payload
| TimedOut
| ErrorRaised error_class string
| OtherException string

record provider =
  pv_id :: nat
  pv_name :: string
  pv_methods :: "capability list"
  pv_prefix_limited :: bool

subsection \<open>Circuits\<close>

record circuit =
  ci_failures :: nat
  ci_open_count :: nat
  ci_open_until :: rat
  ci_probing :: bool

definition new_circuit :: circuit where
  "new_circuit = \<lparr>ci_failures = 0, ci_open_count = 0, ci_open_until = 0, ci_probing = False\<rparr>"

record router_config =
  rc_timeout_seconds :: rat
  rc_failure_threshold :: int
  rc_half_open_after :: rat
  rc_max_backoff :: rat
  rc_network_retry :: rat

definition mk_router_config :: "rat \<Rightarrow> int \<Rightarrow> rat \<Rightarrow> rat \<Rightarrow> rat \<Rightarrow> router_config result" where
  "mk_router_config timeout threshold half_open max_backoff network_retry =
     raise_if (timeout \<le> 0) (ValueError ''timeout_seconds must be positive'')
     (raise_if (threshold \<le> 0) (ValueError ''failure_threshold must be positive'')
     (raise_if (network_retry \<le> 0) (ValueError ''network retry interval must be positive'')
     (Inr \<lparr>rc_timeout_seconds = timeout, rc_failure_threshold = threshold, rc_half_open_after = half_open,
           rc_max_backoff = max_backoff, rc_network_retry = network_retry\<rparr>)))"

definition allow_call :: "rat \<Rightarrow> circuit \<Rightarrow> circuit \<times> bool" where
  "allow_call now c =
     (if ci_open_until c \<le> 0 then (c, True)
      else if now < ci_open_until c \<or> ci_probing c then (c, False)
      else (c\<lparr>ci_probing := True\<rparr>, True))"

text \<open>
  \<^verbatim>\<open>half_open_after_seconds * (2**exponent)\<close> multiplies a float by an unbounded integer; the
  conversion of the integer raises OverflowError from \<^verbatim>\<open>2**1024\<close> on. A product beyond the
  float range is infinite and the minimum with the finite maximum is that maximum.
\<close>

definition backoff_delay :: "router_config \<Rightarrow> nat \<Rightarrow> rat result" where
  "backoff_delay cfg exponent =
     (if 1024 \<le> exponent then Inl (OverflowError ''int too large to convert to float'')
      else Inr (min (rc_max_backoff cfg) (rc_half_open_after cfg * 2 ^ exponent)))"

definition record_failure :: "router_config \<Rightarrow> rat \<Rightarrow> bool \<Rightarrow> circuit \<Rightarrow> circuit \<times> unit result" where
  "record_failure cfg now network_failure c =
     (let c1 = c\<lparr>ci_probing := False, ci_failures := ci_failures c + 1\<rparr> in
      if int (ci_failures c1) < rc_failure_threshold cfg \<and> ci_open_until c1 \<le> 0 then (c1, Inr ())
      else
        let c2 = c1\<lparr>ci_open_count := ci_open_count c1 + 1\<rparr> in
        case (if network_failure then Inr (rc_network_retry cfg)
              else backoff_delay cfg (ci_open_count c2 - 1)) of
          Inl e \<Rightarrow> (c2, Inl e)
        | Inr delay \<Rightarrow> (c2\<lparr>ci_open_until := now + delay\<rparr>, Inr ()))"

definition record_success :: "circuit \<Rightarrow> circuit" where
  "record_success c = c\<lparr>ci_failures := 0, ci_open_count := 0, ci_open_until := 0, ci_probing := False\<rparr>"

definition circuit_state :: "rat \<Rightarrow> circuit \<Rightarrow> string" where
  "circuit_state now c =
     (if ci_open_until c \<le> 0 then ''closed''
      else if now < ci_open_until c then ''open''
      else if ci_probing c then ''half_open'' else ''probe_ready'')"

subsection \<open>Routes\<close>

type_synonym route_key = "string \<times> capability"
type_synonym circuit_key = "nat \<times> string \<times> capability"

record router =
  rt_routes :: "(route_key, provider list) dict"
  rt_circuits :: "(circuit_key, circuit) dict"
  rt_fallbacks :: "(string \<times> capability \<times> string, nat) dict"
  rt_selections :: "(route_key, string \<times> nat) dict"

definition empty_router :: router where
  "empty_router = \<lparr>rt_routes = [], rt_circuits = [], rt_fallbacks = [], rt_selections = []\<rparr>"

definition router_register :: "string \<Rightarrow> capability \<Rightarrow> provider list \<Rightarrow> router \<Rightarrow> router result" where
  "router_register symbol cap providers r =
     raise_if (providers = []) (ValueError ''provider chain cannot be empty: '')
     (raise_if (\<exists>p \<in> set providers. cap \<notin> set (pv_methods p)) (TypeError ''provider lacks the method'')
     (let key = (normal_symbol symbol, cap) in
      raise_if (key \<in> set (dict_keys (rt_routes r))) (ValueError ''duplicate provider route: '')
        (Inr (r\<lparr>rt_routes := dict_set key providers (rt_routes r)\<rparr>))))"

definition router_configured :: "string \<Rightarrow> capability \<Rightarrow> router \<Rightarrow> bool" where
  "router_configured symbol cap r \<longleftrightarrow> (normal_symbol symbol, cap) \<in> set (dict_keys (rt_routes r))"

text \<open>\<^verbatim>\<open>replace\<close> pops the route, registers, and puts the previous chain back when that raises.\<close>

definition router_replace :: "string \<Rightarrow> capability \<Rightarrow> provider list \<Rightarrow> router \<Rightarrow> router \<times> unit result" where
  "router_replace symbol cap providers r =
     (let key = (normal_symbol symbol, cap);
          previous = dict_get (rt_routes r) key;
          popped = r\<lparr>rt_routes := dict_pop key (rt_routes r)\<rparr>
      in case router_register (normal_symbol symbol) cap providers popped of
           Inr r' \<Rightarrow> (r', Inr ())
         | Inl e \<Rightarrow> (case previous of
             None \<Rightarrow> (popped, Inl e)
           | Some chain \<Rightarrow> (popped\<lparr>rt_routes := dict_set key chain (rt_routes popped)\<rparr>, Inl e)))"

definition router_remove :: "string \<Rightarrow> capability \<Rightarrow> router \<Rightarrow> router" where
  "router_remove symbol cap r = r\<lparr>rt_routes := dict_pop (normal_symbol symbol, cap) (rt_routes r)\<rparr>"

definition replace_provider_instance :: "provider \<Rightarrow> provider \<Rightarrow> router \<Rightarrow> router" where
  "replace_provider_instance old new r =
     r\<lparr>rt_routes := map (\<lambda>(key, chain).
        (key, if old \<in> set chain then map (\<lambda>p. if p = old then new else p) chain else chain)) (rt_routes r)\<rparr>"

definition providers_for :: "string \<Rightarrow> capability \<Rightarrow> router \<Rightarrow> provider list" where
  "providers_for symbol cap r = dict_list (rt_routes r) (normal_symbol symbol, cap)"

subsection \<open>History segments\<close>

record history_args =
  ha_interval :: string
  ha_start :: instant
  ha_limit :: "int option"

definition interval_seconds :: "string \<Rightarrow> int" where
  "interval_seconds interval =
     (case map_of [(''1m'', 60), (''5m'', 300), (''15m'', 900), (''1h'', 3600), (''4h'', 14400), (''1d'', 86400)]
        (lower interval) of None \<Rightarrow> 60 | Some s \<Rightarrow> s)"

definition history_covers_start :: "price_point list \<Rightarrow> history_args \<Rightarrow> bool" where
  "history_covers_start points args =
     (points \<noteq> [] \<and>
      Min (pp_timestamp ` set points) \<le> ha_start args + interval_seconds (ha_interval args) * 2 * second)"

definition setdefault :: "'k \<Rightarrow> 'v \<Rightarrow> ('k, 'v) dict \<Rightarrow> ('k, 'v) dict" where
  "setdefault k v d = (if k \<in> set (dict_keys d) then d else dict_set k v d)"

definition merge_history :: "price_point list list \<Rightarrow> int option \<Rightarrow> price_point list" where
  "merge_history segments limit =
     (let merged = fold (\<lambda>segment d. fold (\<lambda>p d. setdefault (pp_timestamp p) p d) segment d) segments [];
          ordered = map (\<lambda>k. the (dict_get merged k)) (sort (dict_keys merged))
      in case limit of
           Some n \<Rightarrow> if 0 \<le> n then take (nat n) ordered else ordered
         | None \<Rightarrow> ordered)"

text \<open>
  \<^verbatim>\<open>_attach_fallback\<close>: quotes and yields carry a fallback level, points and dividends do not
  and come back unchanged.
\<close>

definition attach_fallback :: "payload \<Rightarrow> nat \<Rightarrow> payload" where
  "attach_fallback v level =
     (case v of
        QuoteValue q \<Rightarrow> QuoteValue (q\<lparr>pq_fallback_level := max (pq_fallback_level q) (int level)\<rparr>)
      | YieldValue y \<Rightarrow> YieldValue (y\<lparr>ym_fallback_level := max (ym_fallback_level y) (int level)\<rparr>)
      | _ \<Rightarrow> v)"

subsection \<open>Dispatch\<close>

text \<open>\<^verbatim>\<open>_validate_result_identity\<close>: \<^verbatim>\<open>Some\<close> is the message of the ProviderUnavailable it raises.\<close>

definition invalid_identity :: "string \<Rightarrow> capability \<Rightarrow> payload \<Rightarrow> string option" where
  "invalid_identity symbol cap v =
     (let values = (case (cap, v) of
          (QUOTE, QuoteValue q) \<Rightarrow> Some [pq_symbol q]
        | (HISTORY, HistoryValue ps) \<Rightarrow> Some (map pp_symbol ps)
        | (DIVIDEND, DividendValue None) \<Rightarrow> Some []
        | (DIVIDEND, DividendValue (Some d)) \<Rightarrow> Some [de_symbol d]
        | (YIELD, YieldValue y) \<Rightarrow> Some [ym_symbol y]
        | _ \<Rightarrow> None)
      in case values of
           None \<Rightarrow> Some (''invalid '' @ capability_value cap @ '' response type'')
         | Some ss \<Rightarrow> if \<exists>s \<in> set ss. s \<noteq> symbol
                      then Some (capability_value cap @ '' response symbol mismatch'') else None)"

definition settle :: "string \<Rightarrow> capability \<Rightarrow> call_outcome \<Rightarrow> call_outcome" where
  "settle symbol cap outcome =
     (case outcome of
        Returned v \<Rightarrow> (case invalid_identity symbol cap v of
            Some msg \<Rightarrow> ErrorRaised ProviderUnavailable msg | None \<Rightarrow> outcome)
      | _ \<Rightarrow> outcome)"

record attempt =
  at_now :: rat
  at_outcome :: call_outcome
  at_other :: "(circuit_key, circuit) dict \<Rightarrow> (circuit_key, circuit) dict"
  at_failed_at :: rat

text \<open>\<^verbatim>\<open>defaultdict\<close> access creates the circuit.\<close>

definition circuit_for :: "circuit_key \<Rightarrow> (circuit_key, circuit) dict \<Rightarrow> circuit" where
  "circuit_for key d = (case dict_get d key of None \<Rightarrow> new_circuit | Some c \<Rightarrow> c)"

definition record_route_selection :: "string \<Rightarrow> capability \<Rightarrow> string \<Rightarrow> nat \<Rightarrow> router \<Rightarrow> router" where
  "record_route_selection symbol cap name level r =
     (let r1 = r\<lparr>rt_selections := dict_set (symbol, cap) (name, level) (rt_selections r)\<rparr>;
          key = (symbol, cap, name)
      in if level \<noteq> 0
         then r1\<lparr>rt_fallbacks := dict_set key
                (case dict_get (rt_fallbacks r1) key of None \<Rightarrow> 1 | Some n \<Rightarrow> n + 1) (rt_fallbacks r1)\<rparr>
         else r1)"

datatype dispatch_error = AllFailed "(string \<times> string) list" | Escaped py_error

type_synonym dispatch_result = "dispatch_error + payload"

text \<open>What the exception handlers of the loop body decide.\<close>

datatype handled =
  Accept payload
| Skip string
| Stop string
| Fail bool string

definition handle :: "call_outcome \<Rightarrow> handled" where
  "handle outcome =
     (case outcome of
        Returned v \<Rightarrow> Accept v
      | TimedOut \<Rightarrow> Fail True ''timeout''
      | ErrorRaised e msg \<Rightarrow>
          if e = UnsupportedInstrument then Skip msg
          else if e = ProviderBusy then Stop msg
          else Fail (is_instance e NetworkUnavailable) msg
      | OtherException name \<Rightarrow> Fail False name)"

definition no_data :: "payload \<Rightarrow> bool" where
  "no_data v = (v = DividendValue None \<or> v = HistoryValue [])"

definition history_of :: "payload \<Rightarrow> price_point list" where
  "history_of v = (case v of HistoryValue ps \<Rightarrow> ps | _ \<Rightarrow> [])"

definition finish :: "history_args \<Rightarrow> price_point list list \<Rightarrow> (string \<times> string) list \<Rightarrow> dispatch_result" where
  "finish args segments attempts =
     (if segments \<noteq> [] then Inr (HistoryValue (merge_history segments (ha_limit args)))
      else Inl (AllFailed attempts))"

fun dispatch_loop ::
  "router_config \<Rightarrow> history_args \<Rightarrow> string \<Rightarrow> capability \<Rightarrow> (nat \<times> provider \<times> attempt) list \<Rightarrow>
   (string \<times> string) list \<Rightarrow> price_point list list \<Rightarrow> router \<Rightarrow> router \<times> dispatch_result" where
  "dispatch_loop cfg args symbol cap [] attempts segments r = (r, finish args segments attempts)"
| "dispatch_loop cfg args symbol cap ((level, provider, a) # rest) attempts segments r =
     (let name = pv_name provider;
          key = (pv_id provider, symbol, cap);
          (c, allowed) = allow_call (at_now a) (circuit_for key (rt_circuits r));
          r1 = r\<lparr>rt_circuits := dict_set key c (rt_circuits r)\<rparr>
      in if \<not> allowed then
           dispatch_loop cfg args symbol cap rest (attempts @ [(name, ''circuit_open'')]) segments r1
         else
           let others = at_other a (rt_circuits r1);
               now_circuit = circuit_for key others;
               put = (\<lambda>c'. r1\<lparr>rt_circuits := dict_set key c' others\<rparr>)
           in case handle (settle symbol cap (at_outcome a)) of
                Fail network msg \<Rightarrow>
                  (case record_failure cfg (at_failed_at a) network now_circuit of
                     (c', Inl e) \<Rightarrow> (put c', Inl (Escaped e))
                   | (c', Inr _) \<Rightarrow>
                       dispatch_loop cfg args symbol cap rest (attempts @ [(name, msg)]) segments (put c'))
              | Skip msg \<Rightarrow>
                  dispatch_loop cfg args symbol cap rest (attempts @ [(name, msg)]) segments
                    (put (now_circuit\<lparr>ci_probing := False\<rparr>))
              | Stop msg \<Rightarrow>
                  (put (now_circuit\<lparr>ci_probing := False\<rparr>), finish args segments (attempts @ [(name, msg)]))
              | Accept v \<Rightarrow>
                  (let r2 = put (record_success now_circuit) in
                   if no_data v then
                     dispatch_loop cfg args symbol cap rest (attempts @ [(name, ''no_data'')]) segments r2
                   else if cap = HISTORY then
                     (if pv_prefix_limited provider \<and> \<not> history_covers_start (history_of v) args then
                        dispatch_loop cfg args symbol cap rest (attempts @ [(name, ''incomplete_prefix'')])
                          (segments @ [history_of v])
                          (if level \<noteq> 0 then record_route_selection symbol cap name level r2 else r2)
                      else
                        (record_route_selection symbol cap name level r2,
                         if segments \<noteq> []
                         then Inr (HistoryValue (merge_history (segments @ [history_of v]) (ha_limit args)))
                         else Inr (attach_fallback v level)))
                   else (record_route_selection symbol cap name level r2, Inr (attach_fallback v level))))"

definition dispatch ::
  "router_config \<Rightarrow> history_args \<Rightarrow> string \<Rightarrow> capability \<Rightarrow> (nat \<Rightarrow> attempt) \<Rightarrow> router \<Rightarrow>
   router \<times> dispatch_result" where
  "dispatch cfg args symbol cap world r =
     (case dict_get (rt_routes r) (symbol, cap) of
        None \<Rightarrow> (r, Inl (AllFailed [(''router'', ''not configured'')]))
      | Some providers \<Rightarrow>
          if providers = [] then (r, Inl (AllFailed [(''router'', ''not configured'')]))
          else dispatch_loop cfg args symbol cap (map (\<lambda>(i, p). (i, p, world i)) (enumerate 0 providers)) [] [] r)"

subsection \<open>Reports\<close>

record circuit_snapshot =
  cs_provider :: string
  cs_symbol :: string
  cs_capability :: string
  cs_state :: string
  cs_failures :: nat
  cs_open_count :: nat
  cs_retry_in_seconds :: rat

definition circuit_snapshots :: "rat \<Rightarrow> router \<Rightarrow> circuit_snapshot list" where
  "circuit_snapshots now r =
     map (\<lambda>((pid, symbol, cap), c).
       \<lparr>cs_provider = (case List.find (\<lambda>p. pv_id p = pid) (dict_list (rt_routes r) (symbol, cap)) of
            None \<Rightarrow> ''unknown'' | Some p \<Rightarrow> pv_name p),
        cs_symbol = symbol, cs_capability = capability_value cap, cs_state = circuit_state now c,
        cs_failures = ci_failures c, cs_open_count = ci_open_count c,
        cs_retry_in_seconds = max 0 (ci_open_until c - now)\<rparr>) (rt_circuits r)"

definition fallback_counts :: "router \<Rightarrow> (string, nat) dict" where
  "fallback_counts r =
     fold (\<lambda>((symbol, cap, name), n) d. dict_set (symbol @ ''|'' @ capability_value cap @ ''|'' @ name) n d)
       (rt_fallbacks r) []"

end
