(* ===== verification/QP_Router_Props.thy ===== *)
theory QP_Router_Props
  imports QP_Router
begin

text \<open>
  Properties of the provider router: the breaker as a transition system with its invariant
  and bounded cooldown, the probes in flight on one circuit, fallback order, identity of results under arbitrary providers and
  interleavings, merging of history segments, and transactional route replacement.
\<close>

subsection \<open>The circuit breaker\<close>

definition breaker_ok :: "router_config \<Rightarrow> bool" where
  "breaker_ok cfg \<longleftrightarrow> 0 < rc_failure_threshold cfg \<and> 0 < rc_half_open_after cfg \<and> 0 < rc_max_backoff cfg
     \<and> 0 < rc_network_retry cfg"

definition max_cooldown :: "router_config \<Rightarrow> rat" where
  "max_cooldown cfg = max (rc_max_backoff cfg) (rc_network_retry cfg)"

text \<open>
  The life of one circuit: events at non-decreasing clock readings. \<^verbatim>\<open>Release\<close> is the
  \<^verbatim>\<open>probing = False\<close> of an unsupported or busy provider. Failures and successes may come
  from any call in flight, not only from the last one admitted.
\<close>

inductive circuit_step :: "router_config \<Rightarrow> rat \<times> circuit \<Rightarrow> rat \<times> circuit \<Rightarrow> bool" for cfg where
  Allow: "t \<le> now \<Longrightarrow> circuit_step cfg (t, c) (now, fst (allow_call now c))"
| Failure: "t \<le> now \<Longrightarrow> circuit_step cfg (t, c) (now, fst (record_failure cfg now network c))"
| Success: "t \<le> now \<Longrightarrow> circuit_step cfg (t, c) (now, record_success c)"
| Release: "t \<le> now \<Longrightarrow> circuit_step cfg (t, c) (now, c\<lparr>ci_probing := False\<rparr>)"

definition circuit_inv :: "router_config \<Rightarrow> rat \<Rightarrow> circuit \<Rightarrow> bool" where
  "circuit_inv cfg t c \<longleftrightarrow> 0 \<le> t
     \<and> (ci_open_count c = 0 \<longleftrightarrow> ci_open_until c \<le> 0)
     \<and> (ci_probing c \<longrightarrow> 0 < ci_open_until c)
     \<and> (ci_open_until c \<le> 0 \<longrightarrow> int (ci_failures c) < rc_failure_threshold cfg)
     \<and> ci_open_until c \<le> t + max_cooldown cfg"

lemma new_circuit_inv: "breaker_ok cfg \<Longrightarrow> 0 \<le> t \<Longrightarrow> circuit_inv cfg t new_circuit"
  by (auto simp: circuit_inv_def new_circuit_def breaker_ok_def max_cooldown_def max_def)

lemma backoff_delay_bounds:
  "breaker_ok cfg \<Longrightarrow> backoff_delay cfg n = Inr d \<Longrightarrow> 0 < d \<and> d \<le> rc_max_backoff cfg"
  by (auto simp: backoff_delay_def breaker_ok_def split: if_splits)

lemma record_failure_cases:
  obtains
    (counted) "int (ci_failures c + 1) < rc_failure_threshold cfg" "ci_open_until c \<le> 0"
      "record_failure cfg now network c = (c\<lparr>ci_probing := False, ci_failures := ci_failures c + 1\<rparr>, Inr ())"
  | (opened) d where "int (ci_failures c + 1) \<ge> rc_failure_threshold cfg \<or> 0 < ci_open_until c"
      "(if network then Inr (rc_network_retry cfg) else backoff_delay cfg (ci_open_count c)) = Inr d"
      "record_failure cfg now network c = (c\<lparr>ci_probing := False, ci_failures := ci_failures c + 1,
         ci_open_count := ci_open_count c + 1, ci_open_until := now + d\<rparr>, Inr ())"
  | (overflow) "int (ci_failures c + 1) \<ge> rc_failure_threshold cfg \<or> 0 < ci_open_until c"
      "\<not> network" "1024 \<le> ci_open_count c"
      "record_failure cfg now network c = (c\<lparr>ci_probing := False, ci_failures := ci_failures c + 1,
         ci_open_count := ci_open_count c + 1\<rparr>, Inl (OverflowError ''int too large to convert to float''))"
proof (cases "int (ci_failures c + 1) < rc_failure_threshold cfg \<and> ci_open_until c \<le> 0")
  case True
  then show thesis by (intro counted) (simp_all add: record_failure_def Let_def)
next
  case False
  show thesis
  proof (cases "if network then Inr (rc_network_retry cfg) else backoff_delay cfg (ci_open_count c)")
    case (Inl e)
    with False show thesis
      by (intro overflow) (auto simp: record_failure_def Let_def backoff_delay_def split: if_splits)
  next
    case (Inr d)
    with False show thesis by (intro opened [of d]) (auto simp: record_failure_def Let_def)
  qed
qed

lemma circuit_inv_failure:
  assumes "breaker_ok cfg" and "circuit_inv cfg t c" and "t \<le> now"
  shows "circuit_inv cfg now (fst (record_failure cfg now network c))"
proof (cases rule: record_failure_cases [of c cfg now network])
  case counted
  then show ?thesis using assms by (simp add: circuit_inv_def)
next
  case (opened d)
  have "0 < d \<and> d \<le> max_cooldown cfg"
    using opened(2) backoff_delay_bounds [OF assms(1), of "ci_open_count c" d] assms(1)
    by (auto simp: max_cooldown_def breaker_ok_def split: if_splits)
  then show ?thesis using assms opened by (auto simp: circuit_inv_def)
next
  case overflow
  then show ?thesis using assms by (auto simp: circuit_inv_def)
qed

lemma circuit_step_inv:
  assumes "breaker_ok cfg" and "circuit_step cfg s s'" and "circuit_inv cfg (fst s) (snd s)"
  shows "circuit_inv cfg (fst s') (snd s')"
  using assms(2,3)
proof cases
  case (Failure t now c network)
  then show ?thesis using circuit_inv_failure [OF assms(1)] assms(3) by simp
qed (use assms(1,3) in \<open>auto simp: circuit_inv_def allow_call_def record_success_def breaker_ok_def max_cooldown_def\<close>)

lemma circuit_reachable_inv:
  assumes "breaker_ok cfg" and "(circuit_step cfg)\<^sup>*\<^sup>* (0, new_circuit) s"
  shows "circuit_inv cfg (fst s) (snd s)"
  using assms(2) by (induction rule: rtranclp_induct) (auto simp: new_circuit_inv assms(1) intro: circuit_step_inv [OF assms(1)])

text \<open>The answers of successive \<^verbatim>\<open>_allow_call\<close>s with no outcome recorded in between.\<close>

fun allow_calls :: "rat list \<Rightarrow> circuit \<Rightarrow> bool list" where
  "allow_calls [] c = []"
| "allow_calls (now # later) c = snd (allow_call now c) # allow_calls later (fst (allow_call now c))"

lemma allow_calls_probing:
  "0 < ci_open_until c \<Longrightarrow> ci_probing c \<Longrightarrow> True \<notin> set (allow_calls later c)"
  by (induction later arbitrary: c) (auto simp: allow_call_def)

text \<open>
  C9. The breaker in every state reached by admissions, recorded failures and successes and
  releases at non-decreasing clock readings: a call is admitted exactly when the circuit
  has not opened since the last success, or its cooldown has passed and no probe is marked;
  a cooldown never outlasts the larger of the maximum backoff and the network retry
  interval after the last event, so after that time a circuit without a marked probe admits
  a call; a circuit that is not open has fewer failures than the threshold; and once an open
  circuit has admitted a probe, no later request, however many and whenever they come, is
  admitted until an outcome is recorded.
\<close>

theorem circuit_breaker_safe:
  assumes "breaker_ok cfg" and "(circuit_step cfg)\<^sup>*\<^sup>* (0, new_circuit) (t, c)" and "t \<le> now"
  shows "(snd (allow_call now c) \<longleftrightarrow>
           ci_open_count c = 0 \<or> (ci_open_until c \<le> now \<and> \<not> ci_probing c))
    \<and> (t + max (rc_max_backoff cfg) (rc_network_retry cfg) \<le> now \<and> \<not> ci_probing c \<longrightarrow> snd (allow_call now c))
    \<and> (ci_open_count c = 0 \<longrightarrow> int (ci_failures c) < rc_failure_threshold cfg)
    \<and> (0 < ci_open_count c \<longrightarrow> snd (allow_call now c) \<longrightarrow>
         True \<notin> set (allow_calls later (fst (allow_call now c))))"
proof -
  have inv: "circuit_inv cfg t c" using circuit_reachable_inv [OF assms(1,2)] by simp
  have "True \<notin> set (allow_calls later (fst (allow_call now c)))"
    if "0 < ci_open_count c" "snd (allow_call now c)"
    using inv that by (intro allow_calls_probing) (auto simp: circuit_inv_def allow_call_def split: if_splits)
  then show ?thesis using inv assms(3) by (auto simp: circuit_inv_def allow_call_def max_cooldown_def)
qed

definition sample_config :: router_config where
  "sample_config = \<lparr>rc_timeout_seconds = 8, rc_failure_threshold = 1, rc_half_open_after = 60,
     rc_max_backoff = 900, rc_network_retry = 30\<rparr>"

lemma sample_config_ok: "breaker_ok sample_config"
  by (simp add: breaker_ok_def sample_config_def)

definition sample_circuit :: circuit where
  "sample_circuit = \<lparr>ci_failures = 1, ci_open_count = 1, ci_open_until = 65, ci_probing = False\<rparr>"

lemma sample_circuit_reachable: "(circuit_step sample_config)\<^sup>*\<^sup>* (0, new_circuit) (5, sample_circuit)"
proof -
  have "circuit_step sample_config (0, new_circuit) (5, fst (record_failure sample_config 5 False new_circuit))"
    by (rule circuit_step.Failure) simp
  moreover have "fst (record_failure sample_config 5 False new_circuit) = sample_circuit"
    by (simp add: record_failure_def sample_config_def new_circuit_def sample_circuit_def backoff_delay_def Let_def)
  ultimately show ?thesis by auto
qed

theorem circuit_breaker_safe_witness:
  "snd (allow_call 70 sample_circuit) \<and> \<not> snd (allow_call 20 sample_circuit)
   \<and> True \<notin> set (allow_calls [71, 900, 5000] (fst (allow_call 70 sample_circuit)))"
  using circuit_breaker_safe [OF sample_config_ok sample_circuit_reachable, of 70 "[71, 900, 5000]"]
    circuit_breaker_safe [OF sample_config_ok sample_circuit_reachable, of 20]
  by (simp add: sample_circuit_def)

subsection \<open>Calls in flight\<close>

text \<open>
  A circuit with its calls in flight: those admitted while it was closed and those admitted
  as probes of an open one. \<^verbatim>\<open>_dispatch\<close> records the outcome of a call on the circuit without
  regard to how the call was admitted. A failure whose backoff raises ends the call with the
  counters already raised.
\<close>

record flight =
  fl_now :: rat
  fl_circuit :: circuit
  fl_early :: nat
  fl_probes :: nat

definition no_flight :: flight where
  "no_flight = \<lparr>fl_now = 0, fl_circuit = new_circuit, fl_early = 0, fl_probes = 0\<rparr>"

definition admit :: "rat \<Rightarrow> flight \<Rightarrow> flight" where
  "admit now f =
     (let (c, allowed) = allow_call now (fl_circuit f);
          f' = f\<lparr>fl_now := now, fl_circuit := c\<rparr>
      in if \<not> allowed then f'
         else if ci_open_until (fl_circuit f) \<le> 0 then f'\<lparr>fl_early := fl_early f + 1\<rparr>
         else f'\<lparr>fl_probes := fl_probes f + 1\<rparr>)"

definition after_outcome :: "router_config \<Rightarrow> rat \<Rightarrow> call_outcome \<Rightarrow> circuit \<Rightarrow> circuit" where
  "after_outcome cfg now outcome c =
     (case handle outcome of
        Accept _ \<Rightarrow> record_success c
      | Skip _ \<Rightarrow> c\<lparr>ci_probing := False\<rparr>
      | Stop _ \<Rightarrow> c\<lparr>ci_probing := False\<rparr>
      | Fail network _ \<Rightarrow> fst (record_failure cfg now network c))"

inductive flight_step :: "router_config \<Rightarrow> flight \<Rightarrow> flight \<Rightarrow> bool" for cfg where
  Admit: "fl_now f \<le> now \<Longrightarrow> flight_step cfg f (admit now f)"
| EndEarly: "fl_now f \<le> now \<Longrightarrow> 0 < fl_early f \<Longrightarrow>
     flight_step cfg f (f\<lparr>fl_now := now, fl_early := fl_early f - 1,
       fl_circuit := after_outcome cfg now outcome (fl_circuit f)\<rparr>)"
| EndProbe: "fl_now f \<le> now \<Longrightarrow> 0 < fl_probes f \<Longrightarrow>
     flight_step cfg f (f\<lparr>fl_now := now, fl_probes := fl_probes f - 1,
       fl_circuit := after_outcome cfg now outcome (fl_circuit f)\<rparr>)"

inductive_cases flight_stepE: "flight_step cfg f f'"

lemma after_outcome_not_probing [simp]: "\<not> ci_probing (after_outcome cfg now outcome c)"
proof (cases "handle outcome")
  case (Fail network msg)
  show ?thesis by (cases rule: record_failure_cases [of c cfg now network]) (simp_all add: after_outcome_def Fail)
qed (simp_all add: after_outcome_def record_success_def)

text \<open>The mark is never left behind: while it is set, a call admitted as a probe is in flight.\<close>

definition flight_inv :: "flight \<Rightarrow> bool" where
  "flight_inv f \<longleftrightarrow> (ci_probing (fl_circuit f) \<longrightarrow> 0 < fl_probes f)"

lemma flight_step_inv: "flight_step cfg f f' \<Longrightarrow> flight_inv f \<Longrightarrow> flight_inv f'"
  by (erule flight_stepE) (auto simp: flight_inv_def admit_def allow_call_def Let_def)

lemma flight_reachable_inv: "(flight_step cfg)\<^sup>*\<^sup>* no_flight f \<Longrightarrow> flight_inv f"
proof (induction rule: rtranclp_induct)
  case base
  show ?case by (simp add: flight_inv_def no_flight_def new_circuit_def)
qed (rule flight_step_inv)

text \<open>
  While the circuit stays open and only probes are in flight, the mark counts them: there is
  one exactly when it is set.
\<close>

definition counted_probe :: "flight \<Rightarrow> bool" where
  "counted_probe f \<longleftrightarrow> fl_early f = 0 \<and> fl_probes f = (if ci_probing (fl_circuit f) then 1 else 0)"

lemma open_step_counted:
  assumes "flight_step cfg f f'" and "counted_probe f" and "0 < ci_open_until (fl_circuit f)"
  shows "counted_probe f'"
  using assms by (auto elim!: flight_stepE simp: counted_probe_def admit_def allow_call_def Let_def split: if_splits)

definition open_step :: "router_config \<Rightarrow> flight \<Rightarrow> flight \<Rightarrow> bool" where
  "open_step cfg f f' \<longleftrightarrow> flight_step cfg f f' \<and> 0 < ci_open_until (fl_circuit f)"

text \<open>
  A single probe, and what it rests on: from a reachable state whose circuit is open with
  no call in flight, every run that stays open has at most one call in flight, it is in
  flight exactly while the mark is set, and the mark goes with its outcome; so the breaker is
  not blocked by a probe that ended.
\<close>

lemma open_circuit_single_probe:
  assumes "(flight_step cfg)\<^sup>*\<^sup>* no_flight f" and "fl_early f = 0" and "fl_probes f = 0"
    and "(open_step cfg)\<^sup>*\<^sup>* f f'"
  shows "fl_early f' = 0 \<and> fl_probes f' = (if ci_probing (fl_circuit f') then 1 else 0)"
proof -
  have "counted_probe f'"
    using assms(4)
  proof (induction rule: rtranclp_induct)
    case base
    show ?case using flight_reachable_inv [OF assms(1)] assms(2,3) by (auto simp: counted_probe_def flight_inv_def)
  next
    case (step g g')
    then show ?case using open_step_counted by (auto simp: open_step_def)
  qed
  then show ?thesis by (simp add: counted_probe_def)
qed

definition quiet_flight :: flight where
  "quiet_flight = \<lparr>fl_now = 0, fl_circuit = \<lparr>ci_failures = 1, ci_open_count = 1, ci_open_until = 30, ci_probing = False\<rparr>,
     fl_early = 0, fl_probes = 0\<rparr>"

lemma quiet_flight_reachable: "(flight_step sample_config)\<^sup>*\<^sup>* no_flight quiet_flight"
proof -
  have "flight_step sample_config no_flight (admit 0 no_flight)" by (rule flight_step.Admit) (simp add: no_flight_def)
  moreover have "flight_step sample_config (admit 0 no_flight) quiet_flight"
    using flight_step.EndEarly [of "admit 0 no_flight" 0 sample_config TimedOut]
    by (simp add: admit_def no_flight_def new_circuit_def allow_call_def after_outcome_def handle_def record_failure_def
        sample_config_def quiet_flight_def)
  ultimately show ?thesis by auto
qed

text \<open>Calls admitted while the circuit is closed, then as many failures as the threshold.\<close>

definition early_flight :: "nat \<Rightarrow> nat \<Rightarrow> flight" where
  "early_flight failures n =
     \<lparr>fl_now = 0, fl_circuit = new_circuit\<lparr>ci_failures := failures\<rparr>, fl_early = n, fl_probes = 0\<rparr>"

definition open_flight :: "router_config \<Rightarrow> rat \<Rightarrow> nat \<Rightarrow> nat \<Rightarrow> flight" where
  "open_flight cfg now early probes =
     \<lparr>fl_now = now, fl_circuit = \<lparr>ci_failures = nat (rc_failure_threshold cfg), ci_open_count = 1,
        ci_open_until = rc_network_retry cfg, ci_probing = False\<rparr>, fl_early = early, fl_probes = probes\<rparr>"

lemma early_flight_admits: "(flight_step cfg)\<^sup>*\<^sup>* no_flight (early_flight 0 n)"
proof (induction n)
  case 0
  show ?case by (simp add: early_flight_def no_flight_def new_circuit_def)
next
  case (Suc n)
  have "flight_step cfg (early_flight 0 n) (admit 0 (early_flight 0 n))"
    by (rule flight_step.Admit) (simp add: early_flight_def)
  moreover have "admit 0 (early_flight 0 n) = early_flight 0 (Suc n)"
    by (simp add: admit_def early_flight_def new_circuit_def allow_call_def)
  ultimately show ?case using Suc by simp
qed

lemma early_flight_fails:
  "int j < rc_failure_threshold cfg \<Longrightarrow> (flight_step cfg)\<^sup>*\<^sup>* no_flight (early_flight j n)"
proof (induction j arbitrary: n)
  case 0
  show ?case by (rule early_flight_admits)
next
  case (Suc j)
  have "flight_step cfg (early_flight j (Suc n)) (early_flight (Suc j) n)"
    using flight_step.EndEarly [of "early_flight j (Suc n)" 0 cfg TimedOut] Suc.prems
    by (simp add: early_flight_def after_outcome_def handle_def record_failure_def new_circuit_def)
  with Suc show ?case by (meson Suc_leD int_ops(4) less_le_trans linorder_not_less order_less_le_trans rtranclp.rtrancl_into_rtrancl of_nat_less_iff lessI order.strict_trans)
qed

lemma open_flight_reachable:
  assumes "breaker_ok cfg"
  shows "(flight_step cfg)\<^sup>*\<^sup>* no_flight (open_flight cfg 0 n 0)"
proof -
  let ?j = "nat (rc_failure_threshold cfg) - 1"
  have j: "int ?j < rc_failure_threshold cfg" "Suc ?j = nat (rc_failure_threshold cfg)"
    using assms by (auto simp: breaker_ok_def)
  have "flight_step cfg (early_flight ?j (Suc n)) (open_flight cfg 0 n 0)"
    using flight_step.EndEarly [of "early_flight ?j (Suc n)" 0 cfg TimedOut] j(2) assms
    by (simp add: early_flight_def open_flight_def after_outcome_def handle_def record_failure_def new_circuit_def breaker_ok_def
        Let_def)
  with early_flight_fails [OF j(1)] show ?thesis by (rule rtranclp.rtrancl_into_rtrancl)
qed

lemma open_flight_again:
  assumes "breaker_ok cfg" and "now \<le> rc_network_retry cfg"
  shows "(flight_step cfg)\<^sup>*\<^sup>* (open_flight cfg now (Suc n) m) (open_flight cfg (rc_network_retry cfg) n (Suc m))"
proof -
  let ?f = "open_flight cfg now (Suc n) m"
  have "flight_step cfg ?f (admit (rc_network_retry cfg) ?f)"
    using assms(2) by (intro flight_step.Admit) (simp add: open_flight_def)
  moreover have "flight_step cfg (admit (rc_network_retry cfg) ?f) (open_flight cfg (rc_network_retry cfg) n (Suc m))"
    using flight_step.EndEarly [of "admit (rc_network_retry cfg) ?f" "rc_network_retry cfg" cfg "ErrorRaised ProviderBusy ''busy''"]
      assms(1)
    by (simp add: open_flight_def admit_def allow_call_def after_outcome_def handle_def breaker_ok_def)
  ultimately show ?thesis by auto
qed

lemma open_flight_probes:
  assumes "breaker_ok cfg"
  shows "\<exists>now \<le> rc_network_retry cfg. (flight_step cfg)\<^sup>*\<^sup>* no_flight (open_flight cfg now n m)"
proof (induction m arbitrary: n)
  case 0
  show ?case using open_flight_reachable [OF assms] assms by (intro exI [of _ 0]) (simp add: breaker_ok_def)
next
  case (Suc m)
  from this [of "Suc n"] show ?case using open_flight_again [OF assms] by (meson order_refl rtranclp_trans)
qed

text \<open>
  C10. What bounds the probes of a circuit and what does not, with every call in flight
  counted. From a reachable state whose circuit is open with no call in flight, every run that
  stays open has at most one call in flight, exactly while the probe mark is set, and the
  mark goes with its outcome. But the outcome of a call admitted before the circuit opened
  clears the mark as well, so the next request is admitted as another probe while the first
  is in flight: for every configuration and every number \<open>m\<close> a run reaches an open circuit
  with \<open>m\<close> probes in flight.
\<close>

theorem probes_in_flight:
  assumes "breaker_ok cfg"
  shows "(\<forall>f f'. (flight_step cfg)\<^sup>*\<^sup>* no_flight f \<longrightarrow> fl_early f = 0 \<longrightarrow> fl_probes f = 0 \<longrightarrow> (open_step cfg)\<^sup>*\<^sup>* f f' \<longrightarrow>
      fl_early f' = 0 \<and> fl_probes f' = (if ci_probing (fl_circuit f') then 1 else 0))
    \<and> (\<exists>f. (flight_step cfg)\<^sup>*\<^sup>* no_flight f \<and> 0 < ci_open_until (fl_circuit f) \<and> fl_probes f = m)"
proof (intro conjI allI impI)
  obtain now where "(flight_step cfg)\<^sup>*\<^sup>* no_flight (open_flight cfg now 0 m)"
    using open_flight_probes [OF assms] by blast
  then show "\<exists>f. (flight_step cfg)\<^sup>*\<^sup>* no_flight f \<and> 0 < ci_open_until (fl_circuit f) \<and> fl_probes f = m"
    using assms by (intro exI [of _ "open_flight cfg now 0 m"]) (simp add: open_flight_def breaker_ok_def)
qed (use open_circuit_single_probe in blast)+

theorem probes_in_flight_witness:
  "(\<exists>f. (flight_step sample_config)\<^sup>*\<^sup>* no_flight f \<and> 0 < ci_open_until (fl_circuit f) \<and> fl_probes f = 2)
   \<and> fl_probes (admit 41 (admit 40 quiet_flight)) = (if ci_probing (fl_circuit (admit 41 (admit 40 quiet_flight))) then 1 else 0)
   \<and> fl_probes (admit 41 (admit 40 quiet_flight)) = 1"
proof -
  have "open_step sample_config quiet_flight (admit 40 quiet_flight)"
    unfolding open_step_def by (intro conjI flight_step.Admit) (simp_all add: quiet_flight_def)
  moreover have "open_step sample_config (admit 40 quiet_flight) (admit 41 (admit 40 quiet_flight))"
    unfolding open_step_def
    by (intro conjI flight_step.Admit) (simp_all add: quiet_flight_def admit_def allow_call_def)
  ultimately have "(open_step sample_config)\<^sup>*\<^sup>* quiet_flight (admit 41 (admit 40 quiet_flight))" by auto
  moreover have "fl_early quiet_flight = 0" "fl_probes quiet_flight = 0" by (simp_all add: quiet_flight_def)
  moreover have "fl_probes (admit 41 (admit 40 quiet_flight)) = 1" by (simp add: quiet_flight_def admit_def allow_call_def)
  ultimately show ?thesis using probes_in_flight [OF sample_config_ok, of 2] quiet_flight_reachable by blast
qed

subsection \<open>Endless outages\<close>




subsection \<open>Merging history\<close>

lemma fold_setdefault_get:
  "dict_get (fold (\<lambda>p d. setdefault (pp_timestamp p) p d) ps d) t =
     (case dict_get d t of Some p \<Rightarrow> Some p | None \<Rightarrow> List.find (\<lambda>p. pp_timestamp p = t) ps)"
proof (induction ps arbitrary: d)
  case Nil
  then show ?case by (simp split: option.splits)
next
  case (Cons p ps)
  have "dict_get (setdefault (pp_timestamp p) p d) t =
      (case dict_get d t of Some q \<Rightarrow> Some q | None \<Rightarrow> if pp_timestamp p = t then Some p else None)"
    by (auto simp: setdefault_def split: option.splits dest: map_of_SomeD) (force dest: map_of_SomeD simp: map_of_eq_None_iff)+
  then show ?case by (simp add: Cons.IH split: option.splits)
qed

definition merged_dict :: "price_point list list \<Rightarrow> (instant, price_point) dict" where
  "merged_dict segments =
     fold (\<lambda>segment d. fold (\<lambda>p d. setdefault (pp_timestamp p) p d) segment d) segments []"

lemma merged_dict_concat: "merged_dict segments = fold (\<lambda>p d. setdefault (pp_timestamp p) p d) (concat segments) []"
proof -
  have "fold (\<lambda>segment d. fold (\<lambda>p d. setdefault (pp_timestamp p) p d) segment d) segments d
      = fold (\<lambda>p d. setdefault (pp_timestamp p) p d) (concat segments) d" for d
    by (induction segments arbitrary: d) auto
  then show ?thesis by (simp add: merged_dict_def)
qed

lemma merged_dict_get: "dict_get (merged_dict segments) t = List.find (\<lambda>p. pp_timestamp p = t) (concat segments)"
  by (simp add: merged_dict_concat fold_setdefault_get)

lemma merged_dict_wf: "dict_wf (merged_dict segments)"
proof -
  have "dict_wf d \<Longrightarrow> dict_wf (fold (\<lambda>p d. setdefault (pp_timestamp p) p d) ps d)" for ps d
    by (induction ps arbitrary: d) (auto simp: setdefault_def dict_set_wf)
  from this [of "[]"] show ?thesis by (simp add: merged_dict_concat)
qed

definition merge_ordered :: "price_point list list \<Rightarrow> price_point list" where
  "merge_ordered segments = map (\<lambda>k. the (dict_get (merged_dict segments) k)) (sort (dict_keys (merged_dict segments)))"

lemma merge_history_ordered:
  "merge_history segments limit =
     (case limit of Some n \<Rightarrow> if 0 \<le> n then take (nat n) (merge_ordered segments) else merge_ordered segments
      | None \<Rightarrow> merge_ordered segments)"
  unfolding merge_history_def merge_ordered_def merged_dict_def Let_def ..

lemma merge_ordered_props:
  shows "strict_on pp_timestamp (merge_ordered segments)"
    and "p \<in> set (merge_ordered segments) \<longleftrightarrow> List.find (\<lambda>q. pp_timestamp q = pp_timestamp p) (concat segments) = Some p"
proof -
  let ?d = "merged_dict segments"
  have stamp: "pp_timestamp (the (dict_get ?d k)) = k" and found: "dict_get ?d k = Some (the (dict_get ?d k))"
    if "k \<in> set (dict_keys ?d)" for k
  proof -
    have "dict_get ?d k \<noteq> None" using that by (simp add: map_of_eq_None_iff)
    then obtain q where q: "dict_get ?d k = Some q" by blast
    then show "dict_get ?d k = Some (the (dict_get ?d k))" by simp
    from q have "List.find (\<lambda>p. pp_timestamp p = k) (concat segments) = Some q" by (simp add: merged_dict_get)
    with q show "pp_timestamp (the (dict_get ?d k)) = k" by (auto simp: find_Some_iff)
  qed
  have "map pp_timestamp (merge_ordered segments) = sort (dict_keys ?d)"
    unfolding merge_ordered_def map_map comp_def by (rule map_idI) (simp add: stamp)
  then show "strict_on pp_timestamp (merge_ordered segments)"
    using merged_dict_wf [of segments] by (simp add: strict_sorted_iff)
  show "p \<in> set (merge_ordered segments) \<longleftrightarrow> List.find (\<lambda>q. pp_timestamp q = pp_timestamp p) (concat segments) = Some p"
  proof
    assume "p \<in> set (merge_ordered segments)"
    then obtain k where "k \<in> set (dict_keys ?d)" "p = the (dict_get ?d k)" by (auto simp: merge_ordered_def)
    then show "List.find (\<lambda>q. pp_timestamp q = pp_timestamp p) (concat segments) = Some p"
      using stamp [of k] found [of k] by (simp add: merged_dict_get)
  next
    assume "List.find (\<lambda>q. pp_timestamp q = pp_timestamp p) (concat segments) = Some p"
    then have get: "dict_get ?d (pp_timestamp p) = Some p" by (simp add: merged_dict_get)
    then have "dict_get ?d (pp_timestamp p) \<noteq> None" by simp
    then have "pp_timestamp p \<in> set (dict_keys ?d)" by (simp add: map_of_eq_None_iff)
    then show "p \<in> set (merge_ordered segments)"
      using get by (auto simp: merge_ordered_def intro!: image_eqI [where x = "pp_timestamp p"])
  qed
qed

text \<open>
  C32. Merging history segments: the result of \<^verbatim>\<open>_merge_history\<close> is strictly ordered by
  time; without a limit it holds, for every timestamp of any segment, exactly the point of
  the first segment that has it (higher-priority providers win overlaps); with a limit it
  is the oldest part of that, no longer than the limit.
\<close>

theorem merge_history_exact:
  "strict_on pp_timestamp (merge_history segments limit)
   \<and> set (merge_history segments None) =
       {p. List.find (\<lambda>q. pp_timestamp q = pp_timestamp p) (concat segments) = Some p}
   \<and> pp_timestamp ` set (merge_history segments None) = pp_timestamp ` set (concat segments)
   \<and> merge_history segments (Some (int k)) = take k (merge_history segments None)"
proof (intro conjI)
  show "strict_on pp_timestamp (merge_history segments limit)"
    using merge_ordered_props(1) [of segments]
    by (auto simp: merge_history_ordered take_map [symmetric] sorted_wrt_take split: option.splits)
  show set: "set (merge_history segments None) = {p. List.find (\<lambda>q. pp_timestamp q = pp_timestamp p) (concat segments) = Some p}"
    using merge_ordered_props(2) by (auto simp: merge_history_ordered)
  show "pp_timestamp ` set (merge_history segments None) = pp_timestamp ` set (concat segments)"
  proof
    show "pp_timestamp ` set (merge_history segments None) \<subseteq> pp_timestamp ` set (concat segments)"
      unfolding set by (auto simp: find_Some_iff simp del: set_concat dest: nth_mem)
    show "pp_timestamp ` set (concat segments) \<subseteq> pp_timestamp ` set (merge_history segments None)"
    proof
      fix t
      assume "t \<in> pp_timestamp ` set (concat segments)"
      then have "List.find (\<lambda>q. pp_timestamp q = t) (concat segments) \<noteq> None" by (auto simp: find_None_iff)
      then obtain p where p: "List.find (\<lambda>q. pp_timestamp q = t) (concat segments) = Some p" by auto
      then have "pp_timestamp p = t" by (auto simp: find_Some_iff)
      with p show "t \<in> pp_timestamp ` set (merge_history segments None)" unfolding set by force
    qed
  qed
  show "merge_history segments (Some (int k)) = take k (merge_history segments None)"
    by (simp add: merge_history_ordered)
qed

subsection \<open>Identity of results\<close>

text \<open>What a caller may rely on: the right kind of value, for the right instrument.\<close>

definition payload_for :: "string \<Rightarrow> capability \<Rightarrow> payload \<Rightarrow> bool" where
  "payload_for symbol cap v =
     (case v of
        QuoteValue q \<Rightarrow> cap = QUOTE \<and> pq_symbol q = symbol
      | HistoryValue ps \<Rightarrow> cap = HISTORY \<and> ps \<noteq> [] \<and> (\<forall>p \<in> set ps. pp_symbol p = symbol)
      | DividendValue d \<Rightarrow> cap = DIVIDEND \<and> (case d of None \<Rightarrow> False | Some e \<Rightarrow> de_symbol e = symbol)
      | YieldValue y \<Rightarrow> cap = YIELD \<and> ym_symbol y = symbol
      | OtherValue \<Rightarrow> False)"

lemma payload_for_attach [simp]: "payload_for symbol cap (attach_fallback v n) = payload_for symbol cap v"
  by (cases v) (simp_all add: payload_for_def attach_fallback_def)

lemma invalid_identity_None:
  "invalid_identity symbol cap v = None \<Longrightarrow> \<not> no_data v \<Longrightarrow> payload_for symbol cap v"
  by (cases v; cases cap)
    (auto simp: invalid_identity_def payload_for_def no_data_def Let_def split: if_splits option.splits)

lemma accepted_valid:
  "handle (settle symbol cap o') = Accept v \<Longrightarrow> \<not> no_data v \<Longrightarrow> payload_for symbol cap v"
  by (cases o') (auto simp: handle_def settle_def split: if_splits option.splits intro: invalid_identity_None)

lemma merge_history_origin: "p \<in> set (merge_history segments limit) \<Longrightarrow> p \<in> set (concat segments)"
proof -
  assume "p \<in> set (merge_history segments limit)"
  then have "p \<in> set (merge_ordered segments)"
    by (auto simp: merge_history_ordered split: option.splits if_splits dest: in_set_takeD)
  then show "p \<in> set (concat segments)"
    by (auto simp: merge_ordered_props(2) find_Some_iff simp del: set_concat)
qed

definition segment_for :: "string \<Rightarrow> price_point list list \<Rightarrow> bool" where
  "segment_for symbol segments \<longleftrightarrow> (\<forall>seg \<in> set segments. seg \<noteq> [] \<and> (\<forall>p \<in> set seg. pp_symbol p = symbol))"

lemma merge_history_nonempty:
  assumes "segments \<noteq> []" and "segment_for symbol segments" and "case limit of None \<Rightarrow> True | Some n \<Rightarrow> n \<noteq> 0"
  shows "merge_history segments limit \<noteq> []"
proof -
  obtain seg rest where "segments = seg # rest" "seg \<noteq> []" using assms(1,2) by (cases segments) (auto simp: segment_for_def)
  then obtain p where "p \<in> set (concat segments)" by (cases seg) auto
  then have "List.find (\<lambda>q. pp_timestamp q = pp_timestamp p) (concat segments) \<noteq> None" by (auto simp: find_None_iff)
  then obtain q where q: "List.find (\<lambda>q. pp_timestamp q = pp_timestamp p) (concat segments) = Some q" by auto
  then have "pp_timestamp q = pp_timestamp p" by (auto simp: find_Some_iff)
  with q have "q \<in> set (merge_ordered segments)" by (simp add: merge_ordered_props(2))
  then have "merge_ordered segments \<noteq> []" by auto
  then show ?thesis using assms(3) by (auto simp: merge_history_ordered split: option.splits)
qed

lemma dispatch_loop_step:
  obtains
    (again) attempts' segments' r1 where
      "dispatch_loop cfg args symbol cap ((level, provider, a) # rest) attempts segments r =
         dispatch_loop cfg args symbol cap rest attempts' segments' r1"
      "segments' = segments \<or> (\<exists>v. handle (settle symbol cap (at_outcome a)) = Accept v \<and> \<not> no_data v
         \<and> cap = HISTORY \<and> segments' = segments @ [history_of v])"
  | (stop) r1 attempts' where
      "dispatch_loop cfg args symbol cap ((level, provider, a) # rest) attempts segments r =
         (r1, finish args segments attempts')"
  | (escape) r1 e where
      "dispatch_loop cfg args symbol cap ((level, provider, a) # rest) attempts segments r = (r1, Inl (Escaped e))"
  | (merged) r1 v where "handle (settle symbol cap (at_outcome a)) = Accept v" "\<not> no_data v" "cap = HISTORY" "segments \<noteq> []"
      "dispatch_loop cfg args symbol cap ((level, provider, a) # rest) attempts segments r =
         (r1, Inr (HistoryValue (merge_history (segments @ [history_of v]) (ha_limit args))))"
  | (found) r1 v where "handle (settle symbol cap (at_outcome a)) = Accept v" "\<not> no_data v"
      "dispatch_loop cfg args symbol cap ((level, provider, a) # rest) attempts segments r =
         (r1, Inr (attach_fallback v level))"
proof -
  let ?key = "(pv_id provider, symbol, cap)"
  obtain c allowed where ac: "allow_call (at_now a) (circuit_for ?key (rt_circuits r)) = (c, allowed)" by fastforce
  show thesis
  proof (cases allowed)
    case False
    then show thesis by (intro again [OF _ disjI1]) (auto simp: ac Let_def)
  next
    case True
    note run = dispatch_loop.simps(2) [of cfg args symbol cap level provider a rest attempts segments r]
    show thesis
    proof (cases "handle (settle symbol cap (at_outcome a))")
      case (Fail network msg)
      obtain c' res where f: "record_failure cfg (at_failed_at a) network (circuit_for ?key
          (at_other a (dict_set ?key c (rt_circuits r)))) = (c', res)" by fastforce
      show thesis
      proof (cases res)
        case (Inl e)
        then show thesis using True Fail f by (intro escape) (simp add: ac Let_def)
      next
        case (Inr u)
        then show thesis using True Fail f by (intro again [OF _ disjI1]) (auto simp: ac Let_def)
      qed
    next
      case (Skip msg)
      then show thesis using True by (intro again [OF _ disjI1]) (auto simp: ac Let_def)
    next
      case (Stop msg)
      then show thesis using True by (intro stop) (auto simp: ac Let_def)
    next
      case (Accept v)
      consider "no_data v" | "\<not> no_data v" "cap \<noteq> HISTORY"
        | "\<not> no_data v" "cap = HISTORY" "pv_prefix_limited provider \<and> \<not> history_covers_start (history_of v) args"
        | "\<not> no_data v" "cap = HISTORY" "\<not> (pv_prefix_limited provider \<and> \<not> history_covers_start (history_of v) args)" "segments = []"
        | "\<not> no_data v" "cap = HISTORY" "\<not> (pv_prefix_limited provider \<and> \<not> history_covers_start (history_of v) args)" "segments \<noteq> []"
        by blast
      then show thesis
      proof cases
        case 1
        then show thesis using True Accept by (intro again [OF _ disjI1]) (auto simp: ac Let_def)
      next
        case 2
        then show thesis using True Accept by (intro found [of v]) (auto simp: ac Let_def)
      next
        case 3
        then show thesis using True Accept ac by (intro again [OF _ disjI2, OF _ exI [where x = v]]) (auto simp: Let_def)
      next
        case 4
        show thesis using True Accept ac 4(1,2,4) by (intro found [OF Accept 4(1)]) (simp add: Let_def if_not_P [OF 4(3)])
      next
        case 5
        show thesis using True Accept ac 5(1,2,4) by (intro merged [OF Accept 5(1,2,4)]) (simp add: Let_def if_not_P [OF 5(3)])
      qed
    qed
  qed
qed

lemma merge_payload_for:
  assumes "segments \<noteq> []" and "segment_for symbol segments" and "cap = HISTORY"
    and "case limit of None \<Rightarrow> True | Some n \<Rightarrow> n \<noteq> 0"
  shows "payload_for symbol cap (HistoryValue (merge_history segments limit))"
  using merge_history_nonempty [OF assms(1,2,4)] assms(2,3)
  by (auto simp: payload_for_def segment_for_def dest!: merge_history_origin)

lemma history_segment: "payload_for symbol HISTORY v \<Longrightarrow> history_of v \<noteq> [] \<and> (\<forall>p \<in> set (history_of v). pp_symbol p = symbol)"
  by (cases v) (simp_all add: payload_for_def history_of_def)

lemma dispatch_loop_identity:
  assumes "dispatch_loop cfg args symbol cap tasks attempts segments r = (r', Inr v)"
    and "segment_for symbol segments" and "segments \<noteq> [] \<Longrightarrow> cap = HISTORY"
    and lim: "case ha_limit args of None \<Rightarrow> True | Some n \<Rightarrow> n \<noteq> 0"
  shows "payload_for symbol cap v"
  using assms(1-3)
proof (induction tasks arbitrary: attempts segments r)
  case Nil
  then show ?case using merge_payload_for [OF _ _ _ lim] by (auto simp: finish_def split: if_splits)
next
  case (Cons task rest)
  obtain level p a where task: "task = (level, p, a)" by (cases task)
  have extend: "segment_for symbol (segments @ [history_of w])"
    if "handle (settle symbol cap (at_outcome a)) = Accept w" "\<not> no_data w" "cap = HISTORY" for w
    using Cons.prems(2) history_segment [of symbol w] accepted_valid [OF that(1,2)] that(3) by (auto simp: segment_for_def)
  show ?case
  proof (cases rule: dispatch_loop_step [of cfg args symbol cap level p a rest attempts segments r])
    case (again attempts' segments' r1)
    have "segment_for symbol segments'" "segments' \<noteq> [] \<Longrightarrow> cap = HISTORY"
      using again(2) Cons.prems(2,3) extend by auto
    then show ?thesis using Cons.IH [of attempts' segments' r1] Cons.prems(1) again(1) by (simp add: task)
  next
    case (stop r1 attempts')
    then show ?thesis
      using Cons.prems merge_payload_for [OF _ _ _ lim] by (auto simp: task finish_def split: if_splits)
  next
    case (escape r1 e)
    then show ?thesis using Cons.prems(1) by (simp add: task)
  next
    case (merged r1 w)
    then show ?thesis
      using Cons.prems(1) extend [OF merged(1-3)] merge_payload_for [OF _ _ merged(3) lim, of "segments @ [history_of w]" symbol]
      by (simp add: task)
  next
    case (found r1 w)
    then show ?thesis using Cons.prems(1) accepted_valid [OF found(1,2)] by (auto simp: task)
  qed
qed

definition sample_provider :: "nat \<Rightarrow> provider" where
  "sample_provider n = \<lparr>pv_id = n, pv_name = ''p'', pv_methods = [DIVIDEND], pv_prefix_limited = False\<rparr>"

definition sample_event :: dividend_event where
  "sample_event = \<lparr>de_symbol = ''SGOV'', de_ex_date = 1, de_payment_date = None, de_amount = 1, de_currency = ''USD'',
     de_frequency = ''monthly'', de_provider = ''p'', de_event_type = ''cash'', de_declared_date = None\<rparr>"

definition sample_router :: router where
  "sample_router = \<lparr>rt_routes = [((''SGOV'', DIVIDEND), [sample_provider 1, sample_provider 2])], rt_circuits = [],
     rt_fallbacks = [], rt_selections = []\<rparr>"

definition sample_world :: "nat \<Rightarrow> attempt" where
  "sample_world i = \<lparr>at_now = 1, at_outcome = (if i = 0 then TimedOut else Returned (DividendValue (Some sample_event))),
     at_other = id, at_failed_at = 2\<rparr>"

definition sample_args :: history_args where
  "sample_args = \<lparr>ha_interval = ''1d'', ha_start = 0, ha_limit = None\<rparr>"

text \<open>
  C7. A dispatched result is always for the requested instrument: whatever the providers
  return or raise, and whatever other tasks do to the circuits meanwhile, a value returned
  by \<^verbatim>\<open>_dispatch\<close> has the model type of the capability, is not empty, and every item in it
  carries the requested symbol (the limit of a history request must not be zero).
\<close>

theorem dispatch_result_identity:
  assumes "dispatch cfg args symbol cap world r = (r', Inr v)" and "ha_limit args \<noteq> Some 0"
  shows "payload_for symbol cap v"
proof -
  have "case ha_limit args of None \<Rightarrow> True | Some n \<Rightarrow> n \<noteq> 0" using assms(2) by (cases "ha_limit args") auto
  then show ?thesis
    using assms(1) by (auto simp: dispatch_def segment_for_def split: option.splits if_splits intro: dispatch_loop_identity)
qed

theorem dispatch_result_identity_witness:
  "payload_for ''SGOV'' DIVIDEND (DividendValue (Some sample_event))"
proof (rule dispatch_result_identity)
  show "dispatch sample_config sample_args ''SGOV'' DIVIDEND sample_world sample_router =
      (fst (dispatch sample_config sample_args ''SGOV'' DIVIDEND sample_world sample_router),
       Inr (DividendValue (Some sample_event)))"
    by (simp add: dispatch_def sample_router_def sample_provider_def sample_world_def circuit_for_def new_circuit_def
        allow_call_def Let_def settle_def handle_def record_failure_def sample_config_def invalid_identity_def
        sample_event_def no_data_def attach_fallback_def prod_eq_iff)
  show "ha_limit sample_args \<noteq> Some 0" by (simp add: sample_args_def)
qed

subsection \<open>Fallback order\<close>

text \<open>The outcome of a chain of calls when no circuit interferes, for one-value capabilities.\<close>

definition decisive :: "string \<Rightarrow> capability \<Rightarrow> call_outcome \<Rightarrow> bool" where
  "decisive symbol cap outcome =
     (case handle (settle symbol cap outcome) of Accept v \<Rightarrow> \<not> no_data v | Stop _ \<Rightarrow> True | _ \<Rightarrow> False)"

definition reason :: "string \<Rightarrow> capability \<Rightarrow> call_outcome \<Rightarrow> string" where
  "reason symbol cap outcome =
     (case handle (settle symbol cap outcome) of Accept _ \<Rightarrow> ''no_data'' | Stop m \<Rightarrow> m | Skip m \<Rightarrow> m | Fail _ m \<Rightarrow> m)"

fun chain_result ::
  "string \<Rightarrow> capability \<Rightarrow> (nat \<times> string \<times> call_outcome) list \<Rightarrow> (string \<times> string) list \<Rightarrow> dispatch_result" where
  "chain_result symbol cap [] attempts = Inl (AllFailed attempts)"
| "chain_result symbol cap ((level, name, outcome) # rest) attempts =
     (if decisive symbol cap outcome
      then (case handle (settle symbol cap outcome) of
              Accept v \<Rightarrow> Inr (attach_fallback v level)
            | _ \<Rightarrow> Inl (AllFailed (attempts @ [(name, reason symbol cap outcome)])))
      else chain_result symbol cap rest (attempts @ [(name, reason symbol cap outcome)]))"

definition closed_at :: "circuit_key set \<Rightarrow> (circuit_key, circuit) dict \<Rightarrow> bool" where
  "closed_at keys d \<longleftrightarrow> (\<forall>k \<in> keys. ci_open_until (circuit_for k d) \<le> 0 \<and> ci_open_count (circuit_for k d) < 1024)"

lemma circuit_for_set [simp]: "circuit_for k (dict_set k' c d) = (if k = k' then c else circuit_for k d)"
  by (simp add: circuit_for_def)

lemma record_failure_small: "ci_open_count c < 1024 \<Longrightarrow> \<exists>c'. record_failure cfg now network c = (c', Inr ())"
  by (auto simp: record_failure_def backoff_delay_def Let_def)

definition task_keys :: "string \<Rightarrow> capability \<Rightarrow> (nat \<times> provider \<times> attempt) list \<Rightarrow> circuit_key list" where
  "task_keys symbol cap tasks = map (\<lambda>(_, p, _). (pv_id p, symbol, cap)) tasks"

definition task_view :: "(nat \<times> provider \<times> attempt) list \<Rightarrow> (nat \<times> string \<times> call_outcome) list" where
  "task_view tasks = map (\<lambda>(l, p, a). (l, pv_name p, at_outcome a)) tasks"

lemma task_simps [simp]:
  "task_keys symbol cap [] = []" "task_view [] = []"
  "task_keys symbol cap ((l, p, a) # rest) = (pv_id p, symbol, cap) # task_keys symbol cap rest"
  "task_view ((l, p, a) # rest) = (l, pv_name p, at_outcome a) # task_view rest"
  by (simp_all add: task_keys_def task_view_def)

text \<open>Other tasks keep the circuits of this chain closed while a provider is awaited.\<close>

definition calm :: "circuit_key list \<Rightarrow> attempt \<Rightarrow> bool" where
  "calm keys a \<longleftrightarrow> (\<forall>K d. K \<subseteq> set keys \<longrightarrow> closed_at K d \<longrightarrow> closed_at K (at_other a d))"

lemma dispatch_loop_closed:
  assumes "cap \<noteq> HISTORY" and "distinct (task_keys symbol cap tasks)" and "set (task_keys symbol cap tasks) \<subseteq> set keys"
    and "\<forall>(l, p, a) \<in> set tasks. calm keys a" and "closed_at (set (task_keys symbol cap tasks)) (rt_circuits r)"
  shows "snd (dispatch_loop cfg args symbol cap tasks attempts [] r) = chain_result symbol cap (task_view tasks) attempts"
  using assms(2-)
proof (induction tasks arbitrary: attempts r)
  case Nil
  then show ?case by (simp add: finish_def)
next
  case (Cons task rest)
  obtain l p a where task: "task = (l, p, a)" by (cases task)
  let ?key = "(pv_id p, symbol, cap)" and ?rest = "set (task_keys symbol cap rest)"
  have closed: "ci_open_until (circuit_for ?key (rt_circuits r)) \<le> 0"
    using Cons.prems(4) by (simp add: closed_at_def task)
  then have allow: "allow_call (at_now a) (circuit_for ?key (rt_circuits r)) = (circuit_for ?key (rt_circuits r), True)"
    by (simp add: allow_call_def)
  define others where "others = at_other a (dict_set ?key (circuit_for ?key (rt_circuits r)) (rt_circuits r))"
  have "closed_at (insert ?key ?rest) (dict_set ?key (circuit_for ?key (rt_circuits r)) (rt_circuits r))"
    using Cons.prems(4) by (simp add: closed_at_def task)
  moreover have "calm keys a" and "insert ?key ?rest \<subseteq> set keys" using Cons.prems(2,3) by (auto simp: task)
  ultimately have others: "closed_at (insert ?key ?rest) others"
    unfolding others_def calm_def by blast
  have fresh: "?key \<notin> ?rest" using Cons.prems(1) by (simp add: task)
  have put: "closed_at ?rest (dict_set ?key c' others)" for c'
    using others fresh by (auto simp: closed_at_def)
  have IH: "snd (dispatch_loop cfg args symbol cap rest xs [] (r\<lparr>rt_circuits := dict_set ?key c' others\<rparr>)) =
      chain_result symbol cap (task_view rest) xs" for xs c'
    using Cons.prems put by (intro Cons.IH) (auto simp: task)
  have over: "r\<lparr>rt_circuits := x, rt_circuits := y\<rparr> = r\<lparr>rt_circuits := y\<rparr>" for x y by simp
  have "ci_open_count (circuit_for ?key others) < 1024" using others by (simp add: closed_at_def)
  note fail = record_failure_small [OF this, of cfg "at_failed_at a"]
  show ?case
  proof (cases "handle (settle symbol cap (at_outcome a))")
    case (Fail network msg)
    obtain c' where "record_failure cfg (at_failed_at a) network (circuit_for ?key others) = (c', Inr ())" using fail by blast
    then show ?thesis by (simp add: task allow Fail Let_def decisive_def reason_def IH others_def [symmetric])
  next
    case (Skip msg)
    then show ?thesis by (simp add: task allow Let_def decisive_def reason_def IH others_def [symmetric])
  next
    case (Stop msg)
    then show ?thesis by (simp add: task allow Let_def decisive_def reason_def finish_def)
  next
    case (Accept v)
    then show ?thesis
      using assms(1) by (simp add: task allow Let_def decisive_def reason_def IH others_def [symmetric])
  qed
qed

text \<open>
  The reference for the search, written without the loop's own helpers: what a provider's
  outcome gives as the reason to move on to the next provider, \<^verbatim>\<open>None\<close> when the search ends
  there (a usable value, or a busy provider).
\<close>

definition payload_kind :: "payload \<Rightarrow> capability option" where
  "payload_kind v =
     (case v of QuoteValue _ \<Rightarrow> Some QUOTE | HistoryValue _ \<Rightarrow> Some HISTORY | DividendValue _ \<Rightarrow> Some DIVIDEND
      | YieldValue _ \<Rightarrow> Some YIELD | OtherValue \<Rightarrow> None)"

definition passed_over :: "string \<Rightarrow> capability \<Rightarrow> call_outcome \<Rightarrow> string option" where
  "passed_over symbol cap outcome =
     (case outcome of
        TimedOut \<Rightarrow> Some ''timeout''
      | OtherException name \<Rightarrow> Some name
      | ErrorRaised e msg \<Rightarrow> if e = ProviderBusy then None else Some msg
      | Returned v \<Rightarrow>
          if payload_for symbol cap v then None
          else if cap = DIVIDEND \<and> v = DividendValue None then Some ''no_data''
          else if payload_kind v = Some cap then Some (capability_value cap @ '' response symbol mismatch'')
          else Some (''invalid '' @ capability_value cap @ '' response type''))"

lemma handle_passed_over:
  assumes "cap \<noteq> HISTORY" and "passed_over symbol cap outcome = Some msg"
  shows "\<not> decisive symbol cap outcome \<and> reason symbol cap outcome = msg"
proof (cases outcome)
  case (Returned v)
  with assms show ?thesis
    by (cases v; cases cap)
      (auto simp: passed_over_def payload_for_def payload_kind_def decisive_def reason_def settle_def handle_def
        invalid_identity_def no_data_def is_instance_def split: if_splits option.splits)
qed (use assms in \<open>auto simp: passed_over_def decisive_def reason_def settle_def handle_def split: if_splits\<close>)

lemma chain_result_usable:
  assumes "cap \<noteq> HISTORY" and "payload_for symbol cap v"
  shows "chain_result symbol cap ((level, name, Returned v) # rest) attempts = Inr (attach_fallback v level)"
  using assms
  by (cases v; cases cap)
    (auto simp: payload_for_def decisive_def settle_def handle_def invalid_identity_def no_data_def split: option.splits)

lemma chain_result_busy:
  "chain_result symbol cap ((level, name, ErrorRaised ProviderBusy msg) # rest) attempts =
     Inl (AllFailed (attempts @ [(name, msg)]))"
  by (simp add: decisive_def reason_def settle_def handle_def)

lemma chain_result_passed:
  assumes "cap \<noteq> HISTORY" and "\<forall>(l, n, outcome) \<in> set xs. passed_over symbol cap outcome \<noteq> None"
  shows "chain_result symbol cap (xs @ ys) attempts =
    chain_result symbol cap ys (attempts @ map (\<lambda>(l, n, outcome). (n, the (passed_over symbol cap outcome))) xs)"
  using assms(2)
proof (induction xs arbitrary: attempts)
  case (Cons x xs)
  obtain l n outcome where x: "x = (l, n, outcome)" by (cases x)
  with Cons.prems obtain msg where msg: "passed_over symbol cap outcome = Some msg" by auto
  from Cons show ?case using handle_passed_over [OF assms(1) msg] by (simp add: x msg)
qed simp

text \<open>The reasons of the first \<open>n\<close> providers of a chain, in order.\<close>

definition reasons_before ::
  "string \<Rightarrow> capability \<Rightarrow> provider list \<Rightarrow> (nat \<Rightarrow> attempt) \<Rightarrow> nat \<Rightarrow> (string \<times> string) list" where
  "reasons_before symbol cap chain world n =
     map (\<lambda>i. (pv_name (chain ! i), the (passed_over symbol cap (at_outcome (world i))))) [0..<n]"

lemma chain_result_prefix:
  assumes "cap \<noteq> HISTORY" and "i \<le> n" and "\<forall>j < i. passed_over symbol cap (at_outcome (world j)) \<noteq> None"
  shows "chain_result symbol cap (map (\<lambda>i. (i, pv_name (chain ! i), at_outcome (world i))) [0..<n]) [] =
    chain_result symbol cap (map (\<lambda>i. (i, pv_name (chain ! i), at_outcome (world i))) [i..<n])
      (reasons_before symbol cap chain world i)"
proof -
  have "[0..<n] = [0..<i] @ [i..<n]" using assms(2) upt_add_eq_append [of 0 i "n - i"] by simp
  then show ?thesis
    using chain_result_passed [OF assms(1), of "map (\<lambda>i. (i, pv_name (chain ! i), at_outcome (world i))) [0..<i]"]
      assms(3) by (simp add: reasons_before_def comp_def)
qed

lemma dispatch_chain_result:
  assumes "cap \<noteq> HISTORY" and "dict_get (rt_routes r) (symbol, cap) = Some chain" and "chain \<noteq> []"
    and "distinct (map pv_id chain)" and "\<forall>i < length chain. calm (map (\<lambda>p. (pv_id p, symbol, cap)) chain) (world i)"
    and "closed_at ((\<lambda>p. (pv_id p, symbol, cap)) ` set chain) (rt_circuits r)"
  shows "snd (dispatch cfg args symbol cap world r) =
    chain_result symbol cap (map (\<lambda>i. (i, pv_name (chain ! i), at_outcome (world i))) [0..<length chain]) []"
proof -
  let ?tasks = "map (\<lambda>(i, p). (i, p, world i)) (enumerate 0 chain)"
  have keys: "task_keys symbol cap ?tasks = map (\<lambda>p. (pv_id p, symbol, cap)) chain"
    by (rule nth_equalityI) (auto simp: task_keys_def nth_enumerate_eq)
  have view: "task_view ?tasks = map (\<lambda>i. (i, pv_name (chain ! i), at_outcome (world i))) [0..<length chain]"
    by (rule nth_equalityI) (auto simp: task_view_def nth_enumerate_eq)
  have "distinct (task_keys symbol cap ?tasks)"
    unfolding keys using assms(4) by (simp add: distinct_map inj_on_def)
  moreover have "\<forall>(l, p, a) \<in> set ?tasks. calm (map (\<lambda>p. (pv_id p, symbol, cap)) chain) a"
    using assms(5) by (auto simp: in_set_enumerate_eq)
  ultimately show ?thesis
    using dispatch_loop_closed [OF assms(1), of symbol ?tasks "map (\<lambda>p. (pv_id p, symbol, cap)) chain" r cfg args "[]"]
      assms(2,3,6) by (simp add: dispatch_def keys view)
qed

text \<open>
  C8. Fallback order of a quote, dividend or yield request (history requests, whose
  segments are merged, are excluded), while the circuits of the chain are closed, other
  tasks keep them closed, and the providers of the chain are distinct objects. The first
  provider in preference order that returns usable data for the symbol, all before it
  having been passed over (timeout, error, unsupported instrument, wrong type, wrong
  symbol, no dividend), gives the answer, and its position becomes the fallback level of a
  quote or a yield unless the level it carries is higher; a busy provider met before any
  usable answer ends the search with the reasons collected so far and its own; and when
  every provider is passed over the error lists all of them with their reasons, in order.
\<close>

theorem dispatch_first_usable:
  assumes "cap \<noteq> HISTORY" and "dict_get (rt_routes r) (symbol, cap) = Some chain" and "chain \<noteq> []"
    and "distinct (map pv_id chain)" and "\<forall>i < length chain. calm (map (\<lambda>p. (pv_id p, symbol, cap)) chain) (world i)"
    and "closed_at ((\<lambda>p. (pv_id p, symbol, cap)) ` set chain) (rt_circuits r)"
  shows "(\<forall>i < length chain. \<forall>v. (\<forall>j < i. passed_over symbol cap (at_outcome (world j)) \<noteq> None)
        \<longrightarrow> at_outcome (world i) = Returned v \<longrightarrow> payload_for symbol cap v
        \<longrightarrow> snd (dispatch cfg args symbol cap world r) =
              Inr (case v of
                     QuoteValue q \<Rightarrow> QuoteValue (q\<lparr>pq_fallback_level := max (pq_fallback_level q) (int i)\<rparr>)
                   | YieldValue y \<Rightarrow> YieldValue (y\<lparr>ym_fallback_level := max (ym_fallback_level y) (int i)\<rparr>)
                   | other \<Rightarrow> other))
    \<and> (\<forall>i < length chain. \<forall>msg. (\<forall>j < i. passed_over symbol cap (at_outcome (world j)) \<noteq> None)
        \<longrightarrow> at_outcome (world i) = ErrorRaised ProviderBusy msg
        \<longrightarrow> snd (dispatch cfg args symbol cap world r) =
              Inl (AllFailed (reasons_before symbol cap chain world i @ [(pv_name (chain ! i), msg)])))
    \<and> ((\<forall>j < length chain. passed_over symbol cap (at_outcome (world j)) \<noteq> None)
        \<longrightarrow> snd (dispatch cfg args symbol cap world r) =
              Inl (AllFailed (reasons_before symbol cap chain world (length chain))))"
proof (intro conjI allI impI)
  note result = dispatch_chain_result [OF assms, of cfg args]
  note upto = chain_result_prefix [OF assms(1), where n = "length chain" and chain = chain]
  fix i v assume "i < length chain" "\<forall>j < i. passed_over symbol cap (at_outcome (world j)) \<noteq> None"
    "at_outcome (world i) = Returned v" "payload_for symbol cap v"
  then show "snd (dispatch cfg args symbol cap world r) =
      Inr (case v of
             QuoteValue q \<Rightarrow> QuoteValue (q\<lparr>pq_fallback_level := max (pq_fallback_level q) (int i)\<rparr>)
           | YieldValue y \<Rightarrow> YieldValue (y\<lparr>ym_fallback_level := max (ym_fallback_level y) (int i)\<rparr>)
           | other \<Rightarrow> other)"
    using upto [of i symbol world] chain_result_usable [OF assms(1)]
    by (simp add: result upt_conv_Cons attach_fallback_def split: payload.splits)
next
  fix i msg assume "i < length chain" "\<forall>j < i. passed_over symbol cap (at_outcome (world j)) \<noteq> None"
    "at_outcome (world i) = ErrorRaised ProviderBusy msg"
  then show "snd (dispatch cfg args symbol cap world r) =
      Inl (AllFailed (reasons_before symbol cap chain world i @ [(pv_name (chain ! i), msg)]))"
    using chain_result_prefix [OF assms(1), of i "length chain" symbol world chain]
    by (simp add: dispatch_chain_result [OF assms] upt_conv_Cons chain_result_busy del: chain_result.simps)
next
  assume "\<forall>j < length chain. passed_over symbol cap (at_outcome (world j)) \<noteq> None"
  then show "snd (dispatch cfg args symbol cap world r) =
      Inl (AllFailed (reasons_before symbol cap chain world (length chain)))"
    using chain_result_prefix [OF assms(1), of "length chain" "length chain" symbol world chain]
    by (simp add: dispatch_chain_result [OF assms])
qed

text \<open>A quote chain whose first provider times out and whose second, itself a fallback of level 0, answers.\<close>

definition sample_quote :: provider_quote where
  "sample_quote = \<lparr>pq_symbol = ''BTC'', pq_price = 100, pq_as_of = 5, pq_provider = ''p'', pq_feed = ''f'',
     pq_price_basis = ''last'', pq_market_status = ''open'', pq_is_derived = False, pq_components = [],
     pq_fallback_level = 0, pq_license_scope = ''public'', pq_coverage = None, pq_market_status_as_of = None\<rparr>"

definition sample_quote_router :: router where
  "sample_quote_router = \<lparr>rt_routes = [((''BTC'', QUOTE), [sample_provider 1, sample_provider 2, sample_provider 3])],
     rt_circuits = [], rt_fallbacks = [], rt_selections = []\<rparr>"

definition sample_quote_world :: "nat \<Rightarrow> attempt" where
  "sample_quote_world i = \<lparr>at_now = 1, at_outcome = (if i = 0 then TimedOut else Returned (QuoteValue sample_quote)),
     at_other = id, at_failed_at = 2\<rparr>"

theorem dispatch_first_usable_witness:
  "snd (dispatch sample_config sample_args ''BTC'' QUOTE sample_quote_world sample_quote_router) =
     Inr (QuoteValue (sample_quote\<lparr>pq_fallback_level := 1\<rparr>))"
proof -
  let ?chain = "[sample_provider 1, sample_provider 2, sample_provider 3]"
  have "QUOTE \<noteq> HISTORY" "dict_get (rt_routes sample_quote_router) (''BTC'', QUOTE) = Some ?chain" "?chain \<noteq> []"
    "distinct (map pv_id ?chain)"
    "\<forall>i < length ?chain. calm (map (\<lambda>p. (pv_id p, ''BTC'', QUOTE)) ?chain) (sample_quote_world i)"
    "closed_at ((\<lambda>p. (pv_id p, ''BTC'', QUOTE)) ` set ?chain) (rt_circuits sample_quote_router)"
    by (simp_all add: sample_quote_router_def sample_provider_def closed_at_def circuit_for_def new_circuit_def
        calm_def sample_quote_world_def)
  note first = dispatch_first_usable [OF this, of sample_config sample_args, THEN conjunct1, rule_format, of 1 "QuoteValue sample_quote"]
  show ?thesis
    by (subst first) (simp_all add: sample_quote_world_def passed_over_def payload_for_def sample_quote_def)
qed

text \<open>
  Route replacement is transactional: when the new chain is refused, \<^verbatim>\<open>replace\<close> raises
  and every route reads as before; when it is accepted the route is the new chain and all
  others are untouched. Circuits and statistics never change.
\<close>

theorem router_replace_transactional:
  "(case router_replace symbol cap chain r of
      (r', Inl e) \<Rightarrow> (\<forall>k. dict_get (rt_routes r') k = dict_get (rt_routes r) k)
        \<and> (chain = [] \<or> (\<exists>p \<in> set chain. cap \<notin> set (pv_methods p)))
    | (r', Inr _) \<Rightarrow> chain \<noteq> []
        \<and> (\<forall>k. dict_get (rt_routes r') k = (if k = (normal_symbol symbol, cap) then Some chain else dict_get (rt_routes r) k)))
   \<and> rt_circuits (fst (router_replace symbol cap chain r)) = rt_circuits r
   \<and> rt_fallbacks (fst (router_replace symbol cap chain r)) = rt_fallbacks r"
proof -
  have "(normal_symbol symbol, cap) \<notin> set (dict_keys (dict_pop (normal_symbol symbol, cap) (rt_routes r)))"
    using dict_keys_pop [of "(normal_symbol symbol, cap)" "rt_routes r"] by simp
  then show ?thesis
    by (auto simp: router_replace_def router_register_def Let_def raise_if_def split: option.splits)
qed

end
