(* ===== verification/QP_Synthetic.thy ===== *)
theory QP_Synthetic
  imports QP_Router QP_History_Refs
begin

text \<open>
  \<^verbatim>\<open>quickprice/providers/synthetic.py\<close>: synthetic quotes (product, quotient, inverse) with
  component freshness checks, synthetic histories by a two-pointer merge, and the two
  providers built on them. The resolver a provider calls is a parameter: it answers with a
  value or an exception; when both legs fail, \<^verbatim>\<open>asyncio.gather\<close> raises whichever failed first
  and the model the left one. The injected clock reading is an argument.
\<close>

datatype synthetic_error =
  SyntheticComponentError string
| UnsupportedSymbol string
| ResolverRaised call_outcome
| ModelRaised py_error

type_synonym 'a synthetic_result = "synthetic_error + 'a"

definition from_model :: "'a result \<Rightarrow> 'a synthetic_result" where
  "from_model m = (case m of Inl e \<Rightarrow> Inl (ModelRaised e) | Inr x \<Rightarrow> Inr x)"

lemma from_model_Inr_iff [res_simps]: "from_model m = Inr x \<longleftrightarrow> m = Inr x"
  by (cases m) (auto simp: from_model_def)

subsection \<open>Quotes\<close>

definition future_tolerance :: duration where "future_tolerance = 5 * second"

definition validate_components ::
  "provider_quote \<Rightarrow> provider_quote \<Rightarrow> duration \<Rightarrow> instant \<Rightarrow> duration option \<Rightarrow> duration option \<Rightarrow>
   instant synthetic_result" where
  "validate_components left right max_skew now left_max_age right_max_age =
     raise_if (max_skew < 0) (ModelRaised (ValueError ''max_skew cannot be negative''))
     (raise_if (max_skew < \<bar>pq_as_of left - pq_as_of right\<bar>)
       (SyntheticComponentError ''component timestamps exceed maximum skew'')
     (raise_if (now + future_tolerance < pq_as_of left \<or> now + future_tolerance < pq_as_of right)
       (SyntheticComponentError ''component timestamp is in the future'')
     (raise_if (case left_max_age of None \<Rightarrow> False | Some a \<Rightarrow> a < now - pq_as_of left)
       (SyntheticComponentError ''left component is stale'')
     (raise_if (case right_max_age of None \<Rightarrow> False | Some a \<Rightarrow> a < now - pq_as_of right)
       (SyntheticComponentError ''right component is stale'')
     (Inr (min (pq_as_of left) (pq_as_of right)))))))"

definition cross_market_status :: "provider_quote \<Rightarrow> provider_quote \<Rightarrow> string" where
  "cross_market_status left right =
     (if pq_market_status left = pq_market_status right then pq_market_status left
      else if pq_market_status left = ''unknown'' \<or> pq_market_status right = ''unknown'' then ''unknown''
      else ''closed'')"

text \<open>\<^verbatim>\<open>child.role or 'component'\<close>: a missing or empty role reads \<^verbatim>\<open>component\<close>.\<close>

definition child_role :: "string \<Rightarrow> source_component \<Rightarrow> string" where
  "child_role role child =
     role @ ''_'' @ (case sc_role child of None \<Rightarrow> ''component'' | Some r \<Rightarrow> if r = [] then ''component'' else r)"

definition leg_components :: "provider_quote \<Rightarrow> string \<Rightarrow> source_component list result" where
  "leg_components item role =
     res_bind (mk_source_component (pq_symbol item) (pq_provider item) (NumFinite (pq_price item))
       (Aware (pq_as_of item)) (Some (pq_feed item)) (Some role)) (\<lambda>own.
     res_bind (res_map (\<lambda>child. mk_source_component (sc_symbol child) (sc_provider child)
       (NumFinite (sc_price child)) (Aware (sc_as_of child)) (sc_feed child) (Some (child_role role child)))
       (pq_components item)) (\<lambda>children. Inr (own # children)))"

definition synthetic_quote ::
  "string \<Rightarrow> provider_quote \<Rightarrow> provider_quote \<Rightarrow> string \<Rightarrow> duration \<Rightarrow> instant \<Rightarrow> duration option \<Rightarrow>
   duration option \<Rightarrow> string \<Rightarrow> provider_quote synthetic_result" where
  "synthetic_quote symbol left right operation max_skew now left_max_age right_max_age provider_name =
     res_bind (validate_components left right max_skew now left_max_age right_max_age) (\<lambda>as_of.
     case recipe_price operation (pq_price left) (pq_price right) of
       Inl _ \<Rightarrow> Inl (SyntheticComponentError ''invalid component arithmetic'')
     | Inr price \<Rightarrow>
       raise_if (price \<le> 0) (SyntheticComponentError ''synthetic price is not positive'')
       (let roles = (if operation = ''multiply'' then (''multiplicand'', ''multiplier'')
                     else (''numerator'', ''denominator''))
        in from_model
          (res_bind (leg_components left (fst roles)) (\<lambda>ls.
           res_bind (leg_components right (snd roles)) (\<lambda>rs.
           mk_provider_quote (normal_symbol symbol) (NumFinite price) (Aware as_of) provider_name
             (if pq_feed left = pq_feed right then pq_feed left else pq_feed left @ ''+'' @ pq_feed right)
             (''synthetic_'' @ operation) (cross_market_status left right) True (ls @ rs)
             (max (pq_fallback_level left) (pq_fallback_level right))
             (if pq_license_scope left = pq_license_scope right then pq_license_scope left
              else ''most_restrictive_component_terms'')
             (Some ''derived_from_components'') None)))))"

definition synthesize_multiplication where
  "synthesize_multiplication symbol left right max_skew now left_max_age right_max_age provider_name =
     synthetic_quote symbol left right ''multiply'' max_skew now left_max_age right_max_age provider_name"

definition synthesize_division where
  "synthesize_division symbol numerator denominator max_skew now numerator_max_age denominator_max_age provider_name =
     synthetic_quote symbol numerator denominator ''divide'' max_skew now numerator_max_age denominator_max_age
       provider_name"

definition synthesize_inverse ::
  "string \<Rightarrow> provider_quote \<Rightarrow> instant \<Rightarrow> duration option \<Rightarrow> string \<Rightarrow> provider_quote synthetic_result" where
  "synthesize_inverse symbol source now maximum_age provider_name =
     raise_if (now + future_tolerance < pq_as_of source)
       (SyntheticComponentError ''component timestamp is in the future'')
     (raise_if (case maximum_age of None \<Rightarrow> False | Some a \<Rightarrow> a < now - pq_as_of source)
       (SyntheticComponentError ''component is stale'')
     (case dec_div 1 (pq_price source) of
        Inl _ \<Rightarrow> Inl (SyntheticComponentError ''invalid component arithmetic'')
      | Inr price \<Rightarrow>
        raise_if (price \<le> 0) (SyntheticComponentError ''synthetic price is not positive'')
        (from_model
          (res_bind (leg_components source ''denominator'') (\<lambda>components.
           mk_provider_quote (normal_symbol symbol) (NumFinite price) (Aware (pq_as_of source)) provider_name
             (pq_feed source) ''synthetic_inverse'' (pq_market_status source) True components
             (pq_fallback_level source) (pq_license_scope source) (Some ''derived_from_components'') None)))))"

subsection \<open>Recipes and the quote provider\<close>

record quote_recipe =
  qr_symbol :: string
  qr_left_symbol :: string
  qr_right_symbol :: string
  qr_operation :: string
  qr_max_skew :: duration
  qr_left_max_age :: "duration option"
  qr_right_max_age :: "duration option"
  qr_provider_name :: string

text \<open>\<^verbatim>\<open>{recipe.symbol.strip().upper(): recipe for recipe in values}\<close>: a later recipe wins.\<close>

definition index_recipes :: "quote_recipe list \<Rightarrow> (string, quote_recipe) dict" where
  "index_recipes recipes = fold (\<lambda>r d. dict_set (normal_symbol (qr_symbol r)) r d) recipes []"

definition synthetic_get_quote ::
  "(string, quote_recipe) dict \<Rightarrow> (string \<Rightarrow> call_outcome + provider_quote) \<Rightarrow> instant \<Rightarrow> string \<Rightarrow>
   provider_quote synthetic_result" where
  "synthetic_get_quote recipes resolver now symbol =
     (let normalized = normal_symbol symbol;
          resolve = (\<lambda>s. case resolver s of Inl e \<Rightarrow> Inl (ResolverRaised e) | Inr q \<Rightarrow> Inr q)
      in case dict_get recipes normalized of
           None \<Rightarrow> Inl (UnsupportedSymbol ''unsupported symbol '')
         | Some recipe \<Rightarrow>
             if qr_operation recipe = ''inverse'' then
               res_bind (resolve (qr_left_symbol recipe)) (\<lambda>source.
                 synthesize_inverse normalized source now (qr_left_max_age recipe) (qr_provider_name recipe))
             else
               res_bind (resolve (qr_left_symbol recipe)) (\<lambda>left.
               res_bind (resolve (qr_right_symbol recipe)) (\<lambda>right.
                 if qr_operation recipe = ''multiply'' then
                   synthesize_multiplication normalized left right (qr_max_skew recipe) now
                     (qr_left_max_age recipe) (qr_right_max_age recipe) (qr_provider_name recipe)
                 else
                   synthesize_division normalized left right (qr_max_skew recipe) now
                     (qr_left_max_age recipe) (qr_right_max_age recipe) (qr_provider_name recipe))))"

subsection \<open>History\<close>

fun inverse_history :: "quote_recipe \<Rightarrow> string \<Rightarrow> price_point list \<Rightarrow> price_point list result" where
  "inverse_history recipe interval [] = Inr []"
| "inverse_history recipe interval (source # rest) =
     (case dec_div 1 (pp_price source) of
        Inl _ \<Rightarrow> inverse_history recipe interval rest
      | Inr price \<Rightarrow>
          if price \<le> 0 then inverse_history recipe interval rest
          else res_bind (mk_price_point (qr_symbol recipe) (Aware (pp_timestamp source)) (NumFinite price)
                 (qr_provider_name recipe) True interval) (\<lambda>p.
               res_bind (inverse_history recipe interval rest) (\<lambda>ps. Inr (p # ps))))"

text \<open>The two-pointer loop: \<^verbatim>\<open>rights\<close> is what lies beyond \<^verbatim>\<open>right_index\<close>.\<close>

fun pair_history ::
  "quote_recipe \<Rightarrow> string \<Rightarrow> price_point list \<Rightarrow> price_point list \<Rightarrow> price_point option \<Rightarrow> price_point list result" where
  "pair_history recipe interval [] rights last_right = Inr []"
| "pair_history recipe interval (left # rest) rights last_right =
     (let taken = takeWhile (\<lambda>r. pp_timestamp r \<le> pp_timestamp left) rights;
          rights' = dropWhile (\<lambda>r. pp_timestamp r \<le> pp_timestamp left) rights;
          last_right' = (if taken = [] then last_right else Some (last taken))
      in case last_right' of
           None \<Rightarrow> pair_history recipe interval rest rights' last_right'
         | Some right \<Rightarrow>
             if qr_max_skew recipe < pp_timestamp left - pp_timestamp right
             then pair_history recipe interval rest rights' last_right'
             else (case recipe_price (qr_operation recipe) (pp_price left) (pp_price right) of
                     Inl _ \<Rightarrow> pair_history recipe interval rest rights' last_right'
                   | Inr price \<Rightarrow>
                       if price \<le> 0 then pair_history recipe interval rest rights' last_right'
                       else res_bind (mk_price_point (qr_symbol recipe) (Aware (pp_timestamp left)) (NumFinite price)
                              (qr_provider_name recipe) True interval) (\<lambda>p.
                            res_bind (pair_history recipe interval rest rights' last_right') (\<lambda>ps. Inr (p # ps)))))"

text \<open>\<^verbatim>\<open>result[-max(0, limit):]\<close>; a slice from \<^verbatim>\<open>-0\<close> is the whole list.\<close>

definition last_slice :: "int option \<Rightarrow> 'a list \<Rightarrow> 'a list" where
  "last_slice limit xs =
     (case limit of None \<Rightarrow> xs
      | Some n \<Rightarrow> (let k = nat (max 0 n) in if k = 0 then xs else drop (length xs - k) xs))"

definition synthesize_history ::
  "quote_recipe \<Rightarrow> price_point list \<Rightarrow> price_point list \<Rightarrow> string \<Rightarrow> int option \<Rightarrow> price_point list result" where
  "synthesize_history recipe left_points right_points interval limit =
     (let left_ordered = sort_key pp_timestamp left_points in
      res_bind
        (if qr_operation recipe = ''inverse'' then inverse_history recipe interval left_ordered
         else pair_history recipe interval left_ordered (sort_key pp_timestamp right_points) None)
        (\<lambda>result. Inr (last_slice limit result)))"

text \<open>
  The resolver of \<^verbatim>\<open>SyntheticHistoryProvider\<close> gets symbol, interval, start, end and limit; the
  right leg starts earlier by the maximum skew and asks for one more point.
\<close>

definition synthetic_get_history ::
  "(string, quote_recipe) dict \<Rightarrow>
   (string \<Rightarrow> string \<Rightarrow> instant \<Rightarrow> instant \<Rightarrow> int option \<Rightarrow> call_outcome + price_point list) \<Rightarrow>
   string \<Rightarrow> string \<Rightarrow> instant \<Rightarrow> instant \<Rightarrow> int option \<Rightarrow> price_point list synthetic_result" where
  "synthetic_get_history recipes resolver symbol interval start end_at limit =
     (let resolve = (\<lambda>s i a b n. case resolver s i a b n of Inl e \<Rightarrow> Inl (ResolverRaised e) | Inr ps \<Rightarrow> Inr ps)
      in case dict_get recipes (normal_symbol symbol) of
           None \<Rightarrow> Inl (UnsupportedSymbol ''unsupported symbol '')
         | Some recipe \<Rightarrow>
             res_bind (resolve (qr_left_symbol recipe) interval start end_at limit) (\<lambda>left_points.
             res_bind (if qr_operation recipe = ''inverse'' then Inr []
                       else resolve (qr_right_symbol recipe) interval (start - qr_max_skew recipe) end_at
                              (map_option (\<lambda>n. n + 1) limit)) (\<lambda>right_points.
             res_bind (from_model (synthesize_history recipe left_points right_points interval limit)) (\<lambda>result.
             raise_if (left_points \<noteq> [] \<and> (right_points \<noteq> [] \<or> qr_operation recipe = ''inverse'') \<and> result = [])
               (SyntheticComponentError ''historical component timestamps have no valid overlap'')
               (Inr result)))))"

subsection \<open>A reference definition of synthetic history\<close>

text \<open>One left point: paired with the latest right point at or before it.\<close>

definition synthetic_point ::
  "string \<Rightarrow> string \<Rightarrow> duration \<Rightarrow> string \<Rightarrow> string \<Rightarrow> price_point list \<Rightarrow> price_point \<Rightarrow> price_point option result" where
  "synthetic_point symbol operation max_skew provider interval rights left =
     (let build = (\<lambda>priced. case priced of
          Inl _ \<Rightarrow> Inr None
        | Inr price \<Rightarrow> if price \<le> 0 then Inr None
            else res_bind (mk_price_point symbol (Aware (pp_timestamp left)) (NumFinite price) provider True interval)
                   (\<lambda>p. Inr (Some p)))
      in if operation = ''inverse'' then build (dec_div 1 (pp_price left))
         else (case find_last (\<lambda>r. pp_timestamp r \<le> pp_timestamp left) rights of
                 None \<Rightarrow> Inr None
               | Some right \<Rightarrow>
                   if max_skew < pp_timestamp left - pp_timestamp right then Inr None
                   else build (recipe_price operation (pp_price left) (pp_price right))))"

fun collect :: "('a \<Rightarrow> 'b option result) \<Rightarrow> 'a list \<Rightarrow> 'b list result" where
  "collect f [] = Inr []"
| "collect f (x # xs) = res_bind (f x) (\<lambda>y. res_bind (collect f xs) (\<lambda>ys. Inr (case y of None \<Rightarrow> ys | Some z \<Rightarrow> z # ys)))"

lemma takeWhile_dropWhile_sorted:
  assumes "sorted_on f xs"
  shows "dropWhile (\<lambda>x. f x \<le> c) xs = filter (\<lambda>x. c < f x) xs"
    and "takeWhile (\<lambda>x. f x \<le> c) xs = filter (\<lambda>x. f x \<le> c) xs"
  using assms by (induction xs) (auto simp: not_le intro!: filter_True [symmetric] filter_False [symmetric] dest: less_le_trans)

lemma pair_history_reference:
  assumes "sorted_on pp_timestamp (done @ todo)" and "sorted_on pp_timestamp lefts"
    and "\<forall>r \<in> set done. \<forall>l \<in> set lefts. pp_timestamp r \<le> pp_timestamp l"
    and "qr_operation recipe \<noteq> ''inverse''"
  shows "pair_history recipe interval lefts todo (last_opt done) =
    collect (synthetic_point (qr_symbol recipe) (qr_operation recipe) (qr_max_skew recipe) (qr_provider_name recipe)
      interval (done @ todo)) lefts"
  using assms(1-3)
proof (induction lefts arbitrary: "done" todo)
  case Nil
  then show ?case by simp
next
  case (Cons left rest)
  let ?c = "pp_timestamp left"
  define taken where "taken = takeWhile (\<lambda>r. pp_timestamp r \<le> ?c) todo"
  define later where "later = dropWhile (\<lambda>r. pp_timestamp r \<le> ?c) todo"
  have split: "done @ todo = (done @ taken) @ later" by (simp add: taken_def later_def)
  have todo: "sorted_on pp_timestamp todo" using Cons.prems(1) by (simp add: sorted_append)
  have last': "(if taken = [] then last_opt done else Some (last taken)) = last_opt (done @ taken)" by auto
  have gone: "\<forall>r \<in> set (done @ taken). pp_timestamp r \<le> ?c"
    using Cons.prems(3) by (auto simp: taken_def dest: set_takeWhileD)
  have beyond: "\<forall>r \<in> set later. \<not> pp_timestamp r \<le> ?c"
    by (simp add: later_def takeWhile_dropWhile_sorted(1) [OF todo])
  have found: "find_last (\<lambda>r. pp_timestamp r \<le> ?c) (done @ todo) = last_opt (done @ taken)"
  proof -
    have "find_last (\<lambda>r. pp_timestamp r \<le> ?c) later = None" using beyond by (simp add: find_last_None_iff)
    moreover have "find_last (\<lambda>r. pp_timestamp r \<le> ?c) (done @ taken) = last_opt (done @ taken)"
      using gone by (simp add: find_last_visible visible_def)
    ultimately show ?thesis unfolding split by (subst find_last_append) simp
  qed
  have IH: "pair_history recipe interval rest later (last_opt (done @ taken)) =
      collect (synthetic_point (qr_symbol recipe) (qr_operation recipe) (qr_max_skew recipe) (qr_provider_name recipe)
        interval (done @ todo)) rest"
    unfolding split
  proof (rule Cons.IH)
    show "sorted_on pp_timestamp ((done @ taken) @ later)" using Cons.prems(1) split by simp
    show "sorted_on pp_timestamp rest" using Cons.prems(2) by simp
    show "\<forall>r \<in> set (done @ taken). \<forall>l \<in> set rest. pp_timestamp r \<le> pp_timestamp l"
      using gone Cons.prems(2) by fastforce
  qed
  have run: "pair_history recipe interval (left # rest) todo (last_opt done) =
     (case last_opt (done @ taken) of
           None \<Rightarrow> pair_history recipe interval rest later (last_opt (done @ taken))
         | Some right \<Rightarrow>
             if qr_max_skew recipe < ?c - pp_timestamp right
             then pair_history recipe interval rest later (last_opt (done @ taken))
             else (case recipe_price (qr_operation recipe) (pp_price left) (pp_price right) of
                     Inl _ \<Rightarrow> pair_history recipe interval rest later (last_opt (done @ taken))
                   | Inr price \<Rightarrow>
                       if price \<le> 0 then pair_history recipe interval rest later (last_opt (done @ taken))
                       else res_bind (mk_price_point (qr_symbol recipe) (Aware ?c) (NumFinite price)
                              (qr_provider_name recipe) True interval) (\<lambda>p.
                            res_bind (pair_history recipe interval rest later (last_opt (done @ taken))) (\<lambda>ps. Inr (p # ps)))))"
    unfolding pair_history.simps(2) Let_def taken_def [symmetric] later_def [symmetric] last' ..
  have same: "res_bind m (\<lambda>ys. Inr ys) = m" for m :: "price_point list result" by (cases m) simp_all
  show ?case
    unfolding run IH collect.simps synthetic_point_def Let_def if_not_P [OF assms(4)] found
    by (simp add: res_bind_def split: option.splits sum.splits)
qed

lemma inverse_history_reference:
  assumes "qr_operation recipe = ''inverse''"
  shows "inverse_history recipe interval lefts =
    collect (synthetic_point (qr_symbol recipe) (qr_operation recipe) (qr_max_skew recipe) (qr_provider_name recipe)
      interval rights) lefts"
  by (induction lefts) (auto simp: synthetic_point_def assms Let_def res_bind_def split: sum.splits)

lemma synthesize_history_reference:
  "synthesize_history recipe ls rs interval limit =
     res_bind (collect (synthetic_point (qr_symbol recipe) (qr_operation recipe) (qr_max_skew recipe)
       (qr_provider_name recipe) interval (sort_key pp_timestamp rs)) (sort_key pp_timestamp ls))
       (\<lambda>result. Inr (last_slice limit result))"
  using pair_history_reference [of "[]" "sort_key pp_timestamp rs" "sort_key pp_timestamp ls" recipe interval]
    inverse_history_reference [of recipe interval "sort_key pp_timestamp ls" "sort_key pp_timestamp rs"]
  by (cases "qr_operation recipe = ''inverse''") (simp_all add: synthesize_history_def Let_def)

lemma collect_Inr:
  "collect f xs = Inr ys \<longleftrightarrow>
     (\<forall>x \<in> set xs. \<exists>y. f x = Inr y) \<and> ys = List.map_filter (\<lambda>x. case f x of Inr y \<Rightarrow> y | Inl _ \<Rightarrow> None) xs"
proof (induction xs arbitrary: ys)
  case Nil
  then show ?case by (auto simp: List.map_filter_def)
next
  case (Cons x xs)
  show ?case
  proof (cases "f x")
    case (Inl e)
    then show ?thesis by simp
  next
    case (Inr y)
    then show ?thesis
      using Cons.IH by (auto simp: res_bind_Inr_iff map_filter_simps split: option.splits)
  qed
qed

lemma synthetic_point_stamp:
  "synthetic_point symbol op skew prov interval rights left = Inr (Some p) \<Longrightarrow> pp_timestamp p = pp_timestamp left"
  by (auto simp: synthetic_point_def Let_def res_simps split: if_splits option.splits sum.splits)

lemma map_filter_visible:
  assumes "\<And>x y. g x = Some y \<Longrightarrow> pp_timestamp y = pp_timestamp x"
  shows "visible c (List.map_filter g xs) = List.map_filter g (visible c xs)"
  using assms by (induction xs) (auto simp: visible_def map_filter_simps split: option.splits)

subsection \<open>The cache's virtual history is this history\<close>

fun first_some :: "('a \<Rightarrow> 'b option result) \<Rightarrow> 'a list \<Rightarrow> 'b option result" where
  "first_some f [] = Inr None"
| "first_some f (x # xs) = res_bind (f x) (\<lambda>y. case y of None \<Rightarrow> first_some f xs | Some z \<Rightarrow> Inr (Some z))"

lemma first_some_rev:
  assumes "\<forall>x \<in> set xs. \<exists>y. f x = Inr y"
  shows "first_some f (rev xs) = Inr (last_opt (List.map_filter (\<lambda>x. case f x of Inr y \<Rightarrow> y | Inl _ \<Rightarrow> None) xs))"
  using assms
proof (induction xs rule: rev_induct)
  case Nil
  then show ?case by (simp add: List.map_filter_def)
next
  case (snoc x xs)
  then obtain y where y: "f x = Inr y" by auto
  have split: "List.map_filter h (xs @ [x]) = List.map_filter h xs @ (case h x of None \<Rightarrow> [] | Some z \<Rightarrow> [z])" for h
    by (simp add: List.map_filter_def split: option.splits)
  show ?case using snoc y by (cases y) (auto simp: split)
qed

lemma inverse_reference_first:
  assumes "sr_operation recipe = ''inverse''"
  shows "inverse_reference symbol recipe interval lefts =
    first_some (synthetic_point symbol (sr_operation recipe) (sr_max_skew recipe) (sr_provider recipe) interval rights) lefts"
  by (induction lefts) (auto simp: synthetic_point_def assms Let_def res_bind_def split: sum.splits)

lemma first_some_none: "(\<And>x. x \<in> set xs \<Longrightarrow> f x = Inr None) \<Longrightarrow> first_some f xs = Inr None"
  by (induction xs) auto

lemma hd_dropWhile_find_last:
  "(case dropWhile (\<lambda>r. c < pp_timestamp r) (rev rights) of [] \<Rightarrow> None | r # _ \<Rightarrow> Some r) =
     find_last (\<lambda>r. pp_timestamp r \<le> c) rights"
  by (induction rights rule: rev_induct) auto

lemma pair_reference_first:
  assumes "sr_operation recipe \<noteq> ''inverse''" and "strict_on pp_timestamp rights" and "strict_on pp_timestamp (rev lefts)"
    and "rest = dropWhile (\<lambda>r. c < pp_timestamp r) (rev rights)" and "\<forall>l \<in> set lefts. pp_timestamp l \<le> c"
  shows "pair_reference symbol recipe interval lefts rest =
    first_some (synthetic_point symbol (sr_operation recipe) (sr_max_skew recipe) (sr_provider recipe) interval rights) lefts"
  using assms(3-)
proof (induction lefts arbitrary: rest c)
  case Nil
  then show ?case by simp
next
  case (Cons left lefts)
  let ?t = "pp_timestamp left"
  have drop: "dropWhile (\<lambda>r. ?t < pp_timestamp r) rest = dropWhile (\<lambda>r. ?t < pp_timestamp r) (rev rights)"
    (is "_ = ?rest'")
  proof -
    have "?t \<le> c" using Cons.prems(3) by simp
    then have "dropWhile (\<lambda>r. ?t < pp_timestamp r) (dropWhile (\<lambda>r. c < pp_timestamp r) xs) =
        dropWhile (\<lambda>r. ?t < pp_timestamp r) xs" for xs by (induction xs) auto
    then show ?thesis unfolding Cons.prems(2) .
  qed
  have older: "\<forall>l \<in> set lefts. pp_timestamp l \<le> ?t"
    using Cons.prems(1) by (auto simp: sorted_wrt_append intro: less_imp_le)
  have IH: "pair_reference symbol recipe interval lefts ?rest' =
      first_some (synthetic_point symbol (sr_operation recipe) (sr_max_skew recipe) (sr_provider recipe) interval rights) lefts"
    using Cons.prems(1) older by (intro Cons.IH [of ?rest' ?t]) (auto simp: sorted_wrt_append)
  have found: "find_last (\<lambda>r. pp_timestamp r \<le> ?t) rights = (case ?rest' of [] \<Rightarrow> None | r # _ \<Rightarrow> Some r)"
    by (rule hd_dropWhile_find_last [symmetric])
  show ?case
  proof (cases ?rest')
    case Nil
    have "find_last (\<lambda>r. pp_timestamp r \<le> pp_timestamp l) rights = None" if "l \<in> set (left # lefts)" for l
    proof -
      have "pp_timestamp l \<le> ?t" using that older by auto
      moreover have "\<forall>r \<in> set rights. \<not> pp_timestamp r \<le> ?t" using found Nil by (simp add: find_last_None_iff)
      ultimately show ?thesis by (auto simp: find_last_None_iff)
    qed
    then have "first_some (synthetic_point symbol (sr_operation recipe) (sr_max_skew recipe) (sr_provider recipe) interval rights)
        (left # lefts) = Inr None"
      using assms(1) by (intro first_some_none) (simp add: synthetic_point_def Let_def)
    then show ?thesis by (simp only: pair_reference.simps drop Nil Let_def list.case)
  next
    case (Cons right more)
    have run: "pair_reference symbol recipe interval (left # lefts) rest =
       (if sr_max_skew recipe < ?t - pp_timestamp right then pair_reference symbol recipe interval lefts ?rest'
        else (case recipe_price (sr_operation recipe) (pp_price left) (pp_price right) of
                Inl _ \<Rightarrow> pair_reference symbol recipe interval lefts ?rest'
              | Inr price \<Rightarrow> if price \<le> 0 then pair_reference symbol recipe interval lefts ?rest'
                  else res_bind (mk_price_point symbol (Aware ?t) (NumFinite price) (sr_provider recipe) True interval)
                         (\<lambda>p. Inr (Some p))))"
      by (simp only: pair_reference.simps drop Let_def Cons list.case)
    show ?thesis
      unfolding run IH first_some.simps
      using assms(1) Cons by (simp add: synthetic_point_def Let_def found res_bind_def split: sum.splits)
  qed
qed

lemma synthetic_of_first:
  assumes "strict_on pp_timestamp lefts" and "strict_on pp_timestamp rights"
  shows "synthetic_of symbol recipe interval (visible c lefts) (visible c rights) =
    first_some (synthetic_point symbol (sr_operation recipe) (sr_max_skew recipe) (sr_provider recipe) interval rights)
      (rev (visible c lefts))"
proof (cases "sr_operation recipe = ''inverse''")
  case True
  show ?thesis unfolding synthetic_of_def inverse_reference_first [OF True, where rights = rights] by (simp add: True)
next
  case False
  have "pair_reference symbol recipe interval (rev (visible c lefts)) (rev (visible c rights)) =
      first_some (synthetic_point symbol (sr_operation recipe) (sr_max_skew recipe) (sr_provider recipe) interval rights)
        (rev (visible c lefts))"
  proof (rule pair_reference_first [OF False assms(2)])
    show "rev (visible c rights) = dropWhile (\<lambda>r. c < pp_timestamp r) (rev rights)"
      by (rule dropWhile_rev_visible [OF assms(2), symmetric])
  qed (use assms(1) in \<open>auto simp: visible_def strict_on_filter\<close>)
  then show ?thesis by (simp add: synthetic_of_def False)
qed

definition provider_recipe :: "string \<Rightarrow> synthetic_recipe \<Rightarrow> quote_recipe" where
  "provider_recipe symbol r = \<lparr>qr_symbol = symbol, qr_left_symbol = sr_inputs r ! 0, qr_right_symbol = sr_inputs r ! 1,
     qr_operation = sr_operation r, qr_max_skew = sr_max_skew r, qr_left_max_age = None, qr_right_max_age = None,
     qr_provider_name = sr_provider r\<rparr>"

lemma virtual_reference:
  assumes "rings_ok step rings"
    and "synthesize_history (provider_recipe symbol r) (dict_list rings (sr_inputs r ! 0)) (dict_list rings (sr_inputs r ! 1))
      interval None = Inr points"
  shows "synthetic_reference_in symbol r c interval rings = Inr (last_opt (visible c points))"
proof -
  let ?l = "dict_list rings (sr_inputs r ! 0)" and ?r = "dict_list rings (sr_inputs r ! 1)"
  let ?f = "synthetic_point symbol (sr_operation r) (sr_max_skew r) (sr_provider r) interval ?r"
  let ?g = "\<lambda>x. case ?f x of Inr y \<Rightarrow> y | Inl _ \<Rightarrow> None"
  have strict: "strict_on pp_timestamp ?l" "strict_on pp_timestamp ?r" using rings_ok_strict [OF assms(1)] by auto
  have "collect ?f ?l = Inr points"
    using assms(2) strict
    by (simp add: synthesize_history_reference provider_recipe_def sort_key_sorted_on strict_on_sorted res_bind_Inr_iff last_slice_def)
  then have all: "\<forall>x \<in> set ?l. \<exists>y. ?f x = Inr y" and points: "points = List.map_filter ?g ?l"
    by (simp_all add: collect_Inr)
  have "visible c points = List.map_filter ?g (visible c ?l)"
    unfolding points by (rule map_filter_visible) (auto split: sum.splits dest: synthetic_point_stamp)
  moreover have "\<forall>x \<in> set (visible c ?l). \<exists>y. ?f x = Inr y" using all by (simp add: visible_def)
  ultimately show ?thesis
    unfolding synthetic_reference_in_visible [OF assms(1)] synthetic_of_first [OF strict]
    using first_some_rev [of "visible c ?l" ?f] by simp
qed

subsection \<open>Provenance and price of synthetic quotes\<close>

lemma mk_source_component_Inr_iff [res_simps]:
  "mk_source_component symbol provider (NumFinite price) (Aware t) feed role = Inr c \<longleftrightarrow>
     json_number price \<and> 0 < price
     \<and> c = \<lparr>sc_symbol = symbol, sc_provider = provider, sc_price = price, sc_as_of = t, sc_feed = feed, sc_role = role\<rparr>"
  by (auto simp: mk_source_component_def res_simps)

lemma leg_components_Inr:
  assumes "leg_components item role = Inr cs"
  shows "map sc_symbol cs = pq_symbol item # map sc_symbol (pq_components item)"
    and "map sc_price cs = pq_price item # map sc_price (pq_components item)"
proof -
  obtain own children where cs: "cs = own # children"
    and own: "sc_symbol own = pq_symbol item" "sc_price own = pq_price item"
    and raw: "list_all2 (\<lambda>x y. json_number (sc_price x) \<and> 0 < sc_price x \<and> y = \<lparr>sc_symbol = sc_symbol x,
        sc_provider = sc_provider x, sc_price = sc_price x, sc_as_of = sc_as_of x, sc_feed = sc_feed x,
        sc_role = Some (child_role role x)\<rparr>) (pq_components item) children"
    using assms by (auto simp: leg_components_def res_simps)
  have ch: "list_all2 (\<lambda>x y. sc_symbol y = sc_symbol x \<and> sc_price y = sc_price x) (pq_components item) children"
    by (rule list_all2_mono [OF raw]) auto
  have "map sc_symbol children = map sc_symbol (pq_components item)" "map sc_price children = map sc_price (pq_components item)"
    using ch by (induction rule: list_all2_induct) auto
  then show "map sc_symbol cs = pq_symbol item # map sc_symbol (pq_components item)"
    "map sc_price cs = pq_price item # map sc_price (pq_components item)" by (simp_all add: cs own)
qed

definition exact_cross :: "string \<Rightarrow> rat \<Rightarrow> rat \<Rightarrow> rat" where
  "exact_cross operation l r = (if operation = ''multiply'' then l * r else l / r)"

lemma recipe_price_error:
  "recipe_price op l r = Inr price \<Longrightarrow> \<bar>price - exact_cross op l r\<bar> \<le> dec_ulp 28 (exact_cross op l r) / 2"
  using dec_round_error [of 28 "exact_cross op l r" price]
  by (auto simp: recipe_price_def exact_cross_def dec_defs split: if_splits)

lemma synthetic_quote_parts:
  assumes "synthetic_quote symbol left right op skew now la ra prov = Inr q"
  obtains ls rs where "validate_components left right skew now la ra = Inr (pq_as_of q)"
    "recipe_price op (pq_price left) (pq_price right) = Inr (pq_price q)"
    "leg_components left (if op = ''multiply'' then ''multiplicand'' else ''numerator'') = Inr ls"
    "leg_components right (if op = ''multiply'' then ''multiplier'' else ''denominator'') = Inr rs"
    "wf_quote q" "pq_symbol q = normal_symbol symbol" "pq_components q = ls @ rs" "pq_is_derived q"
    "pq_market_status q = cross_market_status left right"
    "pq_fallback_level q = max (pq_fallback_level left) (pq_fallback_level right)"
proof -
  obtain as_of price where v: "validate_components left right skew now la ra = Inr as_of"
    and price: "recipe_price op (pq_price left) (pq_price right) = Inr price"
    using assms by (cases "validate_components left right skew now la ra";
      cases "recipe_price op (pq_price left) (pq_price right)") (simp_all add: synthetic_quote_def)
  from assms v price obtain ls rs where
    legs: "leg_components left (if op = ''multiply'' then ''multiplicand'' else ''numerator'') = Inr ls"
      "leg_components right (if op = ''multiply'' then ''multiplier'' else ''denominator'') = Inr rs"
    and q: "mk_provider_quote (normal_symbol symbol) (NumFinite price) (Aware as_of) prov
             (if pq_feed left = pq_feed right then pq_feed left else pq_feed left @ ''+'' @ pq_feed right)
             (''synthetic_'' @ op) (cross_market_status left right) True (ls @ rs)
             (max (pq_fallback_level left) (pq_fallback_level right))
             (if pq_license_scope left = pq_license_scope right then pq_license_scope left
              else ''most_restrictive_component_terms'')
             (Some ''derived_from_components'') None = Inr q"
    by (auto simp: synthetic_quote_def res_bind_Inr_iff raise_if_Inr_iff from_model_Inr_iff Let_def
        if_distrib [of fst] if_distrib [of snd] cong: if_cong)
  then have "pq_as_of q = as_of" "pq_price q = price" "pq_symbol q = normal_symbol symbol" "pq_components q = ls @ rs"
    "pq_is_derived q" "pq_market_status q = cross_market_status left right"
    "pq_fallback_level q = max (pq_fallback_level left) (pq_fallback_level right)"
    by (auto simp: mk_provider_quote_def res_bind_Inr_iff raise_if_Inr_iff decimal_Inr_iff)
  then show thesis using v price legs mk_provider_quote_wf [OF q] by (intro that) simp_all
qed

subsection \<open>Properties\<close>

text \<open>
  C33. The two-pointer merge of \<^verbatim>\<open>synthesize_history\<close> is the pairing it is documented to be:
  with the legs sorted, every left point is combined with the last right point at or
  before it (dropped when the gap exceeds the skew, the arithmetic fails or the price is
  not positive), in one pass, for any inputs, limits and exceptions.
\<close>

theorem synthesize_history_is_pairing:
  "synthesize_history recipe ls rs interval limit =
     res_bind (collect (\<lambda>left.
         synthetic_point (qr_symbol recipe) (qr_operation recipe) (qr_max_skew recipe) (qr_provider_name recipe) interval
           (sort_key pp_timestamp rs) left) (sort_key pp_timestamp ls))
       (\<lambda>points. Inr (last_slice limit points))"
  by (rule synthesize_history_reference)

text \<open>
  C31. Virtual synthetic histories: for a registered recipe the reference that the history
  cache derives on the fly from the component rings is the latest point at or before the
  cutoff of the history the provider code would materialise from those rings, taking the
  one-minute, five-minute and daily rings in that order.
\<close>

theorem virtual_history_equals_materialised:
  assumes "history_inv hc" and "dict_get (synthetic_recipes hc) symbol = Some r"
    and "synthesize_history (provider_recipe symbol r) (dict_list (one_minute hc) (sr_inputs r ! 0))
      (dict_list (one_minute hc) (sr_inputs r ! 1)) ''1m'' None = Inr ones"
    and "synthesize_history (provider_recipe symbol r) (dict_list (five_minute hc) (sr_inputs r ! 0))
      (dict_list (five_minute hc) (sr_inputs r ! 1)) ''5m'' None = Inr fives"
    and "synthesize_history (provider_recipe symbol r) (dict_list (daily hc) (sr_inputs r ! 0))
      (dict_list (daily hc) (sr_inputs r ! 1)) ''1d'' None = Inr days"
  shows "reference_at symbol cutoff hc =
    Inr (case find_last (\<lambda>p. pp_timestamp p \<le> cutoff) ones of Some p \<Rightarrow> Some p
         | None \<Rightarrow> (case find_last (\<lambda>p. pp_timestamp p \<le> cutoff) fives of Some p \<Rightarrow> Some p
                    | None \<Rightarrow> find_last (\<lambda>p. pp_timestamp p \<le> cutoff) days))"
proof -
  have ok: "rings_ok minute (one_minute hc)" "rings_ok (5 * minute) (five_minute hc)" "rings_ok 1 (daily hc)"
    using assms(1) by (auto simp: history_inv_def)
  show ?thesis
    by (simp add: reference_at_def assms(2) synthetic_reference_at_def virtual_reference [OF ok(1) assms(3)]
        virtual_reference [OF ok(2) assms(4)] virtual_reference [OF ok(3) assms(5)] first_found_def find_last_visible)
qed

definition fx_history :: history_cache where
  "fx_history = empty_history
     \<lparr>one_minute := [(''USD:EUR'', [\<lparr>pp_symbol = ''USD:EUR'', pp_timestamp = 0, pp_price = 4/5, pp_provider = ''ecb'',
        pp_is_derived = False, pp_interval = ''1m''\<rparr>])],
      synthetic_recipes := [(''EUR:USD'', \<lparr>sr_inputs = [''USD:EUR''], sr_operation = ''inverse'', sr_max_skew = 0, sr_provider = ''fx''\<rparr>)],
      synthetic_dependents := [(''USD:EUR'', [''EUR:USD''])]\<rparr>"

lemma fx_history_inv: "history_inv fx_history"
proof -
  have "edges (recipe_graph (synthetic_recipes fx_history)) = {(''EUR:USD'', ''USD:EUR'')}"
    by (auto simp: fx_history_def recipe_edges split: if_splits)
  then show ?thesis
    by (auto simp: history_inv_def fx_history_def empty_history_def rings_ok_def ring_ok_def recipes_inv_def recipe_ok_def
        dict_list_def time_units acyclic_def trancl_insert split: if_splits)
qed

theorem virtual_history_equals_materialised_witness:
  "reference_at ''EUR:USD'' 5 fx_history = Inr (Some \<lparr>pp_symbol = ''EUR:USD'', pp_timestamp = 0, pp_price = 5/4,
     pp_provider = ''fx'', pp_is_derived = True, pp_interval = ''1m''\<rparr>)"
proof -
  let ?r = "\<lparr>sr_inputs = [''USD:EUR''], sr_operation = ''inverse'', sr_max_skew = 0, sr_provider = ''fx''\<rparr>"
  have div: "dec_div 1 (4/5) = Inr (5/4)" by code_simp
  have num: "json_number (5/4)" by (simp add: json_number_def float_finite_def float_zero_def)
  have get: "dict_get (synthetic_recipes fx_history) ''EUR:USD'' = Some ?r" by (simp add: fx_history_def)
  have one: "synthesize_history (provider_recipe ''EUR:USD'' ?r) (dict_list (one_minute fx_history) (sr_inputs ?r ! 0))
      (dict_list (one_minute fx_history) (sr_inputs ?r ! 1)) ''1m'' None = Inr [\<lparr>pp_symbol = ''EUR:USD'', pp_timestamp = 0,
        pp_price = 5/4, pp_provider = ''fx'', pp_is_derived = True, pp_interval = ''1m''\<rparr>]"
    by (simp add: synthesize_history_def provider_recipe_def fx_history_def dict_list_def div mk_price_point_def
        decimal_NumFinite num last_slice_def)
  have rest: "synthesize_history (provider_recipe ''EUR:USD'' ?r) (dict_list (five_minute fx_history) (sr_inputs ?r ! 0))
      (dict_list (five_minute fx_history) (sr_inputs ?r ! 1)) ''5m'' None = Inr []"
    "synthesize_history (provider_recipe ''EUR:USD'' ?r) (dict_list (daily fx_history) (sr_inputs ?r ! 0))
      (dict_list (daily fx_history) (sr_inputs ?r ! 1)) ''1d'' None = Inr []"
    by (simp_all add: synthesize_history_def provider_recipe_def fx_history_def empty_history_def dict_list_def last_slice_def)
  show ?thesis
    using virtual_history_equals_materialised [OF fx_history_inv get one rest, of 5] by (simp add: find_last_def)
qed

text \<open>
  C34. A synthetic quote that is returned is sound: its price is the correctly rounded
  product or quotient of the legs (error at most half a unit in the 28th digit), its
  timestamp is that of the older leg, the legs were within the maximum skew, no more than
  five seconds in the future and within their age limits, its components record both legs
  and everything they were derived from with unchanged prices, it is marked open only if
  both legs are, and it carries the worse fallback level.
\<close>

theorem synthetic_quote_sound:
  assumes "synthetic_quote symbol left right op skew now left_age right_age prov = Inr q"
  shows "wf_quote q \<and> pq_symbol q = normal_symbol symbol \<and> pq_is_derived q
    \<and> \<bar>pq_price q - exact_cross op (pq_price left) (pq_price right)\<bar>
        \<le> dec_ulp 28 (exact_cross op (pq_price left) (pq_price right)) / 2
    \<and> pq_as_of q = min (pq_as_of left) (pq_as_of right)
    \<and> \<bar>pq_as_of left - pq_as_of right\<bar> \<le> skew
    \<and> max (pq_as_of left) (pq_as_of right) \<le> now + 5 * second
    \<and> (\<forall>a. left_age = Some a \<longrightarrow> now - pq_as_of left \<le> a)
    \<and> (\<forall>a. right_age = Some a \<longrightarrow> now - pq_as_of right \<le> a)
    \<and> map sc_symbol (pq_components q) = pq_symbol left # map sc_symbol (pq_components left)
        @ pq_symbol right # map sc_symbol (pq_components right)
    \<and> map sc_price (pq_components q) = pq_price left # map sc_price (pq_components left)
        @ pq_price right # map sc_price (pq_components right)
    \<and> (pq_market_status q = ''open'' \<longrightarrow> pq_market_status left = ''open'' \<and> pq_market_status right = ''open'')
    \<and> pq_fallback_level q = max (pq_fallback_level left) (pq_fallback_level right)"
  using assms
proof (rule synthetic_quote_parts)
  fix ls rs
  assume v: "validate_components left right skew now left_age right_age = Inr (pq_as_of q)"
    and price: "recipe_price op (pq_price left) (pq_price right) = Inr (pq_price q)"
    and ls: "leg_components left (if op = ''multiply'' then ''multiplicand'' else ''numerator'') = Inr ls"
    and rs: "leg_components right (if op = ''multiply'' then ''multiplier'' else ''denominator'') = Inr rs"
    and q: "wf_quote q" "pq_symbol q = normal_symbol symbol" "pq_components q = ls @ rs" "pq_is_derived q"
      "pq_market_status q = cross_market_status left right"
      "pq_fallback_level q = max (pq_fallback_level left) (pq_fallback_level right)"
  have times: "pq_as_of q = min (pq_as_of left) (pq_as_of right)" "\<bar>pq_as_of left - pq_as_of right\<bar> \<le> skew"
    "max (pq_as_of left) (pq_as_of right) \<le> now + 5 * second"
    "\<forall>a. left_age = Some a \<longrightarrow> now - pq_as_of left \<le> a" "\<forall>a. right_age = Some a \<longrightarrow> now - pq_as_of right \<le> a"
    using v by (auto simp: validate_components_def raise_if_Inr_iff future_tolerance_def not_less split: option.splits)
  have status: "pq_market_status q = ''open'' \<longrightarrow> pq_market_status left = ''open'' \<and> pq_market_status right = ''open''"
    unfolding q(5) by (auto simp: cross_market_status_def split: if_splits)
  have maps: "map sc_symbol (pq_components q) = pq_symbol left # map sc_symbol (pq_components left)
        @ pq_symbol right # map sc_symbol (pq_components right)"
    "map sc_price (pq_components q) = pq_price left # map sc_price (pq_components left)
        @ pq_price right # map sc_price (pq_components right)"
    using leg_components_Inr [OF ls] leg_components_Inr [OF rs] by (simp_all add: q(3))
  show ?thesis using q(1,2,4,6) times status maps recipe_price_error [OF price] by blast
qed

definition sample_leg :: "string \<Rightarrow> rat \<Rightarrow> instant \<Rightarrow> provider_quote" where
  "sample_leg s price t = \<lparr>pq_symbol = s, pq_price = price, pq_as_of = t, pq_provider = ''p'', pq_feed = ''f'',
     pq_price_basis = ''last'', pq_market_status = ''open'', pq_is_derived = False, pq_components = [],
     pq_fallback_level = 0, pq_license_scope = ''free'', pq_coverage = None, pq_market_status_as_of = None\<rparr>"

theorem synthetic_quote_sound_witness:
  "\<exists>q. synthetic_quote ''X'' (sample_leg ''A'' 2 10) (sample_leg ''B'' 4 12) ''divide'' 5 20 None (Some 9) ''synthetic'' = Inr q
     \<and> pq_as_of q = min 10 12 \<and> \<bar>pq_price q - exact_cross ''divide'' 2 4\<bar> \<le> dec_ulp 28 (exact_cross ''divide'' 2 4) / 2"
proof -
  have div: "dec_div 2 4 = Inr (1/2)" by code_simp
  have num: "json_number (1/2)" "json_number 2" "json_number 4"
    by (simp_all add: json_number_def float_finite_def float_zero_def)
  have n: "normal_symbol ''X'' = ''X''" by code_simp
  obtain q where "synthetic_quote ''X'' (sample_leg ''A'' 2 10) (sample_leg ''B'' 4 12) ''divide'' 5 20 None (Some 9) ''synthetic'' = Inr q"
    by (simp add: synthetic_quote_def validate_components_def sample_leg_def future_tolerance_def time_units recipe_price_def div
        leg_components_def mk_source_component_def decimal_NumFinite num from_model_def mk_provider_quote_def
        ensure_utc_opt_def cross_market_status_def market_statuses_def n)
  with synthetic_quote_sound [OF this] show ?thesis by (auto simp: sample_leg_def)
qed

text \<open>
  \<^verbatim>\<open>limit=0\<close> (and any negative limit) does not limit: the slice \<^verbatim>\<open>result[-0:]\<close> is the
  whole result, so \<^verbatim>\<open>synthesize_history\<close> returns every point, where the router's merge
  returns none; a positive limit returns at most that many of the latest points.
\<close>

theorem synthesize_history_limit_zero:
  "synthesize_history recipe ls rs interval (Some 0) = synthesize_history recipe ls rs interval None
   \<and> synthesize_history recipe ls rs interval (Some (- int n)) = synthesize_history recipe ls rs interval None
   \<and> (case synthesize_history recipe ls rs interval (Some (int (Suc n))) of
        Inl _ \<Rightarrow> True | Inr points \<Rightarrow> length points \<le> Suc n)"
  by (auto simp: synthesize_history_def Let_def last_slice_def res_bind_def split: sum.splits)

end
