(* ===== verification/QP_Auth.thy ===== *)
theory QP_Auth
  imports QP_Domain "HOL-Library.Multiset"
begin

text \<open>
  \<^verbatim>\<open>quickprice/auth.py\<close> and \<^verbatim>\<open>quickprice/api_keys.py\<close>: token-bucket rate limiting, API-key
  verification and the key lifecycle. SHA-256 is outside the sources: the digest function
  is a parameter. Identifiers (\<^verbatim>\<open>uuid\<close>), random keys, clock readings and the outcome of the
  storage calls are arguments. The limiter's methods run under its lock; the manager's
  writers run under an \<^verbatim>\<open>asyncio.Lock\<close>, so each is one step.
\<close>

subsection \<open>Token buckets\<close>

record bucket =
  bk_tokens :: rat
  bk_updated_at :: rat

record limiter =
  tl_rate :: rat
  tl_capacity :: rat
  tl_max_identities :: nat
  tl_idle_ttl :: rat
  tl_buckets :: "(string, bucket) dict"

definition mk_limiter :: "int \<Rightarrow> int \<Rightarrow> int \<Rightarrow> rat \<Rightarrow> limiter result" where
  "mk_limiter rate_per_minute capacity max_identities idle_ttl =
     raise_if (max_identities \<le> 0 \<or> idle_ttl \<le> 0) (ValueError ''limiter bounds must be positive'')
       (Inr \<lparr>tl_rate = of_int rate_per_minute / 60, tl_capacity = of_int capacity,
             tl_max_identities = nat max_identities, tl_idle_ttl = idle_ttl, tl_buckets = []\<rparr>)"

datatype limit_error = RateLimitError int | DivisionError

definition rate_limit_error :: "int \<Rightarrow> limit_error" where
  "rate_limit_error retry_after = RateLimitError (max 1 retry_after)"

definition limiter_consume :: "string \<Rightarrow> rat \<Rightarrow> limiter \<Rightarrow> limiter \<times> (limit_error + unit)" where
  "limiter_consume identity now l =
     (let bs1 = dropWhile (\<lambda>(_, b). bk_updated_at b < now - tl_idle_ttl l) (tl_buckets l);
          (bs2, b) = (case dict_get bs1 identity of
              None \<Rightarrow> (if tl_max_identities l \<le> length bs1 then tl bs1 else bs1,
                       \<lparr>bk_tokens = tl_capacity l, bk_updated_at = now\<rparr>)
            | Some b \<Rightarrow> (dict_pop identity bs1, b));
          elapsed = max 0 (now - bk_updated_at b);
          tokens = min (tl_capacity l) (bk_tokens b + elapsed * tl_rate l);
          put = (\<lambda>t. l\<lparr>tl_buckets := bs2 @ [(identity, \<lparr>bk_tokens = t, bk_updated_at = now\<rparr>)]\<rparr>)
      in if 1 \<le> tokens then (put (tokens - 1), Inr ())
         else if tl_rate l = 0 then (put tokens, Inl DivisionError)
         else (put tokens, Inl (rate_limit_error (\<lfloor>(1 - tokens) / tl_rate l\<rfloor> + 1))))"

subsection \<open>API key records\<close>

record api_key =
  ak_key_id :: string
  ak_name :: string
  ak_key_hash :: string
  ak_key_hint :: "string option"
  ak_created_at :: instant
  ak_updated_at :: instant
  ak_expires_at :: "instant option"
  ak_revoked_at :: "instant option"
  ak_origin :: string

record auth_context =
  ac_key_id :: string
  ac_name :: string
  ac_digest :: string
  ac_expires_at :: "instant option"

definition is_active :: "api_key \<Rightarrow> instant \<Rightarrow> bool" where
  "is_active r now \<longleftrightarrow>
     ak_revoked_at r = None \<and> (case ak_expires_at r of None \<Rightarrow> True | Some e \<Rightarrow> now < e)"

definition keys_configured :: "instant \<Rightarrow> api_key list \<Rightarrow> bool" where
  "keys_configured now records \<longleftrightarrow> (\<exists>r \<in> set records. is_active r now)"

text \<open>Every record is compared; the last active match wins.\<close>

definition authenticate_digest :: "string \<Rightarrow> instant \<Rightarrow> api_key list \<Rightarrow> auth_context option" where
  "authenticate_digest candidate now records =
     map_option (\<lambda>r. \<lparr>ac_key_id = ak_key_id r, ac_name = ak_name r, ac_digest = candidate, ac_expires_at = ak_expires_at r\<rparr>)
       (fold (\<lambda>r matched. if candidate = ak_key_hash r \<and> is_active r now then Some r else matched) records None)"

subsection \<open>Authenticator\<close>

definition hash_api_key :: "(string \<Rightarrow> string) \<Rightarrow> string \<Rightarrow> string result" where
  "hash_api_key sha256 raw_key =
     raise_if (raw_key = []) (ValueError ''API key cannot be empty'') (Inr (''sha256:'' @ sha256 raw_key))"

definition is_hex :: "char \<Rightarrow> bool" where
  "is_hex c \<longleftrightarrow> c \<in> set ''0123456789abcdef''"

definition is_key_hash :: "string \<Rightarrow> bool" where
  "is_key_hash s \<longleftrightarrow> is_prefix ''sha256:'' s \<and> length s = 71 \<and> list_all is_hex (drop 7 s)"

definition validate_hash :: "string \<Rightarrow> string result" where
  "validate_hash value =
     (let normalized = lower value in
      raise_if (\<not> is_key_hash normalized)
        (ValueError ''QUICKPRICE_API_KEY_HASHES accepts only sha256:<64 hex chars>'') (Inr normalized))"

record authenticator =
  au_enabled :: bool
  au_hashes :: "string list"
  au_valid_limiter :: limiter
  au_invalid_limiter :: limiter

datatype auth_failure = AuthenticationError | Limited limit_error

datatype identity = Context auth_context | Digest string

definition zero_digest :: string where
  "zero_digest = ''sha256:'' @ replicate 64 (CHR ''0'')"

text \<open>\<^verbatim>\<open>manager\<close> is \<^verbatim>\<open>None\<close> without a key manager, else the records it has published.\<close>

definition authenticate ::
  "(string \<Rightarrow> string) \<Rightarrow> api_key list option \<Rightarrow> instant \<Rightarrow> rat \<Rightarrow> string option \<Rightarrow> string \<Rightarrow> authenticator \<Rightarrow>
   authenticator \<times> (auth_failure + identity)" where
  "authenticate sha256 manager wall now raw_key client_ip a =
     (let candidate = (case raw_key of None \<Rightarrow> zero_digest
            | Some k \<Rightarrow> if k = [] then zero_digest else ''sha256:'' @ sha256 k);
          context = (case manager of None \<Rightarrow> None | Some records \<Rightarrow> authenticate_digest candidate wall records);
          matched = (case manager of None \<Rightarrow> candidate \<in> set (au_hashes a) | Some _ \<Rightarrow> context \<noteq> None)
      in if \<not> matched then
           (if au_enabled a then
              (case limiter_consume client_ip now (au_invalid_limiter a) of
                 (l, Inl e) \<Rightarrow> (a\<lparr>au_invalid_limiter := l\<rparr>, Inl (Limited e))
               | (l, Inr _) \<Rightarrow> (a\<lparr>au_invalid_limiter := l\<rparr>, Inl AuthenticationError))
            else (a, Inl AuthenticationError))
         else
           let granted = (case context of Some c \<Rightarrow> Context c | None \<Rightarrow> Digest candidate) in
           if au_enabled a then
             (case limiter_consume candidate now (au_valid_limiter a) of
                (l, Inl e) \<Rightarrow> (a\<lparr>au_valid_limiter := l\<rparr>, Inl (Limited e))
              | (l, Inr _) \<Rightarrow> (a\<lparr>au_valid_limiter := l\<rparr>, Inr granted))
           else (a, Inr granted))"

subsection \<open>The key manager\<close>

datatype key_error =
  ApiKeyNotFound | DuplicateApiKey string | StoreUnavailable string | KeyValueError string | StorageRaised py_error

type_synonym 'a key_result = "key_error + 'a"

record key_manager =
  km_available :: bool
  km_records :: "api_key list"

definition normalize_expiry :: "dt_arg option \<Rightarrow> instant option key_result" where
  "normalize_expiry v =
     (case v of None \<Rightarrow> Inr None
      | Some (Naive _) \<Rightarrow> Inl (KeyValueError ''API key expiry must include a timezone'')
      | Some (Aware t) \<Rightarrow> Inr (Some t))"

definition key_hint :: "string \<Rightarrow> string" where
  "key_hint raw = take 10 raw @ ''...'' @ drop (length raw - 4) raw"

record key_import =
  im_name :: string
  im_expires_at :: "instant option"
  im_raw_key :: "string option"
  im_key_hash :: "string option"

definition mk_key_import ::
  "string \<Rightarrow> dt_arg option \<Rightarrow> string option \<Rightarrow> string option \<Rightarrow> key_import key_result" where
  "mk_key_import name expires_at raw_key key_hash =
     (let name = strip name in
      raise_if (name = [] \<or> 80 < length name) (KeyValueError ''API key name must contain 1 to 80 characters'')
      (raise_if ((raw_key = None) = (key_hash = None)) (KeyValueError ''exactly one of raw_key or key_hash is required'')
      (raise_if (case raw_key of None \<Rightarrow> False | Some k \<Rightarrow> \<not> (20 \<le> length k \<and> length k \<le> 256))
        (KeyValueError ''imported raw API keys must contain 20 to 256 characters'')
      (let key_hash = map_option (\<lambda>h. lower (strip h)) key_hash in
       raise_if (case key_hash of None \<Rightarrow> False | Some h \<Rightarrow> \<not> is_key_hash h)
         (KeyValueError ''imported API key hashes must use sha256:<64 hexadecimal characters>'')
       (res_bind (normalize_expiry expires_at) (\<lambda>expires_at.
          Inr \<lparr>im_name = name, im_expires_at = expires_at, im_raw_key = raw_key, im_key_hash = key_hash\<rparr>))))))"

text \<open>\<^verbatim>\<open>ApiKeyRecord.__post_init__\<close> of \<^verbatim>\<open>storage/records.py\<close>.\<close>

definition mk_api_key :: "api_key \<Rightarrow> api_key key_result" where
  "mk_api_key r =
     (let key_id = strip (ak_key_id r); name = strip (ak_name r); key_hash = lower (strip (ak_key_hash r));
          hint = map_option strip (ak_key_hint r); origin = lower (strip (ak_origin r))
      in raise_if (key_id = []) (KeyValueError ''key_id must not be empty'')
        (raise_if (name = []) (KeyValueError ''name must not be empty'')
        (raise_if (80 < length name) (KeyValueError ''API key name cannot exceed 80 characters'')
        (raise_if (\<not> is_key_hash key_hash) (KeyValueError ''key_hash must use sha256:<64 lowercase hex chars>'')
        (raise_if (hint = Some []) (KeyValueError ''key_hint must not be empty'')
        (raise_if (case hint of None \<Rightarrow> False | Some h \<Rightarrow> 32 < length h)
          (KeyValueError ''API key hint cannot exceed 32 characters'')
        (raise_if (origin \<notin> {''generated'', ''imported'', ''legacy''}) (KeyValueError ''unsupported API key origin: '')
        (Inr (r\<lparr>ak_key_id := key_id, ak_name := name, ak_key_hash := key_hash, ak_key_hint := hint,
               ak_origin := origin\<rparr>)))))))))"

definition new_record ::
  "string \<Rightarrow> instant \<Rightarrow> string \<Rightarrow> string \<Rightarrow> string \<Rightarrow> instant option \<Rightarrow> string \<Rightarrow> api_key key_result" where
  "new_record key_id now name key_hash hint expires_at origin =
     mk_api_key \<lparr>ak_key_id = key_id, ak_name = name, ak_key_hash = key_hash, ak_key_hint = Some hint, ak_created_at = now,
      ak_updated_at = now, ak_expires_at = expires_at, ak_revoked_at = None, ak_origin = origin\<rparr>"

definition record_from_import ::
  "(string \<Rightarrow> string) \<Rightarrow> string \<Rightarrow> instant \<Rightarrow> key_import \<Rightarrow> api_key key_result" where
  "record_from_import sha256 key_id now item =
     (case im_raw_key item of
        Some raw \<Rightarrow> (case hash_api_key sha256 raw of
            Inl _ \<Rightarrow> Inl (KeyValueError ''API key cannot be empty'')
          | Inr digest \<Rightarrow> new_record key_id now (im_name item) digest (key_hint raw) (im_expires_at item) ''imported'')
      | None \<Rightarrow> new_record key_id now (im_name item)
            (case im_key_hash item of None \<Rightarrow> ''none'' | Some h \<Rightarrow> lower (strip h)) ''Imported hash''
            (im_expires_at item) ''imported'')"

definition ensure_unique :: "api_key list \<Rightarrow> key_manager \<Rightarrow> bool" where
  "ensure_unique records m \<longleftrightarrow> (\<forall>r \<in> set records. ak_key_hash r \<notin> ak_key_hash ` set (km_records m))"

text \<open>\<^verbatim>\<open>sorted(..., key=lambda item: (item.created_at, item.key_id))\<close>; key ids compare as lists of code points.\<close>

fun str_less :: "string \<Rightarrow> string \<Rightarrow> bool" where
  "str_less [] ys = (ys \<noteq> [])"
| "str_less (x # xs) [] = False"
| "str_less (x # xs) (y # ys) =
     ((of_char x :: nat) < of_char y \<or> (x = y \<and> str_less xs ys))"

definition before_record :: "api_key \<Rightarrow> api_key \<Rightarrow> bool" where
  "before_record a b \<longleftrightarrow> ak_created_at a < ak_created_at b
     \<or> (ak_created_at a = ak_created_at b \<and> str_less (ak_key_id a) (ak_key_id b))"

fun insert_record :: "api_key \<Rightarrow> api_key list \<Rightarrow> api_key list" where
  "insert_record r [] = [r]"
| "insert_record r (x # xs) = (if before_record x r \<or> \<not> before_record r x then x # insert_record r xs else r # x # xs)"

definition sort_records :: "api_key list \<Rightarrow> api_key list" where
  "sort_records rs = fold insert_record rs []"

text \<open>
  Adding records: the storage call is the durable commit; its exception leaves the
  published records as they were.
\<close>

definition add_records :: "py_error option \<Rightarrow> api_key list \<Rightarrow> key_manager \<Rightarrow> key_manager \<times> unit key_result" where
  "add_records storage records m =
     (if \<not> km_available m then (m, Inl (StoreUnavailable ''API-key storage is unavailable''))
      else if \<not> ensure_unique records m then (m, Inl (DuplicateApiKey ''API key already exists''))
      else case storage of
             Some e \<Rightarrow> (m, Inl (StorageRaised e))
           | None \<Rightarrow> (m\<lparr>km_records := sort_records (km_records m @ records)\<rparr>, Inr ()))"

definition create_key ::
  "(string \<Rightarrow> string) \<Rightarrow> string \<Rightarrow> string \<Rightarrow> instant \<Rightarrow> py_error option \<Rightarrow> string \<Rightarrow> dt_arg option \<Rightarrow> key_manager \<Rightarrow>
   key_manager \<times> (api_key \<times> string) key_result" where
  "create_key sha256 token key_id now storage name expires_at m =
     (let raw_key = ''qp_'' @ token in
      case normalize_expiry expires_at of
        Inl e \<Rightarrow> (m, Inl e)
      | Inr expiry \<Rightarrow>
          (case new_record key_id now name (''sha256:'' @ sha256 raw_key) (key_hint raw_key) expiry ''generated'' of
             Inl e \<Rightarrow> (m, Inl e)
           | Inr r \<Rightarrow> (case add_records storage [r] m of
                (m', Inl e) \<Rightarrow> (m', Inl e) | (m', Inr _) \<Rightarrow> (m', Inr (r, raw_key)))))"

definition maximum_import_size :: nat where "maximum_import_size = 100"

definition import_many ::
  "(string \<Rightarrow> string) \<Rightarrow> string list \<Rightarrow> instant \<Rightarrow> py_error option \<Rightarrow> key_import list \<Rightarrow> key_manager \<Rightarrow>
   key_manager \<times> api_key list key_result" where
  "import_many sha256 key_ids now storage items m =
     (if items = [] \<or> maximum_import_size < length items
      then (m, Inl (KeyValueError ''API key import must contain 1 to ''))
      else case res_map (\<lambda>(key_id, item). record_from_import sha256 key_id now item) (zip key_ids items) of
             Inl e \<Rightarrow> (m, Inl e)
           | Inr records \<Rightarrow>
               if \<not> distinct (map ak_key_hash records)
               then (m, Inl (DuplicateApiKey ''import contains duplicate API keys''))
               else (case add_records storage records m of
                       (m', Inl e) \<Rightarrow> (m', Inl e) | (m', Inr _) \<Rightarrow> (m', Inr records)))"

definition active_record :: "string \<Rightarrow> key_manager \<Rightarrow> api_key option" where
  "active_record key_id m = List.find (\<lambda>r. ak_key_id r = key_id \<and> ak_revoked_at r = None) (km_records m)"

definition replace_record :: "api_key \<Rightarrow> key_manager \<Rightarrow> key_manager" where
  "replace_record replacement m =
     m\<lparr>km_records := map (\<lambda>r. if ak_key_id r = ak_key_id replacement then replacement else r) (km_records m)\<rparr>"

definition update_key ::
  "instant \<Rightarrow> py_error option \<Rightarrow> string \<Rightarrow> string \<Rightarrow> dt_arg option \<Rightarrow> key_manager \<Rightarrow> key_manager \<times> api_key key_result" where
  "update_key now storage key_id name expires_at m =
     (let normalized = strip name in
      if normalized = [] \<or> 80 < length normalized
      then (m, Inl (KeyValueError ''API key name must contain 1 to 80 characters''))
      else case normalize_expiry expires_at of
        Inl e \<Rightarrow> (m, Inl e)
      | Inr expiry \<Rightarrow>
          if \<not> km_available m then (m, Inl (StoreUnavailable ''API-key storage is unavailable''))
          else case active_record key_id m of
            None \<Rightarrow> (m, Inl ApiKeyNotFound)
          | Some existing \<Rightarrow>
              (case storage of
                 Some e \<Rightarrow> (m, Inl (StorageRaised e))
               | None \<Rightarrow>
                   (let updated = existing\<lparr>ak_name := normalized, ak_expires_at := expiry, ak_updated_at := now\<rparr>
                    in (replace_record updated m, Inr updated))))"

definition revoke_key ::
  "instant \<Rightarrow> py_error option \<Rightarrow> string \<Rightarrow> key_manager \<Rightarrow> key_manager \<times> unit key_result" where
  "revoke_key now storage key_id m =
     (if \<not> km_available m then (m, Inl (StoreUnavailable ''API-key storage is unavailable''))
      else case active_record key_id m of
        None \<Rightarrow> (m, Inl ApiKeyNotFound)
      | Some existing \<Rightarrow>
          (case storage of
             Some e \<Rightarrow> (m, Inl (StorageRaised e))
           | None \<Rightarrow> (replace_record (existing\<lparr>ak_revoked_at := Some now, ak_updated_at := now\<rparr>) m, Inr ())))"

definition key_status :: "api_key \<Rightarrow> instant \<Rightarrow> string" where
  "key_status r now =
     (if ak_revoked_at r \<noteq> None then ''revoked''
      else (case ak_expires_at r of None \<Rightarrow> ''active'' | Some e \<Rightarrow> if e \<le> now then ''expired'' else ''active''))"

text \<open>The legacy bootstrap of \<^verbatim>\<open>start\<close>: one record per configured digest, numbered from one.\<close>

definition legacy_records :: "(string \<Rightarrow> string) \<Rightarrow> (nat \<Rightarrow> string) \<Rightarrow> instant \<Rightarrow> string list \<Rightarrow> api_key list key_result" where
  "legacy_records uuid5 number now hashes =
     res_map (\<lambda>(i, digest). new_record (uuid5 (''quickprice:legacy-api-key:'' @ digest)) now
         (''Legacy API key '' @ number i) digest (''legacy-'' @ number i) None ''legacy'')
       (enumerate 1 (filter (\<lambda>h. h \<noteq> []) (map (\<lambda>h. lower (strip h)) hashes)))"

definition expiry_from_ttl :: "int option \<Rightarrow> instant \<Rightarrow> instant option result" where
  "expiry_from_ttl ttl_days now =
     (case ttl_days of None \<Rightarrow> Inr None
      | Some d \<Rightarrow> raise_if (\<not> (1 \<le> d \<and> d \<le> 3650)) (ValueError ''ttl_days must be between 1 and 3650'')
          (Inr (Some (now + d * day))))"

subsection \<open>Who is authenticated\<close>

lemma fold_last_match:
  "fold (\<lambda>r matched. if P r then Some r else matched) rs acc = (case find_last P rs of None \<Rightarrow> acc | Some r \<Rightarrow> Some r)"
  by (induction rs arbitrary: acc rule: rev_induct) auto

lemma authenticate_digest_find:
  "authenticate_digest candidate now records =
     map_option (\<lambda>r. \<lparr>ac_key_id = ak_key_id r, ac_name = ak_name r, ac_digest = candidate, ac_expires_at = ak_expires_at r\<rparr>)
       (find_last (\<lambda>r. candidate = ak_key_hash r \<and> is_active r now) records)"
  unfolding authenticate_digest_def fold_last_match by (cases "find_last (\<lambda>r. candidate = ak_key_hash r \<and> is_active r now) records") simp_all

lemma authenticate_digest_None:
  "authenticate_digest candidate now records = None \<longleftrightarrow> (\<forall>r \<in> set records. candidate = ak_key_hash r \<longrightarrow> \<not> is_active r now)"
  by (auto simp: authenticate_digest_find find_last_None_iff)

definition keys_inv :: "key_manager \<Rightarrow> bool" where
  "keys_inv m \<longleftrightarrow> distinct (map ak_key_hash (km_records m)) \<and> distinct (map ak_key_id (km_records m))"

lemma set_insert_record: "set (insert_record r rs) = insert r (set rs)"
  by (induction rs) auto

lemma mset_insert_record: "mset (insert_record r rs) = add_mset r (mset rs)"
  by (induction rs) auto

lemma mset_sort_records: "mset (sort_records rs) = mset rs"
proof -
  have "mset (fold insert_record rs acc) = mset rs + mset acc" for acc
    by (induction rs arbitrary: acc) (simp_all add: mset_insert_record)
  from this [of "[]"] show ?thesis by (simp add: sort_records_def)
qed

lemma set_sort_records [simp]: "set (sort_records rs) = set rs"
  using mset_sort_records by (rule mset_eq_setD)

lemma distinct_map_sort_records: "distinct (map f (sort_records rs)) = distinct (map f rs)"
  using mset_sort_records [of rs] by (metis mset_map mset_eq_imp_distinct_iff)

lemma add_records_inv:
  assumes "keys_inv m" and "add_records storage rs m = (m', res)"
    and "distinct (map ak_key_hash rs)" and "distinct (map ak_key_id rs)"
    and "\<forall>r \<in> set rs. ak_key_id r \<notin> ak_key_id ` set (km_records m)"
  shows "keys_inv m'"
proof -
  have "distinct (map f (km_records m @ rs))"
    if "distinct (map f (km_records m))" "distinct (map f rs)" "\<forall>r \<in> set rs. f r \<notin> f ` set (km_records m)"
    for f :: "api_key \<Rightarrow> string"
    using that by (auto simp: image_iff) metis
  then show ?thesis
    using assms
    by (auto simp: add_records_def keys_inv_def ensure_unique_def distinct_map_sort_records simp del: map_append distinct_append
        split: if_splits option.splits)
qed

lemma replace_record_inv:
  assumes "keys_inv m" and "r \<in> set (km_records m)" and "ak_key_id r' = ak_key_id r" and "ak_key_hash r' = ak_key_hash r"
  shows "keys_inv (replace_record r' m)"
proof -
  have "ak_key_hash x = ak_key_hash r" if "x \<in> set (km_records m)" "ak_key_id x = ak_key_id r" for x
    using assms(1,2) that by (auto simp: keys_inv_def distinct_map dest: inj_onD)
  then have "map ak_key_hash (km_records (replace_record r' m)) = map ak_key_hash (km_records m)"
    "map ak_key_id (km_records (replace_record r' m)) = map ak_key_id (km_records m)"
    using assms(3,4) by (auto simp: replace_record_def)
  with assms(1) show ?thesis by (simp only: keys_inv_def)
qed

lemma active_record_SomeD:
  "active_record key_id m = Some r \<Longrightarrow> r \<in> set (km_records m) \<and> ak_key_id r = key_id \<and> ak_revoked_at r = None"
  by (auto simp: active_record_def find_Some_iff)

lemma hash_of_id:
  "keys_inv m \<Longrightarrow> r \<in> set (km_records m) \<Longrightarrow> x \<in> set (km_records m) \<Longrightarrow> ak_key_hash x = ak_key_hash r \<Longrightarrow> x = r"
  by (auto simp: keys_inv_def distinct_map dest: inj_onD)

lemma record_of_id:
  "keys_inv m \<Longrightarrow> r \<in> set (km_records m) \<Longrightarrow> x \<in> set (km_records m) \<Longrightarrow> ak_key_id x = ak_key_id r \<Longrightarrow> x = r"
  by (auto simp: keys_inv_def distinct_map dest: inj_onD)

lemma create_key_cases:
  assumes "create_key sha256 token key_id now storage name expires_at m = (m', Inr (r, raw))"
  shows "raw = ''qp_'' @ token" and "km_records m' = sort_records (km_records m @ [r])"
    and "ak_key_hash r \<notin> ak_key_hash ` set (km_records m)" and "ak_revoked_at r = None"
    and "ak_key_id r = strip key_id" and "ak_key_hash r = lower (strip (''sha256:'' @ sha256 raw))"
    and "normalize_expiry expires_at = Inr (ak_expires_at r)" and "is_key_hash (ak_key_hash r)"
    and "ak_name r = strip name"
  using assms
  by (auto simp: create_key_def Let_def add_records_def ensure_unique_def new_record_def mk_api_key_def raise_if_def
      split: sum.splits if_splits option.splits)

subsection \<open>What a limiter grants\<close>

definition refilled :: "limiter \<Rightarrow> rat \<Rightarrow> bucket \<Rightarrow> rat" where
  "refilled l t b = min (tl_capacity l) (bk_tokens b + max 0 (t - bk_updated_at b) * tl_rate l)"

definition avail :: "limiter \<Rightarrow> string \<Rightarrow> rat \<Rightarrow> rat" where
  "avail l i t = (case dict_get (tl_buckets l) i of None \<Rightarrow> tl_capacity l | Some b \<Rightarrow> refilled l t b)"

definition limiter_inv :: "rat \<Rightarrow> limiter \<Rightarrow> bool" where
  "limiter_inv t l \<longleftrightarrow> dict_wf (tl_buckets l) \<and> 0 < tl_rate l \<and> 0 < tl_capacity l \<and> 0 < tl_max_identities l
     \<and> tl_capacity l \<le> tl_idle_ttl l * tl_rate l
     \<and> length (tl_buckets l) \<le> tl_max_identities l
     \<and> sorted (map (bk_updated_at \<circ> snd) (tl_buckets l))
     \<and> (\<forall>(i, b) \<in> set (tl_buckets l). 0 \<le> bk_tokens b \<and> bk_tokens b \<le> tl_capacity l \<and> bk_updated_at b \<le> t)"

lemma dropWhile_sorted_filter:
  "sorted (map f xs) \<Longrightarrow> dropWhile (\<lambda>x. f x < (c :: 'a :: linorder)) xs = filter (\<lambda>x. c \<le> f x) xs"
proof (induction xs)
  case (Cons a xs)
  then show ?case by (auto simp: not_less intro!: filter_True [symmetric] dest: order_trans)
qed simp

lemma dict_get_filter_val:
  "dict_wf d \<Longrightarrow> dict_get (filter (\<lambda>(k, v). P v) d) k = (case dict_get d k of None \<Rightarrow> None | Some v \<Rightarrow> if P v then Some v else None)"
  by (induction d) (auto simp: map_of_eq_None_iff split: option.splits dest: map_of_SomeD)

definition live_buckets :: "rat \<Rightarrow> limiter \<Rightarrow> (string, bucket) dict" where
  "live_buckets now l = dropWhile (\<lambda>(_, b). bk_updated_at b < now - tl_idle_ttl l) (tl_buckets l)"

lemma live_buckets_filter:
  "limiter_inv t l \<Longrightarrow> live_buckets now l = filter (\<lambda>(_, b). now - tl_idle_ttl l \<le> bk_updated_at b) (tl_buckets l)"
  using dropWhile_sorted_filter [of "bk_updated_at \<circ> snd" "tl_buckets l" "now - tl_idle_ttl l"]
  by (simp add: live_buckets_def limiter_inv_def split_def)

text \<open>Forgetting an idle bucket forgets nothing: by then it has refilled.\<close>

lemma live_avail:
  assumes "limiter_inv t l" and "t \<le> now"
  shows "(case dict_get (live_buckets now l) i of None \<Rightarrow> tl_capacity l | Some b \<Rightarrow> refilled l now b) = avail l i now"
proof (cases "dict_get (tl_buckets l) i")
  case None
  then have "dict_get (live_buckets now l) i = None"
    using assms(1) by (simp add: live_buckets_filter [OF assms(1)] dict_get_filter_val limiter_inv_def)
  with None show ?thesis by (simp add: avail_def)
next
  case (Some b)
  have get: "dict_get (live_buckets now l) i = (if now - tl_idle_ttl l \<le> bk_updated_at b then Some b else None)"
    using assms(1) Some by (simp add: live_buckets_filter [OF assms(1)] dict_get_filter_val limiter_inv_def)
  show ?thesis
  proof (cases "now - tl_idle_ttl l \<le> bk_updated_at b")
    case True
    then show ?thesis by (simp add: get avail_def Some)
  next
    case False
    have "(i, b) \<in> set (tl_buckets l)" using Some by (rule map_of_SomeD)
    then have tok: "0 \<le> bk_tokens b" using assms(1) by (auto simp: limiter_inv_def)
    have rate: "0 < tl_rate l" "tl_capacity l \<le> tl_idle_ttl l * tl_rate l" using assms(1) by (auto simp: limiter_inv_def)
    have "tl_idle_ttl l * tl_rate l \<le> max 0 (now - bk_updated_at b) * tl_rate l"
      using False rate by (intro mult_right_mono) auto
    then have "tl_capacity l \<le> bk_tokens b + max 0 (now - bk_updated_at b) * tl_rate l" using rate(2) tok by linarith
    then have "refilled l now b = tl_capacity l" unfolding refilled_def by (rule min_absorb1)
    then show ?thesis using False by (simp add: get avail_def Some)
  qed
qed

lemma in_set_tl_D: "x \<in> set (tl xs) \<Longrightarrow> x \<in> set xs"
  by (cases xs) auto

lemma live_buckets_sub:
  assumes "limiter_inv t l"
  shows "set (live_buckets now l) \<subseteq> set (tl_buckets l)" and "dict_wf (live_buckets now l)"
    and "sorted (map (bk_updated_at \<circ> snd) (live_buckets now l))" and "length (live_buckets now l) \<le> tl_max_identities l"
proof -
  have dict: "dict_wf (tl_buckets l)" "sorted (map (bk_updated_at \<circ> snd) (tl_buckets l))" "length (tl_buckets l) \<le> tl_max_identities l"
    using assms by (auto simp: limiter_inv_def)
  show "set (live_buckets now l) \<subseteq> set (tl_buckets l)" by (auto simp: live_buckets_filter [OF assms])
  show "dict_wf (live_buckets now l)" using dict(1) by (simp add: live_buckets_filter [OF assms] distinct_map_filter)
  show "sorted (map (bk_updated_at \<circ> snd) (live_buckets now l))"
    using dict(2) by (simp add: live_buckets_filter [OF assms] sorted_filter)
  show "length (live_buckets now l) \<le> tl_max_identities l"
    unfolding live_buckets_filter [OF assms] using dict(3) length_filter_le le_trans by blast
qed

text \<open>The dictionary after the admission part of \<^verbatim>\<open>consume\<close>: the identity's bucket is taken out.\<close>

definition other_buckets :: "string \<Rightarrow> rat \<Rightarrow> limiter \<Rightarrow> (string, bucket) dict" where
  "other_buckets i now l =
     (case dict_get (live_buckets now l) i of
        None \<Rightarrow> if tl_max_identities l \<le> length (live_buckets now l) then tl (live_buckets now l) else live_buckets now l
      | Some _ \<Rightarrow> dict_pop i (live_buckets now l))"

lemma limiter_consume_eq:
  assumes "limiter_inv t l" and "t \<le> now"
  shows "limiter_consume i now l =
    (let a = avail l i now; put = (\<lambda>x. l\<lparr>tl_buckets := other_buckets i now l @ [(i, \<lparr>bk_tokens = x, bk_updated_at = now\<rparr>)]\<rparr>)
     in if 1 \<le> a then (put (a - 1), Inr ()) else (put a, Inl (rate_limit_error (\<lfloor>(1 - a) / tl_rate l\<rfloor> + 1))))"
proof -
  have rate: "tl_rate l \<noteq> 0" using assms(1) by (auto simp: limiter_inv_def)
  show ?thesis
  proof (cases "dict_get (live_buckets now l) i")
    case None
    then have "avail l i now = tl_capacity l" using live_avail [OF assms, of i] by simp
    with None rate show ?thesis
      by (simp add: limiter_consume_def live_buckets_def [symmetric] other_buckets_def Let_def)
  next
    case (Some b)
    then have "avail l i now = refilled l now b" using live_avail [OF assms, of i] by simp
    with Some rate show ?thesis
      by (simp add: limiter_consume_def live_buckets_def [symmetric] other_buckets_def Let_def refilled_def)
  qed
qed

lemma other_buckets_props:
  assumes "limiter_inv t l"
  shows "set (other_buckets i now l) \<subseteq> set (live_buckets now l)" and "dict_wf (other_buckets i now l)"
    and "i \<notin> set (dict_keys (other_buckets i now l))" and "sorted (map (bk_updated_at \<circ> snd) (other_buckets i now l))"
    and "length (other_buckets i now l) < tl_max_identities l"
proof -
  note live = live_buckets_sub [OF assms, of now]
  have pos: "0 < tl_max_identities l" using assms by (simp add: limiter_inv_def)
  show "set (other_buckets i now l) \<subseteq> set (live_buckets now l)"
    by (auto simp: other_buckets_def AList.delete_eq split: option.splits if_splits dest: in_set_tl_D)
  show "dict_wf (other_buckets i now l)"
    using live(2) by (auto simp: other_buckets_def distinct_delete map_tl distinct_tl split: option.splits)
  show "i \<notin> set (dict_keys (other_buckets i now l))"
  proof (cases "dict_get (live_buckets now l) i")
    case None
    then have "i \<notin> set (dict_keys (live_buckets now l))" by (simp add: map_of_eq_None_iff)
    then show ?thesis using None by (auto simp: other_buckets_def dest!: in_set_tl_D)
  next
    case (Some b)
    then show ?thesis unfolding other_buckets_def by (simp only: option.case dict_keys_pop) simp
  qed
  show "sorted (map (bk_updated_at \<circ> snd) (other_buckets i now l))"
    using live(3) by (auto simp: other_buckets_def AList.delete_eq sorted_filter map_tl sorted_tl split: option.splits)
  show "length (other_buckets i now l) < tl_max_identities l"
  proof (cases "dict_get (live_buckets now l) i")
    case None
    then show ?thesis using live(4) pos by (auto simp: other_buckets_def)
  next
    case (Some b)
    then have "i \<in> set (dict_keys (live_buckets now l))" by (metis map_of_eq_None_iff option.distinct(1) set_map)
    then have "length (dict_pop i (live_buckets now l)) < length (live_buckets now l)"
      by (auto simp: AList.delete_eq intro!: length_filter_less)
    then show ?thesis using live(4) Some by (simp add: other_buckets_def)
  qed
qed

lemma limiter_consume_fields:
  assumes "limiter_consume i now l = (l', res)"
  shows "tl_rate l' = tl_rate l" "tl_capacity l' = tl_capacity l" "tl_max_identities l' = tl_max_identities l"
    "tl_idle_ttl l' = tl_idle_ttl l"
  using assms by (auto simp: limiter_consume_def Let_def split: option.splits if_splits)

lemma avail_bounds:
  assumes "limiter_inv t l"
  shows "0 \<le> avail l i now" and "avail l i now \<le> tl_capacity l"
proof -
  have "0 \<le> refilled l now b" if "dict_get (tl_buckets l) i = Some b" for b
  proof -
    have "(i, b) \<in> set (tl_buckets l)" using that by (rule map_of_SomeD)
    then have "0 \<le> bk_tokens b" using assms by (auto simp: limiter_inv_def)
    moreover have "0 \<le> max 0 (now - bk_updated_at b) * tl_rate l" using assms by (auto simp: limiter_inv_def)
    ultimately show ?thesis using assms by (auto simp: refilled_def limiter_inv_def)
  qed
  then show "0 \<le> avail l i now" using assms by (auto simp: avail_def limiter_inv_def split: option.splits)
  show "avail l i now \<le> tl_capacity l" by (auto simp: avail_def refilled_def split: option.splits)
qed

lemma limiter_consume_inv:
  assumes "limiter_inv t l" and "t \<le> now" and "limiter_consume i now l = (l', res)"
  shows "limiter_inv now l'"
proof -
  note other = other_buckets_props [OF assms(1), of i now] and live = live_buckets_sub [OF assms(1), of now]
  note fields = limiter_consume_fields [OF assms(3)]
  obtain x where x: "tl_buckets l' = other_buckets i now l @ [(i, \<lparr>bk_tokens = x, bk_updated_at = now\<rparr>)]" "0 \<le> x" "x \<le> tl_capacity l"
    using assms(3) avail_bounds [OF assms(1), of i now]
    by (auto simp: limiter_consume_eq [OF assms(1,2)] Let_def split: if_splits)
  have old: "0 \<le> bk_tokens b \<and> bk_tokens b \<le> tl_capacity l \<and> bk_updated_at b \<le> now" if "(j, b) \<in> set (other_buckets i now l)" for j b
  proof -
    have "(j, b) \<in> set (tl_buckets l)" using that other(1) live(1) by blast
    then show ?thesis using assms(1,2) by (auto simp: limiter_inv_def)
  qed
  have "sorted (map (bk_updated_at \<circ> snd) (tl_buckets l'))"
    using other(4) old by (auto simp: x(1) sorted_append)
  moreover have "\<forall>(j, b) \<in> set (tl_buckets l'). 0 \<le> bk_tokens b \<and> bk_tokens b \<le> tl_capacity l \<and> bk_updated_at b \<le> now"
    using old x(2,3) by (auto simp: x(1))
  moreover have "dict_wf (tl_buckets l')" "length (tl_buckets l') \<le> tl_max_identities l"
    using other by (auto simp: x(1))
  ultimately show ?thesis using assms(1) by (simp add: limiter_inv_def fields)
qed

text \<open>
  A request evicts an identity when that identity's bucket is not idle before the request
  and not in the table after it.
\<close>

definition evicts :: "string \<Rightarrow> string \<Rightarrow> rat \<Rightarrow> limiter \<Rightarrow> bool" where
  "evicts j i now l \<longleftrightarrow> j \<noteq> i
     \<and> (case dict_get (tl_buckets l) j of None \<Rightarrow> False | Some b \<Rightarrow> now - tl_idle_ttl l \<le> bk_updated_at b)
     \<and> dict_get (tl_buckets (fst (limiter_consume i now l))) j = None"

fun evictions :: "string \<Rightarrow> (string \<times> rat) list \<Rightarrow> limiter \<Rightarrow> nat" where
  "evictions j [] l = 0"
| "evictions j ((i, now) # rs) l =
     (if evicts j i now l then 1 else 0) + evictions j rs (fst (limiter_consume i now l))"

lemma live_get:
  assumes "limiter_inv t l"
  shows "dict_get (live_buckets now l) j =
     (case dict_get (tl_buckets l) j of None \<Rightarrow> None
      | Some b \<Rightarrow> if now - tl_idle_ttl l \<le> bk_updated_at b then Some b else None)"
  using assms by (simp add: live_buckets_filter [OF assms] dict_get_filter_val limiter_inv_def)

text \<open>The account of one call: who pays, and who is forgotten.\<close>

lemma limiter_consume_avail:
  assumes inv: "limiter_inv t l" and le: "t \<le> now" and run: "limiter_consume i now l = (l', res)"
  shows "(res = Inr ()) = (1 \<le> avail l i now)"
    and "avail l' j now \<le> avail l j now - (if j = i \<and> res = Inr () then 1 else 0) + (if evicts j i now l then tl_capacity l else 0)"
    and "dict_get (live_buckets now l) i \<noteq> None \<or> length (live_buckets now l) < tl_max_identities l \<Longrightarrow> \<not> evicts j i now l"
proof -
  note fields = limiter_consume_fields [OF run] and other = other_buckets_props [OF inv, of i now]
  note eq = run [unfolded limiter_consume_eq [OF inv le] Let_def]
  show ok: "(res = Inr ()) = (1 \<le> avail l i now)" using eq by (auto split: if_splits)
  define x where "x = avail l i now - (if res = Inr () then 1 else 0)"
  have l': "tl_buckets l' = other_buckets i now l @ [(i, \<lparr>bk_tokens = x, bk_updated_at = now\<rparr>)]"
    using eq ok by (auto simp: x_def split: if_splits)
  have get: "dict_get (tl_buckets l') j = dict_get (other_buckets i now l) j" if "j \<noteq> i"
    using that by (simp add: l' map_add_def split: option.splits)
  have pop: "dict_get (other_buckets i now l) j = dict_get (live_buckets now l) j"
    if "j \<noteq> i" "dict_get (live_buckets now l) i \<noteq> None \<or> length (live_buckets now l) < tl_max_identities l"
    using that by (auto simp: other_buckets_def split: option.splits)
  show "\<not> evicts j i now l"
    if "dict_get (live_buckets now l) i \<noteq> None \<or> length (live_buckets now l) < tl_max_identities l"
    using pop [OF _ that] get run by (auto simp: evicts_def live_get [OF inv] split: option.splits)
  have cap: "refilled l' now b = refilled l now b" for b by (simp add: refilled_def fields)
  show "avail l' j now \<le> avail l j now - (if j = i \<and> res = Inr () then 1 else 0) + (if evicts j i now l then tl_capacity l else 0)"
  proof (cases "j = i")
    case True
    have "dict_get (tl_buckets l') i = Some \<lparr>bk_tokens = x, bk_updated_at = now\<rparr>"
      using other(3) by (simp add: l' map_add_Some_iff map_of_eq_None_iff)
    then have "avail l' i now = min (tl_capacity l) x" by (simp add: avail_def cap refilled_def fields)
    also have "\<dots> = x" using avail_bounds(2) [OF inv, of i now] by (auto simp: x_def)
    finally show ?thesis using True by (simp add: x_def evicts_def)
  next
    case False
    show ?thesis
    proof (cases "evicts j i now l")
      case True
      then have "avail l' j now = tl_capacity l" using run by (simp add: avail_def fields evicts_def)
      then show ?thesis using True False avail_bounds(1) [OF inv, of j now] by simp
    next
      case kept: False
      have "dict_get (other_buckets i now l) j = dict_get (live_buckets now l) j"
      proof (cases "dict_get (live_buckets now l) i \<noteq> None \<or> length (live_buckets now l) < tl_max_identities l")
        case full: False
        then have tl: "other_buckets i now l = tl (live_buckets now l)" by (simp add: other_buckets_def)
        show ?thesis
        proof (cases "live_buckets now l")
          case (Cons e es)
          have "j = fst e \<Longrightarrow> dict_get (other_buckets i now l) j = None"
            using live_buckets_sub(2) [OF inv, of now] by (simp add: tl Cons map_of_eq_None_iff)
          moreover have "j = fst e \<Longrightarrow> dict_get (live_buckets now l) j \<noteq> None" by (cases e) (simp add: Cons)
          ultimately have "j \<noteq> fst e"
            using kept False get run live_get [OF inv, of now j]
            by (auto simp: evicts_def split: option.splits if_splits)
          then show ?thesis by (cases e) (simp add: tl Cons)
        qed (simp add: tl)
      qed (use False pop in simp)
      then have "avail l' j now = (case dict_get (live_buckets now l) j of None \<Rightarrow> tl_capacity l | Some b \<Rightarrow> refilled l now b)"
        using get [OF False] by (simp add: avail_def fields cap split: option.splits)
      then show ?thesis using live_avail [OF inv le, of j] False kept by simp
    qed
  qed
qed

lemma avail_grows:
  assumes "limiter_inv t l" and "t \<le> u"
  shows "avail l i u \<le> avail l i t + (u - t) * tl_rate l"
proof (cases "dict_get (tl_buckets l) i")
  case None
  then show ?thesis using assms by (auto simp: avail_def limiter_inv_def)
next
  case (Some b)
  then have "(i, b) \<in> set (tl_buckets l)" by (rule map_of_SomeD)
  then have "bk_updated_at b \<le> t" "0 < tl_rate l" using assms(1) by (auto simp: limiter_inv_def)
  then have pos: "0 \<le> (u - t) * tl_rate l"
    and split: "max 0 (u - bk_updated_at b) * tl_rate l = max 0 (t - bk_updated_at b) * tl_rate l + (u - t) * tl_rate l"
    using assms(2) by (simp_all add: algebra_simps)
  have "min c (a + d) \<le> min c a + d" if "0 \<le> d" for a c d :: rat using that by linarith
  from this [OF pos] show ?thesis by (simp add: avail_def Some refilled_def split add.assoc [symmetric])
qed

text \<open>A run of requests: the instants at which the given identity was admitted.\<close>

fun run_limiter :: "(string \<times> rat) list \<Rightarrow> limiter \<Rightarrow> limiter \<times> (string \<times> rat) list" where
  "run_limiter [] l = (l, [])"
| "run_limiter ((i, now) # rs) l =
     (case limiter_consume i now l of
        (l1, res) \<Rightarrow> (case run_limiter rs l1 of
           (l2, admitted) \<Rightarrow> (l2, if res = Inr () then (i, now) # admitted else admitted)))"

text \<open>
  A refilled bucket is the only thing an identity can gain besides what it is entitled to:
  one whole burst per eviction.
\<close>

lemma run_limiter_bound:
  assumes "limiter_inv t l" and "sorted (t # map snd rs)" and "\<forall>r \<in> set rs. snd r \<le> u" and "t \<le> u"
    and "run_limiter rs l = (l', admitted)"
  shows "of_nat (length (filter (\<lambda>(i, _). i = j) admitted)) \<le>
    avail l j t + (u - t) * tl_rate l + of_nat (evictions j rs l) * tl_capacity l"
  using assms
proof (induction rs arbitrary: t l l' admitted)
  case Nil
  then show ?case using avail_bounds(1) [OF Nil.prems(1), of j t] by (auto simp: limiter_inv_def)
next
  case (Cons r rs)
  obtain i now where r: "r = (i, now)" by (cases r)
  obtain l1 res where step: "limiter_consume i now l = (l1, res)" by fastforce
  obtain l2 rest where more: "run_limiter rs l1 = (l2, rest)" by fastforce
  have le: "t \<le> now" "now \<le> u" using Cons.prems(2,3) r by auto
  note inv = Cons.prems(1) and fields = limiter_consume_fields [OF step]
  note acc = limiter_consume_avail(2) [OF inv le(1) step, of j]
  have IH: "of_nat (length (filter (\<lambda>(i, _). i = j) rest)) \<le>
      avail l1 j now + (u - now) * tl_rate l1 + of_nat (evictions j rs l1) * tl_capacity l1"
    by (rule Cons.IH [OF limiter_consume_inv [OF inv le(1) step] _ _ le(2) more]) (use Cons.prems r in auto)
  have grow: "avail l j now \<le> avail l j t + (now - t) * tl_rate l" by (rule avail_grows [OF inv le(1)])
  have adm: "admitted = (if res = Inr () then (i, now) # rest else rest)" using Cons.prems(5) by (simp add: r step more)
  have "of_nat (length (filter (\<lambda>(i, _). i = j) admitted)) =
      of_nat (length (filter (\<lambda>(i, _). i = j) rest)) + (if j = i \<and> res = Inr () then 1 else 0 :: rat)"
    by (simp add: adm)
  also have "\<dots> \<le> avail l j now + (u - now) * tl_rate l + of_nat (evictions j (r # rs) l) * tl_capacity l"
  proof -
    have "of_nat (evictions j (r # rs) l) * tl_capacity l =
        (if evicts j i now l then tl_capacity l else 0) + of_nat (evictions j rs l1) * tl_capacity l"
      by (simp add: r step algebra_simps)
    then show ?thesis using IH acc by (simp only: fields)
  qed
  also have "\<dots> \<le> avail l j t + (u - t) * tl_rate l + of_nat (evictions j (r # rs) l) * tl_capacity l"
    using grow by (simp add: algebra_simps)
  finally show ?case .
qed

text \<open>Nobody is evicted while the identities seen fit into the table.\<close>

lemma run_limiter_room:
  assumes "limiter_inv t l" and "sorted (t # map snd rs)"
    and "set (dict_keys (tl_buckets l)) \<union> fst ` set rs \<subseteq> S" and "finite S" and "card S \<le> tl_max_identities l"
  shows "evictions j rs l = 0"
  using assms
proof (induction rs arbitrary: t l)
  case (Cons r rs)
  obtain i now where r: "r = (i, now)" by (cases r)
  obtain l1 res where step: "limiter_consume i now l = (l1, res)" by fastforce
  have le: "t \<le> now" using Cons.prems(2) r by auto
  note inv = Cons.prems(1) and fields = limiter_consume_fields [OF step]
  note other = other_buckets_props [OF inv, of i now] and live = live_buckets_sub [OF inv, of now]
  have keys: "set (dict_keys (live_buckets now l)) \<subseteq> S" "i \<in> S" using live(1) Cons.prems(3) r by auto
  have "dict_get (live_buckets now l) i \<noteq> None \<or> length (live_buckets now l) < tl_max_identities l"
  proof (rule disjCI)
    assume "\<not> length (live_buckets now l) < tl_max_identities l"
    then have "card S \<le> card (set (dict_keys (live_buckets now l)))"
      using Cons.prems(5) distinct_card [OF live(2)] by simp
    with keys have "i \<in> set (dict_keys (live_buckets now l))" using card_seteq [OF Cons.prems(4) keys(1)] by simp
    then show "dict_get (live_buckets now l) i \<noteq> None" by (simp add: map_of_eq_None_iff)
  qed
  then have none: "\<not> evicts j i now l" by (rule limiter_consume_avail(3) [OF inv le step])
  have "set (dict_keys (tl_buckets l1)) \<subseteq> insert i (set (dict_keys (tl_buckets l)))"
  proof -
    have "set (other_buckets i now l) \<subseteq> set (tl_buckets l)" using other(1) live(1) by blast
    then have "fst ` set (other_buckets i now l) \<subseteq> fst ` set (tl_buckets l)" by (rule image_mono)
    moreover have "set (dict_keys (tl_buckets l1)) = insert i (fst ` set (other_buckets i now l))"
      using step by (auto simp: limiter_consume_eq [OF inv le] Let_def split: if_splits)
    ultimately show ?thesis by auto
  qed
  then have sub: "set (dict_keys (tl_buckets l1)) \<union> fst ` set rs \<subseteq> S" using Cons.prems(3) r by auto
  have "evictions j rs l1 = 0"
    by (rule Cons.IH [OF limiter_consume_inv [OF inv le step] _ sub Cons.prems(4)]) (use Cons.prems r fields in auto)
  then show ?case using none by (simp add: r step)
qed simp

subsection \<open>The table of a limiter\<close>

lemma filter_drop: "filter P (drop n xs) = drop (length (filter P (take n xs))) (filter P xs)"
proof -
  have "filter P xs = filter P (take n xs) @ filter P (drop n xs)" by (metis append_take_drop_id filter_append)
  then show ?thesis by simp
qed

lemma remdups_snoc: "remdups (xs @ [i]) = filter (\<lambda>x. x \<noteq> i) (remdups xs) @ [i]"
  by (induction xs) auto

lemma consume_other:
  "limiter_consume i now l = (l', res) \<Longrightarrow> dict_keys (tl_buckets l') = dict_keys (other_buckets i now l) @ [i]"
  by (auto simp: limiter_consume_def other_buckets_def live_buckets_def Let_def split: option.splits if_splits)

lemma other_keys:
  "\<exists>n. dict_keys (other_buckets i now l) = filter (\<lambda>k. k \<noteq> i) (drop n (dict_keys (tl_buckets l)))"
proof -
  obtain n where n: "live_buckets now l = drop n (tl_buckets l)"
    unfolding live_buckets_def by (metis dropWhile_eq_drop)
  show ?thesis
  proof (cases "dict_get (live_buckets now l) i")
    case None
    then have new: "i \<notin> set (drop n (dict_keys (tl_buckets l)))" by (simp add: n map_of_eq_None_iff drop_map)
    have sub: "set (drop (Suc n) (dict_keys (tl_buckets l))) \<subseteq> set (drop n (dict_keys (tl_buckets l)))"
      by (rule set_drop_subset_set_drop) simp
    have "\<exists>m \<in> {n, Suc n}. other_buckets i now l = drop m (tl_buckets l)"
      using None by (auto simp: other_buckets_def n tl_drop drop_Suc)
    then obtain m where m: "m \<in> {n, Suc n}" "other_buckets i now l = drop m (tl_buckets l)" by blast
    with new sub have "i \<notin> set (drop m (dict_keys (tl_buckets l)))" by blast
    then have "filter (\<lambda>k. k \<noteq> i) (drop m (dict_keys (tl_buckets l))) = drop m (dict_keys (tl_buckets l))"
      by (intro filter_True) auto
    then show ?thesis using m(2) by (auto simp: drop_map intro!: exI [of _ m])
  next
    case (Some b)
    then show ?thesis
      by (intro exI [of _ n]) (simp add: other_buckets_def n AList.delete_eq filter_map comp_def split_def drop_map eq_commute [of _ i])
  qed
qed

lemma live_length: "length (live_buckets now l) \<le> length (tl_buckets l)"
  by (simp add: live_buckets_def length_dropWhile_le)

lemma other_length:
  assumes "0 < tl_max_identities l" and "length (tl_buckets l) \<le> tl_max_identities l"
  shows "length (other_buckets i now l) < tl_max_identities l"
proof (cases "dict_get (live_buckets now l) i")
  case None
  then show ?thesis using assms live_length [of now l] by (auto simp: other_buckets_def)
next
  case (Some b)
  then have "i \<in> set (dict_keys (live_buckets now l))" by (metis map_of_eq_None_iff option.distinct(1) set_map)
  then have "length (dict_pop i (live_buckets now l)) < length (live_buckets now l)"
    by (auto simp: AList.delete_eq intro!: length_filter_less)
  then show ?thesis using assms live_length [of now l] Some by (simp add: other_buckets_def)
qed

lemma consume_size:
  assumes "dict_wf (tl_buckets l)" and "0 < tl_max_identities l" and "length (tl_buckets l) \<le> tl_max_identities l"
    and "limiter_consume i now l = (l', res)"
  shows "dict_wf (tl_buckets l') \<and> length (tl_buckets l') \<le> tl_max_identities l"
proof -
  obtain n where n: "dict_keys (other_buckets i now l) = filter (\<lambda>k. k \<noteq> i) (drop n (dict_keys (tl_buckets l)))"
    using other_keys by blast
  have "dict_wf (tl_buckets l')"
    unfolding consume_other [OF assms(4)] n using assms(1) by simp
  moreover have "length (tl_buckets l') = Suc (length (other_buckets i now l))"
    using arg_cong [OF consume_other [OF assms(4)], of length] by simp
  ultimately show ?thesis using other_length [OF assms(2,3), of i now] by simp
qed

text \<open>An eviction needs a full table and a new identity, and takes the first of the table.\<close>

lemma evicts_first:
  assumes "length (tl_buckets l) \<le> tl_max_identities l" and "evicts j i now l"
  shows "length (tl_buckets l) = tl_max_identities l \<and> i \<notin> set (dict_keys (tl_buckets l))
    \<and> (\<exists>rest. dict_keys (tl_buckets l) = j # rest)"
proof -
  obtain l' res where step: "limiter_consume i now l = (l', res)" by fastforce
  obtain b where b: "dict_get (tl_buckets l) j = Some b" "now - tl_idle_ttl l \<le> bk_updated_at b" "j \<noteq> i"
    and gone: "dict_get (tl_buckets l') j = None"
    using assms(2) step by (auto simp: evicts_def split: option.splits)
  have "(j, b) \<in> set (takeWhile (\<lambda>(_, b). bk_updated_at b < now - tl_idle_ttl l) (tl_buckets l)) \<or> (j, b) \<in> set (live_buckets now l)"
    using map_of_SomeD [OF b(1)] unfolding live_buckets_def by (metis Un_iff set_append takeWhile_dropWhile_id)
  then have live: "j \<in> set (dict_keys (live_buckets now l))"
    using b(2) set_takeWhileD by force
  have out: "j \<notin> set (dict_keys (other_buckets i now l))"
    using gone consume_other [OF step] by (metis UnI1 map_of_eq_None_iff set_append set_map)
  have none: "dict_get (live_buckets now l) i = None"
  proof (rule ccontr)
    assume "dict_get (live_buckets now l) i \<noteq> None"
    then have "other_buckets i now l = dict_pop i (live_buckets now l)" by (auto simp: other_buckets_def)
    with out live b(3) show False by (metis DiffI dict_keys_pop singletonD)
  qed
  have full: "tl_max_identities l \<le> length (live_buckets now l)"
    and tl: "other_buckets i now l = tl (live_buckets now l)"
    using out live none by (auto simp: other_buckets_def split: if_splits)
  then have "length (dropWhile (\<lambda>(_, b). bk_updated_at b < now - tl_idle_ttl l) (tl_buckets l)) = length (tl_buckets l)"
    using assms(1) live_length [of now l] by (simp add: live_buckets_def)
  then have same: "live_buckets now l = tl_buckets l"
    unfolding live_buckets_def by (metis append_self_conv2 length_0_conv length_append takeWhile_dropWhile_id add_eq_self_zero add.commute)
  obtain e es where e: "tl_buckets l = e # es" using live same by (cases "tl_buckets l") auto
  have "j = fst e" using out live tl by (simp add: same e)
  moreover have "i \<notin> set (dict_keys (tl_buckets l))" using none by (simp only: same map_of_eq_None_iff set_map) simp
  ultimately show ?thesis using full assms(1) by (simp add: same e)
qed

text \<open>A limiter's table after a run: the identities most recently seen, in the order of their last request.\<close>

lemma run_limiter_keys:
  assumes "dict_wf (tl_buckets l)" and "0 < tl_max_identities l" and "length (tl_buckets l) \<le> tl_max_identities l"
    and "run_limiter rs l = (l', admitted)" and "dict_keys (tl_buckets l) = drop k (remdups xs)"
  shows "dict_wf (tl_buckets l') \<and> length (tl_buckets l') \<le> tl_max_identities l
    \<and> tl_max_identities l' = tl_max_identities l
    \<and> (\<exists>k. dict_keys (tl_buckets l') = drop k (remdups (xs @ map fst rs)))"
  using assms
proof (induction rs arbitrary: l l' admitted k xs)
  case (Cons r rs)
  obtain i now where r: "r = (i, now)" by (cases r)
  obtain l1 res where step: "limiter_consume i now l = (l1, res)" by fastforce
  obtain l2 rest where more: "run_limiter rs l1 = (l2, rest)" by fastforce
  obtain n where n: "dict_keys (tl_buckets l1) = filter (\<lambda>k. k \<noteq> i) (drop n (dict_keys (tl_buckets l))) @ [i]"
    using other_keys consume_other [OF step] by metis
  let ?k = "length (filter (\<lambda>x. x \<noteq> i) (take (n + k) (remdups xs)))"
  have "dict_keys (tl_buckets l1) = drop ?k (filter (\<lambda>x. x \<noteq> i) (remdups xs)) @ [i]"
    unfolding n Cons.prems(5) drop_drop by (subst filter_drop) simp
  also have "\<dots> = drop ?k (remdups (xs @ [i]))"
  proof -
    have "?k \<le> length (filter (\<lambda>x. x \<noteq> i) (remdups xs))"
      by (metis append_take_drop_id filter_append le_add1 length_append)
    then show ?thesis by (simp add: remdups_snoc)
  qed
  finally have this: "dict_keys (tl_buckets l1) = drop ?k (remdups (xs @ [i]))" .
  with Cons.IH [OF _ _ _ more this] consume_size [OF Cons.prems(1-3) step] limiter_consume_fields [OF step] Cons.prems
  show ?case by (simp add: r step more)
qed auto

subsection \<open>Properties\<close>

text \<open>
  C22. Rate limiting: for any interleaving of requests of any identities on a clock that
  does not run backwards, with limits under which an idle bucket has refilled by the time
  it is dropped, the number of requests admitted for one identity between the start and
  any later instant \<^verbatim>\<open>u\<close> is at most the burst capacity plus the rate times the elapsed
  time, plus one more burst for every time its bucket was evicted from the full table to
  make room for another identity; and nobody is evicted while the identities seen fit.
\<close>

theorem limiter_bounds_admissions:
  assumes "mk_limiter per_minute capacity max_ids ttl = Inr l" and "0 < per_minute" and "0 < capacity"
    and "of_int capacity \<le> ttl * (of_int per_minute / 60)"
    and "sorted (t # map snd rs)" and "\<forall>r \<in> set rs. snd r \<le> u" and "t \<le> u"
    and "run_limiter rs l = (l', admitted)"
  shows "of_nat (length (filter (\<lambda>(i, _). i = j) admitted)) \<le>
      (of_int capacity * (1 + of_nat (evictions j rs l)) + (u - t) * of_int per_minute / 60 :: rat)
    \<and> (int (card (fst ` set rs)) \<le> max_ids \<longrightarrow> evictions j rs l = 0)"
proof -
  have l: "l = \<lparr>tl_rate = of_int per_minute / 60, tl_capacity = of_int capacity, tl_max_identities = nat max_ids,
      tl_idle_ttl = ttl, tl_buckets = []\<rparr>" and pos: "0 < max_ids"
    using assms(1) by (auto simp: mk_limiter_def raise_if_def split: if_splits)
  have inv: "limiter_inv t l" using assms(2-4) pos by (simp add: limiter_inv_def l)
  have "evictions j rs l = 0" if "int (card (fst ` set rs)) \<le> max_ids"
    by (rule run_limiter_room [OF inv assms(5), of "fst ` set rs"]) (use that in \<open>auto simp: l\<close>)
  moreover have "of_nat (length (filter (\<lambda>(i, _). i = j) admitted)) \<le>
      avail l j t + (u - t) * tl_rate l + of_nat (evictions j rs l) * tl_capacity l"
    by (rule run_limiter_bound [OF inv assms(5-8)])
  moreover have "avail l j t = of_int capacity" "tl_rate l = of_int per_minute / 60" "tl_capacity l = of_int capacity"
    by (simp_all add: avail_def l)
  ultimately show ?thesis by (simp add: algebra_simps)
qed

definition sample_limiter :: limiter where
  "sample_limiter = \<lparr>tl_rate = 1, tl_capacity = 1, tl_max_identities = 1, tl_idle_ttl = 600, tl_buckets = []\<rparr>"

text \<open>A table of one: the second identity evicts the first, which is then admitted afresh.\<close>

theorem limiter_bounds_admissions_witness:
  "of_nat (length (filter (\<lambda>(i, _). i = ''a'') (snd (run_limiter [(''a'', 0), (''b'', 0), (''a'', 0)] sample_limiter)))) \<le>
     (of_int 1 * (1 + of_nat (evictions ''a'' [(''a'', 0), (''b'', 0), (''a'', 0)] sample_limiter)) + (0 - 0) * of_int 60 / 60 :: rat)
   \<and> evictions ''a'' [(''a'', 0), (''b'', 0), (''a'', 0)] sample_limiter = 1
   \<and> length (filter (\<lambda>(i, _). i = ''a'') (snd (run_limiter [(''a'', 0), (''b'', 0), (''a'', 0)] sample_limiter))) = 2"
proof -
  have run: "run_limiter [(''a'', 0), (''b'', 0), (''a'', 0)] sample_limiter =
      (fst (run_limiter [(''a'', 0), (''b'', 0), (''a'', 0)] sample_limiter),
       snd (run_limiter [(''a'', 0), (''b'', 0), (''a'', 0)] sample_limiter))" by simp
  have mk: "mk_limiter 60 1 1 600 = Inr sample_limiter" by (simp add: mk_limiter_def sample_limiter_def)
  have "evictions ''a'' [(''a'', 0), (''b'', 0), (''a'', 0)] sample_limiter = 1"
    "length (filter (\<lambda>(i, _). i = ''a'') (snd (run_limiter [(''a'', 0), (''b'', 0), (''a'', 0)] sample_limiter))) = 2"
    by (simp_all add: sample_limiter_def limiter_consume_def evicts_def Let_def)
  then show ?thesis using limiter_bounds_admissions [OF mk _ _ _ _ _ _ run, of 0 0 "''a''"] by simp
qed

text \<open>
  C23. The memory of a limiter, for any requests at any clock readings and any rates: the
  table never holds more than the configured number of identities, it holds exactly a
  most recent part of those seen, ordered by their last request, and a further request
  evicts an identity that is not idle only when the table is full, the request is for an
  identity not in it, and the evicted one is the least recently seen of the table.
\<close>

theorem limiter_table_recent:
  assumes "mk_limiter per_minute capacity max_ids ttl = Inr l" and "run_limiter rs l = (l', admitted)"
  shows "int (length (tl_buckets l')) \<le> max_ids
    \<and> (\<exists>k. dict_keys (tl_buckets l') = drop k (remdups (map fst rs)))
    \<and> (evicts j i now l' \<longrightarrow> int (length (tl_buckets l')) = max_ids \<and> i \<notin> set (dict_keys (tl_buckets l'))
         \<and> hd (dict_keys (tl_buckets l')) = j)"
proof -
  have l: "l = \<lparr>tl_rate = of_int per_minute / 60, tl_capacity = of_int capacity, tl_max_identities = nat max_ids,
      tl_idle_ttl = ttl, tl_buckets = []\<rparr>" and pos: "0 < max_ids"
    using assms(1) by (auto simp: mk_limiter_def raise_if_def split: if_splits)
  have run: "dict_wf (tl_buckets l') \<and> length (tl_buckets l') \<le> tl_max_identities l
      \<and> tl_max_identities l' = tl_max_identities l
      \<and> (\<exists>k. dict_keys (tl_buckets l') = drop k (remdups ([] @ map fst rs)))"
    by (rule run_limiter_keys [OF _ _ _ assms(2), of 0]) (use pos in \<open>simp_all add: l\<close>)
  then show ?thesis using evicts_first [of l' j i now] pos by (auto simp: l)
qed

theorem limiter_table_recent_witness:
  "int (length (tl_buckets (fst (run_limiter [(''a'', 5), (''b'', 3)] sample_limiter)))) \<le> 1
   \<and> evicts ''b'' ''c'' 4 (fst (run_limiter [(''a'', 5), (''b'', 3)] sample_limiter))
   \<and> hd (dict_keys (tl_buckets (fst (run_limiter [(''a'', 5), (''b'', 3)] sample_limiter)))) = ''b''"
proof -
  have run: "run_limiter [(''a'', 5), (''b'', 3)] sample_limiter =
      (fst (run_limiter [(''a'', 5), (''b'', 3)] sample_limiter), snd (run_limiter [(''a'', 5), (''b'', 3)] sample_limiter))"
    by simp
  have mk: "mk_limiter 60 1 1 600 = Inr sample_limiter" by (simp add: mk_limiter_def sample_limiter_def)
  have "evicts ''b'' ''c'' 4 (fst (run_limiter [(''a'', 5), (''b'', 3)] sample_limiter))"
    by (simp add: sample_limiter_def limiter_consume_def evicts_def Let_def)
  then show ?thesis using limiter_table_recent [OF mk run, of "''b''" "''c''" 4] by simp
qed

subsection \<open>Runs of the key manager\<close>

text \<open>
  Everything that can happen to a started manager, in any order and with any arguments,
  storage outcomes and clocks: creation, import, update, revocation, and the storage
  coming and going. Generated identifiers (\<^verbatim>\<open>uuid4\<close>) are new.
\<close>

inductive key_step :: "(string \<Rightarrow> string) \<Rightarrow> key_manager \<Rightarrow> key_manager \<Rightarrow> bool" for sha256 where
  Create: "strip key_id \<notin> ak_key_id ` set (km_records m) \<Longrightarrow>
     key_step sha256 m (fst (create_key sha256 token key_id now storage name expires_at m))"
| Import: "distinct (map strip key_ids) \<Longrightarrow> strip ` set key_ids \<inter> ak_key_id ` set (km_records m) = {} \<Longrightarrow>
     key_step sha256 m (fst (import_many sha256 key_ids now storage items m))"
| Update: "key_step sha256 m (fst (update_key now storage key_id name expires_at m))"
| Revoke: "key_step sha256 m (fst (revoke_key now storage key_id m))"
| Availability: "key_step sha256 m (m\<lparr>km_available := up\<rparr>)"

text \<open>What the steps do to the records: some are added, or an active one is replaced.\<close>

inductive record_step :: "key_manager \<Rightarrow> key_manager \<Rightarrow> bool" where
  Same: "km_records m' = km_records m \<Longrightarrow> record_step m m'"
| Added: "add_records None rs m = (m', Inr ()) \<Longrightarrow> distinct (map ak_key_hash rs) \<Longrightarrow> distinct (map ak_key_id rs) \<Longrightarrow>
     \<forall>r \<in> set rs. ak_key_id r \<notin> ak_key_id ` set (km_records m) \<Longrightarrow> record_step m m'"
| Replaced: "active_record key_id m = Some r \<Longrightarrow> ak_key_id r' = ak_key_id r \<Longrightarrow> ak_key_hash r' = ak_key_hash r \<Longrightarrow>
     record_step m (replace_record r' m)"

lemma add_records_cases:
  "add_records storage rs m = (m', res) \<Longrightarrow> (m' = m \<and> (\<exists>e. res = Inl e)) \<or> (add_records None rs m = (m', Inr ()) \<and> res = Inr ())"
  by (auto simp: add_records_def split: if_splits option.splits)

lemma new_record_id: "new_record key_id now name key_hash hint expires_at origin = Inr r \<Longrightarrow> ak_key_id r = strip key_id"
  by (auto simp: new_record_def mk_api_key_def Let_def raise_if_def split: if_splits)

lemma record_from_import_id: "record_from_import sha256 key_id now item = Inr r \<Longrightarrow> ak_key_id r = strip key_id"
  by (auto simp: record_from_import_def split: option.splits sum.splits dest: new_record_id)

lemma imported_ids:
  "res_map (\<lambda>(key_id, item). record_from_import sha256 key_id now item) (zip key_ids items) = Inr rs \<Longrightarrow>
     \<exists>n. map ak_key_id rs = take n (map strip key_ids)"
proof -
  assume "res_map (\<lambda>(key_id, item). record_from_import sha256 key_id now item) (zip key_ids items) = Inr rs"
  then have "list_all2 (\<lambda>x r. ak_key_id r = strip (fst x)) (zip key_ids items) rs"
    unfolding res_map_Inr_iff by (rule list.rel_mono_strong) (auto dest: record_from_import_id)
  then have "map ak_key_id rs = map (strip \<circ> fst) (zip key_ids items)"
    by (induction rule: list_all2_induct) simp_all
  also have "\<dots> = take (min (length key_ids) (length items)) (map strip key_ids)"
    by (simp add: map_map [symmetric] map_fst_zip_take take_map del: map_map)
  finally show ?thesis by blast
qed

lemma key_step_records:
  assumes "key_step sha256 m m'"
  shows "record_step m m'"
  using assms
proof cases
  case (Create key_id token now storage name expires_at)
  let ?run = "create_key sha256 token key_id now storage name expires_at m"
  show ?thesis
  proof (cases "snd ?run")
    case (Inl e)
    then have "fst ?run = m"
      by (auto simp: create_key_def Let_def add_records_def split: sum.splits if_splits option.splits)
    then show ?thesis using Create(1) by (simp add: Same)
  next
    case (Inr out)
    then obtain r raw where run: "?run = (m', Inr (r, raw))" using Create(1) by (cases ?run; cases out) auto
    have "add_records None [r] m = (m', Inr ())"
      using run by (auto simp: create_key_def Let_def split: sum.splits if_splits prod.splits dest: add_records_cases)
    then show ?thesis using create_key_cases(5) [OF run] Create(2) by (intro Added [of "[r]"]) simp_all
  qed
next
  case (Import key_ids now storage items)
  let ?run = "import_many sha256 key_ids now storage items m"
  show ?thesis
  proof (cases "snd ?run")
    case (Inl e)
    then have "fst ?run = m"
      by (auto simp: import_many_def add_records_def split: sum.splits if_splits option.splits)
    then show ?thesis using Import(1) by (simp add: Same)
  next
    case (Inr rs)
    then have run: "?run = (m', Inr rs)" using Import(1) by (cases ?run) auto
    then have added: "add_records None rs m = (m', Inr ())" and hashes: "distinct (map ak_key_hash rs)"
      and recs: "res_map (\<lambda>(key_id, item). record_from_import sha256 key_id now item) (zip key_ids items) = Inr rs"
      by (auto simp: import_many_def split: sum.splits if_splits prod.splits dest: add_records_cases)
    obtain n where ids: "map ak_key_id rs = take n (map strip key_ids)" using imported_ids [OF recs] by blast
    have "distinct (map ak_key_id rs)" unfolding ids using Import(2) by (rule distinct_take)
    moreover have "ak_key_id r \<notin> ak_key_id ` set (km_records m)" if "r \<in> set rs" for r
    proof -
      have "ak_key_id r \<in> set (map ak_key_id rs)" using that by simp
      then have "ak_key_id r \<in> strip ` set key_ids" unfolding ids by (auto dest: in_set_takeD)
      then show ?thesis using Import(3) by blast
    qed
    ultimately show ?thesis using added hashes by (intro Added) auto
  qed
next
  case (Update now storage key_id name expires_at)
  then show ?thesis
    by (auto simp: update_key_def Let_def split: sum.splits if_splits option.splits intro: Same Replaced)
next
  case (Revoke now storage key_id)
  then show ?thesis
    by (auto simp: revoke_key_def split: if_splits option.splits intro: Same Replaced)
qed (auto intro: Same)

text \<open>A digest is dead when a revoked record holds it; then no other record can.\<close>

definition dead :: "string \<Rightarrow> key_manager \<Rightarrow> bool" where
  "dead d m \<longleftrightarrow> keys_inv m \<and> (\<exists>r \<in> set (km_records m). ak_key_hash r = d \<and> ak_revoked_at r \<noteq> None)"

lemma record_step_inv: "record_step m m' \<Longrightarrow> keys_inv m \<Longrightarrow> keys_inv m'"
proof (induction rule: record_step.induct)
  case (Replaced key_id m r r')
  then show ?case using active_record_SomeD [OF Replaced(1)] by (intro replace_record_inv [of m r]) auto
next
  case (Added rs m m')
  then show ?case by (intro add_records_inv [of m None rs m' "Inr ()"]) auto
qed (simp add: keys_inv_def)

lemma record_step_dead:
  assumes "record_step m m'" and "dead d m"
  shows "dead d m'"
proof -
  obtain r where r: "r \<in> set (km_records m)" "ak_key_hash r = d" "ak_revoked_at r \<noteq> None" and inv: "keys_inv m"
    using assms(2) by (auto simp: dead_def)
  from assms(1) have "r \<in> set (km_records m')"
  proof cases
    case Same
    then show ?thesis using r by simp
  next
    case (Added rs)
    then show ?thesis using r by (auto simp: add_records_def split: if_splits)
  next
    case (Replaced key_id x x')
    have "ak_key_id r \<noteq> ak_key_id x'"
    proof
      assume "ak_key_id r = ak_key_id x'"
      then have "r = x"
        using Replaced(3) active_record_SomeD [OF Replaced(2)] by (intro record_of_id [OF inv _ r(1)]) simp_all
      then show False using r(3) active_record_SomeD [OF Replaced(2)] by simp
    qed
    then show ?thesis using r(1) Replaced(1) by (force simp: replace_record_def)
  qed
  then show ?thesis using r record_step_inv [OF assms(1) inv] by (auto simp: dead_def)
qed

lemma dead_unauthenticated: "dead d m \<Longrightarrow> authenticate_digest d t (km_records m) = None"
  unfolding authenticate_digest_None
proof (intro ballI impI)
  fix x assume "dead d m" "x \<in> set (km_records m)" "d = ak_key_hash x"
  then obtain r where "ak_revoked_at r \<noteq> None" "x = r" using hash_of_id [of m _ x] by (fastforce simp: dead_def)
  then show "\<not> is_active x t" by (simp add: is_active_def)
qed

lemma key_steps_dead: "(key_step sha256)\<^sup>*\<^sup>* m m' \<Longrightarrow> dead d m \<Longrightarrow> dead d m'"
  by (induction rule: rtranclp_induct) (auto dest: key_step_records record_step_dead)

text \<open>
  C26. Revocation is final and precise, for a manager whose digests and identifiers are
  unique: after a successful \<^verbatim>\<open>revoke\<close> no sequence of creations, imports (of the same key
  or digest, too), updates, revocations and storage failures ever lets the revoked key's
  digest authenticate again, at any instant; the revocation itself changes nothing for any
  other digest, and a failed one (no such active key, storage unavailable or raising)
  changes nothing. New identifiers are taken to be new.
\<close>

theorem revoke_is_final:
  assumes "keys_inv m"
  shows "case revoke_key now storage key_id m of
      (m', Inl e) \<Rightarrow> m' = m
    | (m', Inr _) \<Rightarrow> \<exists>r \<in> set (km_records m). ak_key_id r = key_id
        \<and> (\<forall>m'' t. (key_step sha256)\<^sup>*\<^sup>* m' m'' \<longrightarrow>
             keys_inv m'' \<and> authenticate_digest (ak_key_hash r) t (km_records m'') = None)
        \<and> (\<forall>d t. d \<noteq> ak_key_hash r \<longrightarrow>
             authenticate_digest d t (km_records m') = authenticate_digest d t (km_records m))"
proof (cases "revoke_key now storage key_id m")
  case (Pair m' res)
  show ?thesis
  proof (cases res)
    case (Inl e)
    then show ?thesis using Pair by (auto simp: revoke_key_def split: if_splits option.splits)
  next
    case (Inr u)
    with Pair obtain r where act: "active_record key_id m = Some r"
      and m': "m' = replace_record (r\<lparr>ak_revoked_at := Some now, ak_updated_at := now\<rparr>) m"
      by (auto simp: revoke_key_def split: if_splits option.splits)
    note r = active_record_SomeD [OF act]
    let ?r' = "r\<lparr>ak_revoked_at := Some now, ak_updated_at := now\<rparr>"
    have inv: "keys_inv m'" unfolding m' by (rule replace_record_inv [OF assms, of r]) (use r in auto)
    have recs: "km_records m' = map (\<lambda>x. if ak_key_id x = ak_key_id r then ?r' else x) (km_records m)"
      by (simp add: m' replace_record_def)
    have same: "x = r" if "x \<in> set (km_records m)" "ak_key_id x = ak_key_id r" for x
      using assms r that by (auto simp: keys_inv_def distinct_map dest: inj_onD)
    have "?r' \<in> set (km_records m')" using r by (force simp: recs)
    then have "dead (ak_key_hash r) m'" using inv by (auto simp: dead_def intro!: bexI [of _ ?r'])
    then have dead: "dead (ak_key_hash r) m''" if "(key_step sha256)\<^sup>*\<^sup>* m' m''" for m''
      using that by (rule key_steps_dead [rotated])
    have "authenticate_digest d t (km_records m') = authenticate_digest d t (km_records m)"
      if "d \<noteq> ak_key_hash r" for d t
    proof -
      have "find_last (\<lambda>x. d = ak_key_hash x \<and> is_active x t) (map (\<lambda>x. if ak_key_id x = ak_key_id r then ?r' else x) rs)
          = find_last (\<lambda>x. d = ak_key_hash x \<and> is_active x t) rs" if "set rs \<subseteq> set (km_records m)" for rs
        using that \<open>d \<noteq> ak_key_hash r\<close> same
        by (induction rs rule: rev_induct) auto
      then show ?thesis by (simp add: authenticate_digest_find recs)
    qed
    moreover have "keys_inv m'' \<and> authenticate_digest (ak_key_hash r) t (km_records m'') = None"
      if "(key_step sha256)\<^sup>*\<^sup>* m' m''" for m'' t
      using dead [OF that] dead_unauthenticated [OF dead [OF that]] by (simp add: dead_def)
    ultimately show ?thesis using Pair Inr r by auto
  qed
qed

text \<open>
  C25. A created key works exactly as asked, for a manager whose digests and identifiers
  are unique and a new generated identifier: after a successful \<^verbatim>\<open>create\<close> the digest of the
  returned raw key (the prefix and the generated token) authenticates, under the requested
  name and the new identifier, at exactly the instants before the requested expiry (always
  when none was requested), every other digest authenticates as before, and the records
  stay unique. The digest function is any that yields text without blanks and upper case.
\<close>

theorem create_then_authenticate:
  assumes "keys_inv m" and "create_key sha256 token key_id now storage name expires_at m = (m', Inr (r, raw))"
    and "strip key_id \<notin> ak_key_id ` set (km_records m)"
    and "lower (strip (''sha256:'' @ sha256 raw)) = ''sha256:'' @ sha256 raw"
  shows "keys_inv m' \<and> raw = ''qp_'' @ token
    \<and> (authenticate_digest (''sha256:'' @ sha256 raw) t (km_records m') =
        (case expires_at of
           None \<Rightarrow> Some \<lparr>ac_key_id = strip key_id, ac_name = strip name, ac_digest = ''sha256:'' @ sha256 raw, ac_expires_at = None\<rparr>
         | Some (Aware e) \<Rightarrow>
             if t < e
             then Some \<lparr>ac_key_id = strip key_id, ac_name = strip name, ac_digest = ''sha256:'' @ sha256 raw, ac_expires_at = Some e\<rparr>
             else None
         | Some (Naive _) \<Rightarrow> None))
    \<and> (d \<noteq> ''sha256:'' @ sha256 raw \<longrightarrow>
        (authenticate_digest d t (km_records m') = None) = (authenticate_digest d t (km_records m) = None))"
proof -
  note c = create_key_cases [OF assms(2)]
  have inv: "keys_inv m'"
    using assms(1) c(2,3) assms(3) c(5)
    by (auto simp: keys_inv_def distinct_map_sort_records)
  have hash: "ak_key_hash r = ''sha256:'' @ sha256 raw" using c(6) assms(4) by simp
  have rin: "r \<in> set (km_records m')" by (simp add: c(2))
  have only: "x = r" if "x \<in> set (km_records m')" "ak_key_hash x = ''sha256:'' @ sha256 raw" for x
    using hash_of_id [OF inv rin that(1)] that(2) hash by simp
  have "authenticate_digest (''sha256:'' @ sha256 raw) t (km_records m') =
      (if is_active r t then Some \<lparr>ac_key_id = ak_key_id r, ac_name = ak_name r, ac_digest = ''sha256:'' @ sha256 raw, ac_expires_at = ak_expires_at r\<rparr> else None)"
  proof (cases "find_last (\<lambda>x. ''sha256:'' @ sha256 raw = ak_key_hash x \<and> is_active x t) (km_records m')")
    case None
    then have "\<not> is_active r t" using rin hash by (auto simp: find_last_None_iff)
    with None show ?thesis by (simp add: authenticate_digest_find)
  next
    case (Some x)
    then have "x = r" "is_active x t" using find_last_SomeD [OF Some] only by auto
    with Some show ?thesis by (simp add: authenticate_digest_find)
  qed
  moreover have "(authenticate_digest d t (km_records m') = None) = (authenticate_digest d t (km_records m) = None)"
    if "d \<noteq> ''sha256:'' @ sha256 raw"
    using that hash by (auto simp: authenticate_digest_None c(2))
  ultimately show ?thesis
    using inv c(1,4,5,7,9) by (auto simp: is_active_def normalize_expiry_def split: option.splits dt_arg.splits)
qed

definition sample_key :: "string \<Rightarrow> string \<Rightarrow> api_key" where
  "sample_key key_id digest = \<lparr>ak_key_id = key_id, ak_name = ''n'', ak_key_hash = digest, ak_key_hint = None, ak_created_at = 0,
     ak_updated_at = 0, ak_expires_at = None, ak_revoked_at = None, ak_origin = ''generated''\<rparr>"

definition sample_manager :: key_manager where
  "sample_manager = \<lparr>km_available = True, km_records = [sample_key ''1'' ''x'', sample_key ''2'' ''y'']\<rparr>"

lemma sample_manager_inv: "keys_inv sample_manager"
  by (simp add: keys_inv_def sample_manager_def sample_key_def)

text \<open>The revoked digest is imported again, with an outage in between.\<close>

definition sample_revoked :: key_manager where
  "sample_revoked = fst (revoke_key 5 None ''1''
     \<lparr>km_available = True, km_records = [sample_key ''1'' zero_digest, sample_key ''2'' ''y'']\<rparr>)"

definition sample_reimport :: key_manager where
  "sample_reimport = fst (import_many (\<lambda>_. []) [''3''] 6 None
     [\<lparr>im_name = ''n'', im_expires_at = None, im_raw_key = None, im_key_hash = Some zero_digest\<rparr>]
     (sample_revoked\<lparr>km_available := False, km_available := True\<rparr>))"

theorem revoke_is_final_witness:
  "authenticate_digest zero_digest 7 (km_records sample_reimport) = None"
proof -
  let ?m = "\<lparr>km_available = True, km_records = [sample_key ''1'' zero_digest, sample_key ''2'' ''y'']\<rparr>"
  have inv: "keys_inv ?m" by (simp add: keys_inv_def sample_key_def zero_digest_def)
  have run: "revoke_key 5 None ''1'' ?m = (sample_revoked, Inr ())"
    by (simp add: sample_revoked_def revoke_key_def active_record_def sample_key_def)
  have ids: "ak_key_id ` set (km_records sample_revoked) = {''1'', ''2''}"
    by (simp add: sample_revoked_def revoke_key_def active_record_def sample_key_def replace_record_def)
  have "strip ''3'' = ''3''" by code_simp
  then have import: "key_step (\<lambda>_. []) (sample_revoked\<lparr>km_available := False, km_available := True\<rparr>) sample_reimport"
    unfolding sample_reimport_def using ids by (intro key_step.Import) simp_all
  have "(key_step (\<lambda>_. []))\<^sup>*\<^sup>* sample_revoked sample_reimport"
    using import key_step.Availability [of "\<lambda>_. []" sample_revoked False]
      key_step.Availability [of "\<lambda>_. []" "sample_revoked\<lparr>km_available := False\<rparr>" True]
    by (meson converse_rtranclp_into_rtranclp r_into_rtranclp)
  moreover obtain r where "r \<in> set (km_records ?m)" "ak_key_id r = ''1''"
    "\<And>m'' t. (key_step (\<lambda>_. []))\<^sup>*\<^sup>* sample_revoked m'' \<Longrightarrow> authenticate_digest (ak_key_hash r) t (km_records m'') = None"
    using revoke_is_final [OF inv, where now = 5 and storage = None and key_id = "''1''" and ?sha256.0 = "\<lambda>_. []"]
    unfolding run prod.case sum.case by blast
  ultimately show ?thesis by (auto simp: sample_key_def)
qed

theorem create_then_authenticate_witness:
  "\<exists>m' r raw. create_key (\<lambda>_. replicate 64 (CHR ''a'')) ''t'' ''3'' 9 None ''n'' (Some (Aware 20)) sample_manager = (m', Inr (r, raw))
     \<and> authenticate_digest (''sha256:'' @ replicate 64 (CHR ''a'')) 19 (km_records m') =
         Some \<lparr>ac_key_id = ''3'', ac_name = ''n'', ac_digest = ''sha256:'' @ replicate 64 (CHR ''a''), ac_expires_at = Some 20\<rparr>
     \<and> authenticate_digest (''sha256:'' @ replicate 64 (CHR ''a'')) 20 (km_records m') = None"
proof -
  let ?sha = "\<lambda>_ :: string. replicate 64 (CHR ''a'')"
  have h: "lower (strip (''sha256:'' @ replicate 64 (CHR ''a''))) = ''sha256:'' @ replicate 64 (CHR ''a'')" by code_simp
  have k: "is_key_hash (''sha256:'' @ replicate 64 (CHR ''a''))" by code_simp
  have n: "strip ''3'' = ''3''" "strip ''n'' = ''n''" "lower (strip ''generated'') = ''generated''"
    "strip (key_hint (''qp_'' @ ''t'')) = ''qp_t...qp_t''" by code_simp+
  have "\<exists>m' r raw. create_key ?sha ''t'' ''3'' 9 None ''n'' (Some (Aware 20)) sample_manager = (m', Inr (r, raw))"
    by (simp add: create_key_def normalize_expiry_def new_record_def mk_api_key_def Let_def h k n add_records_def
        sample_manager_def ensure_unique_def sample_key_def del: append_Cons append.simps)
  then obtain m' r raw where run: "create_key ?sha ''t'' ''3'' 9 None ''n'' (Some (Aware 20)) sample_manager = (m', Inr (r, raw))"
    by blast
  have "strip ''3'' \<notin> ak_key_id ` set (km_records sample_manager)" by (simp add: n sample_manager_def sample_key_def)
  note made = create_then_authenticate [OF sample_manager_inv run this h]
  show ?thesis using run made [of 19] made [of 20] by (auto simp: n)
qed

end
