(* ===== verification/QP_Registry.thy ===== *)
theory QP_Registry
  imports QP_PluginApi QP_Fx QP_Graph
begin

text \<open>
  \<^verbatim>\<open>quickprice/registry.py\<close>: the immutable instrument catalogue assembled from trusted
  plugins. The constructor's loops are recursive functions that thread the dictionaries
  under construction and stop at the first exception; the two cycle checks are the
  depth-first visit of the graph theory. Entry points are third-party objects: what loading
  one yields is an argument.
\<close>

definition normalize_symbol :: "string \<Rightarrow> string" where
  "normalize_symbol value = replace_char (CHR ''/'') (CHR '':'') (upper (strip value))"

text \<open>\<^verbatim>\<open>[A-Z0-9][A-Z0-9._-]*:[A-Z0-9][A-Z0-9._-]*\<close>, matched against the whole string.\<close>

definition symbol_head :: "char \<Rightarrow> bool" where
  "symbol_head c = (let n = (of_char c :: nat) in (65 \<le> n \<and> n \<le> 90) \<or> (48 \<le> n \<and> n \<le> 57))"

definition symbol_char :: "char \<Rightarrow> bool" where
  "symbol_char c = (symbol_head c \<or> c = CHR ''.'' \<or> c = CHR ''_'' \<or> c = CHR ''-'')"

fun symbol_token :: "string \<Rightarrow> bool" where
  "symbol_token [] = False"
| "symbol_token (c # cs) = (symbol_head c \<and> list_all symbol_char cs)"

definition symbol_pattern :: "string \<Rightarrow> bool" where
  "symbol_pattern s =
     (case split_once (CHR '':'') s of
        None \<Rightarrow> False
      | Some (base, quote) \<Rightarrow> symbol_token base \<and> symbol_token quote)"

subsection \<open>One instrument\<close>

definition is_blank :: "string \<Rightarrow> bool" where
  "is_blank s = (strip s = [])"

lemma is_blank_iff [code]: "is_blank s = list_all py_isspace s"
proof -
  have "dropWhile P (rev (dropWhile P s)) = [] \<longleftrightarrow> list_all P s" for P :: "char \<Rightarrow> bool"
  proof (cases "dropWhile P s = []")
    case True
    then show ?thesis by (auto simp: list_all_iff dest: set_dropWhileD)
  next
    case False
    then have "\<not> P (hd (dropWhile P s))" by (rule hd_dropWhile)
    with False have "\<exists>x \<in> set (dropWhile P s). \<not> P x" by (meson hd_in_set)
    then have "\<exists>x \<in> set s. \<not> P x" by (meson set_dropWhileD)
    with \<open>\<exists>x \<in> set (dropWhile P s). \<not> P x\<close> show ?thesis by (auto simp: list_all_iff dest: set_dropWhileD)
  qed
  then show ?thesis by (simp add: is_blank_def strip_def)
qed

definition validate_instrument :: "instrument_spec \<Rightarrow> instrument_spec result" where
  "validate_instrument item =
     (let symbol = normalize_symbol (is_symbol item);
          is_staking_asset = is_infix ''staking'' (lower (is_asset_type item)) in
      raise_if (symbol \<noteq> is_symbol item \<or> \<not> symbol_pattern symbol)
        (ValueError ''invalid canonical instrument symbol: '') (
      raise_if (is_base item \<noteq> upper (strip (is_base item)) \<or> is_quote item \<noteq> upper (strip (is_quote item)))
        (ValueError ''base and quote must be uppercase for '') (
      raise_if (symbol \<noteq> is_base item @ '':'' @ is_quote item)
        (ValueError ''symbol does not match base and quote for '') (
      raise_if (is_blank (is_name item)) (ValueError ''instrument '') (
      raise_if (is_blank (is_description item)) (ValueError ''instrument '') (
      raise_if (is_blank (is_asset_type item) \<or> is_blank (is_price_basis item)) (ValueError ''instrument '') (
      raise_if (is_stale_after_seconds item \<le> 0 \<or> is_quote_poll_seconds item \<le> 0) (ValueError ''instrument '') (
      raise_if (case is_history_poll_seconds item of None \<Rightarrow> False | Some p \<Rightarrow> \<not> (1 \<le> p \<and> p \<le> 86400))
        (ValueError ''instrument '') (
      raise_if (is_asset_class item = BOND \<and> is_yield_strategy item = None) (ValueError ''bond instrument '') (
      raise_if (is_staking_asset \<and> is_reward_accrual_mode item = None) (ValueError ''staking instrument '') (
      raise_if (is_staking_asset \<and> is_yield_strategy item = None) (ValueError ''staking instrument '') (
      raise_if (is_staking_asset \<and> (case is_underlying_asset item of None \<Rightarrow> True | Some u \<Rightarrow> is_blank u))
        (ValueError ''staking instrument '') (
      raise_if (is_reward_accrual_mode item \<noteq> None \<and> is_yield_strategy item = None)
        (ValueError ''income-bearing instrument '') (
      raise_if (case is_underlying_asset item of None \<Rightarrow> False | Some u \<Rightarrow> is_blank u \<or> u \<noteq> upper (strip u))
        (ValueError ''instrument '')
      (Inr item)))))))))))))))"

subsection \<open>Plugin routes\<close>

text \<open>
  \<^verbatim>\<open>outputs\<close> groups the recipes by output symbol; the visit follows the left and the right
  symbol of each, so only those matter.
\<close>

definition add_recipe :: "plugin_recipe \<Rightarrow> string graph \<Rightarrow> string graph" where
  "add_recipe recipe outputs =
     (let symbol = normalize_symbol (pr_symbol recipe) in
      dict_set symbol (dict_list outputs symbol
        @ [normalize_symbol (pr_left_symbol recipe), normalize_symbol (pr_right_symbol recipe)]) outputs)"

definition plugin_graph :: "plugin_recipe list \<Rightarrow> string graph" where
  "plugin_graph recipes = fold add_recipe recipes []"

fun check_bindings :: "provider_binding list \<Rightarrow> unit result" where
  "check_bindings [] = Inr ()"
| "check_bindings (b # bs) =
     raise_if (is_blank (pb_symbol b) \<or> pb_providers b = []) (ValueError ''plugin '') (
     raise_if (list_ex is_blank (pb_providers b)) (ValueError ''plugin '')
       (check_bindings bs))"

fun check_recipes :: "plugin_recipe list \<Rightarrow> unit result" where
  "check_recipes [] = Inr ()"
| "check_recipes (r # rs) =
     raise_if (pr_max_skew_seconds r < 0) (ValueError ''synthetic recipe '') (
     raise_if (\<not> pr_quote_enabled r \<and> \<not> pr_history_enabled r) (ValueError ''synthetic recipe '')
       (check_recipes rs))"

definition check_acyclic :: "string \<Rightarrow> string graph \<Rightarrow> unit result" where
  "check_acyclic message outputs =
     (case visit_all outputs [] [] (dict_keys outputs) of
        None \<Rightarrow> Inl (ValueError message)
      | Some _ \<Rightarrow> Inr ())"

definition validate_plugin_routes :: "instrument_plugin \<Rightarrow> unit result" where
  "validate_plugin_routes plugin =
     res_bind (check_bindings (ip_provider_bindings plugin)) (\<lambda>_.
     res_bind (check_recipes (ip_synthetic_recipes plugin)) (\<lambda>_.
     check_acyclic ''plugin '' (plugin_graph (ip_synthetic_recipes plugin))))"

definition validate_cross_plugin_synthetic_routes :: "instrument_plugin list \<Rightarrow> unit result" where
  "validate_cross_plugin_synthetic_routes plugins =
     check_acyclic ''instrument plugins have a synthetic dependency cycle''
       (plugin_graph (concat (map ip_synthetic_recipes plugins)))"

subsection \<open>The constructor\<close>

record registry_tables =
  rg_instruments :: "(string, instrument_spec) dict"
  rg_aliases :: "(string, string) dict"

record registry = registry_tables +
  rg_plugins :: "instrument_plugin list"

definition known_identity :: "string \<Rightarrow> registry_tables \<Rightarrow> bool" where
  "known_identity s t = (s \<in> set (dict_keys (rg_instruments t)) \<or> s \<in> set (dict_keys (rg_aliases t)))"

fun add_aliases :: "string \<Rightarrow> string list \<Rightarrow> registry_tables \<Rightarrow> registry_tables result" where
  "add_aliases symbol [] t = Inr t"
| "add_aliases symbol (raw # raws) t =
     (let alias = normalize_symbol raw in
      raise_if (\<not> symbol_pattern alias) (ValueError ''invalid alias for '') (
      raise_if (known_identity alias t) (ValueError ''duplicate instrument alias: '')
      (add_aliases symbol raws (t\<lparr>rg_aliases := dict_set alias symbol (rg_aliases t)\<rparr>))))"

fun add_instruments :: "instrument_spec list \<Rightarrow> registry_tables \<Rightarrow> registry_tables result" where
  "add_instruments [] t = Inr t"
| "add_instruments (raw # raws) t =
     res_bind (validate_instrument raw) (\<lambda>item.
     raise_if (known_identity (is_symbol item) t) (ValueError ''duplicate instrument identity: '')
     (res_bind (add_aliases (is_symbol item) (is_aliases item)
         (t\<lparr>rg_instruments := dict_set (is_symbol item) item (rg_instruments t)\<rparr>))
       (add_instruments raws)))"

fun add_plugins :: "string list \<Rightarrow> instrument_plugin list \<Rightarrow> registry_tables \<Rightarrow> registry_tables result" where
  "add_plugins ids [] t = Inr t"
| "add_plugins ids (p # ps) t =
     (let plugin_id = strip (ip_plugin_id p) in
      raise_if (plugin_id = []) (ValueError ''plugin_id cannot be empty'') (
      raise_if (plugin_id \<in> set ids) (ValueError ''duplicate plugin_id: '') (
      raise_if (is_blank (ip_version p)) (ValueError ''plugin '') (
      raise_if (ip_instruments p \<noteq> [] \<and> ip_provider_installer p = None
          \<and> ip_provider_bindings p = [] \<and> ip_synthetic_recipes p = []) (ValueError ''plugin '')
      (res_bind (validate_plugin_routes p) (\<lambda>_.
       res_bind (add_instruments (ip_instruments p) t)
         (add_plugins (plugin_id # ids) ps)))))))"

definition empty_tables :: registry_tables where
  "empty_tables = \<lparr>rg_instruments = [], rg_aliases = []\<rparr>"

definition mk_registry :: "instrument_plugin list \<Rightarrow> registry result" where
  "mk_registry plugins =
     raise_if (plugins = []) (ValueError ''at least one instrument plugin is required'') (
     res_bind (add_plugins [] plugins empty_tables) (\<lambda>t.
     res_bind (validate_cross_plugin_synthetic_routes plugins) (\<lambda>_.
     Inr (registry_tables.extend t \<lparr>rg_plugins = plugins\<rparr>))))"

subsection \<open>Lookups\<close>

definition registry_symbols :: "('a registry_tables_scheme) \<Rightarrow> string list" where
  "registry_symbols r = dict_keys (rg_instruments r)"

definition resolve :: "string \<Rightarrow> ('a registry_tables_scheme) \<Rightarrow> instrument_spec option" where
  "resolve value r =
     (let symbol = normalize_symbol value;
          canonical = (case dict_get (rg_aliases r) symbol of None \<Rightarrow> symbol | Some c \<Rightarrow> c)
      in dict_get (rg_instruments r) canonical)"

definition canonical_symbol :: "string \<Rightarrow> ('a registry_tables_scheme) \<Rightarrow> string option" where
  "canonical_symbol value r = map_option is_symbol (resolve value r)"

definition registry_getitem :: "string \<Rightarrow> ('a registry_tables_scheme) \<Rightarrow> instrument_spec result" where
  "registry_getitem symbol r =
     (case resolve symbol r of None \<Rightarrow> Inl (KeyError (normalize_symbol symbol)) | Some item \<Rightarrow> Inr item)"

definition registry_contains :: "string \<Rightarrow> ('a registry_tables_scheme) \<Rightarrow> bool" where
  "registry_contains value r = (resolve value r \<noteq> None)"

subsection \<open>Entry points\<close>

text \<open>
  What an entry point loads to: an \<^verbatim>\<open>InstrumentPlugin\<close>, a callable with the outcome of
  calling it (an exception, a plugin, or anything else), any other object, or an exception
  while loading.
\<close>

datatype loaded =
    PluginObject instrument_plugin
  | Factory "py_error + instrument_plugin option"
  | OtherObject
  | LoadFailed py_error

definition coerce_plugin :: "loaded \<Rightarrow> instrument_plugin result" where
  "coerce_plugin value =
     (case value of
        PluginObject p \<Rightarrow> Inr p
      | Factory (Inl e) \<Rightarrow> Inl e
      | Factory (Inr (Some p)) \<Rightarrow> Inr p
      | Factory (Inr None) \<Rightarrow> Inl (TypeError ''plugin entry point '')
      | OtherObject \<Rightarrow> Inl (TypeError ''plugin entry point '')
      | LoadFailed e \<Rightarrow> Inl e)"

definition enabled_names :: "string \<Rightarrow> string list \<Rightarrow> string list" where
  "enabled_names builtin_id enabled_plugins =
     filter (\<lambda>name. name \<noteq> builtin_id)
       (rev (remdups (rev (map strip (filter (\<lambda>item. \<not> is_blank item) enabled_plugins)))))"

definition entry_points_named :: "string \<Rightarrow> (string \<times> loaded) list \<Rightarrow> loaded list" where
  "entry_points_named name available = map snd (filter (\<lambda>e. fst e = name) available)"

definition discover_plugins ::
  "instrument_plugin \<Rightarrow> (string \<times> loaded) list \<Rightarrow> string list \<Rightarrow> instrument_plugin list result" where
  "discover_plugins builtin available enabled_plugins =
     (let enabled = enabled_names (ip_plugin_id builtin) enabled_plugins in
      if enabled = [] then Inr [builtin]
      else
        raise_if (\<exists>name \<in> set enabled. entry_points_named name available = [])
          (RuntimeError ''enabled instrument plugins were not found: '') (
        raise_if (\<exists>name \<in> set enabled. length (entry_points_named name available) \<noteq> 1)
          (RuntimeError ''enabled instrument plugin entry points are ambiguous: '')
        (res_bind (res_map (\<lambda>name. coerce_plugin (hd (entry_points_named name available))) enabled)
          (\<lambda>ps. Inr (builtin # ps)))))"

definition build_registry ::
  "instrument_plugin \<Rightarrow> (string \<times> loaded) list \<Rightarrow> string list \<Rightarrow> registry result" where
  "build_registry builtin available enabled_plugins =
     res_bind (discover_plugins builtin available enabled_plugins) mk_registry"

subsection \<open>What the constructor builds\<close>

lemma dict_set_new: "k \<notin> set (dict_keys d) \<Longrightarrow> dict_set k v d = d @ [(k, v)]"
  by (induction d) auto

definition alias_entries :: "instrument_spec \<Rightarrow> (string, string) dict" where
  "alias_entries item = map (\<lambda>a. (normalize_symbol a, is_symbol item)) (is_aliases item)"

definition identities :: "instrument_spec \<Rightarrow> string list" where
  "identities item = is_symbol item # map normalize_symbol (is_aliases item)"

text \<open>The tables that hold the items of a list, and when a list of items is admissible.\<close>

definition tables_of :: "instrument_spec list \<Rightarrow> registry_tables" where
  "tables_of items = \<lparr>rg_instruments = map (\<lambda>i. (is_symbol i, i)) items,
     rg_aliases = concat (map alias_entries items)\<rparr>"

definition admissible :: "instrument_spec list \<Rightarrow> bool" where
  "admissible items \<longleftrightarrow> distinct (concat (map identities items))
     \<and> (\<forall>i \<in> set items. validate_instrument i = Inr i \<and> list_all symbol_pattern (identities i))"

lemma validate_instrument_same: "validate_instrument i = Inr j \<Longrightarrow> j = i"
  by (auto simp: validate_instrument_def Let_def raise_if_def split: if_splits)

lemma validate_instrument_symbol:
  assumes "validate_instrument i = Inr i"
  shows "normalize_symbol (is_symbol i) = is_symbol i" and "symbol_pattern (is_symbol i)"
  using assms by (auto simp: validate_instrument_def Let_def res_simps)

lemma keys_alias_entries [simp]: "dict_keys (alias_entries i) = map normalize_symbol (is_aliases i)"
  by (simp add: alias_entries_def)

lemma dict_keys_tables_of:
  "dict_keys (rg_instruments (tables_of items)) = map is_symbol items"
  "dict_keys (rg_aliases (tables_of items)) = concat (map (\<lambda>i. map normalize_symbol (is_aliases i)) items)"
  by (simp_all add: tables_of_def map_concat comp_def)

lemma admissible_prefix: "admissible (xs @ ys) \<Longrightarrow> admissible xs"
  by (auto simp: admissible_def)

lemma admissible_snoc:
  "admissible (items @ [raw]) \<longleftrightarrow> admissible items \<and> validate_instrument raw = Inr raw
     \<and> list_all symbol_pattern (identities raw) \<and> distinct (identities raw)
     \<and> set (identities raw) \<inter> set (concat (map identities items)) = {}"
  by (auto simp: admissible_def)

lemma known_identity_tables_of:
  "known_identity s (tables_of items) \<longleftrightarrow> s \<in> set (concat (map identities items))"
  unfolding known_identity_def dict_keys_tables_of by (auto simp: identities_def)

lemma add_aliases_iff:
  "add_aliases symbol raws t = Inr t' \<longleftrightarrow>
     t' = t\<lparr>rg_aliases := rg_aliases t @ map (\<lambda>a. (normalize_symbol a, symbol)) raws\<rparr>
     \<and> list_all symbol_pattern (map normalize_symbol raws) \<and> distinct (map normalize_symbol raws)
     \<and> (\<forall>a \<in> set raws. \<not> known_identity (normalize_symbol a) t)"
proof (induction raws arbitrary: t)
  case Nil
  then show ?case by auto
next
  case (Cons raw raws)
  let ?a = "normalize_symbol raw"
  show ?case
  proof (cases "known_identity ?a t")
    case True
    then show ?thesis by (auto simp: Let_def raise_if_def)
  next
    case False
    then have new: "dict_set ?a symbol (rg_aliases t) = rg_aliases t @ [(?a, symbol)]"
      by (intro dict_set_new) (simp add: known_identity_def)
    have "known_identity s (t\<lparr>rg_aliases := rg_aliases t @ [(?a, symbol)]\<rparr>) \<longleftrightarrow> s = ?a \<or> known_identity s t" for s
      by (auto simp: known_identity_def)
    then show ?thesis using False by (auto simp: Let_def res_simps Cons.IH new) (metis imageI)
  qed
qed

lemma add_instruments_iff:
  assumes "admissible items"
  shows "add_instruments raws (tables_of items) = Inr t' \<longleftrightarrow> t' = tables_of (items @ raws) \<and> admissible (items @ raws)"
  using assms
proof (induction raws arbitrary: items)
  case Nil
  then show ?case by auto
next
  case (Cons raw raws)
  show ?case
  proof (cases "validate_instrument raw = Inr raw \<and> \<not> known_identity (is_symbol raw) (tables_of items)")
    case False
    have "\<not> admissible (items @ raw # raws)"
      using False by (auto simp: admissible_def known_identity_tables_of identities_def)
    moreover have "add_instruments (raw # raws) (tables_of items) \<noteq> Inr t'"
      using False by (auto simp: res_simps dest: validate_instrument_same)
    ultimately show ?thesis by blast
  next
    case True
    let ?t = "tables_of items\<lparr>rg_instruments := rg_instruments (tables_of items) @ [(is_symbol raw, raw)]\<rparr>"
    have new: "dict_set (is_symbol raw) raw (rg_instruments (tables_of items)) = rg_instruments (tables_of items) @ [(is_symbol raw, raw)]"
      using True by (intro dict_set_new) (simp add: known_identity_def)
    have known: "known_identity s ?t \<longleftrightarrow> s = is_symbol raw \<or> s \<in> set (concat (map identities items))" for s
      unfolding known_identity_tables_of [symmetric] by (auto simp: known_identity_def)
    define L N where "L = concat (map identities items)" and "N = map normalize_symbol (is_aliases raw)"
    have ids: "identities raw = is_symbol raw # N" by (simp add: identities_def N_def)
    have fresh: "(\<forall>a \<in> set (is_aliases raw). \<not> known_identity (normalize_symbol a) ?t) \<longleftrightarrow> is_symbol raw \<notin> set N \<and> set N \<inter> set L = {}"
    proof -
      have "(\<forall>a \<in> set (is_aliases raw). \<not> known_identity (normalize_symbol a) ?t) \<longleftrightarrow> (\<forall>n \<in> set N. \<not> known_identity n ?t)"
        by (simp add: N_def)
      then show ?thesis unfolding known L_def [symmetric] by auto
    qed
    have sym: "is_symbol raw \<notin> set L" using True by (simp add: known_identity_tables_of L_def)
    have adm: "admissible (items @ [raw]) \<longleftrightarrow>
        list_all symbol_pattern (map normalize_symbol (is_aliases raw)) \<and> distinct (map normalize_symbol (is_aliases raw))
        \<and> (\<forall>a \<in> set (is_aliases raw). \<not> known_identity (normalize_symbol a) ?t)"
      unfolding fresh N_def [symmetric] admissible_snoc ids L_def [symmetric]
      using True sym Cons.prems validate_instrument_symbol(2) [of raw] by auto
    have ext: "?t\<lparr>rg_aliases := rg_aliases ?t @ map (\<lambda>a. (normalize_symbol a, is_symbol raw)) (is_aliases raw)\<rparr> = tables_of (items @ [raw])"
      by (simp add: tables_of_def alias_entries_def)
    have step: "add_aliases (is_symbol raw) (is_aliases raw) ?t = Inr t1 \<longleftrightarrow> t1 = tables_of (items @ [raw]) \<and> admissible (items @ [raw])" for t1
      unfolding add_aliases_iff ext adm by (rule refl)
    have "add_instruments (raw # raws) (tables_of items) = Inr t' \<longleftrightarrow>
        admissible (items @ [raw]) \<and> add_instruments raws (tables_of (items @ [raw])) = Inr t'"
      using True by (auto simp: res_simps new step)
    also have "\<dots> \<longleftrightarrow> admissible (items @ [raw]) \<and> t' = tables_of (items @ raw # raws) \<and> admissible (items @ raw # raws)"
      using Cons.IH [of "items @ [raw]"] by auto
    also have "\<dots> \<longleftrightarrow> t' = tables_of (items @ raw # raws) \<and> admissible (items @ raw # raws)"
      by (auto simp: admissible_def)
    finally show ?thesis .
  qed
qed

definition plugin_ok :: "instrument_plugin \<Rightarrow> bool" where
  "plugin_ok p \<longleftrightarrow> \<not> is_blank (ip_plugin_id p) \<and> \<not> is_blank (ip_version p)
     \<and> (ip_instruments p = [] \<or> ip_provider_installer p \<noteq> None \<or> ip_provider_bindings p \<noteq> [] \<or> ip_synthetic_recipes p \<noteq> [])
     \<and> validate_plugin_routes p = Inr ()"

lemma add_plugins_iff:
  assumes "admissible items" and "distinct ids"
  shows "add_plugins ids ps (tables_of items) = Inr t' \<longleftrightarrow>
     t' = tables_of (items @ concat (map ip_instruments ps)) \<and> admissible (items @ concat (map ip_instruments ps))
     \<and> list_all plugin_ok ps \<and> distinct (map (\<lambda>p. strip (ip_plugin_id p)) ps)
     \<and> (\<forall>p \<in> set ps. strip (ip_plugin_id p) \<notin> set ids)"
  using assms
proof (induction ps arbitrary: ids items)
  case Nil
  then show ?case by auto
next
  case (Cons p ps)
  have "add_plugins ids (p # ps) (tables_of items) = Inr t' \<longleftrightarrow>
      plugin_ok p \<and> strip (ip_plugin_id p) \<notin> set ids \<and> admissible (items @ ip_instruments p)
      \<and> add_plugins (strip (ip_plugin_id p) # ids) ps (tables_of (items @ ip_instruments p)) = Inr t'"
    by (auto simp: Let_def res_simps add_instruments_iff [OF Cons.prems(1)] plugin_ok_def is_blank_def)
  also have "\<dots> \<longleftrightarrow> plugin_ok p \<and> strip (ip_plugin_id p) \<notin> set ids \<and> admissible (items @ ip_instruments p)
      \<and> t' = tables_of (items @ concat (map ip_instruments (p # ps)))
      \<and> admissible (items @ concat (map ip_instruments (p # ps)))
      \<and> list_all plugin_ok ps \<and> distinct (map (\<lambda>p. strip (ip_plugin_id p)) ps)
      \<and> (\<forall>q \<in> set ps. strip (ip_plugin_id q) \<notin> set (strip (ip_plugin_id p) # ids))"
    using Cons.IH [of "items @ ip_instruments p" "strip (ip_plugin_id p) # ids"] Cons.prems(2) by auto
  also have "\<dots> \<longleftrightarrow> t' = tables_of (items @ concat (map ip_instruments (p # ps)))
      \<and> admissible (items @ concat (map ip_instruments (p # ps)))
      \<and> list_all plugin_ok (p # ps) \<and> distinct (map (\<lambda>p. strip (ip_plugin_id p)) (p # ps))
      \<and> (\<forall>q \<in> set (p # ps). strip (ip_plugin_id q) \<notin> set ids)"
    using admissible_prefix [of "items @ ip_instruments p" "concat (map ip_instruments ps)"]
    by (auto simp: image_iff)
  finally show ?case .
qed

lemma tables_of_Nil: "empty_tables = tables_of []" and admissible_Nil: "admissible []"
  by (simp_all add: empty_tables_def tables_of_def admissible_def)

lemma check_acyclic_iff: "check_acyclic m g = Inr () \<longleftrightarrow> acyclic (edges g)"
  unfolding visit_all_iff_acyclic [symmetric] by (auto simp: check_acyclic_def split: option.splits)

text \<open>The constructor succeeds exactly on admissible plugins and then holds exactly their items.\<close>

lemma mk_registry_iff:
  "mk_registry ps = Inr r \<longleftrightarrow>
     ps \<noteq> [] \<and> r = registry_tables.extend (tables_of (concat (map ip_instruments ps))) \<lparr>rg_plugins = ps\<rparr>
     \<and> admissible (concat (map ip_instruments ps)) \<and> list_all plugin_ok ps
     \<and> distinct (map (\<lambda>p. strip (ip_plugin_id p)) ps)
     \<and> acyclic (edges (plugin_graph (concat (map ip_synthetic_recipes ps))))"
  unfolding mk_registry_def tables_of_Nil
  by (auto simp: res_simps add_plugins_iff [OF admissible_Nil distinct.simps(1) [THEN iffD2, OF TrueI], simplified]
      validate_cross_plugin_synthetic_routes_def check_acyclic_iff)

subsection \<open>Lookup\<close>

lemma tables_of_sel [simp]:
  "rg_instruments (registry_tables.extend t m) = rg_instruments t"
  "rg_aliases (registry_tables.extend t m) = rg_aliases t"
  by (simp_all add: registry_tables.extend_def)

lemma distinct_concat_part:
  assumes "distinct (concat (map f xs))" and "\<And>x. distinct (f x) \<Longrightarrow> distinct (g x)" and "\<And>x. set (g x) \<subseteq> set (f x)"
  shows "distinct (concat (map g xs))"
  using assms(1)
proof (induction xs)
  case (Cons x xs)
  have "set (concat (map g xs)) \<subseteq> set (concat (map f xs))" using assms(3) by auto
  with Cons assms(2) [of x] assms(3) [of x] show ?case by fastforce
qed simp

lemma find_by_identity:
  assumes "distinct (concat (map identities items))" and "i \<in> set items" and "j \<in> set items"
    and "s \<in> set (identities i)" and "s \<in> set (identities j)"
  shows "i = j"
  using assms by (induction items) auto

lemma resolve_tables_of:
  assumes "admissible items"
  shows "resolve value (tables_of items) = Some item \<longleftrightarrow>
    item \<in> set items \<and> normalize_symbol value \<in> set (identities item)"
proof -
  let ?s = "normalize_symbol value"
  have dist: "distinct (concat (map identities items))" using assms by (simp add: admissible_def)
  have inst: "dict_get (rg_instruments (tables_of items)) s = Some i \<longleftrightarrow> i \<in> set items \<and> s = is_symbol i" for s i
  proof -
    have "distinct (map is_symbol items)"
      using dist by (induction items) (auto simp: identities_def)
    then have "dict_wf (rg_instruments (tables_of items))" by (simp add: tables_of_def comp_def)
    from dict_get_mem [OF this] show ?thesis by (auto simp: tables_of_def)
  qed
  have al: "dict_get (rg_aliases (tables_of items)) s = Some c \<longleftrightarrow>
      (\<exists>i \<in> set items. s \<in> normalize_symbol ` set (is_aliases i) \<and> c = is_symbol i)" for s c
  proof -
    have "distinct (concat (map (\<lambda>i. map normalize_symbol (is_aliases i)) items))"
      by (rule distinct_concat_part [OF dist]) (auto simp: identities_def)
    then have "dict_wf (rg_aliases (tables_of items))" by (simp add: dict_keys_tables_of)
    from dict_get_mem [OF this] show ?thesis by (auto simp: tables_of_def alias_entries_def)
  qed
  show ?thesis
  proof (cases "dict_get (rg_aliases (tables_of items)) ?s")
    case None
    then have "\<forall>i \<in> set items. ?s \<notin> normalize_symbol ` set (is_aliases i)" using al [of ?s] by auto
    then show ?thesis using None by (auto simp: resolve_def Let_def inst identities_def)
  next
    case (Some c)
    then obtain i where i: "i \<in> set items" "?s \<in> set (identities i)" "c = is_symbol i"
      using al [of ?s c] by (auto simp: identities_def)
    then have "resolve value (tables_of items) = Some i" using Some by (auto simp: resolve_def Let_def inst)
    then show ?thesis using find_by_identity [OF dist] i by auto
  qed
qed

lemma resolve_extend [simp]: "resolve value (registry_tables.extend t m) = resolve value t"
  by (simp add: resolve_def)

subsection \<open>Properties\<close>

text \<open>
  C37. What a registry holds: construction succeeds only when plugin identifiers, instrument
  symbols and aliases are unambiguous across all plugins and the synthetic recipes of all
  plugins together are acyclic. Then a lookup of any spelling returns an instrument exactly
  when that instrument was declared by a plugin and the spelling normalises to its symbol or
  one of its aliases; the answer is unique, its symbol is its own canonical spelling, and
  iteration lists every declared instrument once.
\<close>

theorem registry_resolves_declared:
  assumes "mk_registry plugins = Inr r"
  shows "(resolve value r = Some item \<longleftrightarrow>
       (\<exists>p \<in> set plugins. item \<in> set (ip_instruments p)) \<and> normalize_symbol value \<in> set (identities item))
    \<and> (resolve value r = Some item \<longrightarrow>
       resolve (is_symbol item) r = Some item \<and> canonical_symbol value r = Some (is_symbol item))
    \<and> registry_symbols r = map is_symbol (concat (map ip_instruments plugins)) \<and> distinct (registry_symbols r)
    \<and> acyclic (edges (plugin_graph (concat (map ip_synthetic_recipes plugins))))"
proof -
  let ?items = "concat (map ip_instruments plugins)"
  from assms have r: "r = registry_tables.extend (tables_of ?items) \<lparr>rg_plugins = plugins\<rparr>"
    and adm: "admissible ?items"
    and acy: "acyclic (edges (plugin_graph (concat (map ip_synthetic_recipes plugins))))"
    by (auto simp: mk_registry_iff)
  have res: "resolve v r = Some i \<longleftrightarrow> i \<in> set ?items \<and> normalize_symbol v \<in> set (identities i)" for v i
    by (simp add: r resolve_tables_of [OF adm] del: set_concat)
  have "normalize_symbol (is_symbol i) = is_symbol i" if "i \<in> set ?items" for i
    using adm that validate_instrument_symbol(1) [of i] by (auto simp: admissible_def)
  then have own: "resolve (is_symbol i) r = Some i" if "i \<in> set ?items" for i
    using that res [of "is_symbol i" i] by (simp add: identities_def)
  have syms: "registry_symbols r = map is_symbol ?items"
    by (simp add: registry_symbols_def r dict_keys_tables_of)
  have "distinct (concat (map identities items)) \<Longrightarrow> distinct (map is_symbol items)" for items
    by (induction items) (auto simp: identities_def)
  then have "distinct (registry_symbols r)" using adm by (simp add: syms admissible_def)
  with res [of "value" item] own syms acy show ?thesis by (auto simp: canonical_symbol_def)
qed

end
