(* ===== verification/QP_Builtin.thy ===== *)
theory QP_Builtin
  imports QP_Registry
begin

text \<open>
  The shipped configuration: \<^verbatim>\<open>equities.py\<close> (listed securities and dividend frequencies),
  \<^verbatim>\<open>builtin_plugin.py\<close> (the instruments QuickPrice ships) and \<^verbatim>\<open>instrument_policy.py\<close> (vendor
  symbols, synthetic recipes, staking policies and fallback chains). These modules are data;
  they are transcribed entry by entry and the comprehensions over them are kept as such.
  \<^verbatim>\<open>_deep_freeze\<close> only wraps the tables read-only and has no counterpart. A \<^verbatim>\<open>frozenset\<close> is a
  list used for membership.
\<close>

subsection \<open>equities.py\<close>

definition QUARTERLY_DIVIDEND_STRATEGY :: string where
  "QUARTERLY_DIVIDEND_STRATEGY = ''latest_regular_cash_annualized_x4''"

record common_stock =
  cs_symbol :: string
  cs_ticker :: string
  cs_name :: string
  cs_description :: string
  cs_dividend_frequency :: "string option"

definition common_stock_metadata :: "string \<Rightarrow> string \<Rightarrow> string \<Rightarrow> string \<Rightarrow> string option \<Rightarrow> common_stock" where
  "common_stock_metadata symbol ticker name description frequency =
     \<lparr>cs_symbol = symbol, cs_ticker = ticker, cs_name = name, cs_description = description,
      cs_dividend_frequency = frequency\<rparr>"

definition COMMON_STOCKS :: "common_stock list" where
  "COMMON_STOCKS = [
     common_stock_metadata ''AAPL:USD'' ''AAPL'' ''Apple Inc.''
       ''A consumer technology company designing devices, software, and services.''
       (Some ''quarterly''),
     common_stock_metadata ''MSFT:USD'' ''MSFT'' ''Microsoft Corporation''
       ''A technology company providing software, cloud, and computing products.''
       (Some ''quarterly''),
     common_stock_metadata ''AMZN:USD'' ''AMZN'' ''Amazon.com, Inc.''
       ''A commerce, cloud computing, logistics, and digital services company.''
       None,
     common_stock_metadata ''GOOGL:USD'' ''GOOGL'' ''Alphabet Inc. Class A''
       ''A technology holding company operating Google and related businesses.''
       (Some ''quarterly''),
     common_stock_metadata ''META:USD'' ''META'' ''Meta Platforms, Inc. Class A''
       ''A technology company operating social platforms and computing products.''
       (Some ''quarterly''),
     common_stock_metadata ''NVDA:USD'' ''NVDA'' ''NVIDIA Corporation''
       ''A computing company developing accelerated processors and software platforms.''
       (Some ''quarterly''),
     common_stock_metadata ''TSLA:USD'' ''TSLA'' ''Tesla, Inc.''
       ''An electric vehicle, energy generation, and energy storage company.''
       None,
     common_stock_metadata ''SPCX:USD'' ''SPCX'' ''Space Exploration Technologies Corp.''
       ''A space transportation and communications company listed on Nasdaq after its June 2026 initial public offering.''
       None,
     common_stock_metadata ''MSTR:USD'' ''MSTR'' ''Strategy Inc. Class A''
       ''An enterprise analytics and Bitcoin treasury company.''
       None,
     common_stock_metadata ''CRCL:USD'' ''CRCL'' ''Circle Internet Group, Inc. Class A''
       ''A financial technology company providing stablecoin infrastructure.''
       None]"

definition COMMON_STOCK_BY_SYMBOL :: "(string, common_stock) dict" where
  "COMMON_STOCK_BY_SYMBOL = map (\<lambda>item. (cs_symbol item, item)) COMMON_STOCKS"

definition QUARTERLY_STOCK_DIVIDEND_SYMBOLS :: "string list" where
  "QUARTERLY_STOCK_DIVIDEND_SYMBOLS =
     map cs_symbol (filter (\<lambda>item. cs_dividend_frequency item = Some ''quarterly'') COMMON_STOCKS)"

definition FUND_TICKERS :: "(string, string) dict" where
  "FUND_TICKERS = [(''QQQM:USD'', ''QQQM''), (''BOXX:USD'', ''BOXX''), (''SGOV:USD'', ''SGOV'')]"

definition LISTED_TICKERS :: "(string, string) dict" where
  "LISTED_TICKERS = AList.updates (map cs_symbol COMMON_STOCKS) (map cs_ticker COMMON_STOCKS) FUND_TICKERS"

definition frequency_entries :: "common_stock \<Rightarrow> (string \<times> string) list" where
  "frequency_entries item =
     (case cs_dividend_frequency item of None \<Rightarrow> [] | Some f \<Rightarrow> [(cs_symbol item, f)])"

definition DIVIDEND_FREQUENCIES :: "(string, string) dict" where
  "DIVIDEND_FREQUENCIES =
     (let stocks = concat (map frequency_entries COMMON_STOCKS) in
      AList.updates (map fst stocks) (map snd stocks) [(''QQQM:USD'', ''quarterly''), (''SGOV:USD'', ''monthly'')])"

definition DIVIDEND_SYMBOLS :: "string list" where
  "DIVIDEND_SYMBOLS = dict_keys DIVIDEND_FREQUENCIES"

subsection \<open>builtin\_plugin.py\<close>

text \<open>The keyword arguments without a default, and the defaults of \<^verbatim>\<open>InstrumentSpec\<close>.\<close>

definition mk_instrument_spec ::
  "string \<Rightarrow> string \<Rightarrow> string \<Rightarrow> string \<Rightarrow> string \<Rightarrow> asset_class \<Rightarrow> string \<Rightarrow> string \<Rightarrow> instrument_spec" where
  "mk_instrument_spec symbol base quote name description class asset_type price_basis =
     \<lparr>is_symbol = symbol, is_base = base, is_quote = quote, is_name = name, is_description = description,
      is_asset_class = class, is_asset_type = asset_type, is_price_basis = price_basis,
      is_change_basis = ''unadjusted_market_price'', is_yield_strategy = None, is_dividend_strategy = None,
      is_reward_accrual_mode = None, is_underlying_asset = None, is_aliases = [],
      is_market_calendar = ALWAYS_OPEN, is_stale_after_seconds = 10, is_quote_poll_seconds = 5,
      is_history_enabled = True, is_history_poll_seconds = None\<rparr>"

definition currency_name :: "string \<Rightarrow> string result" where
  "currency_name c = (case dict_get FX_CURRENCY_NAMES c of None \<Rightarrow> Inl (KeyError c) | Some n \<Rightarrow> Inr n)"

definition fx_instrument :: "string \<Rightarrow> instrument_spec result" where
  "fx_instrument symbol =
     (let (base, counter) = (case split_once (CHR '':'') symbol of None \<Rightarrow> (symbol, []) | Some p \<Rightarrow> p) in
      res_bind (currency_name base) (\<lambda>base_name.
      res_bind (currency_name counter) (\<lambda>counter_name.
      Inr ((mk_instrument_spec symbol base counter (base_name @ '' / '' @ counter_name)
             (''The value of one '' @ base_name @ '' expressed in '' @ counter_name @ ''.'')
             FX ''forex_pair'' (if base = ''USD'' then ''exchange_rate'' else ''synthetic_cross''))
           \<lparr>is_market_calendar := FX_24X5,
            is_stale_after_seconds := (if symbol = ''USD:CNH'' then 300 else 1200),
            is_quote_poll_seconds := 240\<rparr>))))"

definition FX_INSTRUMENTS :: "instrument_spec list result" where
  "FX_INSTRUMENTS = res_map fx_instrument FX_SYMBOLS"

definition common_stock_instrument :: "common_stock \<Rightarrow> instrument_spec" where
  "common_stock_instrument metadata =
     (mk_instrument_spec (cs_symbol metadata) (cs_ticker metadata) ''USD'' (cs_name metadata)
       (cs_description metadata) EQUITY ''common_stock'' ''last_trade'')
     \<lparr>is_dividend_strategy :=
        (if cs_dividend_frequency metadata = Some ''quarterly'' then Some QUARTERLY_DIVIDEND_STRATEGY else None),
      is_market_calendar := US_EQUITY, is_stale_after_seconds := 120, is_quote_poll_seconds := 5\<rparr>"

definition COMMON_STOCK_INSTRUMENTS :: "instrument_spec list" where
  "COMMON_STOCK_INSTRUMENTS = map common_stock_instrument COMMON_STOCKS"

definition crypto_instruments :: "instrument_spec list" where
  "crypto_instruments = [
     (mk_instrument_spec ''BTC:USDC'' ''BTC'' ''USDC'' ''Bitcoin''
        ''Bitcoin spot price quoted in USD Coin.''
        CRYPTO ''spot_crypto'' ''last_trade'')
       \<lparr>is_quote_poll_seconds := 1\<rparr>,
     (mk_instrument_spec ''ETH:USDC'' ''ETH'' ''USDC'' ''Ethereum''
        ''Ether spot price quoted in USD Coin.''
        CRYPTO ''spot_crypto'' ''last_trade'')
       \<lparr>is_quote_poll_seconds := 1\<rparr>,
     (mk_instrument_spec ''SOL:USDC'' ''SOL'' ''USDC'' ''Solana''
        ''Solana's native token spot price quoted in USD Coin.''
        CRYPTO ''spot_crypto'' ''last_trade'')
       \<lparr>is_quote_poll_seconds := 1\<rparr>,
     (mk_instrument_spec ''XMR:USDC'' ''XMR'' ''USDC'' ''Monero''
        ''Monero's privacy-focused native asset spot price quoted in USD Coin.''
        CRYPTO ''spot_crypto'' ''last_trade'')
       \<lparr>is_quote_poll_seconds := 1\<rparr>,
     (mk_instrument_spec ''POL:USDC'' ''POL'' ''USDC'' ''Polygon Ecosystem Token''
        ''Polygon's native ecosystem token spot price quoted in USD Coin.''
        CRYPTO ''spot_crypto'' ''last_trade'')
       \<lparr>is_quote_poll_seconds := 1\<rparr>,
     (mk_instrument_spec ''BNB:USDC'' ''BNB'' ''USDC'' ''BNB''
        ''BNB Chain's native token spot price quoted in USD Coin.''
        CRYPTO ''spot_crypto'' ''last_trade'')
       \<lparr>is_quote_poll_seconds := 1\<rparr>,
     (mk_instrument_spec ''TRX:USDC'' ''TRX'' ''USDC'' ''TRON''
        ''TRON's native token spot price quoted in USD Coin.''
        CRYPTO ''spot_crypto'' ''last_trade'')
       \<lparr>is_quote_poll_seconds := 1\<rparr>,
     (mk_instrument_spec ''WBETH:USDC'' ''WBETH'' ''USDC'' ''Wrapped Binance Beacon ETH''
        ''A value-accruing liquid-staking token whose market price is derived from synchronized component markets.''
        CRYPTO ''liquid_staking_token'' ''synthetic_cross'')
       \<lparr>is_yield_strategy := Some STAKING_PROVIDER_METRIC, is_reward_accrual_mode := Some VALUE_ACCRUING,
        is_underlying_asset := Some ''ETH'', is_quote_poll_seconds := 1\<rparr>,
     (mk_instrument_spec ''BNSOL:USDC'' ''BNSOL'' ''USDC'' ''Binance Staked SOL''
        ''A value-accruing Binance liquid-staking token representing staked SOL; rewards increase its SOL conversion rate each Solana epoch.''
        CRYPTO ''liquid_staking_token'' ''synthetic_cross'')
       \<lparr>is_yield_strategy := Some STAKING_PROVIDER_METRIC, is_reward_accrual_mode := Some VALUE_ACCRUING,
        is_underlying_asset := Some ''SOL'', is_quote_poll_seconds := 1, is_history_poll_seconds := Some 21600\<rparr>,
     (mk_instrument_spec ''BETH:USDC'' ''BETH'' ''USDC'' ''OKX Staked Ether''
        ''An OKX liquid-staking token representing staked Ether; rewards are distributed daily as additional BETH units.''
        CRYPTO ''liquid_staking_token'' ''synthetic_cross'')
       \<lparr>is_yield_strategy := Some STAKING_PROVIDER_METRIC, is_reward_accrual_mode := Some DISTRIBUTED_UNITS,
        is_underlying_asset := Some ''ETH'', is_quote_poll_seconds := 1, is_history_poll_seconds := Some 21600\<rparr>,
     (mk_instrument_spec ''STETH:USDC'' ''STETH'' ''USDC'' ''Lido Staked Ether''
        ''A rebasing liquid-staking token representing Ether staked through the Lido protocol; rewards accrue through balance rebases.''
        CRYPTO ''liquid_staking_token'' ''aggregated_spot_ratio'')
       \<lparr>is_yield_strategy := Some STAKING_PROVIDER_METRIC, is_reward_accrual_mode := Some REBASING_BALANCE,
        is_underlying_asset := Some ''ETH'', is_stale_after_seconds := 1800, is_quote_poll_seconds := 660,
        is_history_poll_seconds := Some 21600\<rparr>,
     (mk_instrument_spec ''WSTETH:USDC'' ''WSTETH'' ''USDC'' ''Wrapped Lido Staked Ether''
        ''A non-rebasing wrapper around stETH whose unit value increases as Lido staking rewards accrue.''
        CRYPTO ''liquid_staking_token'' ''aggregated_spot_ratio'')
       \<lparr>is_yield_strategy := Some STAKING_PROVIDER_METRIC, is_reward_accrual_mode := Some VALUE_ACCRUING,
        is_underlying_asset := Some ''ETH'', is_stale_after_seconds := 1800, is_quote_poll_seconds := 660,
        is_history_poll_seconds := Some 21600\<rparr>,
     (mk_instrument_spec ''AETHWETH:USDC'' ''AETHWETH'' ''USDC'' ''Aave Ethereum WETH''
        ''A rebasing Aave V3 aToken representing supplied WETH on Ethereum; interest accrues through increases in the holder's token balance.''
        CRYPTO ''liquid_staking_token'' ''protocol_backing_proxy'')
       \<lparr>is_yield_strategy := Some STAKING_PROVIDER_METRIC, is_reward_accrual_mode := Some REBASING_BALANCE,
        is_underlying_asset := Some ''ETH'', is_quote_poll_seconds := 1, is_history_poll_seconds := Some 21600\<rparr>]"

definition fund_instruments :: "instrument_spec list" where
  "fund_instruments = [
     (mk_instrument_spec ''QQQM:USD'' ''QQQM'' ''USD'' ''Invesco NASDAQ 100 ETF''
        ''An exchange-traded fund tracking the NASDAQ-100 Index.''
        EQUITY ''equity_etf'' ''last_trade'')
       \<lparr>is_dividend_strategy := Some ''latest_regular_cash_annualized_x4'', is_market_calendar := US_EQUITY,
        is_stale_after_seconds := 120, is_quote_poll_seconds := 5\<rparr>,
     (mk_instrument_spec ''BOXX:USD'' ''BOXX'' ''USD'' ''Alpha Architect 1-3 Month Box ETF''
        ''An ETF seeking a Treasury-bill-like return through box spreads.''
        BOND ''growth_bond_etf'' ''last_trade'')
       \<lparr>is_yield_strategy := Some TREASURY_3M_PROXY_MINUS_EXPENSE, is_market_calendar := US_EQUITY,
        is_stale_after_seconds := 120, is_quote_poll_seconds := 5\<rparr>,
     (mk_instrument_spec ''SGOV:USD'' ''SGOV'' ''USD'' ''iShares 0-3 Month Treasury Bond ETF''
        ''An ETF investing in United States Treasury bonds maturing within three months.''
        BOND ''income_bond_etf'' ''last_trade'')
       \<lparr>is_yield_strategy := Some LATEST_DISTRIBUTION_ANNUALIZED, is_market_calendar := US_EQUITY,
        is_stale_after_seconds := 120, is_quote_poll_seconds := 5\<rparr>]"

definition BUILTIN_PLUGIN :: "instrument_plugin result" where
  "BUILTIN_PLUGIN =
     res_bind FX_INSTRUMENTS (\<lambda>fx.
     Inr \<lparr>ip_plugin_id = ''builtin'', ip_version = ''1.8.0'',
          ip_instruments = crypto_instruments @ COMMON_STOCK_INSTRUMENTS @ fund_instruments @ fx,
          ip_provider_installer = Some ''quickprice.providers.wiring:install_builtin_provider_routes'',
          ip_provider_bindings = [], ip_synthetic_recipes = []\<rparr>)"

subsection \<open>instrument\_policy.py\<close>

definition SUPPORTED_DIVIDEND_STRATEGIES :: "string list" where
  "SUPPORTED_DIVIDEND_STRATEGIES = [''latest_regular_cash_annualized_x4'']"

definition TREASURY_3M_FRED_SERIES :: string where
  "TREASURY_3M_FRED_SERIES = ''DGS3MO''"

definition SUPPORTED_TREASURY_PROXY_FRED_SERIES :: "string list" where
  "SUPPORTED_TREASURY_PROXY_FRED_SERIES = [''DGS1MO'', TREASURY_3M_FRED_SERIES, ''DGS6MO'', ''DGS1'']"

record synthetic_recipe_policy =
  rp_symbol :: string
  rp_operation :: string
  rp_inputs :: "string list"
  rp_max_skew_seconds :: rat
  rp_input_max_age_seconds :: "rat option list"
  rp_provider_name :: string

record staking_ratio_policy =
  sp_symbol :: string
  sp_staking_pair :: string
  sp_underlying_pair :: string
  sp_underlying_asset :: string
  sp_accrual_mode :: reward_accrual_mode

record backing_quote_policy =
  bq_symbol :: string
  bq_ratio_symbol :: string
  bq_underlying_pair :: string
  bq_underlying_asset :: string
  bq_ratio_kind :: string
  bq_constant_ratio :: string
  bq_contract_address :: "string option"
  bq_chain_id :: "int option"
  bq_call_data :: "string option"
  bq_scale :: string

definition BUILTIN_BINANCE_SYMBOLS :: "(string, string) dict" where
  "BUILTIN_BINANCE_SYMBOLS = [
     (''BTC:USDC'', ''BTCUSDC''), (''ETH:USDC'', ''ETHUSDC''), (''SOL:USDC'', ''SOLUSDC''),
     (''POL:USDC'', ''POLUSDC''), (''BNB:USDC'', ''BNBUSDC''), (''TRX:USDC'', ''TRXUSDC''),
     (''WBETH:ETH'', ''WBETHETH''), (''WBETH:USDT'', ''WBETHUSDT''), (''BNSOL:SOL'', ''BNSOLSOL''),
     (''BNSOL:USDT'', ''BNSOLUSDT''), (''USDC:USDT'', ''USDCUSDT'')]"

definition BUILTIN_BINANCE_MIDPOINT_SYMBOLS :: "string list" where
  "BUILTIN_BINANCE_MIDPOINT_SYMBOLS = [
     ''WBETH:ETH'', ''WBETH:USDT'', ''BNSOL:SOL'', ''BNSOL:USDT'', ''USDC:USDT'']"

definition BUILTIN_KRAKEN_SYMBOLS :: "(string, string) dict" where
  "BUILTIN_KRAKEN_SYMBOLS = [
     (''BTC:USDC'', ''XBTUSDC''), (''ETH:USDC'', ''ETHUSDC''), (''SOL:USDC'', ''SOLUSDC''),
     (''XMR:USDC'', ''XMRUSDC''), (''BNB:USDC'', ''BNBUSDC'')]"

definition BUILTIN_COINGECKO_COIN_IDS :: "(string, string) dict" where
  "BUILTIN_COINGECKO_COIN_IDS = [
     (''BTC:USDC'', ''bitcoin''), (''ETH:USDC'', ''ethereum''), (''SOL:USDC'', ''solana''),
     (''XMR:USDC'', ''monero''), (''POL:USDC'', ''polygon-ecosystem-token''),
     (''BNB:USDC'', ''binancecoin''), (''TRX:USDC'', ''tron''), (''WBETH:USDC'', ''wrapped-beacon-eth''),
     (''BNSOL:USDC'', ''binance-staked-sol''), (''BETH:USDC'', ''okx-beth''),
     (''STETH:USDC'', ''staked-ether''), (''WSTETH:USDC'', ''wrapped-steth''), (''ETH:USD'', ''ethereum''),
     (''STETH:USD'', ''staked-ether''), (''WSTETH:USD'', ''wrapped-steth'')]"

definition BUILTIN_COINGECKO_HISTORY_SYMBOLS :: "string list" where
  "BUILTIN_COINGECKO_HISTORY_SYMBOLS = [
     ''BETH:USDC'', ''BNSOL:USDC'', ''STETH:USDC'', ''WSTETH:USDC'', ''ETH:USD'', ''STETH:USD'',
     ''WSTETH:USD'']"

definition BUILTIN_OKX_MARKETS :: "(string, string) dict" where
  "BUILTIN_OKX_MARKETS = [
     (''BETH:ETH'', ''BETH-ETH''), (''ETH:USDC'', ''ETH-USDC''), (''BETH:USDT'', ''BETH-USDT''),
     (''USDC:USDT'', ''USDC-USDT'')]"

definition BUILTIN_OKX_INTERNAL_ALIASES :: "(string, string) dict" where
  "BUILTIN_OKX_INTERNAL_ALIASES = [
     (''OKX_BETH:ETH'', ''BETH:ETH''), (''OKX_ETH:USDC'', ''ETH:USDC''), (''OKX_BETH:USDT'', ''BETH:USDT''),
     (''OKX_USDC:USDT'', ''USDC:USDT'')]"

definition BUILTIN_LISTED_PROVIDER_SYMBOLS :: "(string, (string, string) dict) dict" where
  "BUILTIN_LISTED_PROVIDER_SYMBOLS =
     map (\<lambda>provider. (provider, LISTED_TICKERS)) [''alpaca'', ''finnhub'', ''twelve_data'', ''alpha_vantage'']"

definition BUILTIN_ALPACA_ALLOWED_DIVIDEND_SUBTYPES :: "(string, string list) dict" where
  "BUILTIN_ALPACA_ALLOWED_DIVIDEND_SUBTYPES =
     map (\<lambda>symbol. (symbol, if symbol = ''SGOV:USD'' then [[], ''interest''] else [[]])) DIVIDEND_SYMBOLS"

definition BUILTIN_FX_PROVIDER_SYMBOLS :: "(string, string) dict" where
  "BUILTIN_FX_PROVIDER_SYMBOLS = map (\<lambda>symbol. (symbol, replace_char (CHR '':'') (CHR ''/'') symbol)) FX_HUB_SYMBOLS"

definition BUILTIN_TWELVE_FX_CACHE_FLOOR_SECONDS :: "(string, rat) dict" where
  "BUILTIN_TWELVE_FX_CACHE_FLOOR_SECONDS = map (\<lambda>symbol. (symbol, if symbol = ''USD:CNH'' then 240 else 900)) FX_HUB_SYMBOLS"

definition BUILTIN_FX_HUB_MAX_AGE_SECONDS :: "(string, rat) dict" where
  "BUILTIN_FX_HUB_MAX_AGE_SECONDS = map (\<lambda>symbol. (symbol, if symbol = ''USD:CNH'' then 300 else 1200)) FX_HUB_SYMBOLS"

text \<open>\<^verbatim>\<open>symbol.split(':', 1)\<close> indexed: every FX symbol has a colon.\<close>

definition left_of :: "string \<Rightarrow> string" where
  "left_of symbol = takeWhile (\<lambda>c. c \<noteq> CHR '':'') symbol"

definition right_of :: "string \<Rightarrow> string" where
  "right_of symbol = tl (dropWhile (\<lambda>c. c \<noteq> CHR '':'') symbol)"

definition BUILTIN_FX_REQUIREMENTS :: "(string, string list) dict" where
  "BUILTIN_FX_REQUIREMENTS =
     map (\<lambda>symbol. (symbol, if right_of symbol = ''USD'' then [''USD:'' @ left_of symbol]
                            else [''USD:'' @ right_of symbol, ''USD:'' @ left_of symbol]))
       (filter (\<lambda>symbol. \<not> is_prefix ''USD:'' symbol) FX_SYMBOLS)"

definition BUILTIN_SYNTHETIC_RECIPES :: "(string, synthetic_recipe_policy) dict" where
  "BUILTIN_SYNTHETIC_RECIPES = [
     (''wbeth_primary'', \<lparr>rp_symbol = ''WBETH:USDC'', rp_operation = ''multiply'', rp_inputs = [''WBETH:ETH'', ''ETH:USDC''],
        rp_max_skew_seconds = 2, rp_input_max_age_seconds = [Some 15, Some 15], rp_provider_name = ''synthetic_binance''\<rparr>),
     (''wbeth_alternate'', \<lparr>rp_symbol = ''WBETH:USDC'', rp_operation = ''divide'', rp_inputs = [''WBETH:USDT'', ''USDC:USDT''],
        rp_max_skew_seconds = 2, rp_input_max_age_seconds = [Some 15, Some 15], rp_provider_name = ''synthetic_binance''\<rparr>),
     (''bnsol_primary'', \<lparr>rp_symbol = ''BNSOL:USDC'', rp_operation = ''multiply'', rp_inputs = [''BNSOL:SOL'', ''SOL:USDC''],
        rp_max_skew_seconds = 2, rp_input_max_age_seconds = [Some 15, Some 15], rp_provider_name = ''synthetic_binance''\<rparr>),
     (''bnsol_alternate'', \<lparr>rp_symbol = ''BNSOL:USDC'', rp_operation = ''divide'', rp_inputs = [''BNSOL:USDT'', ''USDC:USDT''],
        rp_max_skew_seconds = 2, rp_input_max_age_seconds = [Some 15, Some 15], rp_provider_name = ''synthetic_binance''\<rparr>),
     (''beth_primary'', \<lparr>rp_symbol = ''BETH:USDC'', rp_operation = ''multiply'', rp_inputs = [''OKX_BETH:ETH'', ''OKX_ETH:USDC''],
        rp_max_skew_seconds = 2, rp_input_max_age_seconds = [Some 15, Some 15], rp_provider_name = ''synthetic_okx''\<rparr>),
     (''beth_alternate'', \<lparr>rp_symbol = ''BETH:USDC'', rp_operation = ''divide'', rp_inputs = [''OKX_BETH:USDT'', ''OKX_USDC:USDT''],
        rp_max_skew_seconds = 2, rp_input_max_age_seconds = [Some 15, Some 15], rp_provider_name = ''synthetic_okx''\<rparr>)]"

definition BUILTIN_STAKING_BACKING_QUOTE_POLICIES :: "backing_quote_policy list" where
  "BUILTIN_STAKING_BACKING_QUOTE_POLICIES = [
     \<lparr>bq_symbol = ''BETH:USDC'', bq_ratio_symbol = ''BETH:ETH'', bq_underlying_pair = ''ETH:USDC'',
      bq_underlying_asset = ''ETH'', bq_ratio_kind = ''constant'', bq_constant_ratio = ''1'',
      bq_contract_address = None, bq_chain_id = None,
      bq_call_data = None, bq_scale = ''1000000000000000000''\<rparr>,
     \<lparr>bq_symbol = ''STETH:USDC'', bq_ratio_symbol = ''STETH:ETH'', bq_underlying_pair = ''ETH:USDC'',
      bq_underlying_asset = ''ETH'', bq_ratio_kind = ''constant'', bq_constant_ratio = ''1'',
      bq_contract_address = None, bq_chain_id = None,
      bq_call_data = None, bq_scale = ''1000000000000000000''\<rparr>,
     \<lparr>bq_symbol = ''WSTETH:USDC'', bq_ratio_symbol = ''WSTETH:STETH'', bq_underlying_pair = ''ETH:USDC'',
      bq_underlying_asset = ''ETH'', bq_ratio_kind = ''ethereum_call'', bq_constant_ratio = ''1'',
      bq_contract_address = Some ''0x7f39c581f595b53c5cb19bd0b3f8da6c935e2ca0'', bq_chain_id = Some 1,
      bq_call_data = Some ''0x035faf82'', bq_scale = ''1000000000000000000''\<rparr>,
     \<lparr>bq_symbol = ''AETHWETH:USDC'', bq_ratio_symbol = ''AETHWETH:WETH'', bq_underlying_pair = ''ETH:USDC'',
      bq_underlying_asset = ''ETH'', bq_ratio_kind = ''constant'', bq_constant_ratio = ''1'',
      bq_contract_address = None, bq_chain_id = None,
      bq_call_data = None, bq_scale = ''1000000000000000000''\<rparr>]"

definition BUILTIN_STAKING_RATIO_POLICIES :: "staking_ratio_policy list" where
  "BUILTIN_STAKING_RATIO_POLICIES = [
     \<lparr>sp_symbol = ''WBETH:USDC'', sp_staking_pair = ''WBETH:USDC'', sp_underlying_pair = ''ETH:USDC'',
      sp_underlying_asset = ''ETH'', sp_accrual_mode = VALUE_ACCRUING\<rparr>,
     \<lparr>sp_symbol = ''BNSOL:USDC'', sp_staking_pair = ''BNSOL:USDC'', sp_underlying_pair = ''SOL:USDC'',
      sp_underlying_asset = ''SOL'', sp_accrual_mode = VALUE_ACCRUING\<rparr>,
     \<lparr>sp_symbol = ''WSTETH:USDC'', sp_staking_pair = ''WSTETH:USD'', sp_underlying_pair = ''ETH:USD'',
      sp_underlying_asset = ''ETH'', sp_accrual_mode = VALUE_ACCRUING\<rparr>]"

text \<open>The FRED policies; only \<^verbatim>\<open>series\<close> is used outside the adapter.\<close>

record fred_policy =
  fp_series :: string
  fp_expense_ratio_percentage_points :: string
  fp_method :: string
  fp_component_role :: string

definition BUILTIN_FRED_POLICIES :: "(string, fred_policy) dict" where
  "BUILTIN_FRED_POLICIES = [(''BOXX:USD'',
     \<lparr>fp_series = TREASURY_3M_FRED_SERIES, fp_expense_ratio_percentage_points = ''0.1949'',
      fp_method = ''treasury_3m_proxy_minus_expense'', fp_component_role = ''treasury_3m_yield_percent''\<rparr>)]"

definition crypto_routes :: "(string, (string, string list) dict) dict" where
  "crypto_routes = [
     (''BTC:USDC'', [(''quote'', [''binance'', ''kraken'', ''coingecko'']), (''history'', [''binance'', ''kraken''])]),
     (''ETH:USDC'', [(''quote'', [''binance'', ''kraken'', ''coingecko'']), (''history'', [''binance'', ''kraken''])]),
     (''SOL:USDC'', [(''quote'', [''binance'', ''kraken'', ''coingecko'']), (''history'', [''binance'', ''kraken''])]),
     (''BNB:USDC'', [(''quote'', [''binance'', ''kraken'', ''coingecko'']), (''history'', [''binance'', ''kraken''])]),
     (''POL:USDC'', [(''quote'', [''binance'', ''coingecko'']), (''history'', [''binance''])]),
     (''TRX:USDC'', [(''quote'', [''binance'', ''coingecko'']), (''history'', [''binance''])]),
     (''XMR:USDC'', [(''quote'', [''kraken'', ''coingecko'']), (''history'', [''kraken''])]),
     (''WBETH:USDC'', [(''quote'', [''synthetic_wbeth_primary'', ''synthetic_wbeth_alternate'', ''coingecko'']),
        (''history'', [''synthetic_wbeth_history_primary'', ''synthetic_wbeth_history_alternate'']),
        (''yield'', [''binance_staking_rate'', ''ethereum_exchange_rate'', ''staking_market_ratio_proxy''])]),
     (''BNSOL:USDC'', [(''quote'', [''synthetic_bnsol_primary'', ''synthetic_bnsol_alternate'', ''coingecko'']),
        (''history'', [''synthetic_bnsol_history_primary'', ''synthetic_bnsol_history_alternate'', ''coingecko'']),
        (''yield'', [''binance_staking_rate'', ''staking_market_ratio_proxy''])]),
     (''BETH:USDC'', [(''quote'', [''synthetic_beth_primary'', ''synthetic_beth_alternate'', ''coingecko'', ''staking_backing_proxy'']),
        (''history'', [''synthetic_beth_history_primary'', ''synthetic_beth_history_alternate'', ''coingecko'']),
        (''yield'', [''okx_beth_yield''])]),
     (''STETH:USDC'', [(''quote'', [''coingecko'', ''staking_backing_proxy'']),
        (''history'', [''coingecko'']),
        (''yield'', [''lido''])]),
     (''WSTETH:USDC'', [(''quote'', [''coingecko'', ''staking_backing_proxy'']),
        (''history'', [''coingecko'']),
        (''yield'', [''lido'', ''staking_market_ratio_proxy''])]),
     (''AETHWETH:USDC'', [(''quote'', [''staking_backing_proxy'']),
        (''history'', [''staking_backing_proxy'']),
        (''yield'', [''aave_v3''])])]"

definition listed_routes :: "string \<Rightarrow> (string, string list) dict" where
  "listed_routes symbol =
     [(''quote'', [''alpaca'', ''finnhub'', ''twelve_data'', ''alpha_vantage'']),
      (''history'', [''alpaca'', ''twelve_data'', ''alpha_vantage''])]
     @ (if symbol \<in> set DIVIDEND_SYMBOLS then [(''dividend'', [''alpaca''])] else [])
     @ (if symbol \<in> set (dict_keys BUILTIN_FRED_POLICIES) then [(''yield'', [''fred''])] else [])"

definition fx_routes :: "string \<Rightarrow> (string, string list) dict" where
  "fx_routes symbol =
     (if symbol \<in> set FX_HUB_SYMBOLS
      then [(''quote'', [''twelve_data'', ''alpha_vantage'']), (''history'', [''twelve_data'', ''alpha_vantage''])]
      else [(''quote'', [''synthetic_fx'']), (''history'', [''synthetic_fx_history''])])"

definition BUILTIN_PROVIDER_ROUTES :: "(string, (string, string list) dict) dict" where
  "BUILTIN_PROVIDER_ROUTES =
     AList.updates FX_SYMBOLS (map fx_routes FX_SYMBOLS)
       (AList.updates (dict_keys LISTED_TICKERS) (map listed_routes (dict_keys LISTED_TICKERS)) crypto_routes)"

definition builtin_provider_symbols :: "string \<Rightarrow> (string, string) dict" where
  "builtin_provider_symbols symbol =
     (let canonical = upper (strip symbol);
          bindings = fold (\<lambda>(provider, provider_bindings) bindings.
              case dict_get provider_bindings canonical of
                None \<Rightarrow> bindings
              | Some vendor_symbol \<Rightarrow> dict_set provider vendor_symbol bindings)
            ([(''binance'', BUILTIN_BINANCE_SYMBOLS), (''kraken'', BUILTIN_KRAKEN_SYMBOLS),
              (''coingecko'', BUILTIN_COINGECKO_COIN_IDS)] @ BUILTIN_LISTED_PROVIDER_SYMBOLS
             @ [(''twelve_data'', BUILTIN_FX_PROVIDER_SYMBOLS), (''alpha_vantage'', BUILTIN_FX_PROVIDER_SYMBOLS)]) []
      in case dict_get BUILTIN_FRED_POLICIES canonical of
           None \<Rightarrow> bindings
         | Some fred \<Rightarrow> dict_set ''fred'' (fp_series fred) bindings)"

end
