(* ===== verification/QP_Builtin_Props.thy ===== *)
theory QP_Builtin_Props
  imports QP_Builtin
begin

text \<open>
  The shipped configuration evaluated: the built-in plugin is accepted by the registry, the
  fallback chains cover every built-in instrument, and the hub table of
  \<^verbatim>\<open>instrument_policy.py\<close> agrees with \<^verbatim>\<open>fx.py\<close>.
\<close>

definition vendor_providers :: "string list" where
  "vendor_providers = [''binance'', ''kraken'', ''coingecko'', ''alpaca'', ''finnhub'', ''twelve_data'', ''alpha_vantage'', ''fred'']"

text \<open>
  What a shipped instrument needs: a quote chain; chains that are non-empty, without
  repetition and at most four long, in which every vendor that is asked has a vendor symbol;
  a yield chain when its yield is provider-reported or a Treasury proxy; a dividend chain
  when income is derived from distributions.
\<close>

definition needs_yield_route :: "instrument_spec \<Rightarrow> bool" where
  "needs_yield_route item =
     (is_yield_strategy item = Some STAKING_PROVIDER_METRIC \<or> is_yield_strategy item = Some TREASURY_3M_PROXY_MINUS_EXPENSE
      \<or> is_yield_strategy item = Some TREASURY_PROXY_MINUS_EXPENSE)"

definition needs_dividend_route :: "instrument_spec \<Rightarrow> bool" where
  "needs_dividend_route item =
     (is_dividend_strategy item \<noteq> None \<or> is_yield_strategy item = Some LATEST_DISTRIBUTION_ANNUALIZED)"

definition chain_ok :: "(string, string) dict \<Rightarrow> string list \<Rightarrow> bool" where
  "chain_ok vendor_symbols chain =
     (chain \<noteq> [] \<and> length chain \<le> 4 \<and> distinct chain
      \<and> list_all (\<lambda>v. v \<in> set vendor_providers \<longrightarrow> dict_get vendor_symbols v \<noteq> None) chain)"

definition shipped_ok :: "(string, (string, string list) dict) dict \<Rightarrow> instrument_spec \<Rightarrow> bool" where
  "shipped_ok routes item =
     (case dict_get routes (is_symbol item) of
        None \<Rightarrow> False
      | Some table \<Rightarrow>
          dict_get table ''quote'' \<noteq> None \<and> dict_get table ''history'' \<noteq> None
          \<and> list_all (chain_ok (builtin_provider_symbols (is_symbol item))) (dict_values table)
          \<and> (needs_yield_route item \<longrightarrow> dict_get table ''yield'' \<noteq> None)
          \<and> (needs_dividend_route item \<longrightarrow> dict_get table ''dividend'' \<noteq> None))"

lemma builtin_accepted:
  "case BUILTIN_PLUGIN of Inl e \<Rightarrow> False
   | Inr p \<Rightarrow> (case mk_registry [p] of Inl e \<Rightarrow> False | Inr r \<Rightarrow> length (registry_symbols r) = 56)"
  by code_simp

lemma builtin_routes:
  "case BUILTIN_PLUGIN of Inl e \<Rightarrow> False
   | Inr p \<Rightarrow> list_all (shipped_ok BUILTIN_PROVIDER_ROUTES) (ip_instruments p)"
  by code_simp

lemma builtin_fx_requirements:
  "list_all (\<lambda>(s, hubs). fx_hub_requirements s = Inr hubs) BUILTIN_FX_REQUIREMENTS"
  by code_simp

text \<open>
  The shipped catalogue is consistent: the built-in plugin constructs, the registry
  accepts it whatever entry points are installed, and holds its 56 instruments; every one of
  them has quote and history chains of at most four distinct providers in which each vendor
  asked knows a vendor symbol for it, and the yield or dividend chain its income strategy
  needs; and the hub table duplicated in \<^verbatim>\<open>instrument_policy.py\<close> lists for every cross
  exactly the spokes \<^verbatim>\<open>fx_hub_requirements\<close> computes.
\<close>

lemma shipped_catalog_consistent:
  "\<exists>p r. BUILTIN_PLUGIN = Inr p \<and> build_registry p available [] = Inr r
     \<and> registry_symbols r = map is_symbol (ip_instruments p) \<and> length (registry_symbols r) = 56
     \<and> list_all (shipped_ok BUILTIN_PROVIDER_ROUTES) (ip_instruments p)
     \<and> list_all (\<lambda>(s, hubs). fx_hub_requirements s = Inr hubs) BUILTIN_FX_REQUIREMENTS"
proof -
  obtain p r where p: "BUILTIN_PLUGIN = Inr p" and r: "mk_registry [p] = Inr r" and n: "length (registry_symbols r) = 56"
    using builtin_accepted by (auto split: sum.splits)
  have "build_registry p available [] = Inr r"
    by (simp add: build_registry_def discover_plugins_def enabled_names_def Let_def r)
  moreover have "registry_symbols r = map is_symbol (ip_instruments p)"
    using r by (auto simp: mk_registry_iff registry_symbols_def dict_keys_tables_of)
  moreover have "list_all (shipped_ok BUILTIN_PROVIDER_ROUTES) (ip_instruments p)"
    using builtin_routes by (simp add: p)
  ultimately show ?thesis using p n builtin_fx_requirements by blast
qed

text \<open>The registry property at the shipped plugin.\<close>

theorem registry_resolves_declared_witness:
  "\<exists>p r item. BUILTIN_PLUGIN = Inr p \<and> mk_registry [p] = Inr r
     \<and> resolve '' btc/usdc '' r = Some item \<and> is_name item = ''Bitcoin''"
proof -
  obtain p r where p: "BUILTIN_PLUGIN = Inr p" and r: "mk_registry [p] = Inr r"
    using builtin_accepted by (auto split: sum.splits)
  let ?btc = "hd crypto_instruments"
  have "?btc \<in> set (ip_instruments p)" using p by (auto simp: BUILTIN_PLUGIN_def crypto_instruments_def res_simps)
  moreover have "normalize_symbol '' btc/usdc '' \<in> set (identities ?btc)" by code_simp
  ultimately have "resolve '' btc/usdc '' r = Some ?btc"
    using registry_resolves_declared [OF r, of "'' btc/usdc ''" ?btc] by auto
  with p r show ?thesis by (auto simp: crypto_instruments_def mk_instrument_spec_def)
qed

end
