(* ===== verification/QP_Catalog.thy ===== *)
theory QP_Catalog
  imports QP_Builtin
begin

text \<open>
  \<^verbatim>\<open>quickprice/catalog.py\<close>: the administrator-managed instrument catalogue. The pydantic
  models are records; validation follows pydantic's order: every field is validated (a
  nested model completely, its own \<^verbatim>\<open>after\<close> validator included), the messages of all failing
  fields are collected, and the model's \<^verbatim>\<open>after\<close> validator runs only when no field failed.
  The models are strict and frozen, so a validated object is the given one. Values of the
  wrong Python type do not occur in the records. The content digest of a generation
  (\<^verbatim>\<open>catalog_revision\<close>: SHA-256 of the canonical JSON dump) is a parameter.
\<close>

definition CATALOG_SCHEMA_VERSION :: string where "CATALOG_SCHEMA_VERSION = ''2''"
definition MAX_CUSTOM_INSTRUMENTS :: nat where "MAX_CUSTOM_INSTRUMENTS = 2000"
definition MAX_PROVIDER_CHAIN :: nat where "MAX_PROVIDER_CHAIN = 4"
definition MAX_SYNTHETIC_INPUTS :: nat where "MAX_SYNTHETIC_INPUTS = 2"
definition MAX_SYNTHETIC_DEPTH :: nat where "MAX_SYNTHETIC_DEPTH = 4"

lemmas catalog_limits = MAX_CUSTOM_INSTRUMENTS_def MAX_PROVIDER_CHAIN_def MAX_SYNTHETIC_INPUTS_def MAX_SYNTHETIC_DEPTH_def

subsection \<open>Identifier patterns\<close>

definition is_digit :: "char \<Rightarrow> bool" where
  "is_digit c = (let n = (of_char c :: nat) in 48 \<le> n \<and> n \<le> 57)"
definition is_lower_letter :: "char \<Rightarrow> bool" where
  "is_lower_letter c = (let n = (of_char c :: nat) in 97 \<le> n \<and> n \<le> 122)"
definition is_upper_letter :: "char \<Rightarrow> bool" where
  "is_upper_letter c = (let n = (of_char c :: nat) in 65 \<le> n \<and> n \<le> 90)"

text \<open>\<^verbatim>\<open>[head][tail]{0,n}\<close> matched against the whole string.\<close>

fun head_tail :: "(char \<Rightarrow> bool) \<Rightarrow> (char \<Rightarrow> bool) \<Rightarrow> nat \<Rightarrow> string \<Rightarrow> bool" where
  "head_tail h t n [] = False"
| "head_tail h t n (c # cs) = (h c \<and> list_all t cs \<and> length cs \<le> n)"

definition lower_head :: "char \<Rightarrow> bool" where "lower_head c = (is_lower_letter c \<or> is_digit c)"
definition upper_head :: "char \<Rightarrow> bool" where "upper_head c = (is_upper_letter c \<or> is_digit c)"

definition id_pattern :: "string \<Rightarrow> bool" where
  "id_pattern = head_tail lower_head (\<lambda>c. lower_head c \<or> c \<in> set ''._-'') 127"
definition asset_pattern :: "string \<Rightarrow> bool" where
  "asset_pattern = head_tail upper_head (\<lambda>c. upper_head c \<or> c \<in> set ''._-'') 63"
definition provider_pattern :: "string \<Rightarrow> bool" where
  "provider_pattern = head_tail lower_head (\<lambda>c. lower_head c \<or> c \<in> set ''_-'') 63"
definition vendor_symbol_pattern :: "string \<Rightarrow> bool" where
  "vendor_symbol_pattern = head_tail (\<lambda>c. lower_head c \<or> is_upper_letter c)
     (\<lambda>c. lower_head c \<or> is_upper_letter c \<or> c \<in> set ''._/-'') 127"
definition token_pattern :: "string \<Rightarrow> bool" where
  "token_pattern = head_tail lower_head (\<lambda>c. lower_head c \<or> c \<in> set ''._-'') 127"

definition require_safe_text :: "nat \<Rightarrow> string \<Rightarrow> string list" where
  "require_safe_text maximum value =
     (if value = [] \<or> value \<noteq> strip value \<or> maximum < length value
      then ['' must be non-empty, trimmed, and at most '']
      else if list_ex (\<lambda>c. (of_char c :: nat) < 32) value \<or> CHR ''<'' \<in> set value \<or> CHR ''>'' \<in> set value
      then ['' contains an unsafe character''] else [])"

definition canonical_errors :: "string \<Rightarrow> string list" where
  "canonical_errors value =
     (if value \<noteq> normalize_symbol value \<or> \<not> symbol_pattern value
      then ['' must be a canonical BASE:QUOTE symbol''] else [])"

subsection \<open>Validation in pydantic's order\<close>

type_synonym 'a validated = "string list + 'a"

definition model_validate :: "string list \<Rightarrow> string option \<Rightarrow> 'a \<Rightarrow> 'a validated" where
  "model_validate field_errors after value =
     (if field_errors \<noteq> [] then Inl field_errors
      else case after of Some message \<Rightarrow> Inl [message] | None \<Rightarrow> Inr value)"

definition errors_of :: "'a validated \<Rightarrow> string list" where
  "errors_of v = (case v of Inl es \<Rightarrow> es | Inr _ \<Rightarrow> [])"

text \<open>A tuple field: the elements' errors, and the field validator only if there are none.\<close>

definition tuple_errors :: "('a \<Rightarrow> string list) \<Rightarrow> ('a list \<Rightarrow> string list) \<Rightarrow> 'a list \<Rightarrow> string list" where
  "tuple_errors element whole xs =
     (let es = concat (map element xs) in if es \<noteq> [] then es else whole xs)"

fun first_error :: "(bool \<times> string) list \<Rightarrow> string option" where
  "first_error [] = None"
| "first_error ((bad, message) # rest) = (if bad then Some message else first_error rest)"

lemma model_validate_Inr_iff [res_simps]:
  "model_validate es after x = Inr y \<longleftrightarrow> es = [] \<and> after = None \<and> y = x"
  by (auto simp: model_validate_def split: option.splits)

lemma errors_of_Nil_iff: "errors_of v = [] \<longleftrightarrow> v = Inl [] \<or> (\<exists>x. v = Inr x)"
  by (cases v) (auto simp: errors_of_def)

lemma errors_of_model_validate [simp]:
  "errors_of (model_validate es after x) = [] \<longleftrightarrow> es = [] \<and> after = None"
  by (auto simp: model_validate_def errors_of_def split: option.splits)

lemma first_error_None_iff: "first_error cs = None \<longleftrightarrow> list_all (\<lambda>c. \<not> fst c) cs"
  by (induction cs rule: first_error.induct) auto

subsection \<open>Provider bindings, routes and collection policy\<close>

record symbol_binding =
  sb_provider :: string
  sb_symbol :: string

definition provider_id_ok :: "string \<Rightarrow> bool" where
  "provider_id_ok value = (value = lower (strip value) \<and> provider_pattern value)"

definition vendor_symbol_errors :: "string \<Rightarrow> string list" where
  "vendor_symbol_errors value =
     (let lowered = lower value in
      if value \<noteq> strip value \<or> \<not> vendor_symbol_pattern value
      then [''vendor symbol contains unsupported characters'']
      else if is_infix ''://'' lowered \<or> is_prefix ''http:'' lowered \<or> is_prefix ''https:'' lowered
        \<or> is_prefix ''file:'' lowered
      then [''vendor symbol cannot be a URL''] else [])"

definition validate_binding :: "symbol_binding \<Rightarrow> symbol_binding validated" where
  "validate_binding b =
     model_validate
       ((if provider_id_ok (sb_provider b) then [] else [''provider must be a lowercase installed-provider identifier''])
        @ vendor_symbol_errors (sb_symbol b)) None b"

record capability_route =
  cr_capability :: string
  cr_providers :: "string list"

definition catalog_capabilities :: "string list" where
  "catalog_capabilities = [''quote'', ''history'', ''dividend'', ''yield'']"

definition providers_errors :: "string list \<Rightarrow> string list" where
  "providers_errors value =
     (if \<not> (1 \<le> length value \<and> length value \<le> MAX_PROVIDER_CHAIN)
      then [''provider chain must contain 1 to '']
      else if \<not> distinct value then [''provider chain cannot contain duplicates'']
      else if list_ex (\<lambda>p. \<not> provider_id_ok p) value
      then [''provider chain contains an invalid provider identifier''] else [])"

definition validate_route :: "capability_route \<Rightarrow> capability_route validated" where
  "validate_route r =
     model_validate
       ((if cr_capability r \<in> set catalog_capabilities then [] else [''Input should be ''])
        @ providers_errors (cr_providers r)) None r"

record history_policy =
  hp_enabled :: bool
  hp_poll_seconds :: "rat option"
  hp_backfill_days :: "int option"

definition in_range :: "'a :: linorder \<Rightarrow> 'a \<Rightarrow> 'a \<Rightarrow> bool" where
  "in_range low high x = (low \<le> x \<and> x \<le> high)"

definition range_errors :: "('a \<Rightarrow> bool) \<Rightarrow> 'a option \<Rightarrow> string list" where
  "range_errors ok v = (case v of None \<Rightarrow> [] | Some x \<Rightarrow> if ok x then [] else [''Input should be ''])"

definition validate_history :: "history_policy \<Rightarrow> history_policy validated" where
  "validate_history h =
     model_validate
       (range_errors (in_range 1 86400) (hp_poll_seconds h) @ range_errors (in_range 1 3650) (hp_backfill_days h)) None h"

subsection \<open>Income policy\<close>

record income_policy =
  in_yield_strategy :: "yield_strategy option"
  in_dividend_strategy :: "string option"
  in_reward_accrual_mode :: "reward_accrual_mode option"
  in_underlying_asset :: "string option"
  in_fred_series :: "string option"
  in_expense_ratio_percent :: "rat option"
  in_fallback_ratio_days :: "int option"

definition is_treasury :: "income_policy \<Rightarrow> bool" where
  "is_treasury p = (in_yield_strategy p = Some TREASURY_3M_PROXY_MINUS_EXPENSE
     \<or> in_yield_strategy p = Some TREASURY_PROXY_MINUS_EXPENSE)"

definition validate_strategy_parameters :: "income_policy \<Rightarrow> string option" where
  "validate_strategy_parameters p =
     first_error
       [(is_treasury p \<and> (in_fred_series p = None \<or> in_expense_ratio_percent p = None),
           ''Treasury proxy yield requires a FRED series and expense ratio''),
        (\<not> is_treasury p \<and> (in_fred_series p \<noteq> None \<or> in_expense_ratio_percent p \<noteq> None),
           ''Treasury proxy parameters require the Treasury proxy yield strategy''),
        (in_fallback_ratio_days p \<noteq> None \<and> in_reward_accrual_mode p \<noteq> Some VALUE_ACCRUING,
           ''ratio fallback is only valid for value-accruing tokens''),
        (in_yield_strategy p = Some TREASURY_3M_PROXY_MINUS_EXPENSE
           \<and> in_fred_series p \<noteq> Some TREASURY_3M_FRED_SERIES,
           ''the three-month Treasury strategy requires DGS3MO'')]"

definition optional_errors :: "('a \<Rightarrow> bool) \<Rightarrow> string \<Rightarrow> 'a option \<Rightarrow> string list" where
  "optional_errors ok message v = (case v of None \<Rightarrow> [] | Some x \<Rightarrow> if ok x then [] else [message])"

definition asset_ok :: "string \<Rightarrow> bool" where
  "asset_ok value = (value = upper (strip value) \<and> asset_pattern value)"

definition validate_income :: "income_policy \<Rightarrow> income_policy validated" where
  "validate_income p =
     model_validate
       (optional_errors (\<lambda>v. v \<in> set SUPPORTED_DIVIDEND_STRATEGIES) ''dividend strategy is not supported'' (in_dividend_strategy p)
        @ optional_errors asset_ok ''underlying asset must be an uppercase asset identifier'' (in_underlying_asset p)
        @ optional_errors (\<lambda>v. v \<in> set SUPPORTED_TREASURY_PROXY_FRED_SERIES)
            ''FRED series is not in the controlled Treasury allowlist'' (in_fred_series p)
        @ range_errors (in_range 0 25) (in_expense_ratio_percent p)
        @ range_errors (in_range 7 365) (in_fallback_ratio_days p))
       (validate_strategy_parameters p) p"

subsection \<open>Synthetic recipes\<close>

datatype synthetic_operation = INVERSE | MULTIPLY | DIVIDE

record synthetic_definition =
  sd_operation :: synthetic_operation
  sd_inputs :: "string list"
  sd_max_skew_seconds :: rat
  sd_input_max_age_seconds :: "rat option list"

definition required_inputs :: "synthetic_operation \<Rightarrow> nat" where
  "required_inputs op = (if op = INVERSE then 1 else 2)"

definition inputs_errors :: "string list \<Rightarrow> string list" where
  "inputs_errors value =
     (if list_ex (\<lambda>s. canonical_errors s \<noteq> []) value then ['' must be a canonical BASE:QUOTE symbol'']
      else if \<not> distinct value then [''synthetic inputs cannot contain duplicates''] else [])"

definition validate_arity :: "synthetic_definition \<Rightarrow> string option" where
  "validate_arity d =
     first_error
       [(length (sd_inputs d) \<noteq> required_inputs (sd_operation d) \<or> MAX_SYNTHETIC_INPUTS < length (sd_inputs d),
           '' requires exactly ''),
        (sd_input_max_age_seconds d \<noteq> [] \<and> length (sd_input_max_age_seconds d) \<noteq> length (sd_inputs d),
           ''synthetic input age limits must match the input count'')]"

definition validate_synthetic :: "synthetic_definition \<Rightarrow> synthetic_definition validated" where
  "validate_synthetic d =
     model_validate
       (inputs_errors (sd_inputs d)
        @ (if in_range 0 1000000 (sd_max_skew_seconds d) then [] else [''Input should be ''])
        @ concat (map (range_errors (\<lambda>a. 0 < a \<and> a \<le> 604800)) (sd_input_max_age_seconds d)))
       (validate_arity d) d"

subsection \<open>Managed definitions\<close>

datatype instrument_ownership = BUILTIN | CUSTOM

record managed_definition =
  md_id :: string
  md_symbol :: string
  md_base :: string
  md_quote :: string
  md_name :: string
  md_description :: string
  md_asset_class :: asset_class
  md_asset_type :: string
  md_price_basis :: string
  md_change_basis :: string
  md_ownership :: instrument_ownership
  md_enabled :: bool
  md_archived :: bool
  md_aliases :: "string list"
  md_market_calendar :: market_calendar
  md_quote_poll_seconds :: rat
  md_stale_after_seconds :: rat
  md_history :: history_policy
  md_routes :: "capability_route list"
  md_provider_symbols :: "symbol_binding list"
  md_income :: "income_policy option"
  md_synthetic :: "synthetic_definition option"

definition token_errors :: "string \<Rightarrow> string list" where
  "token_errors value =
     (if value \<noteq> lower (strip value) \<or> \<not> token_pattern value
      then ['' must be a lowercase controlled identifier''] else [])"

definition aliases_errors :: "string list \<Rightarrow> string list" where
  "aliases_errors value =
     (if 32 < length value \<or> \<not> distinct value then [''instrument aliases are duplicated or exceed the limit'']
      else if list_ex (\<lambda>s. canonical_errors s \<noteq> []) value then ['' must be a canonical BASE:QUOTE symbol''] else [])"

definition distinct_errors :: "('a \<Rightarrow> 'b) \<Rightarrow> string \<Rightarrow> 'a list \<Rightarrow> string list" where
  "distinct_errors f message xs = (if distinct (map f xs) then [] else [message])"

definition optional_model :: "('a \<Rightarrow> 'b validated) \<Rightarrow> 'a option \<Rightarrow> string list" where
  "optional_model f v = (case v of None \<Rightarrow> [] | Some x \<Rightarrow> errors_of (f x))"

definition definition_field_errors :: "managed_definition \<Rightarrow> string list" where
  "definition_field_errors d =
     (if md_id d = lower (strip (md_id d)) \<and> id_pattern (md_id d) then []
      else [''instrument id must be a lowercase stable identifier''])
     @ canonical_errors (md_symbol d)
     @ (if asset_ok (md_base d) then [] else [''base and quote must be uppercase asset identifiers''])
     @ (if asset_ok (md_quote d) then [] else [''base and quote must be uppercase asset identifiers''])
     @ require_safe_text 160 (md_name d) @ require_safe_text 1000 (md_description d)
     @ token_errors (md_asset_type d) @ token_errors (md_price_basis d) @ token_errors (md_change_basis d)
     @ aliases_errors (md_aliases d)
     @ (if in_range (1/4) 604800 (md_quote_poll_seconds d) then [] else [''Input should be ''])
     @ (if in_range 1 604800 (md_stale_after_seconds d) then [] else [''Input should be ''])
     @ errors_of (validate_history (md_history d))
     @ tuple_errors (\<lambda>r. errors_of (validate_route r))
         (distinct_errors cr_capability ''instrument cannot declare duplicate capability routes'') (md_routes d)
     @ tuple_errors (\<lambda>b. errors_of (validate_binding b))
         (distinct_errors sb_provider ''instrument cannot declare duplicate provider symbols'') (md_provider_symbols d)
     @ optional_model validate_income (md_income d) @ optional_model validate_synthetic (md_synthetic d)"

definition income_yield :: "managed_definition \<Rightarrow> yield_strategy option" where
  "income_yield d = Option.bind (md_income d) in_yield_strategy"
definition income_mode :: "managed_definition \<Rightarrow> reward_accrual_mode option" where
  "income_mode d = Option.bind (md_income d) in_reward_accrual_mode"
definition income_underlying :: "managed_definition \<Rightarrow> string option" where
  "income_underlying d = Option.bind (md_income d) in_underlying_asset"
definition income_dividend :: "managed_definition \<Rightarrow> string option" where
  "income_dividend d = Option.bind (md_income d) in_dividend_strategy"

lemmas income_views = income_yield_def income_mode_def income_underlying_def income_dividend_def

definition definition_after :: "managed_definition \<Rightarrow> string option" where
  "definition_after d =
     first_error
       [(md_ownership d = BUILTIN \<and> \<not> is_prefix ''builtin-'' (md_id d), ''built-in instrument id must use the builtin namespace''),
        (md_ownership d = CUSTOM \<and> \<not> is_prefix ''custom-'' (md_id d), ''custom instrument id must use the custom namespace''),
        (md_symbol d \<noteq> md_base d @ '':'' @ md_quote d, ''instrument symbol must match base and quote''),
        (md_symbol d \<in> set (md_aliases d), ''instrument cannot alias its canonical symbol''),
        (md_archived d \<and> md_enabled d, ''an archived instrument cannot be enabled''),
        (md_stale_after_seconds d < md_quote_poll_seconds d, ''stale threshold cannot be shorter than quote polling''),
        (md_asset_class d = BOND \<and> income_yield d = None, ''bond instruments require a yield strategy''),
        (is_infix ''staking'' (md_asset_type d)
           \<and> (income_yield d = None \<or> income_mode d = None \<or> income_underlying d = None),
           ''staking instruments require yield, underlying asset, and accrual mode''),
        (income_mode d \<noteq> None \<and> (income_yield d = None \<or> income_underlying d = None),
           ''staking income policy is incomplete''),
        (case md_synthetic d of None \<Rightarrow> False | Some s \<Rightarrow> md_symbol d \<in> set (sd_inputs s),
           ''synthetic instrument cannot directly depend on itself'')]"

definition validate_definition :: "managed_definition \<Rightarrow> managed_definition validated" where
  "validate_definition d = model_validate (definition_field_errors d) (definition_after d) d"

subsection \<open>Conversion from and to instrument declarations\<close>

definition spec_income :: "instrument_spec \<Rightarrow> income_policy option" where
  "spec_income item =
     (if is_yield_strategy item \<noteq> None \<or> is_dividend_strategy item \<noteq> None
        \<or> is_reward_accrual_mode item \<noteq> None \<or> is_underlying_asset item \<noteq> None
      then Some
        \<lparr>in_yield_strategy = is_yield_strategy item, in_dividend_strategy = is_dividend_strategy item,
         in_reward_accrual_mode = is_reward_accrual_mode item, in_underlying_asset = is_underlying_asset item,
         in_fred_series =
           (if is_yield_strategy item = Some TREASURY_3M_PROXY_MINUS_EXPENSE then Some ''DGS3MO'' else None),
         in_expense_ratio_percent =
           (if is_yield_strategy item = Some TREASURY_3M_PROXY_MINUS_EXPENSE then Some (1949/10000) else None),
         in_fallback_ratio_days =
           (if is_reward_accrual_mode item = Some VALUE_ACCRUING then Some 30 else None)\<rparr>
      else None)"

definition from_instrument_spec ::
  "instrument_spec \<Rightarrow> string \<Rightarrow> instrument_ownership \<Rightarrow> bool \<Rightarrow> capability_route list \<Rightarrow>
   symbol_binding list \<Rightarrow> synthetic_definition option \<Rightarrow> managed_definition validated" where
  "from_instrument_spec item instrument_id ownership enabled routes provider_symbols synthetic =
     (let income = spec_income item;
          history = \<lparr>hp_enabled = is_history_enabled item, hp_poll_seconds = is_history_poll_seconds item,
                     hp_backfill_days = None\<rparr> in
      res_bind (case income of None \<Rightarrow> Inr () | Some p \<Rightarrow> res_bind (validate_income p) (\<lambda>_. Inr ())) (\<lambda>_.
      res_bind (validate_history history) (\<lambda>_.
      validate_definition
        \<lparr>md_id = instrument_id, md_symbol = is_symbol item, md_base = is_base item, md_quote = is_quote item,
         md_name = is_name item, md_description = is_description item, md_asset_class = is_asset_class item,
         md_asset_type = is_asset_type item, md_price_basis = is_price_basis item,
         md_change_basis = is_change_basis item, md_ownership = ownership, md_enabled = enabled,
         md_archived = False, md_aliases = is_aliases item, md_market_calendar = is_market_calendar item,
         md_quote_poll_seconds = is_quote_poll_seconds item, md_stale_after_seconds = is_stale_after_seconds item,
         md_history = history, md_routes = routes, md_provider_symbols = provider_symbols,
         md_income = income, md_synthetic = synthetic\<rparr>)))"

definition to_instrument_spec :: "managed_definition \<Rightarrow> instrument_spec" where
  "to_instrument_spec d =
     \<lparr>is_symbol = md_symbol d, is_base = md_base d, is_quote = md_quote d, is_name = md_name d,
      is_description = md_description d, is_asset_class = md_asset_class d, is_asset_type = md_asset_type d,
      is_price_basis = md_price_basis d, is_change_basis = md_change_basis d,
      is_yield_strategy = income_yield d, is_dividend_strategy = income_dividend d,
      is_reward_accrual_mode = income_mode d, is_underlying_asset = income_underlying d,
      is_aliases = md_aliases d, is_market_calendar = md_market_calendar d,
      is_stale_after_seconds = md_stale_after_seconds d, is_quote_poll_seconds = md_quote_poll_seconds d,
      is_history_enabled = hp_enabled (md_history d), is_history_poll_seconds = hp_poll_seconds (md_history d)\<rparr>"

definition builtin_instrument_id :: "string \<Rightarrow> string validated" where
  "builtin_instrument_id symbol =
     (if canonical_errors symbol \<noteq> [] then Inl (canonical_errors symbol)
      else Inr (''builtin-'' @ replace_char (CHR '':'') (CHR ''-'') (lower symbol)))"

subsection \<open>What validation guarantees\<close>

lemma validate_definition_same: "validate_definition d = Inr e \<Longrightarrow> e = d"
  by (simp add: validate_definition_def res_simps)

lemma income_views_spec_income:
  assumes "md_income d = spec_income item"
  shows "income_yield d = is_yield_strategy item" and "income_dividend d = is_dividend_strategy item"
    and "income_mode d = is_reward_accrual_mode item" and "income_underlying d = is_underlying_asset item"
  using assms by (auto simp: income_views spec_income_def)

lemma canonical_errors_Nil: "canonical_errors s = [] \<longleftrightarrow> normalize_symbol s = s \<and> symbol_pattern s"
  by (auto simp: canonical_errors_def)

lemma safe_text_not_blank: "require_safe_text n s = [] \<Longrightarrow> \<not> is_blank s"
  by (auto simp: require_safe_text_def is_blank_def split: if_splits)

lemma char_lower_idem [simp]: "char_lower (char_lower c) = char_lower c"
  by (auto simp: char_lower_def Let_def)

lemma lower_idem [simp]: "lower (lower s) = lower s"
  by (simp add: lower_def)

lemma token_okD:
  assumes "token_errors s = []"
  shows "\<not> is_blank s" and "lower s = s"
proof -
  from assms have s: "s = lower (strip s)" and "token_pattern s" by (auto simp: token_errors_def split: if_splits)
  then have "s \<noteq> []" by (auto simp: token_pattern_def)
  with s show "\<not> is_blank s" by (metis is_blank_def lower_def list.map_disc_iff)
  show "lower s = s" by (subst (2) s, subst s) (simp only: lower_idem)
qed

lemma asset_okD: "asset_ok a \<Longrightarrow> \<not> is_blank a \<and> upper (strip a) = a"
  by (auto simp: asset_ok_def is_blank_def asset_pattern_def upper_def)

lemma aliases_okD:
  "aliases_errors as = [] \<Longrightarrow> distinct as \<and> (\<forall>a \<in> set as. normalize_symbol a = a \<and> symbol_pattern a)"
  by (auto simp: aliases_errors_def list_ex_iff canonical_errors_Nil split: if_splits)

text \<open>The facts a validated definition provides, one per concern.\<close>

lemma validate_definition_fields:
  assumes "validate_definition d = Inr d"
  shows "canonical_errors (md_symbol d) = []" "asset_ok (md_base d)" "asset_ok (md_quote d)"
    "\<not> is_blank (md_name d)" "\<not> is_blank (md_description d)"
    "token_errors (md_asset_type d) = []" "token_errors (md_price_basis d) = []"
    "aliases_errors (md_aliases d) = []" "1/4 \<le> md_quote_poll_seconds d" "1 \<le> md_stale_after_seconds d"
    "errors_of (validate_history (md_history d)) = []" "optional_model validate_income (md_income d) = []"
    "optional_model validate_synthetic (md_synthetic d) = []"
proof -
  have e: "definition_field_errors d = []" using assms by (simp add: validate_definition_def res_simps)
  then show "canonical_errors (md_symbol d) = []" "asset_ok (md_base d)" "asset_ok (md_quote d)"
    "token_errors (md_asset_type d) = []" "token_errors (md_price_basis d) = []"
    "aliases_errors (md_aliases d) = []" "1/4 \<le> md_quote_poll_seconds d" "1 \<le> md_stale_after_seconds d"
    "errors_of (validate_history (md_history d)) = []" "optional_model validate_income (md_income d) = []"
    "optional_model validate_synthetic (md_synthetic d) = []"
    unfolding definition_field_errors_def by (simp_all add: in_range_def split: if_splits)
  from e have "require_safe_text 160 (md_name d) = []" "require_safe_text 1000 (md_description d) = []"
    unfolding definition_field_errors_def by simp_all
  then show "\<not> is_blank (md_name d)" "\<not> is_blank (md_description d)" by (auto dest: safe_text_not_blank)
qed

lemma validate_definition_rules:
  assumes "validate_definition d = Inr d"
  shows "md_symbol d = md_base d @ '':'' @ md_quote d" "md_symbol d \<notin> set (md_aliases d)"
    "md_asset_class d = BOND \<Longrightarrow> income_yield d \<noteq> None"
    "is_infix ''staking'' (md_asset_type d) \<Longrightarrow> income_yield d \<noteq> None \<and> income_mode d \<noteq> None \<and> income_underlying d \<noteq> None"
    "income_mode d \<noteq> None \<Longrightarrow> income_yield d \<noteq> None"
    "md_synthetic d = Some s \<Longrightarrow> md_symbol d \<notin> set (sd_inputs s)"
proof -
  have "definition_after d = None" using assms by (simp add: validate_definition_def res_simps)
  then have "md_symbol d = md_base d @ '':'' @ md_quote d \<and> md_symbol d \<notin> set (md_aliases d)
    \<and> (md_asset_class d = BOND \<longrightarrow> income_yield d \<noteq> None)
    \<and> (is_infix ''staking'' (md_asset_type d) \<longrightarrow> income_yield d \<noteq> None \<and> income_mode d \<noteq> None \<and> income_underlying d \<noteq> None)
    \<and> (income_mode d \<noteq> None \<longrightarrow> income_yield d \<noteq> None)
    \<and> (\<forall>s. md_synthetic d = Some s \<longrightarrow> md_symbol d \<notin> set (sd_inputs s))"
    unfolding definition_after_def first_error_None_iff by (auto split: option.splits)
  then show "md_symbol d = md_base d @ '':'' @ md_quote d" "md_symbol d \<notin> set (md_aliases d)"
    "md_asset_class d = BOND \<Longrightarrow> income_yield d \<noteq> None"
    "is_infix ''staking'' (md_asset_type d) \<Longrightarrow> income_yield d \<noteq> None \<and> income_mode d \<noteq> None \<and> income_underlying d \<noteq> None"
    "income_mode d \<noteq> None \<Longrightarrow> income_yield d \<noteq> None"
    "md_synthetic d = Some s \<Longrightarrow> md_symbol d \<notin> set (sd_inputs s)"
    by blast+
qed

lemma validated_underlying:
  assumes "validate_definition d = Inr d" and "income_underlying d = Some u"
  shows "asset_ok u"
proof -
  from assms(2) obtain p where p: "md_income d = Some p" "in_underlying_asset p = Some u"
    by (auto simp: income_underlying_def bind_eq_Some_conv)
  have "optional_model validate_income (md_income d) = []" by (rule validate_definition_fields [OF assms(1)])
  with p show ?thesis by (auto simp: optional_model_def validate_income_def optional_errors_def split: if_splits)
qed

lemma validated_history:
  "errors_of (validate_history h) = [] \<Longrightarrow> hp_poll_seconds h = Some p \<Longrightarrow> 1 \<le> p \<and> p \<le> 86400"
  by (auto simp: validate_history_def range_errors_def in_range_def split: if_splits)

lemma validated_is_instrument:
  assumes v: "validate_definition d = Inr d"
  shows "validate_instrument (to_instrument_spec d) = Inr (to_instrument_spec d)"
proof -
  note f = validate_definition_fields [OF v] and r = validate_definition_rules [OF v]
  have sym: "normalize_symbol (md_symbol d) = md_symbol d" "symbol_pattern (md_symbol d)"
    using f(1) by (auto simp: canonical_errors_Nil)
  have low: "lower (md_asset_type d) = md_asset_type d" using f(6) by (rule token_okD)
  have under: "\<not> is_blank u \<and> upper (strip u) = u" if "income_underlying d = Some u" for u
    using validated_underlying [OF v that] by (rule asset_okD)
  have hist: "1 \<le> p \<and> p \<le> 86400" if "hp_poll_seconds (md_history d) = Some p" for p
    using validated_history [OF f(11) that] .
  have "\<not> is_blank (md_asset_type d)" "\<not> is_blank (md_price_basis d)" using f(6,7) by (auto dest: token_okD)
  moreover have mode: "income_yield d = None \<Longrightarrow> income_mode d = None" using r(5) by blast
  moreover have "0 < md_quote_poll_seconds d" "0 < md_stale_after_seconds d" using f(9,10) by auto
  ultimately show ?thesis
    using sym f(4,5) r(1,3,4) asset_okD [OF f(2)] asset_okD [OF f(3)] under hist low
    by (auto simp: validate_instrument_def to_instrument_spec_def Let_def raise_if_def split: option.splits)
qed

end
