(* ===== verification/QP_Generation.thy ===== *)
theory QP_Generation
  imports QP_Catalog
begin

text \<open>
  Complete catalogue generations (\<^verbatim>\<open>CatalogGeneration\<close> and \<^verbatim>\<open>ManagedCatalogDocument\<close> of
  \<^verbatim>\<open>catalog.py\<close>): the identity scan over all instruments, the availability check of synthetic
  inputs, the memoised depth computation that rejects cycles and deep nesting, and the
  metadata registry a generation yields.
\<close>

record catalog_generation =
  cg_revision :: string
  cg_instruments :: "managed_definition list"

subsection \<open>The identity scan\<close>

record scan =
  sn_ids :: "string list"
  sn_symbols :: "string list"
  sn_aliases :: "string list"
  sn_custom_count :: nat
  sn_active_symbols :: "string list"
  sn_synthetic :: "(string, synthetic_definition) dict"

definition empty_scan :: scan where
  "empty_scan = \<lparr>sn_ids = [], sn_symbols = [], sn_aliases = [], sn_custom_count = 0,
     sn_active_symbols = [], sn_synthetic = []\<rparr>"

fun scan_aliases :: "string list \<Rightarrow> scan \<Rightarrow> string + scan" where
  "scan_aliases [] st = Inr st"
| "scan_aliases (a # as) st =
     raise_if (a \<in> set (sn_aliases st) \<or> a \<in> set (sn_symbols st)) ''catalog contains a duplicate instrument alias''
       (scan_aliases as (st\<lparr>sn_aliases := a # sn_aliases st\<rparr>))"

definition is_live :: "managed_definition \<Rightarrow> bool" where
  "is_live item = (md_enabled item \<and> \<not> md_archived item)"

definition scan_live :: "managed_definition \<Rightarrow> scan \<Rightarrow> scan" where
  "scan_live item st =
     (if is_live item then
        (let st' = st\<lparr>sn_active_symbols := md_symbol item # sn_active_symbols st\<rparr> in
         case md_synthetic item of
           None \<Rightarrow> st'
         | Some recipe \<Rightarrow> st'\<lparr>sn_synthetic := dict_set (md_symbol item) recipe (sn_synthetic st')\<rparr>)
      else st)"

fun scan_items :: "managed_definition list \<Rightarrow> scan \<Rightarrow> string + scan" where
  "scan_items [] st = Inr st"
| "scan_items (item # items) st =
     raise_if (md_id item \<in> set (sn_ids st) \<or> md_symbol item \<in> set (sn_symbols st) \<or> md_symbol item \<in> set (sn_aliases st))
       ''catalog contains a duplicate instrument identity''
     (res_bind (scan_aliases (md_aliases item)
         (st\<lparr>sn_ids := md_id item # sn_ids st, sn_symbols := md_symbol item # sn_symbols st,
             sn_custom_count := (if md_ownership item = CUSTOM then Suc (sn_custom_count st) else sn_custom_count st)\<rparr>))
       (\<lambda>st'. scan_items items (scan_live item st')))"

subsection \<open>Synthetic depth\<close>

text \<open>
  \<^verbatim>\<open>depth\<close> over a list of symbols: the memo table \<^verbatim>\<open>depths\<close> is threaded through, \<^verbatim>\<open>visiting\<close>
  holds the symbols of the call stack; the result lists the depths of the symbols.
\<close>

definition max_depth :: "nat list \<Rightarrow> nat" where
  "max_depth ds = fold max ds 0"

function depth_list :: "string graph \<Rightarrow> string list \<Rightarrow> (string, nat) dict \<Rightarrow> string list \<Rightarrow>
    string + ((string, nat) dict \<times> nat list)" where
  "depth_list g visiting depths [] = Inr (depths, [])"
| "depth_list g visiting depths (s # ss) =
     res_bind
       (case dict_get depths s of
          Some d \<Rightarrow> Inr (depths, d)
        | None \<Rightarrow>
            if s \<in> set visiting then Inl ''catalog contains a synthetic dependency cycle''
            else if s \<notin> set (dict_keys g) then Inr (depths, 0)
            else res_bind (depth_list g (s # visiting) depths (dict_list g s)) (\<lambda>(depths', ds).
              let d = 1 + max_depth ds in
              raise_if (MAX_SYNTHETIC_DEPTH < d) ''synthetic dependency depth exceeds the limit of ''
                (Inr (dict_set s d depths', d))))
       (\<lambda>(depths', d). res_bind (depth_list g visiting depths' ss) (\<lambda>(depths'', ds). Inr (depths'', d # ds)))"
  by pat_completeness auto
termination
proof (relation "measures [\<lambda>(g, i, m, ss). card (set (dict_keys g) - set i), \<lambda>(g, i, m, ss). length ss]", goal_cases)
  case (2 g visiting depths s ss)
  then have "card (set (dict_keys g) - insert s (set visiting)) < card (set (dict_keys g) - set visiting)"
    by (intro card_minus_insert) auto
  then show ?case by simp
qed auto

definition synthetic_graph :: "(string, synthetic_definition) dict \<Rightarrow> string graph" where
  "synthetic_graph synthetic = map (\<lambda>(s, d). (s, sd_inputs d)) synthetic"

definition check_depths :: "string graph \<Rightarrow> string + unit" where
  "check_depths g = res_bind (depth_list g [] [] (dict_keys g)) (\<lambda>_. Inr ())"

subsection \<open>Generations\<close>

definition generation_after :: "(managed_definition list \<Rightarrow> string) \<Rightarrow> catalog_generation \<Rightarrow> string + unit" where
  "generation_after revision g =
     raise_if (cg_instruments g = []) ''catalog generation cannot be empty'' (
     raise_if (cg_revision g \<noteq> revision (cg_instruments g)) ''catalog generation revision does not match its content'' (
     res_bind (scan_items (cg_instruments g) empty_scan) (\<lambda>st.
     raise_if (MAX_CUSTOM_INSTRUMENTS < sn_custom_count st) ''catalog exceeds the '' (
     raise_if (list_ex (\<lambda>(s, r). list_ex (\<lambda>i. i \<notin> set (sn_active_symbols st)) (sd_inputs r)) (sn_synthetic st))
       ''synthetic instrument '' (
     check_depths (synthetic_graph (sn_synthetic st)))))))"

definition is_revision :: "string \<Rightarrow> bool" where
  "is_revision s = (length s = 64 \<and> list_all (\<lambda>c. is_digit c \<or> c \<in> set ''abcdef'') s)"

definition validate_generation ::
  "(managed_definition list \<Rightarrow> string) \<Rightarrow> catalog_generation \<Rightarrow> catalog_generation validated" where
  "validate_generation revision g =
     model_validate
       ((if is_revision (cg_revision g) then [] else [''String should match pattern ''])
        @ concat (map (\<lambda>d. errors_of (validate_definition d)) (cg_instruments g)))
       (case generation_after revision g of Inl message \<Rightarrow> Some message | Inr _ \<Rightarrow> None) g"

definition build_generation ::
  "(managed_definition list \<Rightarrow> string) \<Rightarrow> managed_definition list \<Rightarrow> catalog_generation validated" where
  "build_generation revision instruments =
     validate_generation revision \<lparr>cg_revision = revision instruments, cg_instruments = instruments\<rparr>"

definition by_id :: "catalog_generation \<Rightarrow> (string, managed_definition) dict" where
  "by_id g = fold (\<lambda>d. dict_set (md_id d) d) (cg_instruments g) []"

definition by_symbol :: "catalog_generation \<Rightarrow> (string, managed_definition) dict" where
  "by_symbol g = fold (\<lambda>d. dict_set (md_symbol d) d) (cg_instruments g) []"

definition default_installer :: string where
  "default_installer = ''quickprice.providers.wiring:install_builtin_provider_routes''"

definition to_registry :: "string option \<Rightarrow> catalog_generation \<Rightarrow> registry result" where
  "to_registry provider_installer g =
     mk_registry [\<lparr>ip_plugin_id = ''managed-catalog'', ip_version = CATALOG_SCHEMA_VERSION,
       ip_instruments = map to_instrument_spec (filter is_live (cg_instruments g)),
       ip_provider_installer =
         (case provider_installer of None \<Rightarrow> Some ''_install_noop''
          | Some i \<Rightarrow> if i = [] then Some ''_install_noop'' else Some i),
       ip_provider_bindings = [], ip_synthetic_recipes = []\<rparr>]"

record catalog_document =
  cd_version :: nat
  cd_active :: catalog_generation
  cd_staged :: "catalog_generation option"
  cd_last_known_good :: "catalog_generation option"

definition validate_document ::
  "(managed_definition list \<Rightarrow> string) \<Rightarrow> catalog_document \<Rightarrow> catalog_document validated" where
  "validate_document revision doc =
     model_validate
       ((if cd_version doc = 2 then [] else [''Input should be ''])
        @ errors_of (validate_generation revision (cd_active doc))
        @ optional_model (validate_generation revision) (cd_staged doc)
        @ optional_model (validate_generation revision) (cd_last_known_good doc)) None doc"

subsection \<open>The depth computation\<close>

text \<open>
  Depth as length of dependency chains: \<^verbatim>\<open>d\<close> bounds the chains that start at a symbol, or
  some chain of length \<^verbatim>\<open>d\<close> starts there.
\<close>

definition depth_upper :: "string graph \<Rightarrow> string \<Rightarrow> nat \<Rightarrow> bool" where
  "depth_upper g s d \<longleftrightarrow> (\<forall>t. (s, t) \<notin> edges g ^^ Suc d)"

definition depth_lower :: "string graph \<Rightarrow> string \<Rightarrow> nat \<Rightarrow> bool" where
  "depth_lower g s d \<longleftrightarrow> (\<exists>t. (s, t) \<in> edges g ^^ d)"

definition memo_ok :: "(string \<Rightarrow> nat \<Rightarrow> bool) \<Rightarrow> (string, nat) dict \<Rightarrow> bool" where
  "memo_ok P depths \<longleftrightarrow> (\<forall>s d. dict_get depths s = Some d \<longrightarrow> P s d)"

lemma memo_ok_Nil [simp]: "memo_ok P []"
  by (simp add: memo_ok_def)

lemma memo_ok_set: "memo_ok P depths \<Longrightarrow> P s d \<Longrightarrow> memo_ok P (dict_set s d depths)"
  by (auto simp: memo_ok_def)

lemma max_depth_ge: "d \<in> set ds \<Longrightarrow> d \<le> max_depth ds"
proof -
  have "x \<le> fold max ds x \<and> (\<forall>d \<in> set ds. d \<le> fold max ds x)" for x :: nat
    by (induction ds arbitrary: x) (auto, (metis max.bounded_iff max.cobounded1)+)
  then show "d \<in> set ds \<Longrightarrow> d \<le> max_depth ds" by (simp add: max_depth_def)
qed

lemma max_depth_in: "ds \<noteq> [] \<Longrightarrow> max_depth ds \<in> set ds"
proof -
  have fold_in: "fold max xs x \<in> insert x (set xs)" for x :: nat and xs
  proof (induction xs arbitrary: x)
    case (Cons a xs)
    from Cons [of "max a x"] show ?case by (auto simp: max_def split: if_splits)
  qed simp
  assume "ds \<noteq> []"
  then obtain a as where "ds = a # as" by (cases ds) auto
  then show ?thesis using fold_in [of as a] by (simp add: max_depth_def)
qed

lemma list_all2_in1: "list_all2 P xs ys \<Longrightarrow> x \<in> set xs \<Longrightarrow> \<exists>y \<in> set ys. P x y"
  by (induction rule: list_all2_induct) auto

lemma list_all2_in2: "list_all2 P xs ys \<Longrightarrow> y \<in> set ys \<Longrightarrow> \<exists>x \<in> set xs. P x y"
  by (induction rule: list_all2_induct) auto

lemma relpow_edges_Suc:
  "(s, t) \<in> edges g ^^ Suc n \<longleftrightarrow> (\<exists>c \<in> set (dict_list g s). (c, t) \<in> edges g ^^ n)"
proof
  assume "(s, t) \<in> edges g ^^ Suc n"
  then show "\<exists>c \<in> set (dict_list g s). (c, t) \<in> edges g ^^ n"
    by (rule relpow_Suc_E2) (auto simp: edges_iff)
next
  assume "\<exists>c \<in> set (dict_list g s). (c, t) \<in> edges g ^^ n"
  then show "(s, t) \<in> edges g ^^ Suc n"
    by (auto simp: edges_iff [symmetric] simp del: relpow.simps intro: relpow_Suc_I2)
qed

lemma depth_upper_leaf: "s \<notin> set (dict_keys g) \<Longrightarrow> depth_upper g s 0"
  by (auto simp: depth_upper_def edges_iff dict_list_Nil_if)

lemma depth_upper_step:
  assumes "list_all2 (depth_upper g) (dict_list g s) ds"
  shows "depth_upper g s (1 + max_depth ds)"
  unfolding depth_upper_def
proof (intro allI notI)
  fix t
  assume "(s, t) \<in> edges g ^^ Suc (1 + max_depth ds)"
  then obtain c where c: "c \<in> set (dict_list g s)" "(c, t) \<in> edges g ^^ (1 + max_depth ds)"
    unfolding relpow_edges_Suc by blast
  then obtain d where d: "d \<in> set ds" "depth_upper g c d"
    using list_all2_in1 [OF assms c(1)] by auto
  have "(c, t) \<in> edges g ^^ (Suc d + (max_depth ds - d))" using c(2) max_depth_ge [OF d(1)] by simp
  then obtain u where "(c, u) \<in> edges g ^^ Suc d" unfolding relpow_add by blast
  with d(2) show False by (simp add: depth_upper_def)
qed

lemma depth_lower_step:
  assumes "list_all2 (depth_lower g) (dict_list g s) ds" and "dict_list g s \<noteq> []"
  shows "depth_lower g s (1 + max_depth ds)"
proof -
  have "ds \<noteq> []" using assms by auto
  then have "max_depth ds \<in> set ds" by (rule max_depth_in)
  then obtain c where "c \<in> set (dict_list g s)" "depth_lower g c (max_depth ds)"
    using list_all2_in2 [OF assms(1)] by blast
  then show ?thesis by (auto simp: depth_lower_def relpow_edges_Suc simp del: relpow.simps)
qed

lemma depth_lower_bounded: "edges g ^^ Suc n = {} \<Longrightarrow> depth_lower g s d \<Longrightarrow> \<not> n < d"
proof
  assume none: "edges g ^^ Suc n = {}" and low: "depth_lower g s d" and "n < d"
  then have "d = Suc n + (d - Suc n)" by simp
  moreover obtain t where "(s, t) \<in> edges g ^^ d" using low by (auto simp: depth_lower_def)
  ultimately have "(s, t) \<in> edges g ^^ (Suc n + (d - Suc n))" by simp
  then show False unfolding relpow_add none by blast
qed

lemma short_paths_acyclic:
  assumes "edges g ^^ Suc n = {}"
  shows "acyclic (edges g)"
proof (rule acyclicI, intro allI notI)
  fix x
  assume loop: "(x, x) \<in> (edges g)\<^sup>+"
  have "\<exists>y. (x, y) \<in> edges g ^^ k \<and> (y, x) \<in> (edges g)\<^sup>+" for k
  proof (induction k)
    case 0
    with loop show ?case by auto
  next
    case (Suc k)
    then obtain y where y: "(x, y) \<in> edges g ^^ k" "(y, x) \<in> (edges g)\<^sup>+" by blast
    then obtain z where "(y, z) \<in> edges g" "(z, x) \<in> (edges g)\<^sup>*" by (blast dest: tranclD)
    with y loop show ?case by (auto intro: relcompI rtrancl_trancl_trancl)
  qed
  with assms show False by blast
qed

lemma depth_list_sound:
  assumes "depth_list g visiting depths ss = Inr (depths', ds)"
    and "memo_ok (\<lambda>s d. depth_upper g s d \<and> d \<le> MAX_SYNTHETIC_DEPTH) depths"
  shows "memo_ok (\<lambda>s d. depth_upper g s d \<and> d \<le> MAX_SYNTHETIC_DEPTH) depths'
    \<and> list_all2 (\<lambda>s d. depth_upper g s d \<and> d \<le> MAX_SYNTHETIC_DEPTH) ss ds"
  using assms
proof (induction g visiting depths ss arbitrary: depths' ds rule: depth_list.induct)
  case (1 g visiting depths)
  then show ?case by simp
next
  case (2 g visiting depths s ss)
  let ?P = "\<lambda>s d. depth_upper g s d \<and> d \<le> MAX_SYNTHETIC_DEPTH"
  obtain m d ds' where
    hd: "(case dict_get depths s of Some d \<Rightarrow> Inr (depths, d)
        | None \<Rightarrow> if s \<in> set visiting then Inl ''catalog contains a synthetic dependency cycle''
            else if s \<notin> set (dict_keys g) then Inr (depths, 0)
            else res_bind (depth_list g (s # visiting) depths (dict_list g s)) (\<lambda>(depths', ds).
              let d = 1 + max_depth ds in
              raise_if (MAX_SYNTHETIC_DEPTH < d) ''synthetic dependency depth exceeds the limit of ''
                (Inr (dict_set s d depths', d)))) = Inr (m, d)"
    and tl: "depth_list g visiting m ss = Inr (depths', ds')" and ds: "ds = d # ds'"
    using "2.prems"(1) by (auto simp: res_simps)
  have "memo_ok ?P m \<and> ?P s d"
  proof (cases "dict_get depths s")
    case (Some e)
    with hd "2.prems"(2) show ?thesis by (auto simp: memo_ok_def)
  next
    case None
    show ?thesis
    proof (cases "s \<in> set (dict_keys g)")
      case False
      with None hd "2.prems"(2) depth_upper_leaf show ?thesis by (auto split: if_splits)
    next
      case True
      with None hd obtain m1 ds1 where ns: "s \<notin> set visiting"
        and rec: "depth_list g (s # visiting) depths (dict_list g s) = Inr (m1, ds1)"
        and d: "d = 1 + max_depth ds1" "\<not> MAX_SYNTHETIC_DEPTH < d" "m = dict_set s d m1"
        by (auto simp: res_simps Let_def split: if_splits)
      have nn: "\<not> s \<notin> set (dict_keys g)" using True by simp
      from "2.IH"(1) [OF None ns nn rec "2.prems"(2)]
      have sub: "memo_ok ?P m1" "list_all2 ?P (dict_list g s) ds1" by auto
      have "list_all2 (depth_upper g) (dict_list g s) ds1"
        using sub(2) by (rule list_all2_mono) simp
      then have "?P s d" using depth_upper_step d by simp
      with sub(1) d(3) show ?thesis by (simp add: memo_ok_set)
    qed
  qed
  with "2.IH"(2) [OF hd refl tl] show ?case by (simp add: ds)
qed

lemma depth_list_complete:
  assumes "edges g ^^ Suc MAX_SYNTHETIC_DEPTH = {}" and "\<And>s. s \<in> set (dict_keys g) \<Longrightarrow> dict_list g s \<noteq> []"
    and "\<And>x s. x \<in> set visiting \<Longrightarrow> s \<in> set ss \<Longrightarrow> (x, s) \<in> (edges g)\<^sup>+"
    and "memo_ok (depth_lower g) depths"
  shows "\<exists>depths' ds. depth_list g visiting depths ss = Inr (depths', ds) \<and> memo_ok (depth_lower g) depths'
    \<and> list_all2 (depth_lower g) ss ds"
  using assms
proof (induction g visiting depths ss rule: depth_list.induct)
  case (1 g visiting depths)
  then show ?case by simp
next
  case (2 g visiting depths s ss)
  have acy: "acyclic (edges g)"
    using short_paths_acyclic "2.prems"(1) by blast
  let ?head = "case dict_get depths s of Some d \<Rightarrow> Inr (depths, d)
        | None \<Rightarrow> if s \<in> set visiting then Inl ''catalog contains a synthetic dependency cycle''
            else if s \<notin> set (dict_keys g) then Inr (depths, 0)
            else res_bind (depth_list g (s # visiting) depths (dict_list g s)) (\<lambda>(depths', ds).
              let d = 1 + max_depth ds in
              raise_if (MAX_SYNTHETIC_DEPTH < d) ''synthetic dependency depth exceeds the limit of ''
                (Inr (dict_set s d depths', d)))"
  have "\<exists>m d. ?head = Inr (m, d) \<and> memo_ok (depth_lower g) m \<and> depth_lower g s d"
  proof (cases "dict_get depths s")
    case (Some e)
    with "2.prems"(4) show ?thesis by (auto simp: memo_ok_def)
  next
    case None
    have ns: "s \<notin> set visiting" using acy "2.prems"(3) by (auto simp: acyclic_def)
    show ?thesis
    proof (cases "s \<in> set (dict_keys g)")
      case False
      have "depth_lower g s 0" by (simp add: depth_lower_def)
      with False None ns "2.prems"(4) show ?thesis by simp
    next
      case True
      then have nn: "\<not> s \<notin> set (dict_keys g)" by simp
      have vis: "(x, c) \<in> (edges g)\<^sup>+" if "x \<in> set (s # visiting)" "c \<in> set (dict_list g s)" for x c
        using that "2.prems"(3) by (auto simp: edges_iff [symmetric] intro: trancl_into_trancl)
      obtain m1 ds1 where rec: "depth_list g (s # visiting) depths (dict_list g s) = Inr (m1, ds1)"
        and m1: "memo_ok (depth_lower g) m1" and ds1: "list_all2 (depth_lower g) (dict_list g s) ds1"
        using "2.IH"(1) [OF None ns nn "2.prems"(1,2) vis "2.prems"(4)] by blast
      have low: "depth_lower g s (1 + max_depth ds1)"
        by (rule depth_lower_step [OF ds1 "2.prems"(2) [OF True]])
      then have "\<not> MAX_SYNTHETIC_DEPTH < 1 + max_depth ds1"
        using depth_lower_bounded "2.prems"(1) by blast
      then show ?thesis using None ns True m1 low rec by (simp add: Let_def memo_ok_set)
    qed
  qed
  then obtain m d where hd: "?head = Inr (m, d)" and m: "memo_ok (depth_lower g) m" and d: "depth_lower g s d" by blast
  obtain depths' ds where tl: "depth_list g visiting m ss = Inr (depths', ds)" "memo_ok (depth_lower g) depths'"
    "list_all2 (depth_lower g) ss ds"
    using "2.IH"(2) [OF hd refl "2.prems"(1,2) _ m] "2.prems"(3) by auto
  have "depth_list g visiting depths (s # ss) = Inr (depths', d # ds)"
    unfolding depth_list.simps(2) hd by (simp add: tl(1))
  with tl d show ?case by simp
qed

end
