(* ===== verification/QP_Generation_Props.thy ===== *)
theory QP_Generation_Props
  imports QP_Generation
begin

text \<open>
  When a catalogue generation is accepted, and that an accepted generation always yields a
  registry: the administrator's catalogue and the registry's own validation agree.
\<close>

lemma check_depths_iff:
  assumes "\<And>s. s \<in> set (dict_keys g) \<Longrightarrow> dict_list g s \<noteq> []"
  shows "check_depths g = Inr () \<longleftrightarrow> edges g ^^ Suc MAX_SYNTHETIC_DEPTH = {}"
proof
  assume "check_depths g = Inr ()"
  then obtain m ds where "depth_list g [] [] (dict_keys g) = Inr (m, ds)" by (auto simp: check_depths_def res_simps)
  from depth_list_sound [OF this] have all: "list_all2 (\<lambda>s d. depth_upper g s d \<and> d \<le> MAX_SYNTHETIC_DEPTH) (dict_keys g) ds" by simp
  have False if path: "(s, t) \<in> edges g ^^ Suc MAX_SYNTHETIC_DEPTH" for s t
  proof -
    have "dict_list g s \<noteq> []" using path unfolding relpow_edges_Suc by auto
    then have "s \<in> set (dict_keys g)" using dict_list_Nil_if by metis
    then obtain d where d: "depth_upper g s d" "d \<le> MAX_SYNTHETIC_DEPTH" using list_all2_in1 [OF all] by blast
    then have eq: "Suc MAX_SYNTHETIC_DEPTH = Suc d + (MAX_SYNTHETIC_DEPTH - d)" by simp
    have "(s, t) \<in> edges g ^^ (Suc d + (MAX_SYNTHETIC_DEPTH - d))"
      by (rule subst [where P = "\<lambda>n. (s, t) \<in> edges g ^^ n", OF eq path])
    then obtain u where "(s, u) \<in> edges g ^^ Suc d" unfolding relpow_add by blast
    with d(1) show False by (simp add: depth_upper_def)
  qed
  then show "edges g ^^ Suc MAX_SYNTHETIC_DEPTH = {}" by auto
next
  assume "edges g ^^ Suc MAX_SYNTHETIC_DEPTH = {}"
  from depth_list_complete [OF this assms, of "[]" "dict_keys g" "[]"]
  show "check_depths g = Inr ()" by (auto simp: check_depths_def)
qed

subsection \<open>The identity scan\<close>

definition own_names :: "managed_definition \<Rightarrow> string list" where
  "own_names d = md_symbol d # md_aliases d"

definition scan_add :: "managed_definition \<Rightarrow> scan \<Rightarrow> scan" where
  "scan_add item st =
     scan_live item (st\<lparr>sn_ids := md_id item # sn_ids st, sn_symbols := md_symbol item # sn_symbols st,
       sn_custom_count := (if md_ownership item = CUSTOM then Suc (sn_custom_count st) else sn_custom_count st),
       sn_aliases := rev (md_aliases item) @ sn_aliases st\<rparr>)"

lemma scan_aliases_iff:
  "scan_aliases as st = Inr st' \<longleftrightarrow>
     distinct as \<and> set as \<inter> (set (sn_aliases st) \<union> set (sn_symbols st)) = {}
     \<and> st' = st\<lparr>sn_aliases := rev as @ sn_aliases st\<rparr>"
  by (induction as arbitrary: st) (auto simp: res_simps)

lemma scan_live_sel [simp]:
  "sn_ids (scan_live item st) = sn_ids st" "sn_symbols (scan_live item st) = sn_symbols st"
  "sn_aliases (scan_live item st) = sn_aliases st" "sn_custom_count (scan_live item st) = sn_custom_count st"
  by (simp_all add: scan_live_def Let_def split: option.splits)

lemma scan_items_iff:
  "scan_items items st = Inr st' \<longleftrightarrow>
     distinct (map md_id items) \<and> md_id ` set items \<inter> set (sn_ids st) = {}
     \<and> distinct (concat (map own_names items))
     \<and> set (concat (map own_names items)) \<inter> (set (sn_symbols st) \<union> set (sn_aliases st)) = {}
     \<and> st' = fold scan_add items st"
proof (induction items arbitrary: st)
  case Nil
  then show ?case by auto
next
  case (Cons d items)
  define L where "L = concat (map own_names items)"
  define N where "N = set (sn_symbols st) \<union> set (sn_aliases st)"
  let ?st = "st\<lparr>sn_ids := md_id d # sn_ids st, sn_symbols := md_symbol d # sn_symbols st,
             sn_custom_count := (if md_ownership d = CUSTOM then Suc (sn_custom_count st) else sn_custom_count st)\<rparr>"
  have add: "scan_live d (?st\<lparr>sn_aliases := rev (md_aliases d) @ sn_aliases ?st\<rparr>) = scan_add d st"
    by (simp add: scan_add_def)
  have sel: "sn_ids (scan_add d st) = md_id d # sn_ids st"
    "set (sn_symbols (scan_add d st)) \<union> set (sn_aliases (scan_add d st)) = set (own_names d) \<union> N"
    by (auto simp: scan_add_def own_names_def N_def)
  have head: "scan_items (d # items) st = Inr st' \<longleftrightarrow>
      md_id d \<notin> set (sn_ids st) \<and> distinct (own_names d) \<and> set (own_names d) \<inter> N = {}
      \<and> scan_items items (scan_add d st) = Inr st'"
    unfolding scan_items.simps(2) raise_if_Inr_iff res_bind_Inr_iff scan_aliases_iff
    by (auto simp: own_names_def N_def scan_add_def)
  show ?case
    unfolding head Cons.IH [of "scan_add d st"] sel L_def [symmetric] N_def [symmetric]
    by (auto simp: L_def [symmetric])
qed

definition live_recipes :: "managed_definition \<Rightarrow> (string \<times> synthetic_definition) list" where
  "live_recipes d =
     (if is_live d then (case md_synthetic d of None \<Rightarrow> [] | Some r \<Rightarrow> [(md_symbol d, r)]) else [])"

lemma live_recipes_keys: "set (dict_keys (live_recipes d)) \<subseteq> {md_symbol d}"
  by (cases "md_synthetic d"; cases "is_live d") (simp_all add: live_recipes_def)

lemma disjoint_grow: "A \<inter> K = {} \<Longrightarrow> x \<notin> A \<Longrightarrow> K' \<subseteq> insert x K \<Longrightarrow> A \<inter> K' = {}"
  by blast

lemma scan_fold:
  assumes "distinct (map md_symbol items)" and "md_symbol ` set items \<inter> set (dict_keys (sn_synthetic st)) = {}"
  shows "sn_custom_count (fold scan_add items st) = length (filter (\<lambda>d. md_ownership d = CUSTOM) items) + sn_custom_count st
    \<and> sn_active_symbols (fold scan_add items st) = rev (map md_symbol (filter is_live items)) @ sn_active_symbols st
    \<and> sn_synthetic (fold scan_add items st) = sn_synthetic st @ concat (map live_recipes items)"
  using assms
proof (induction items arbitrary: st)
  case (Cons d items)
  have syn: "sn_synthetic (scan_add d st) = sn_synthetic st @ live_recipes d"
    using Cons.prems by (auto simp: scan_add_def scan_live_def live_recipes_def Let_def dict_set_new split: option.splits)
  have act: "sn_active_symbols (scan_add d st) = (if is_live d then [md_symbol d] else []) @ sn_active_symbols st"
    by (auto simp: scan_add_def scan_live_def Let_def split: option.splits)
  have cnt: "sn_custom_count (scan_add d st) = (if md_ownership d = CUSTOM then 1 else 0) + sn_custom_count st"
    by (simp add: scan_add_def)
  have new: "md_symbol d \<notin> md_symbol ` set items" using Cons.prems(1) by simp
  have old: "md_symbol ` set items \<inter> set (dict_keys (sn_synthetic st)) = {}" using Cons.prems(2) by simp
  have "set (dict_keys (sn_synthetic (scan_add d st))) \<subseteq> insert (md_symbol d) (set (dict_keys (sn_synthetic st)))"
    using live_recipes_keys [of d] by (simp add: syn) blast
  then have "md_symbol ` set items \<inter> set (dict_keys (sn_synthetic (scan_add d st))) = {}"
    by (rule disjoint_grow [OF old new])
  with Cons.IH [of "scan_add d st"] Cons.prems(1) show ?case by (simp add: cnt act syn)
qed simp

subsection \<open>Acceptance\<close>

definition dependency_graph :: "managed_definition list \<Rightarrow> string graph" where
  "dependency_graph items = synthetic_graph (concat (map live_recipes items))"

definition inputs_live :: "managed_definition list \<Rightarrow> bool" where
  "inputs_live items \<longleftrightarrow>
     list_all (\<lambda>(s, r). list_all (\<lambda>i. i \<in> md_symbol ` set (filter is_live items)) (sd_inputs r)) (concat (map live_recipes items))"

lemma distinct_symbols: "distinct (concat (map own_names items)) \<Longrightarrow> distinct (map md_symbol items)"
proof -
  assume "distinct (concat (map own_names items))"
  then have "distinct (concat (map (\<lambda>d. [md_symbol d]) items))"
    by (rule distinct_concat_part) (auto simp: own_names_def)
  then show ?thesis by (simp add: concat_map_singleton)
qed

lemma dependency_inputs_nonempty:
  assumes "list_all (\<lambda>d. validate_definition d = Inr d) items" and "distinct (map md_symbol items)"
    and "s \<in> set (dict_keys (dependency_graph items))"
  shows "dict_list (dependency_graph items) s \<noteq> []"
proof -
  let ?rs = "concat (map live_recipes items)"
  from assms(3) obtain ins where ins: "dict_get (dependency_graph items) s = Some ins"
    by (metis domIff dom_map_of_conv_image_fst list.set_map option.exhaust_sel)
  then have "(s, ins) \<in> set (dependency_graph items)" by (rule map_of_SomeD)
  then obtain d r where d: "d \<in> set items" "md_synthetic d = Some r" "ins = sd_inputs r"
    by (auto simp: dependency_graph_def synthetic_graph_def live_recipes_def split: if_splits option.splits) metis
  have "optional_model validate_synthetic (md_synthetic d) = []"
    using assms(1) d(1) validate_definition_fields(13) by (auto simp: list_all_iff)
  then have "validate_arity r = None" using d(2) by (simp add: optional_model_def validate_synthetic_def)
  then have "length (sd_inputs r) = required_inputs (sd_operation r)"
    by (auto simp: validate_arity_def split: if_splits)
  then have "ins \<noteq> []" using d(3) by (auto simp: required_inputs_def split: if_splits)
  then show ?thesis by (simp add: dict_list_def ins)
qed

lemma definitions_valid_iff:
  "concat (map (\<lambda>d. errors_of (validate_definition d)) items) = [] \<longleftrightarrow> list_all (\<lambda>d. validate_definition d = Inr d) items"
  by (auto simp: list_all_iff validate_definition_def res_simps)

lemma generation_after_iff:
  assumes "list_all (\<lambda>d. validate_definition d = Inr d) (cg_instruments g)"
  shows "generation_after revision g = Inr () \<longleftrightarrow>
     cg_instruments g \<noteq> [] \<and> cg_revision g = revision (cg_instruments g)
     \<and> distinct (map md_id (cg_instruments g)) \<and> distinct (concat (map own_names (cg_instruments g)))
     \<and> length (filter (\<lambda>d. md_ownership d = CUSTOM) (cg_instruments g)) \<le> MAX_CUSTOM_INSTRUMENTS
     \<and> inputs_live (cg_instruments g)
     \<and> edges (dependency_graph (cg_instruments g)) ^^ Suc MAX_SYNTHETIC_DEPTH = {}"
proof -
  let ?items = "cg_instruments g"
  have scan: "scan_items ?items empty_scan = Inr st \<longleftrightarrow> distinct (map md_id ?items)
      \<and> distinct (concat (map own_names ?items)) \<and> st = fold scan_add ?items empty_scan" for st
    by (simp add: scan_items_iff empty_scan_def)
  show ?thesis
  proof (cases "distinct (concat (map own_names ?items))")
    case False
    then show ?thesis by (auto simp: generation_after_def res_simps scan)
  next
    case True
    then have sym: "distinct (map md_symbol ?items)" by (rule distinct_symbols)
    have f: "sn_custom_count (fold scan_add ?items empty_scan) = length (filter (\<lambda>d. md_ownership d = CUSTOM) ?items)"
      "sn_active_symbols (fold scan_add ?items empty_scan) = rev (map md_symbol (filter is_live ?items))"
      "sn_synthetic (fold scan_add ?items empty_scan) = concat (map live_recipes ?items)"
      using scan_fold [OF sym, of empty_scan] by (simp_all add: empty_scan_def)
    have live: "\<not> list_ex (\<lambda>(s, r). list_ex (\<lambda>i. i \<notin> set (rev (map md_symbol (filter is_live ?items)))) (sd_inputs r)) (concat (map live_recipes ?items))
        \<longleftrightarrow> inputs_live ?items"
      by (simp add: inputs_live_def list_all_iff list_ex_iff case_prod_beta)
    have dep: "check_depths (synthetic_graph (concat (map live_recipes ?items))) = Inr () \<longleftrightarrow>
        edges (dependency_graph ?items) ^^ Suc MAX_SYNTHETIC_DEPTH = {}"
      using check_depths_iff [OF dependency_inputs_nonempty [OF assms sym]] by (simp add: dependency_graph_def)
    show ?thesis
      unfolding generation_after_def raise_if_Inr_iff res_bind_Inr_iff scan
      using True by (simp add: f live [simplified] dep not_less)
  qed
qed

lemma build_generation_iff:
  "build_generation revision items = Inr g \<longleftrightarrow>
     g = \<lparr>cg_revision = revision items, cg_instruments = items\<rparr> \<and> is_revision (revision items) \<and> items \<noteq> []
     \<and> list_all (\<lambda>d. validate_definition d = Inr d) items
     \<and> distinct (map md_id items) \<and> distinct (concat (map own_names items))
     \<and> length (filter (\<lambda>d. md_ownership d = CUSTOM) items) \<le> MAX_CUSTOM_INSTRUMENTS
     \<and> inputs_live items \<and> edges (dependency_graph items) ^^ Suc MAX_SYNTHETIC_DEPTH = {}"
proof -
  let ?g = "\<lparr>cg_revision = revision items, cg_instruments = items\<rparr>"
  have "build_generation revision items = Inr g \<longleftrightarrow>
      g = ?g \<and> is_revision (revision items) \<and> list_all (\<lambda>d. validate_definition d = Inr d) items
      \<and> generation_after revision ?g = Inr ()"
    unfolding build_generation_def validate_generation_def model_validate_Inr_iff
    using definitions_valid_iff [of items] by (auto split: sum.splits)
  then show ?thesis using generation_after_iff [of ?g revision] by auto
qed

subsection \<open>Properties\<close>

text \<open>
  C14. Which catalogues are accepted: building a generation succeeds exactly when there is at
  least one instrument, every definition is valid on its own, identifiers are unique, no
  symbol or alias is used twice anywhere, at most 2000 instruments are custom, every live
  synthetic instrument only reads live instruments, and no chain of synthetic dependencies
  is longer than four (in particular there is no cycle). The recursive memoised depth check
  therefore computes the longest chain exactly.
\<close>

theorem generation_accepted_iff:
  "build_generation revision items = Inr g \<longleftrightarrow>
     g = \<lparr>cg_revision = revision items, cg_instruments = items\<rparr> \<and> is_revision (revision items) \<and> items \<noteq> []
     \<and> list_all (\<lambda>d. validate_definition d = Inr d) items
     \<and> distinct (map md_id items) \<and> distinct (concat (map own_names items))
     \<and> length (filter (\<lambda>d. md_ownership d = CUSTOM) items) \<le> 2000
     \<and> inputs_live items \<and> edges (dependency_graph items) ^^ 5 = {}"
  unfolding build_generation_iff catalog_limits by (simp only: eval_nat_numeral)

text \<open>
  C38. An accepted generation always activates: the registry constructor never rejects it,
  whatever installer is given; the registry lists exactly the live instruments in catalogue
  order, and every symbol and alias of a live instrument resolves to that instrument's
  metadata. Nothing validated by the administrator's schema can fail the second, independent
  validation of \<^verbatim>\<open>registry.py\<close>.
\<close>

theorem accepted_generation_registers:
  assumes "build_generation revision items = Inr g"
  shows "\<exists>r. to_registry installer g = Inr r
    \<and> registry_symbols r = map md_symbol (filter is_live items)
    \<and> (\<forall>d \<in> set items. is_live d \<longrightarrow> (\<forall>name \<in> set (own_names d). resolve name r = Some (to_instrument_spec d)))"
proof -
  let ?live = "filter is_live items" and ?specs = "map to_instrument_spec (filter is_live items)"
  from assms have g: "cg_instruments g = items" and valid: "list_all (\<lambda>d. validate_definition d = Inr d) items"
    and dist: "distinct (concat (map own_names items))"
    by (auto simp: build_generation_iff)
  have canon: "normalize_symbol n = n \<and> symbol_pattern n" if "d \<in> set items" "n \<in> set (own_names d)" for d n
  proof -
    have v: "validate_definition d = Inr d" using valid that(1) by (simp add: list_all_iff)
    show ?thesis
      using that(2) validate_definition_fields(1) [OF v] aliases_okD [OF validate_definition_fields(8) [OF v]]
      by (auto simp: own_names_def canonical_errors_Nil)
  qed
  have ids: "identities (to_instrument_spec d) = own_names d" if "d \<in> set items" for d
    using canon [OF that] by (simp add: identities_def own_names_def to_instrument_spec_def map_idI)
  have same: "map identities ?specs = map own_names ?live"
    using ids by (simp add: comp_def)
  have "distinct (concat (map own_names ?live))"
    using dist by (induction items) auto
  then have adm: "admissible ?specs"
    using valid canon ids by (auto simp: admissible_def same list_all_iff validated_is_instrument simp del: map_map)
  let ?plugin = "\<lparr>ip_plugin_id = ''managed-catalog'', ip_version = CATALOG_SCHEMA_VERSION, ip_instruments = ?specs,
       ip_provider_installer = (case installer of None \<Rightarrow> Some ''_install_noop''
          | Some i \<Rightarrow> if i = [] then Some ''_install_noop'' else Some i),
       ip_provider_bindings = [], ip_synthetic_recipes = []\<rparr>"
  have none: "edges ([] :: string graph) = {}" by (auto simp: edges_iff dict_list_def)
  have "\<not> is_blank ''managed-catalog''" "\<not> is_blank CATALOG_SCHEMA_VERSION" by code_simp+
  then have "plugin_ok ?plugin"
    by (simp add: plugin_ok_def validate_plugin_routes_def check_acyclic_iff plugin_graph_def none acyclic_def split: option.splits)
  then have r: "to_registry installer g = Inr (registry_tables.extend (tables_of ?specs) \<lparr>rg_plugins = [?plugin]\<rparr>)"
    using adm by (simp add: to_registry_def g mk_registry_iff plugin_graph_def none acyclic_def)
  have "resolve name (tables_of ?specs) = Some (to_instrument_spec d)"
    if "d \<in> set items" "is_live d" "name \<in> set (own_names d)" for d name
    using that canon [OF that(1,3)] ids [OF that(1)] by (auto simp: resolve_tables_of [OF adm])
  moreover have "registry_symbols (tables_of ?specs) = map md_symbol ?live"
    by (simp add: registry_symbols_def dict_keys_tables_of to_instrument_spec_def comp_def)
  ultimately show ?thesis unfolding r by (simp add: registry_symbols_def)
qed

text \<open>
  Declarations survive the conversion to the managed schema: whenever an instrument
  declaration is accepted as a managed definition, converting the definition back gives the
  identical declaration, income policy, aliases, calendar and polling included; and the
  definition validates as it stands.
\<close>

theorem spec_definition_roundtrip:
  assumes "from_instrument_spec item instrument_id ownership enabled routes provider_symbols synthetic = Inr d"
  shows "to_instrument_spec d = item \<and> validate_definition d = Inr d \<and> md_id d = instrument_id \<and> \<not> md_archived d"
proof -
  from assms have d: "validate_definition d = Inr d" "md_income d = spec_income item" "md_id d = instrument_id" "\<not> md_archived d"
    and fields: "md_symbol d = is_symbol item" "md_base d = is_base item" "md_quote d = is_quote item"
      "md_name d = is_name item" "md_description d = is_description item" "md_asset_class d = is_asset_class item"
      "md_asset_type d = is_asset_type item" "md_price_basis d = is_price_basis item"
      "md_change_basis d = is_change_basis item" "md_aliases d = is_aliases item"
      "md_market_calendar d = is_market_calendar item" "md_quote_poll_seconds d = is_quote_poll_seconds item"
      "md_stale_after_seconds d = is_stale_after_seconds item" "hp_enabled (md_history d) = is_history_enabled item"
      "hp_poll_seconds (md_history d) = is_history_poll_seconds item"
    by (auto simp: from_instrument_spec_def Let_def res_simps dest: validate_definition_same)
  then show ?thesis by (simp add: to_instrument_spec_def income_views_spec_income [OF d(2)])
qed

subsection \<open>Witnesses\<close>

definition sample_revision :: "managed_definition list \<Rightarrow> string" where
  "sample_revision items = replicate 64 (CHR ''0'')"

definition sample_definition :: "string \<Rightarrow> string \<Rightarrow> synthetic_definition option \<Rightarrow> managed_definition" where
  "sample_definition base quote synthetic =
     \<lparr>md_id = ''custom-'' @ lower base @ ''-'' @ lower quote, md_symbol = base @ '':'' @ quote, md_base = base, md_quote = quote,
      md_name = base, md_description = ''pair'', md_asset_class = CRYPTO, md_asset_type = ''spot'', md_price_basis = ''last'',
      md_change_basis = ''raw'', md_ownership = CUSTOM, md_enabled = True, md_archived = False, md_aliases = [],
      md_market_calendar = ALWAYS_OPEN, md_quote_poll_seconds = 5, md_stale_after_seconds = 10,
      md_history = \<lparr>hp_enabled = True, hp_poll_seconds = None, hp_backfill_days = None\<rparr>, md_routes = [],
      md_provider_symbols = [], md_income = None, md_synthetic = synthetic\<rparr>"

definition sample_items :: "managed_definition list" where
  "sample_items = [sample_definition ''A'' ''B'' None,
     sample_definition ''B'' ''A'' (Some \<lparr>sd_operation = INVERSE, sd_inputs = [''A:B''], sd_max_skew_seconds = 2, sd_input_max_age_seconds = []\<rparr>)]"

theorem accepted_generation_registers_witness:
  "\<exists>g r. build_generation sample_revision sample_items = Inr g \<and> to_registry None g = Inr r
     \<and> registry_symbols r = [''A:B'', ''B:A'']"
proof -
  have "case build_generation sample_revision sample_items of Inl e \<Rightarrow> False | Inr g \<Rightarrow> True" by code_simp
  then obtain g where g: "build_generation sample_revision sample_items = Inr g" by (auto split: sum.splits)
  have syms: "map md_symbol (filter is_live sample_items) = [''A:B'', ''B:A'']" by code_simp
  from accepted_generation_registers [OF g, of None] g syms show ?thesis by auto
qed

theorem spec_definition_roundtrip_witness:
  "\<exists>d. from_instrument_spec (to_instrument_spec (sample_definition ''A'' ''B'' None)) ''custom-x'' CUSTOM True [] [] None = Inr d
     \<and> to_instrument_spec d = to_instrument_spec (sample_definition ''A'' ''B'' None)"
proof -
  let ?run = "from_instrument_spec (to_instrument_spec (sample_definition ''A'' ''B'' None)) ''custom-x'' CUSTOM True [] [] None"
  have "case ?run of Inl e \<Rightarrow> False | Inr d \<Rightarrow> True" by code_simp
  then obtain d where d: "?run = Inr d" by (auto split: sum.splits)
  from spec_definition_roundtrip [OF d] d show ?thesis by blast
qed

end
