(* ===== verification/QP_Wire.thy ===== *)
theory QP_Wire
  imports QP_Registry
begin

text \<open>
  \<^verbatim>\<open>quickprice/schemas.py\<close>: the projection of a published snapshot to the public wire model.
  The conversion \<^verbatim>\<open>float()\<close> of decimals is an argument \<^verbatim>\<open>fl\<close>; everything else is copied. An
  age in milliseconds is truncated towards zero as \<^verbatim>\<open>int(seconds * 1000)\<close> does.
\<close>

record component_model =
  wc_symbol :: string
  wc_provider :: string
  wc_feed :: "string option"
  wc_role :: "string option"
  wc_price :: rat
  wc_as_of :: instant

record source_model =
  ws_provider :: string
  ws_feed :: string
  ws_fallback_level :: int
  ws_is_derived :: bool
  ws_components :: "component_model list"
  ws_license_scope :: string
  ws_coverage :: "string option"

record quality_model =
  wq_stale :: bool
  wq_staleness_ms :: int

record change_model =
  wh_percent :: rat
  wh_reference_price :: rat
  wh_reference_as_of :: instant

record dividend_model =
  wd_yield_percent :: rat
  wd_ex_date :: date
  wd_payment_date :: "date option"
  wd_amount :: rat
  wd_currency :: string
  wd_frequency :: string
  wd_method :: string
  wd_provider :: string

record index_model =
  wi_symbol :: string
  wi_underlying_asset :: string
  wi_value :: rat
  wi_as_of :: instant
  wi_provider :: string
  wi_kind :: string

record yield_quality_model =
  wy_stale :: bool
  wy_staleness_ms :: int
  wy_stale_after_seconds :: rat
  wy_confidence :: string

record yield_model =
  wm_percent :: rat
  wm_as_of :: instant
  wm_method :: string
  wm_provider :: string
  wm_is_proxy :: bool
  wm_fallback_level :: int
  wm_rate_type :: "string option"
  wm_observation_window_days :: "rat option"
  wm_accrual_mode :: "string option"
  wm_underlying_asset :: "string option"
  wm_is_estimate :: bool
  wm_accrual_index :: "index_model option"
  wm_quality :: "yield_quality_model option"
  wm_components :: "component_model list"
  wm_inputs :: "(string, input_value) dict"

record quote_model =
  wr_symbol :: string
  wr_base :: string
  wr_quote :: string
  wr_name :: string
  wr_description :: string
  wr_asset_class :: string
  wr_asset_type :: string
  wr_reward_accrual_mode :: "string option"
  wr_underlying_asset :: "string option"
  wr_price :: rat
  wr_price_basis :: string
  wr_as_of :: instant
  wr_market_status :: string
  wr_changes :: "(string, change_model option) dict"
  wr_dividend :: "dividend_model option"
  wr_estimated_annual_yield :: "yield_model option"
  wr_source :: source_model
  wr_quality :: quality_model

definition rate_type_value :: "yield_rate_type \<Rightarrow> string" where
  "rate_type_value r = (case r of APR \<Rightarrow> ''apr'' | APY \<Rightarrow> ''apy'')"

definition age_ms :: "instant \<Rightarrow> instant \<Rightarrow> int" where
  "age_ms now t = max 0 ((now - t) div 1000)"

definition threshold_ms :: "rat \<Rightarrow> int" where
  "threshold_ms seconds = (if 0 \<le> seconds then \<lfloor>seconds * 1000\<rfloor> else \<lceil>seconds * 1000\<rceil>)"

definition component_to_wire :: "(rat \<Rightarrow> rat) \<Rightarrow> source_component \<Rightarrow> component_model" where
  "component_to_wire fl item =
     \<lparr>wc_symbol = sc_symbol item, wc_provider = sc_provider item, wc_feed = sc_feed item, wc_role = sc_role item,
      wc_price = fl (sc_price item), wc_as_of = sc_as_of item\<rparr>"

definition change_to_wire :: "(rat \<Rightarrow> rat) \<Rightarrow> change_value \<Rightarrow> change_model" where
  "change_to_wire fl v =
     \<lparr>wh_percent = fl (cv_percent v), wh_reference_price = fl (cv_reference_price v),
      wh_reference_as_of = cv_reference_as_of v\<rparr>"

definition dividend_to_wire :: "(rat \<Rightarrow> rat) \<Rightarrow> dividend_metric \<Rightarrow> dividend_model" where
  "dividend_to_wire fl d =
     \<lparr>wd_yield_percent = fl (dm_yield_percent d), wd_ex_date = dm_ex_date d, wd_payment_date = dm_payment_date d,
      wd_amount = fl (dm_amount d), wd_currency = dm_currency d, wd_frequency = dm_frequency d,
      wd_method = dm_method d, wd_provider = dm_provider d\<rparr>"

definition index_to_wire :: "(rat \<Rightarrow> rat) \<Rightarrow> accrual_index_point \<Rightarrow> index_model" where
  "index_to_wire fl i =
     \<lparr>wi_symbol = ai_symbol i, wi_underlying_asset = ai_underlying_asset i, wi_value = fl (ai_value i),
      wi_as_of = ai_as_of i, wi_provider = ai_provider i, wi_kind = ai_kind i\<rparr>"

definition supplied_stale :: "yield_quality option \<Rightarrow> bool" where
  "supplied_stale q = (case q of None \<Rightarrow> False | Some y \<Rightarrow> yq_stale y)"

definition yield_quality_at :: "yield_estimate \<Rightarrow> instant \<Rightarrow> rat \<Rightarrow> yield_quality_model" where
  "yield_quality_at y now threshold =
     \<lparr>wy_stale = (supplied_stale (ye_quality y) \<or> threshold_ms threshold < age_ms now (ye_as_of y)),
      wy_staleness_ms = age_ms now (ye_as_of y), wy_stale_after_seconds = threshold,
      wy_confidence =
        (case ye_quality y of Some q \<Rightarrow> yq_confidence q | None \<Rightarrow> if ye_is_proxy y then ''low'' else ''medium'')\<rparr>"

definition yield_to_wire :: "(rat \<Rightarrow> rat) \<Rightarrow> yield_estimate \<Rightarrow> yield_quality_model \<Rightarrow> yield_model" where
  "yield_to_wire fl y quality =
     \<lparr>wm_percent = fl (ye_percent y), wm_as_of = ye_as_of y, wm_method = ye_method y, wm_provider = ye_provider y,
      wm_is_proxy = ye_is_proxy y, wm_fallback_level = ye_fallback_level y, wm_rate_type = map_option rate_type_value (ye_rate_type y),
      wm_observation_window_days = map_option fl (ye_observation_window_days y),
      wm_accrual_mode = map_option accrual_mode_value (ye_accrual_mode y), wm_underlying_asset = ye_underlying_asset y,
      wm_is_estimate = ye_is_estimate y, wm_accrual_index = map_option (index_to_wire fl) (ye_accrual_index y),
      wm_quality = Some quality, wm_components = map (component_to_wire fl) (ye_components y),
      wm_inputs = ye_inputs y\<rparr>"

definition snapshot_to_wire ::
  "(rat \<Rightarrow> rat) \<Rightarrow> quote_snapshot \<Rightarrow> instrument_spec \<Rightarrow> instant \<Rightarrow> rat \<Rightarrow> rat option \<Rightarrow> quote_model" where
  "snapshot_to_wire fl snapshot item now stale_after yield_stale_after =
     (let q = qs_quote snapshot;
          threshold = (case yield_stale_after of None \<Rightarrow> stale_after | Some t \<Rightarrow> t) in
      \<lparr>wr_symbol = is_symbol item, wr_base = is_base item, wr_quote = is_quote item, wr_name = is_name item,
       wr_description = is_description item, wr_asset_class = asset_class_value (is_asset_class item),
       wr_asset_type = is_asset_type item, wr_reward_accrual_mode = map_option accrual_mode_value (is_reward_accrual_mode item),
       wr_underlying_asset = is_underlying_asset item, wr_price = fl (pq_price q),
       wr_price_basis = pq_price_basis q, wr_as_of = pq_as_of q, wr_market_status = pq_market_status q,
       wr_changes = map (\<lambda>(name, v). (name, map_option (change_to_wire fl) v)) (qs_changes snapshot),
       wr_dividend = map_option (dividend_to_wire fl) (qs_dividend snapshot),
       wr_estimated_annual_yield =
         map_option (\<lambda>y. yield_to_wire fl y (yield_quality_at y now threshold)) (qs_estimated_annual_yield snapshot),
       wr_source = \<lparr>ws_provider = pq_provider q, ws_feed = pq_feed q, ws_fallback_level = pq_fallback_level q,
         ws_is_derived = pq_is_derived q, ws_components = map (component_to_wire fl) (pq_components q),
         ws_license_scope = pq_license_scope q, ws_coverage = pq_coverage q\<rparr>,
       wr_quality = \<lparr>wq_stale = (threshold_ms stale_after < age_ms now (pq_as_of q)),
         wq_staleness_ms = age_ms now (pq_as_of q)\<rparr>\<rparr>)"

text \<open>The metadata view of an instrument.\<close>

record instrument_model =
  wn_symbol :: string
  wn_base :: string
  wn_quote :: string
  wn_name :: string
  wn_description :: string
  wn_asset_class :: string
  wn_asset_type :: string
  wn_reward_accrual_mode :: "string option"
  wn_underlying_asset :: "string option"
  wn_price_basis :: string
  wn_change_basis :: string
  wn_change_windows :: "(string, string) dict"
  wn_dividend_method :: "string option"
  wn_yield_method :: "string option"

definition instrument_to_wire :: "instrument_spec \<Rightarrow> instrument_model" where
  "instrument_to_wire item =
     \<lparr>wn_symbol = is_symbol item, wn_base = is_base item, wn_quote = is_quote item, wn_name = is_name item,
      wn_description = is_description item, wn_asset_class = asset_class_value (is_asset_class item),
      wn_asset_type = is_asset_type item,
      wn_reward_accrual_mode = map_option accrual_mode_value (is_reward_accrual_mode item),
      wn_underlying_asset = is_underlying_asset item, wn_price_basis = is_price_basis item,
      wn_change_basis = is_change_basis item,
      wn_change_windows = [(''1h'', ''rolling_1_hour''), (''4h'', ''rolling_4_hours''), (''1d'', ''rolling_24_hours''),
        (''1w'', ''rolling_7_days''), (''1mo'', ''rolling_30_days''), (''1y'', ''rolling_365_days'')],
      wn_dividend_method = is_dividend_strategy item,
      wn_yield_method = map_option yield_strategy_value (is_yield_strategy item)\<rparr>"

end
