(* ===== verification/QP_Service.thy ===== *)
theory QP_Service
  imports QP_Wire QP_Snapshots QP_History_Refs QP_Analytics QP_Market QP_Quota
begin

text \<open>
  The publication and read path of \<^verbatim>\<open>quickprice/service.py\<close> with the generations of
  \<^verbatim>\<open>runtime.py\<close>. A generation owns one market state; publications validate against its
  registry, update the state and rebuild the public snapshot; readers project the snapshot.

  Conventions. Each method is one step: the code takes \<^verbatim>\<open>_metadata_lock\<close> and the caches' own
  locks inside. A generation switch by another task between the capture and the check under
  the lock is the argument \<^verbatim>\<open>current\<close> (the answer of the second \<^verbatim>\<open>is_current\<close>). The clock
  readings are arguments. A method that raises after it changed the state returns the
  changed state with the exception. Rows handed to the storage queue are appended to an
  outbox; what the storage does with them is not modelled. Sets are lists used for
  membership.
\<close>

subsection \<open>State\<close>

record data_state =
  ds_snapshots :: snapshot_store
  ds_history :: history_cache
  ds_dividends :: "(string, dividend_event) dict"
  ds_yield_metrics :: "(string, yield_metric) dict"
  ds_yield_stale :: "(string, rat) dict"
  ds_last_quotes :: "(string, provider_quote) dict"
  ds_source_failures :: "string list"
  ds_wire_cache :: "(string, quote_model) dict"
  ds_complete_symbols :: "string list"
  ds_active_aggregates :: "(string, aggregate_price) dict"

definition default_shards :: int where "default_shards = 64"

definition new_data_state :: "data_state result" where
  "new_data_state =
     res_bind (mk_snapshot_store default_shards) (\<lambda>st.
     Inr \<lparr>ds_snapshots = st, ds_history = empty_history, ds_dividends = [], ds_yield_metrics = [],
          ds_yield_stale = [], ds_last_quotes = [], ds_source_failures = [], ds_wire_cache = [],
          ds_complete_symbols = [], ds_active_aggregates = []\<rparr>)"

text \<open>\<^verbatim>\<open>clone\<close> copies every container but the history, which both states share.\<close>

definition clone_state :: "(string \<Rightarrow> int) \<Rightarrow> data_state \<Rightarrow> data_state result" where
  "clone_state hash ds =
     res_bind (store_clone hash (ds_snapshots ds)) (\<lambda>st. Inr (ds\<lparr>ds_snapshots := st\<rparr>))"

definition keep_keys :: "string list \<Rightarrow> (string, 'v) dict \<Rightarrow> (string, 'v) dict" where
  "keep_keys retained d = filter (\<lambda>(s, _). s \<in> set retained) d"

definition retain_state_symbols :: "string list \<Rightarrow> data_state \<Rightarrow> data_state" where
  "retain_state_symbols symbols ds =
     ds\<lparr>ds_snapshots := fst (store_retain_symbols symbols (ds_snapshots ds)),
        ds_history := fst (retain_history_symbols symbols (ds_history ds)),
        ds_dividends := keep_keys symbols (ds_dividends ds),
        ds_yield_metrics := keep_keys symbols (ds_yield_metrics ds),
        ds_yield_stale := keep_keys symbols (ds_yield_stale ds),
        ds_last_quotes := keep_keys symbols (ds_last_quotes ds),
        ds_wire_cache := keep_keys symbols (ds_wire_cache ds),
        ds_active_aggregates := keep_keys symbols (ds_active_aggregates ds),
        ds_source_failures := filter (\<lambda>s. s \<in> set symbols) (ds_source_failures ds),
        ds_complete_symbols := filter (\<lambda>s. s \<in> set symbols) (ds_complete_symbols ds)\<rparr>"

record generation =
  gn_id :: string
  gn_revision :: string
  gn_registry :: registry
  gn_activated_at :: instant
  gn_state :: data_state

datatype persisted =
    EnqueuePrice price_point
  | EnqueueAggregate aggregate_price
  | EnqueueDividend dividend_event
  | EnqueueYield yield_metric rat
  | EnqueueSnapshot quote_snapshot

record service =
  sv_generation :: generation
  sv_storage :: bool
  sv_outbox :: "persisted list"

text \<open>What the code gets from outside: string hashing, float conversion, zone offsets, settings.\<close>

record service_env =
  en_hash :: "string \<Rightarrow> int"
  en_float :: "rat \<Rightarrow> rat"
  en_offset :: zone
  en_wall_offset :: zone
  en_metadata_poll_seconds :: rat

subsection \<open>runtime.py: generations\<close>

definition is_current :: "string option \<Rightarrow> service \<Rightarrow> bool" where
  "is_current generation_id sv = (case generation_id of None \<Rightarrow> True | Some g \<Rightarrow> gn_id (sv_generation sv) = g)"

definition activate_generation ::
  "registry \<Rightarrow> string \<Rightarrow> string \<Rightarrow> instant \<Rightarrow> data_state option \<Rightarrow> service \<Rightarrow> service \<times> generation \<times> generation" where
  "activate_generation reg revision generation_id now state sv =
     (let previous = sv_generation sv;
          replacement = \<lparr>gn_id = generation_id, gn_revision = revision, gn_registry = reg, gn_activated_at = now,
            gn_state = (case state of None \<Rightarrow> gn_state previous | Some s \<Rightarrow> s)\<rparr>
      in (sv\<lparr>sv_generation := replacement\<rparr>, previous, replacement))"

definition publication_context :: "string option \<Rightarrow> service \<Rightarrow> generation option" where
  "publication_context generation_id sv =
     (if is_current generation_id sv then Some (sv_generation sv) else None)"

definition set_state :: "data_state \<Rightarrow> service \<Rightarrow> service" where
  "set_state ds sv = sv\<lparr>sv_generation := (sv_generation sv)\<lparr>gn_state := ds\<rparr>\<rparr>"

definition persist_rows :: "persisted list \<Rightarrow> service \<Rightarrow> service" where
  "persist_rows rows sv = (if sv_storage sv then sv\<lparr>sv_outbox := sv_outbox sv @ rows\<rparr> else sv)"

subsection \<open>Freshness of yield metrics\<close>

definition default_yield_stale_after_seconds :: "service_env \<Rightarrow> yield_metric \<Rightarrow> rat" where
  "default_yield_stale_after_seconds env metric =
     (let t0 = max 300 (en_metadata_poll_seconds env * 2);
          t1 = (if lower (ym_provider metric) = ''fred'' \<or> ym_method metric = ''DGS3MO'' then max t0 (7 * 24 * 60 * 60) else t0);
          t2 = (if ym_method metric = ''latest_distribution_annualized'' then max t1 (45 * 24 * 60 * 60) else t1)
      in if ym_method metric = ''onchain_exchange_rate_trailing_apy'' then max t2 (36 * 60 * 60) else t2)"

definition coerce_yield_stale_after_seconds :: "rat option \<Rightarrow> rat option" where
  "coerce_yield_stale_after_seconds value =
     (case value of None \<Rightarrow> None | Some r \<Rightarrow> if 0 < r then Some r else None)"

definition restored_yield_stale_after_seconds :: "service_env \<Rightarrow> yield_metric \<Rightarrow> rat option \<Rightarrow> rat" where
  "restored_yield_stale_after_seconds env metric persisted_value =
     (case coerce_yield_stale_after_seconds persisted_value of
        None \<Rightarrow> default_yield_stale_after_seconds env metric
      | Some p \<Rightarrow>
          if ym_method metric = ''onchain_exchange_rate_trailing_apy''
          then max p (default_yield_stale_after_seconds env metric) else p)"

definition yield_source_rank :: "yield_metric \<Rightarrow> int \<times> int" where
  "yield_source_rank metric =
     (if ym_is_proxy metric then 2 else if ym_is_estimate metric then 1 else 0, ym_fallback_level metric)"

definition rank_greater :: "int \<times> int \<Rightarrow> int \<times> int \<Rightarrow> bool" where
  "rank_greater a b = (fst b < fst a \<or> (fst b = fst a \<and> snd b < snd a))"

subsection \<open>Rebuilding the public snapshot\<close>

definition rebuild_dividend :: "instrument_spec \<Rightarrow> dividend_event option \<Rightarrow> provider_quote \<Rightarrow> dividend_metric option result" where
  "rebuild_dividend item event q =
     (case event of
        Some e \<Rightarrow> if is_dividend_strategy item = Some ''latest_regular_cash_annualized_x4''
                  then res_bind (quarterly_dividend e (NumFinite (pq_price q))) (\<lambda>d. Inr (Some d)) else Inr None
      | None \<Rightarrow> Inr None)"

definition rebuild_yield ::
  "instrument_spec \<Rightarrow> dividend_event option \<Rightarrow> yield_metric option \<Rightarrow> provider_quote \<Rightarrow> yield_estimate option result" where
  "rebuild_yield item event metric q =
     (if is_yield_strategy item = Some LATEST_DISTRIBUTION_ANNUALIZED \<and> event \<noteq> None
      then res_bind (sgov_yield (the event) (NumFinite (pq_price q)) (Aware (pq_as_of q))) (\<lambda>y. Inr (Some y))
      else case metric of
        None \<Rightarrow> Inr None
      | Some m \<Rightarrow>
          if is_yield_strategy item = Some TREASURY_3M_PROXY_MINUS_EXPENSE
          then res_bind (boxx_yield m) (\<lambda>y. Inr (Some y))
          else if is_yield_strategy item = Some TREASURY_PROXY_MINUS_EXPENSE
          then res_bind (treasury_proxy_yield m) (\<lambda>y. Inr (Some y))
          else if is_yield_strategy item = Some STAKING_PROVIDER_METRIC
          then res_bind (estimate_from_staking_metric m) (\<lambda>y. Inr (Some y))
          else Inr None)"

text \<open>\<^verbatim>\<open>dividend\<close> and \<^verbatim>\<open>annual_yield\<close>, in this order.\<close>

definition rebuild_income ::
  "instrument_spec \<Rightarrow> data_state \<Rightarrow> string \<Rightarrow> provider_quote \<Rightarrow> (dividend_metric option \<times> yield_estimate option) result" where
  "rebuild_income item ds symbol q =
     res_bind (rebuild_dividend item (dict_get (ds_dividends ds) symbol) q) (\<lambda>d.
     res_bind (rebuild_yield item (dict_get (ds_dividends ds) symbol) (dict_get (ds_yield_metrics ds) symbol) q) (\<lambda>y.
     Inr (d, y)))"

definition rebuild_changes ::
  "price_point list \<Rightarrow> string \<Rightarrow> provider_quote \<Rightarrow> history_cache \<Rightarrow>
   history_cache \<times> (string, change_value option) dict result" where
  "rebuild_changes additional symbol q hc =
     (if additional \<noteq> []
      then (hc, calculate_changes (NumFinite (pq_price q)) (pq_as_of q) (points_for symbol hc @ additional))
      else case change_references symbol (pq_as_of q) hc of
             Inl e \<Rightarrow> (hc, Inl e)
           | Inr (hc', refs) \<Rightarrow> (hc', calculate_changes_from_references (NumFinite (pq_price q)) refs))"

definition is_complete :: "instrument_spec \<Rightarrow> dividend_metric option \<Rightarrow> yield_estimate option \<Rightarrow> bool" where
  "is_complete item d y =
     ((is_yield_strategy item = None \<or> y \<noteq> None) \<and> (is_dividend_strategy item = None \<or> d \<noteq> None))"

definition set_member :: "bool \<Rightarrow> string \<Rightarrow> string list \<Rightarrow> string list" where
  "set_member present s xs = (if present then List.insert s xs else removeAll s xs)"

definition install_snapshot :: "service_env \<Rightarrow> instrument_spec \<Rightarrow> string \<Rightarrow> quote_snapshot \<Rightarrow> data_state \<Rightarrow> data_state" where
  "install_snapshot env item symbol snapshot ds =
     ds\<lparr>ds_snapshots := store_publish (en_hash env) snapshot (ds_snapshots ds),
        ds_wire_cache := dict_set symbol
          (snapshot_to_wire (en_float env) snapshot item (pq_as_of (qs_quote snapshot)) (is_stale_after_seconds item)
             (dict_get (ds_yield_stale ds) symbol)) (ds_wire_cache ds),
        ds_complete_symbols := set_member (is_complete item (qs_dividend snapshot) (qs_estimated_annual_yield snapshot))
          symbol (ds_complete_symbols ds)\<rparr>"

definition rebuild ::
  "service_env \<Rightarrow> registry \<Rightarrow> instant \<Rightarrow> price_point list \<Rightarrow> string \<Rightarrow> data_state \<Rightarrow>
   data_state \<times> quote_snapshot option result" where
  "rebuild env reg now additional symbol ds =
     (case dict_get (ds_last_quotes ds) symbol of
        None \<Rightarrow> (ds, Inr None)
      | Some q \<Rightarrow>
          (case registry_getitem symbol reg of
             Inl e \<Rightarrow> (ds, Inl e)
           | Inr item \<Rightarrow>
               (case rebuild_income item ds symbol q of
                  Inl e \<Rightarrow> (ds, Inl e)
                | Inr (d, y) \<Rightarrow>
                    (case rebuild_changes additional symbol q (ds_history ds) of
                       (hc, Inl e) \<Rightarrow> (ds\<lparr>ds_history := hc\<rparr>, Inl e)
                     | (hc, Inr changes) \<Rightarrow>
                         let snapshot = \<lparr>qs_quote = q, qs_changes = changes, qs_dividend = d,
                               qs_estimated_annual_yield = y, qs_published_at = now\<rparr>
                         in (install_snapshot env item symbol snapshot (ds\<lparr>ds_history := hc\<rparr>), Inr (Some snapshot))))))"

definition snapshot_rows :: "bool \<Rightarrow> quote_snapshot option \<Rightarrow> persisted list" where
  "snapshot_rows persist snapshot =
     (if persist then (case snapshot of None \<Rightarrow> [] | Some s \<Rightarrow> [EnqueueSnapshot s]) else [])"

subsection \<open>Publishing quotes\<close>

definition five_minute_bucket :: "instant \<Rightarrow> instant" where
  "five_minute_bucket t = t - t mod (5 * minute)"

definition update_aggregate :: "price_point \<Rightarrow> data_state \<Rightarrow> data_state \<times> aggregate_price result" where
  "update_aggregate point ds =
     (let bucket = five_minute_bucket (pp_timestamp point);
          price = NumFinite (pp_price point);
          fresh = mk_aggregate_price (pp_symbol point) (Aware bucket) 300 price price price price 1
            (pp_provider point) (pp_is_derived point);
          aggregate = (case dict_get (ds_active_aggregates ds) (pp_symbol point) of
              None \<Rightarrow> fresh
            | Some current \<Rightarrow>
                if ag_bucket_start current \<noteq> bucket then fresh
                else mk_aggregate_price (pp_symbol point) (Aware bucket) 300 (NumFinite (ag_open current))
                  (NumFinite (max (ag_high current) (pp_price point))) (NumFinite (min (ag_low current) (pp_price point)))
                  price (ag_sample_count current + 1) (pp_provider point) (pp_is_derived point))
      in case aggregate of
           Inl e \<Rightarrow> (ds, Inl e)
         | Inr a \<Rightarrow> (ds\<lparr>ds_active_aggregates := dict_set (pp_symbol point) a (ds_active_aggregates ds)\<rparr>, Inr a))"

definition future_limit :: duration where "future_limit = 60 * second"

definition unsupported :: "string \<Rightarrow> registry \<Rightarrow> bool" where
  "unsupported symbol reg = (case resolve symbol reg of None \<Rightarrow> True | Some item \<Rightarrow> symbol \<noteq> is_symbol item)"

text \<open>The part of \<^verbatim>\<open>publish_quote\<close> after its checks.\<close>

definition accept_quote :: "provider_quote \<Rightarrow> data_state \<Rightarrow> data_state" where
  "accept_quote q ds = ds\<lparr>ds_last_quotes := dict_set (pq_symbol q) q (ds_last_quotes ds),
     ds_source_failures := removeAll (pq_symbol q) (ds_source_failures ds)\<rparr>"

definition minute_point :: "provider_quote \<Rightarrow> price_point result" where
  "minute_point q = mk_price_point (pq_symbol q) (Aware (floor_minute (pq_as_of q))) (NumFinite (pq_price q))
     (pq_provider q) (pq_is_derived q) ''1m''"

definition install_quote ::
  "service_env \<Rightarrow> instant \<Rightarrow> bool \<Rightarrow> registry \<Rightarrow> provider_quote \<Rightarrow> data_state \<Rightarrow> service \<Rightarrow> service \<times> bool result" where
  "install_quote env now persist reg q ds sv =
     (let ds1 = accept_quote q ds in
      case minute_point q of
        Inl e \<Rightarrow> (set_state ds1 sv, Inl e)
      | Inr point \<Rightarrow>
          (case add_point point (ds_history ds1) of
             Inl e \<Rightarrow> (set_state ds1 sv, Inl e)
           | Inr hc \<Rightarrow>
               (case rebuild env reg now [] (pq_symbol q) (ds1\<lparr>ds_history := hc\<rparr>) of
                  (ds2, Inl e) \<Rightarrow> (set_state ds2 sv, Inl e)
                | (ds2, Inr snapshot) \<Rightarrow>
                    if \<not> persist then (set_state ds2 sv, Inr True)
                    else
                      let sv2 = persist_rows (snapshot_rows True snapshot @ [EnqueuePrice point]) (set_state ds2 sv) in
                      (case update_aggregate point ds2 of
                         (ds3, Inl e) \<Rightarrow> (set_state ds3 sv2, Inl e)
                       | (ds3, Inr a) \<Rightarrow> (persist_rows [EnqueueAggregate a] (set_state ds3 sv2), Inr True)))))"

definition publish_quote ::
  "service_env \<Rightarrow> instant \<Rightarrow> bool \<Rightarrow> bool \<Rightarrow> string option \<Rightarrow> provider_quote \<Rightarrow> service \<Rightarrow> service \<times> bool result" where
  "publish_quote env now current persist generation_id q sv =
     (case publication_context generation_id sv of
        None \<Rightarrow> (sv, Inr False)
      | Some gen \<Rightarrow>
          let reg = gn_registry gen; ds = gn_state gen; symbol = pq_symbol q in
          if unsupported symbol reg then (sv, Inl (ValueError ''unsupported symbol: ''))
          else if now + future_limit < pq_as_of q
          then (sv, Inl (ValueError ''quote timestamp is more than 60 seconds in the future''))
          else if (case dict_get (ds_last_quotes ds) symbol of None \<Rightarrow> False | Some c \<Rightarrow> pq_as_of q < pq_as_of c)
          then (sv, Inr False)
          else if \<not> current then (sv, Inr False)
          else install_quote env now persist reg q ds sv)"

subsection \<open>Publishing history\<close>

definition validate_history_timestamps :: "instant \<Rightarrow> registry \<Rightarrow> price_point list \<Rightarrow> unit result" where
  "validate_history_timestamps now reg points =
     raise_if (list_ex (\<lambda>p. now + future_limit < pp_timestamp p) points)
       (ValueError ''history contains a timestamp more than 60 seconds in the future'') (
     raise_if (list_ex (\<lambda>p. unsupported (pp_symbol p) reg) points)
       (ValueError ''history contains unsupported symbols: '')
     (Inr ()))"

definition aggregate_bucket :: "price_point \<Rightarrow> (instant \<times> int) result" where
  "aggregate_bucket point =
     (if pp_interval point = ''5m'' then Inr (five_minute_bucket (pp_timestamp point), 300)
      else if pp_interval point = ''1d'' then Inr (pp_timestamp point, 86400)
      else Inl (ValueError ''unsupported aggregate interval: ''))"

text \<open>The rows of the batch task; it stops at the first exception.\<close>

fun history_rows :: "price_point list \<Rightarrow> persisted list" where
  "history_rows [] = []"
| "history_rows (p # ps) =
     (if pp_interval p \<in> {''5m'', ''1d''} then
        (case res_bind (aggregate_bucket p) (\<lambda>(bucket, seconds).
             mk_aggregate_price (pp_symbol p) (Aware bucket) seconds (NumFinite (pp_price p)) (NumFinite (pp_price p))
               (NumFinite (pp_price p)) (NumFinite (pp_price p)) 1 (pp_provider p) (pp_is_derived p)) of
           Inl _ \<Rightarrow> []
         | Inr a \<Rightarrow> EnqueueAggregate a # history_rows ps)
      else EnqueuePrice p # history_rows ps)"

fun rebuild_all ::
  "service_env \<Rightarrow> registry \<Rightarrow> instant \<Rightarrow> string list \<Rightarrow> data_state \<Rightarrow> data_state \<times> unit result" where
  "rebuild_all env reg now [] ds = (ds, Inr ())"
| "rebuild_all env reg now (s # ss) ds =
     (case rebuild env reg now [] s ds of
        (ds', Inl e) \<Rightarrow> (ds', Inl e)
      | (ds', Inr _) \<Rightarrow> rebuild_all env reg now ss ds')"

text \<open>The symbols of a batch are visited in the unspecified order of a set: \<^verbatim>\<open>order\<close>.\<close>

definition publish_history ::
  "service_env \<Rightarrow> instant \<Rightarrow> bool \<Rightarrow> bool \<Rightarrow> string option \<Rightarrow> (string list \<Rightarrow> string list) \<Rightarrow> price_point list \<Rightarrow>
   service \<Rightarrow> service \<times> bool result" where
  "publish_history env now current persist generation_id order points sv =
     (case publication_context generation_id sv of
        None \<Rightarrow> (sv, Inr False)
      | Some gen \<Rightarrow>
          let reg = gn_registry gen; ds = gn_state gen in
          (case validate_history_timestamps now reg points of
             Inl e \<Rightarrow> (sv, Inl e)
           | Inr _ \<Rightarrow>
               (case load_history points (ds_history ds) of
                  Inl e \<Rightarrow> (sv, Inl e)
                | Inr hc \<Rightarrow>
                    let ds1 = ds\<lparr>ds_history := hc\<rparr> in
                    if \<not> current then (set_state ds1 sv, Inr False)
                    else
                      let sv1 = persist_rows (if persist then history_rows points else []) (set_state ds1 sv) in
                      (case rebuild_all env reg now (order (remdups (map pp_symbol points))) ds1 of
                         (ds2, Inl e) \<Rightarrow> (set_state ds2 sv1, Inl e)
                       | (ds2, Inr _) \<Rightarrow> (set_state ds2 sv1, Inr True)))))"

subsection \<open>Publishing dividends and yields\<close>

definition finish_publication ::
  "service_env \<Rightarrow> instant \<Rightarrow> registry \<Rightarrow> bool \<Rightarrow> string \<Rightarrow> persisted \<Rightarrow> data_state \<Rightarrow> service \<Rightarrow> service \<times> bool result" where
  "finish_publication env now reg persist symbol row ds1 sv =
     (case rebuild env reg now [] symbol ds1 of
        (ds2, Inl e) \<Rightarrow> (set_state ds2 sv, Inl e)
      | (ds2, Inr snapshot) \<Rightarrow>
          (if persist then persist_rows (snapshot_rows True snapshot @ [row]) (set_state ds2 sv) else set_state ds2 sv,
           Inr True))"

definition publish_dividend ::
  "service_env \<Rightarrow> instant \<Rightarrow> bool \<Rightarrow> bool \<Rightarrow> string option \<Rightarrow> dividend_event \<Rightarrow> service \<Rightarrow> service \<times> bool result" where
  "publish_dividend env now current persist generation_id event sv =
     (case publication_context generation_id sv of
        None \<Rightarrow> (sv, Inr False)
      | Some gen \<Rightarrow>
          let reg = gn_registry gen; ds = gn_state gen; symbol = de_symbol event in
          if unsupported symbol reg
             \<or> (case resolve symbol reg of None \<Rightarrow> True
                | Some item \<Rightarrow> is_dividend_strategy item = None
                    \<and> is_yield_strategy item \<noteq> Some LATEST_DISTRIBUTION_ANNUALIZED)
          then (sv, Inl (ValueError ''dividend is not configured for ''))
          else if de_event_type event \<noteq> ''regular_cash'' then (sv, Inr False)
          else if (case dict_get (ds_dividends ds) symbol of None \<Rightarrow> False | Some c \<Rightarrow> de_ex_date event < de_ex_date c)
          then (sv, Inr False)
          else if \<not> current then (sv, Inr False)
          else finish_publication env now reg persist symbol (EnqueueDividend event)
                 (ds\<lparr>ds_dividends := dict_set symbol event (ds_dividends ds)\<rparr>) sv)"

text \<open>Whether an incoming metric is refused in favour of the stored one.\<close>

definition yield_refused :: "service_env \<Rightarrow> instant \<Rightarrow> data_state \<Rightarrow> yield_metric \<Rightarrow> yield_metric \<Rightarrow> bool" where
  "yield_refused env now ds metric c =
     (let same_source = (lower (ym_provider metric) = lower (ym_provider c) \<and> ym_method metric = ym_method c);
          current_rank = yield_source_rank c; incoming_rank = yield_source_rank metric in
      ((same_source \<or> incoming_rank = current_rank) \<and> ym_as_of metric < ym_as_of c)
      \<or> (\<not> same_source \<and> rank_greater incoming_rank current_rank
         \<and> max 0 (of_int (now - ym_as_of c) / 1000000)
           \<le> (case dict_get (ds_yield_stale ds) (ym_symbol c) of
                Some t \<Rightarrow> t | None \<Rightarrow> default_yield_stale_after_seconds env c)))"

definition publish_yield_metric ::
  "service_env \<Rightarrow> instant \<Rightarrow> bool \<Rightarrow> bool \<Rightarrow> string option \<Rightarrow> yield_metric \<Rightarrow> service \<Rightarrow> service \<times> bool result" where
  "publish_yield_metric env now current persist generation_id metric sv =
     (case publication_context generation_id sv of
        None \<Rightarrow> (sv, Inr False)
      | Some gen \<Rightarrow>
          let reg = gn_registry gen; ds = gn_state gen; symbol = ym_symbol metric in
          if unsupported symbol reg
             \<or> (case resolve symbol reg of None \<Rightarrow> True | Some item \<Rightarrow> is_yield_strategy item = None)
          then (sv, Inl (ValueError ''external yield metric is not configured for ''))
          else
            let stale_after = default_yield_stale_after_seconds env metric in
            if (case dict_get (ds_yield_metrics ds) symbol of None \<Rightarrow> False | Some c \<Rightarrow> yield_refused env now ds metric c)
            then (sv, Inr False)
            else if \<not> current then (sv, Inr False)
            else finish_publication env now reg persist symbol (EnqueueYield metric stale_after)
                   (ds\<lparr>ds_yield_metrics := dict_set symbol metric (ds_yield_metrics ds),
                       ds_yield_stale := dict_set symbol stale_after (ds_yield_stale ds)\<rparr>) sv)"

definition mark_source_failed :: "bool \<Rightarrow> string option \<Rightarrow> string list \<Rightarrow> service \<Rightarrow> service \<times> bool result" where
  "mark_source_failed current generation_id symbols sv =
     (case publication_context generation_id sv of
        None \<Rightarrow> (sv, Inr False)
      | Some gen \<Rightarrow>
          if \<not> current then (sv, Inr False)
          else
            let ds = gn_state gen in
            (set_state (ds\<lparr>ds_source_failures :=
               fold List.insert (filter (\<lambda>s. registry_contains s (gn_registry gen)) symbols) (ds_source_failures ds)\<rparr>) sv,
             Inr True))"

end
