(* ===== verification/QP_ServiceRead.thy ===== *)
theory QP_ServiceRead
  imports QP_Service
begin

text \<open>
  The read side of \<^verbatim>\<open>quickprice/service.py\<close>: market status and staleness of a snapshot at
  the time of the request, \<^verbatim>\<open>get_quote\<close> and the readiness probes. A request captures one
  generation, so each method reads one state.
\<close>

subsection \<open>Quality\<close>

text \<open>Seconds since an observation.\<close>

definition seconds_since :: "instant \<Rightarrow> instant \<Rightarrow> rat" where
  "seconds_since now t = of_int (now - t) / 1000000"

definition recently_observed :: "instant \<Rightarrow> instant option \<Rightarrow> bool" where
  "recently_observed now observed_at =
     (case observed_at of None \<Rightarrow> False | Some t \<Rightarrow> 0 \<le> seconds_since now t \<and> seconds_since now t \<le> 300)"

definition effective_market_status ::
  "service_env \<Rightarrow> quote_snapshot \<Rightarrow> instrument_spec \<Rightarrow> instant \<Rightarrow> string result" where
  "effective_market_status env snapshot item now =
     res_bind (scheduled_market_status (en_offset env) (Member (is_market_calendar item)) (Aware now)) (\<lambda>scheduled.
     if recently_observed now (pq_market_status_as_of (qs_quote snapshot))
        \<and> pq_market_status (qs_quote snapshot) \<noteq> ''unknown''
     then Inr (pq_market_status (qs_quote snapshot)) else Inr scheduled)"

text \<open>\<^verbatim>\<open>timedelta(seconds=...)\<close> of a float: whole microseconds, ties to even.\<close>

definition seconds_to_duration :: "rat \<Rightarrow> duration" where
  "seconds_to_duration s =
     (let x = s * 1000000; f = \<lfloor>x\<rfloor>; r = x - of_int f in
      if r < 1 / 2 then f else if 1 / 2 < r then f + 1 else if even f then f else f + 1)"

definition quality ::
  "service_env \<Rightarrow> data_state \<Rightarrow> quote_snapshot \<Rightarrow> instrument_spec \<Rightarrow> instant \<Rightarrow> (string \<times> quality_model) result" where
  "quality env ds snapshot item now =
     (let q = qs_quote snapshot;
          staleness_ms = age_ms now (pq_as_of q);
          threshold_seconds = is_stale_after_seconds item in
      res_bind (effective_market_status env snapshot item now) (\<lambda>status.
      let stale = threshold_ms threshold_seconds < staleness_ms;
          provider_confirms_closed =
            (pq_market_status q = ''closed'' \<and> recently_observed now (pq_market_status_as_of q)) in
      res_bind
        (if status = ''closed'' \<and> \<not> provider_confirms_closed then
           res_bind (most_recent_scheduled_close (en_offset env) (en_wall_offset env) (Member (is_market_calendar item))
             (Aware now)) (\<lambda>last_close.
           Inr (case last_close of None \<Rightarrow> stale
                | Some c \<Rightarrow> pq_as_of q < c - seconds_to_duration threshold_seconds))
         else Inr (if provider_confirms_closed then False else stale)) (\<lambda>stale.
      Inr (status, \<lparr>wq_stale = (stale \<or> pq_symbol q \<in> set (ds_source_failures ds)), wq_staleness_ms = staleness_ms\<rparr>))))"

subsection \<open>get_quote\<close>

datatype read_error =
    DataUnavailable string string
  | Raised py_error

definition yield_threshold :: "service_env \<Rightarrow> data_state \<Rightarrow> string \<Rightarrow> rat" where
  "yield_threshold env ds symbol =
     (case dict_get (ds_yield_stale ds) symbol of
        Some t \<Rightarrow> t
      | None \<Rightarrow> (case dict_get (ds_yield_metrics ds) symbol of
          Some metric \<Rightarrow> default_yield_stale_after_seconds env metric
        | None \<Rightarrow> max 300 (en_metadata_poll_seconds env * 2)))"

text \<open>The refreshed quality of the annual yield; the wire model and the estimate must both be present.\<close>

definition refreshed_yield ::
  "service_env \<Rightarrow> data_state \<Rightarrow> string \<Rightarrow> quote_snapshot \<Rightarrow> instant \<Rightarrow> yield_model \<Rightarrow> yield_model result" where
  "refreshed_yield env ds symbol snapshot now annual_yield =
     (let threshold = yield_threshold env ds symbol in
      case qs_estimated_annual_yield snapshot of
        None \<Rightarrow> Inl (AttributeError ''as_of'')
      | Some y \<Rightarrow>
          (case wm_quality annual_yield of
             None \<Rightarrow> Inl (AttributeError ''model_copy'')
           | Some cached \<Rightarrow>
               Inr (annual_yield\<lparr>wm_quality := Some (cached\<lparr>
                 wy_stale := (supplied_stale (ye_quality y) \<or> threshold_ms threshold < age_ms now (ye_as_of y)),
                 wy_staleness_ms := age_ms now (ye_as_of y),
                 wy_stale_after_seconds := threshold\<rparr>)\<rparr>)))"

definition lift_error :: "'a result \<Rightarrow> read_error + 'a" where
  "lift_error r = (case r of Inl e \<Rightarrow> Inl (Raised e) | Inr x \<Rightarrow> Inr x)"

definition get_quote ::
  "service_env \<Rightarrow> instant \<Rightarrow> bool \<Rightarrow> generation \<Rightarrow> string \<Rightarrow> read_error + quote_model" where
  "get_quote env now require_complete_metadata gen symbol =
     (let ds = gn_state gen in
      res_bind (lift_error (registry_getitem symbol (gn_registry gen))) (\<lambda>item.
      case store_get (en_hash env) (ds_snapshots ds) symbol of
        None \<Rightarrow> Inl (DataUnavailable symbol ''no valid price has ever been received'')
      | Some snapshot \<Rightarrow>
          raise_if (require_complete_metadata \<and> is_yield_strategy item \<noteq> None \<and> qs_estimated_annual_yield snapshot = None)
            (DataUnavailable symbol ''required estimated annual yield is unavailable'') (
          raise_if (require_complete_metadata \<and> is_dividend_strategy item \<noteq> None \<and> qs_dividend snapshot = None)
            (DataUnavailable symbol ''required latest regular dividend is unavailable'') (
          case dict_get (ds_wire_cache ds) symbol of
            None \<Rightarrow> Inl (Raised (KeyError symbol))
          | Some cached \<Rightarrow>
              res_bind (lift_error (quality env ds snapshot item now)) (\<lambda>(market_status, q).
              res_bind (case wr_estimated_annual_yield cached of
                  None \<Rightarrow> Inr None
                | Some y \<Rightarrow> res_bind (lift_error (refreshed_yield env ds symbol snapshot now y)) (\<lambda>y'. Inr (Some y')))
                (\<lambda>annual_yield.
              Inr (cached\<lparr>wr_market_status := market_status, wr_quality := q,
                          wr_estimated_annual_yield := annual_yield\<rparr>)))))))"

subsection \<open>Readiness\<close>

text \<open>\<^verbatim>\<open>FreeThreadedStatus\<close>: what the interpreter reports about the GIL.\<close>

record free_threaded_status =
  ft_py_gil_disabled :: bool
  ft_gil_enabled :: "bool option"

definition free_threaded_ready :: "free_threaded_status \<Rightarrow> bool" where
  "free_threaded_ready s = (ft_py_gil_disabled s \<and> ft_gil_enabled s = Some False)"

text \<open>The flags of the process the probes read: \<^verbatim>\<open>None\<close> for no coordinator.\<close>

record process_status =
  ps_runtime :: free_threaded_status
  ps_require_free_threaded :: bool
  ps_background_enabled :: bool
  ps_storage_ready :: bool
  ps_api_key_configured :: bool
  ps_coordinator_running :: "bool option"

definition collectors_running :: "process_status \<Rightarrow> bool" where
  "collectors_running p = (ps_coordinator_running p = Some True)"

definition all_complete :: "generation \<Rightarrow> bool" where
  "all_complete gen = list_all (\<lambda>s. s \<in> set (ds_complete_symbols (gn_state gen))) (registry_symbols (gn_registry gen))"

definition is_ready :: "process_status \<Rightarrow> generation \<Rightarrow> bool" where
  "is_ready p gen =
     ((free_threaded_ready (ps_runtime p) \<or> \<not> ps_require_free_threaded p)
      \<and> ps_api_key_configured p \<and> ps_storage_ready p
      \<and> (collectors_running p \<or> \<not> ps_background_enabled p)
      \<and> all_complete gen)"

text \<open>The scan of \<^verbatim>\<open>readiness\<close>: symbols without a price, and those \<^verbatim>\<open>get_quote\<close> refuses.\<close>

fun readiness_scan ::
  "service_env \<Rightarrow> instant \<Rightarrow> generation \<Rightarrow> string list \<Rightarrow> (string list \<times> string list) result" where
  "readiness_scan env now gen [] = Inr ([], [])"
| "readiness_scan env now gen (s # ss) =
     (if store_get (en_hash env) (ds_snapshots (gn_state gen)) s = None
      then res_bind (readiness_scan env now gen ss) (\<lambda>(missing, incomplete). Inr (s # missing, incomplete))
      else case get_quote env now True gen s of
             Inl (Raised e) \<Rightarrow> Inl e
           | Inl (DataUnavailable _ _) \<Rightarrow>
               res_bind (readiness_scan env now gen ss) (\<lambda>(missing, incomplete). Inr (missing, s # incomplete))
           | Inr _ \<Rightarrow> readiness_scan env now gen ss)"

record readiness_details =
  rd_ready :: bool
  rd_active_instrument_count :: nat
  rd_intentionally_empty_catalog :: bool
  rd_missing_prices :: "string list"
  rd_incomplete_metadata :: "string list"

definition readiness :: "service_env \<Rightarrow> instant \<Rightarrow> process_status \<Rightarrow> generation \<Rightarrow> (bool \<times> readiness_details) result" where
  "readiness env now p gen =
     (let symbols = registry_symbols (gn_registry gen) in
      res_bind (readiness_scan env now gen symbols) (\<lambda>(missing, incomplete).
      Inr (is_ready p gen,
        \<lparr>rd_ready = is_ready p gen, rd_active_instrument_count = length symbols,
         rd_intentionally_empty_catalog = (symbols = []), rd_missing_prices = missing,
         rd_incomplete_metadata = incomplete\<rparr>)))"

end
