(* ===== verification/QP_Service_Inv.thy ===== *)
theory QP_Service_Inv
  imports QP_ServiceRead
begin

text \<open>
  The consistency of the market state a generation owns: stored snapshot, last quote, cached
  wire model and completeness flag of a symbol agree, through every publication of
  \<^verbatim>\<open>service.py\<close>, those that raise included.
\<close>

subsection \<open>The invariant\<close>

text \<open>A symbol under its canonical spelling.\<close>

definition canonical :: "registry \<Rightarrow> string \<Rightarrow> instrument_spec \<Rightarrow> bool" where
  "canonical reg s item \<longleftrightarrow> resolve s reg = Some item \<and> is_symbol item = s"

definition wire_of :: "service_env \<Rightarrow> instrument_spec \<Rightarrow> quote_snapshot \<Rightarrow> rat option \<Rightarrow> quote_model" where
  "wire_of env item snapshot t =
     snapshot_to_wire (en_float env) snapshot item (snapshot_as_of snapshot) (is_stale_after_seconds item) t"

definition snapshot_complete :: "instrument_spec \<Rightarrow> quote_snapshot \<Rightarrow> bool" where
  "snapshot_complete item snapshot = is_complete item (qs_dividend snapshot) (qs_estimated_annual_yield snapshot)"

definition symbol_ok :: "service_env \<Rightarrow> string \<Rightarrow> instrument_spec \<Rightarrow> data_state \<Rightarrow> bool" where
  "symbol_ok env s item ds \<longleftrightarrow>
     (\<forall>q. dict_get (ds_last_quotes ds) s = Some q \<longrightarrow> pq_symbol q = s) \<and>
     (case store_get (en_hash env) (ds_snapshots ds) s of
        None \<Rightarrow> s \<notin> set (ds_complete_symbols ds)
      | Some snapshot \<Rightarrow>
          (\<exists>q. dict_get (ds_last_quotes ds) s = Some q \<and> snapshot_as_of snapshot \<le> pq_as_of q)
          \<and> (\<exists>t. dict_get (ds_wire_cache ds) s = Some (wire_of env item snapshot t))
          \<and> (s \<in> set (ds_complete_symbols ds) \<longleftrightarrow> snapshot_complete item snapshot))"

definition state_ok :: "service_env \<Rightarrow> registry \<Rightarrow> data_state \<Rightarrow> bool" where
  "state_ok env reg ds \<longleftrightarrow> store_inv (en_hash env) (ds_snapshots ds)
     \<and> (\<forall>s item. canonical reg s item \<longrightarrow> symbol_ok env s item ds)"

text \<open>What of the state the invariant reads for one symbol.\<close>

definition same_symbol :: "service_env \<Rightarrow> string \<Rightarrow> data_state \<Rightarrow> data_state \<Rightarrow> bool" where
  "same_symbol env s ds ds' \<longleftrightarrow>
     dict_get (ds_last_quotes ds') s = dict_get (ds_last_quotes ds) s
     \<and> store_get (en_hash env) (ds_snapshots ds') s = store_get (en_hash env) (ds_snapshots ds) s
     \<and> dict_get (ds_wire_cache ds') s = dict_get (ds_wire_cache ds) s
     \<and> (s \<in> set (ds_complete_symbols ds') \<longleftrightarrow> s \<in> set (ds_complete_symbols ds))"

lemma symbol_ok_same: "same_symbol env s ds ds' \<Longrightarrow> symbol_ok env s item ds' \<longleftrightarrow> symbol_ok env s item ds"
  by (simp add: same_symbol_def symbol_ok_def split: option.splits)

lemma same_symbol_refl [simp]: "same_symbol env s ds ds"
  by (simp add: same_symbol_def)

lemma same_symbol_trans: "same_symbol env s a b \<Longrightarrow> same_symbol env s b c \<Longrightarrow> same_symbol env s a c"
  by (simp add: same_symbol_def)

text \<open>A change that touches only the entries of one symbol.\<close>

lemma state_ok_local:
  assumes "state_ok env reg ds" and "store_inv (en_hash env) (ds_snapshots ds')"
    and "\<And>s'. s' \<noteq> s \<Longrightarrow> same_symbol env s' ds ds'"
    and "\<And>item. canonical reg s item \<Longrightarrow> symbol_ok env s item ds \<Longrightarrow> symbol_ok env s item ds'"
  shows "state_ok env reg ds'"
  unfolding state_ok_def
proof (intro conjI allI impI)
  fix s' item
  assume c: "canonical reg s' item"
  then have ok: "symbol_ok env s' item ds" using assms(1) by (simp add: state_ok_def)
  show "symbol_ok env s' item ds'"
  proof (cases "s' = s")
    case True
    then show ?thesis using assms(4) c ok by blast
  next
    case False
    then show ?thesis using ok symbol_ok_same [OF assms(3)] by blast
  qed
qed (rule assms(2))

lemma state_ok_same:
  assumes "state_ok env reg ds" and "ds_snapshots ds' = ds_snapshots ds" and "ds_last_quotes ds' = ds_last_quotes ds"
    and "ds_wire_cache ds' = ds_wire_cache ds" and "ds_complete_symbols ds' = ds_complete_symbols ds"
  shows "state_ok env reg ds'"
proof -
  have "same_symbol env s ds ds'" for s using assms(2-5) by (simp add: same_symbol_def)
  then show ?thesis using assms(1,2) symbol_ok_same by (fastforce simp: state_ok_def)
qed

lemma unsupported_canonical: "\<not> unsupported s reg \<Longrightarrow> \<exists>item. canonical reg s item"
  by (auto simp: unsupported_def canonical_def split: option.splits)

lemma canonical_getitem: "canonical reg s item \<Longrightarrow> registry_getitem s reg = Inr item"
  by (simp add: canonical_def registry_getitem_def)

lemma set_member_iff [simp]: "x \<in> set (set_member p s xs) \<longleftrightarrow> (if x = s then p else x \<in> set xs)"
  by (auto simp: set_member_def)

subsection \<open>Rebuilding\<close>

lemma install_snapshot_get:
  assumes "store_inv (en_hash env) (ds_snapshots ds)" and "snapshot_symbol snapshot = s"
    and "\<And>c. store_get (en_hash env) (ds_snapshots ds) s = Some c \<Longrightarrow> snapshot_as_of c \<le> snapshot_as_of snapshot"
  shows "store_get (en_hash env) (ds_snapshots (install_snapshot env item s snapshot ds)) k =
    (if k = s then Some snapshot else store_get (en_hash env) (ds_snapshots ds) k)"
  using assms by (auto simp: install_snapshot_def store_get_publish split: option.splits)

lemma install_snapshot_other:
  assumes "store_inv (en_hash env) (ds_snapshots ds)" and "snapshot_symbol snapshot = s" and "s' \<noteq> s"
  shows "same_symbol env s' ds (install_snapshot env item s snapshot ds)"
  using assms by (simp add: same_symbol_def install_snapshot_def store_get_publish dict_get_set)

lemma install_snapshot_ok:
  assumes ok: "state_ok env reg ds" and c: "canonical reg s item"
    and q: "dict_get (ds_last_quotes ds) s = Some (qs_quote snapshot)"
  shows "state_ok env reg (install_snapshot env item s snapshot ds)"
proof (rule state_ok_local [OF ok, where s = s])
  have inv: "store_inv (en_hash env) (ds_snapshots ds)" using ok by (simp add: state_ok_def)
  then show "store_inv (en_hash env) (ds_snapshots (install_snapshot env item s snapshot ds))"
    by (simp add: install_snapshot_def store_inv_publish)
  have sok: "symbol_ok env s item ds" using ok c by (simp add: state_ok_def)
  then have sym: "snapshot_symbol snapshot = s" using q by (simp add: symbol_ok_def snapshot_symbol_def)
  show "\<And>s'. s' \<noteq> s \<Longrightarrow> same_symbol env s' ds (install_snapshot env item s snapshot ds)"
    by (rule install_snapshot_other [OF inv sym])
  have newer: "snapshot_as_of d \<le> snapshot_as_of snapshot"
    if "store_get (en_hash env) (ds_snapshots ds) s = Some d" for d
    using sok q that by (simp add: symbol_ok_def snapshot_as_of_def)
  fix item'
  assume "canonical reg s item'"
  then have [simp]: "item' = item" using c by (simp add: canonical_def)
  have "store_get (en_hash env) (ds_snapshots (install_snapshot env item s snapshot ds)) s = Some snapshot"
    using install_snapshot_get [OF inv sym newer, where k = s and item = item] by simp
  then show "symbol_ok env s item' (install_snapshot env item s snapshot ds)"
    using sok q by (auto simp: symbol_ok_def install_snapshot_def wire_of_def snapshot_complete_def dict_get_set
        snapshot_as_of_def)
qed

lemma rebuild_cases:
  obtains (unchanged) hc r where "rebuild env reg now add s ds = (ds\<lparr>ds_history := hc\<rparr>, r)" "\<And>x. r \<noteq> Inr (Some x)"
    | (installed) hc q item snapshot where "dict_get (ds_last_quotes ds) s = Some q" "registry_getitem s reg = Inr item"
        "qs_quote snapshot = q" "qs_published_at snapshot = now"
        "rebuild env reg now add s ds = (install_snapshot env item s snapshot (ds\<lparr>ds_history := hc\<rparr>), Inr (Some snapshot))"
proof (cases "dict_get (ds_last_quotes ds) s")
  case None
  then show thesis using unchanged [of "ds_history ds" "Inr None"] by (simp add: rebuild_def)
next
  case (Some q)
  note q = Some
  have stop: thesis if "rebuild env reg now add s ds = (ds, Inl e)" for e
    using unchanged [of "ds_history ds" "Inl e"] that by simp
  show thesis
  proof (cases "registry_getitem s reg")
    case (Inl e)
    then show thesis using q stop by (simp add: rebuild_def)
  next
    case (Inr item)
    note item = Inr
    show thesis
    proof (cases "rebuild_income item ds s q")
      case (Inl e)
      then show thesis using q item stop by (simp add: rebuild_def)
    next
      case (Inr dy)
      obtain d y where dy: "dy = (d, y)" by (cases dy)
      obtain hc r where r: "rebuild_changes add s q (ds_history ds) = (hc, r)" by (cases "rebuild_changes add s q (ds_history ds)")
      show thesis
      proof (cases r)
        case (Inl e)
        then show thesis using q item Inr dy r unchanged [of hc "Inl e"] by (simp add: rebuild_def)
      next
        case (Inr changes)
        show thesis
          by (rule installed [OF q item, where hc = hc and snapshot = "\<lparr>qs_quote = q, qs_changes = changes,
            qs_dividend = d, qs_estimated_annual_yield = y, qs_published_at = now\<rparr>"])
             (use q item r Inr dy \<open>rebuild_income item ds s q = Inr dy\<close> in \<open>simp_all add: rebuild_def Let_def\<close>)
      qed
    qed
  qed
qed

lemma rebuild_ok:
  assumes ok: "state_ok env reg ds" and c: "canonical reg s item"
  shows "state_ok env reg (fst (rebuild env reg now add s ds))"
proof (cases rule: rebuild_cases [of env reg now add s ds])
  case (unchanged hc r)
  then show ?thesis using ok by (auto intro: state_ok_same)
next
  case (installed hc q item' snapshot)
  have "state_ok env reg (ds\<lparr>ds_history := hc\<rparr>)" by (rule state_ok_same [OF ok]) simp_all
  then show ?thesis
    using installed canonical_getitem [OF c] install_snapshot_ok [OF _ c, where ds = "ds\<lparr>ds_history := hc\<rparr>"] by simp
qed

lemma rebuild_last_quotes [simp]: "ds_last_quotes (fst (rebuild env reg now add s ds)) = ds_last_quotes ds"
  by (cases rule: rebuild_cases [of env reg now add s ds]) (auto simp: install_snapshot_def)

lemma rebuild_all_ok:
  assumes "state_ok env reg ds" and "\<And>s. s \<in> set ss \<Longrightarrow> \<exists>item. canonical reg s item"
  shows "state_ok env reg (fst (rebuild_all env reg now ss ds))"
  using assms
proof (induction ss arbitrary: ds)
  case (Cons s ss)
  obtain ds' r where r: "rebuild env reg now [] s ds = (ds', r)" by (cases "rebuild env reg now [] s ds")
  have "state_ok env reg ds'"
    using rebuild_ok [OF Cons.prems(1), of s _ now "[]"] Cons.prems(2) [of s] r by auto
  then show ?case using Cons r by (cases r) auto
qed simp

subsection \<open>Publications\<close>

definition service_ok :: "service_env \<Rightarrow> service \<Rightarrow> bool" where
  "service_ok env sv = state_ok env (gn_registry (sv_generation sv)) (gn_state (sv_generation sv))"

lemma set_state_simps [simp]:
  "gn_state (sv_generation (set_state ds sv)) = ds"
  "gn_registry (sv_generation (set_state ds sv)) = gn_registry (sv_generation sv)"
  "gn_id (sv_generation (set_state ds sv)) = gn_id (sv_generation sv)"
  "sv_generation (persist_rows rows sv) = sv_generation sv"
  "set_state ds (set_state ds' sv) = set_state ds sv"
  by (simp_all add: set_state_def persist_rows_def)

lemma service_ok_simps [simp]:
  "service_ok env (set_state ds sv) \<longleftrightarrow> state_ok env (gn_registry (sv_generation sv)) ds"
  "service_ok env (persist_rows rows sv) \<longleftrightarrow> service_ok env sv"
  by (simp_all add: service_ok_def)

lemma publication_context_cases:
  "publication_context g sv = None \<or> publication_context g sv = Some (sv_generation sv)"
  by (simp add: publication_context_def)

lemma set_last_quote_ok:
  assumes ok: "state_ok env reg ds" and s: "pq_symbol q = s"
    and new: "\<And>c. dict_get (ds_last_quotes ds) s = Some c \<Longrightarrow> pq_as_of c \<le> pq_as_of q"
    and eq: "ds_snapshots ds' = ds_snapshots ds" "ds_last_quotes ds' = dict_set s q (ds_last_quotes ds)"
      "ds_wire_cache ds' = ds_wire_cache ds" "ds_complete_symbols ds' = ds_complete_symbols ds"
  shows "state_ok env reg ds'"
proof (rule state_ok_local [OF ok, where s = s])
  show "store_inv (en_hash env) (ds_snapshots ds')" using ok eq by (simp add: state_ok_def)
  show "\<And>s'. s' \<noteq> s \<Longrightarrow> same_symbol env s' ds ds'" using eq by (simp add: same_symbol_def dict_get_set)
  fix item
  assume sok: "symbol_ok env s item ds"
  show "symbol_ok env s item ds'"
  proof (cases "store_get (en_hash env) (ds_snapshots ds) s")
    case None
    then show ?thesis using sok s by (simp add: symbol_ok_def eq dict_get_set)
  next
    case (Some d)
    then obtain c where "dict_get (ds_last_quotes ds) s = Some c" "snapshot_as_of d \<le> pq_as_of c"
      using sok by (auto simp: symbol_ok_def)
    then have "snapshot_as_of d \<le> pq_as_of q" using new by (meson order_trans)
    then show ?thesis using sok Some s by (simp add: symbol_ok_def eq dict_get_set)
  qed
qed

lemma update_aggregate_frame [simp]:
  "ds_snapshots (fst (update_aggregate p ds)) = ds_snapshots ds"
  "ds_last_quotes (fst (update_aggregate p ds)) = ds_last_quotes ds"
  "ds_wire_cache (fst (update_aggregate p ds)) = ds_wire_cache ds"
  "ds_complete_symbols (fst (update_aggregate p ds)) = ds_complete_symbols ds"
  by (simp_all add: update_aggregate_def Let_def split: sum.split)

lemma update_aggregate_ok: "state_ok env reg ds \<Longrightarrow> state_ok env reg (fst (update_aggregate p ds))"
  by (erule state_ok_same) simp_all

definition quote_refused :: "instant \<Rightarrow> bool \<Rightarrow> string option \<Rightarrow> provider_quote \<Rightarrow> service \<Rightarrow> bool" where
  "quote_refused now current g q sv \<longleftrightarrow> publication_context g sv = None \<or> \<not> current
     \<or> unsupported (pq_symbol q) (gn_registry (sv_generation sv)) \<or> now + future_limit < pq_as_of q
     \<or> (case dict_get (ds_last_quotes (gn_state (sv_generation sv))) (pq_symbol q) of
          None \<Rightarrow> False | Some c \<Rightarrow> pq_as_of q < pq_as_of c)"

lemma publish_quote_refused:
  "quote_refused now current g q sv \<Longrightarrow>
     fst (publish_quote env now current persist g q sv) = sv \<and> snd (publish_quote env now current persist g q sv) \<noteq> Inr True"
  using publication_context_cases [of g sv]
  by (auto simp: publish_quote_def quote_refused_def Let_def split: option.splits)

lemma publish_quote_accepted:
  "\<not> quote_refused now current g q sv \<Longrightarrow> publish_quote env now current persist g q sv =
     install_quote env now persist (gn_registry (sv_generation sv)) q (gn_state (sv_generation sv)) sv"
  using publication_context_cases [of g sv]
  by (auto simp: publish_quote_def quote_refused_def Let_def split: option.splits)

lemma install_quote_outcome:
  obtains (failed) e where "install_quote env now persist reg q ds sv = (set_state (accept_quote q ds) sv, Inl e)"
    | (rebuild_failed) hc ds2 e where
        "rebuild env reg now [] (pq_symbol q) ((accept_quote q ds)\<lparr>ds_history := hc\<rparr>) = (ds2, Inl e)"
        "install_quote env now persist reg q ds sv = (set_state ds2 sv, Inl e)"
    | (rebuilt) hc ds2 snapshot ds3 sv' r where
        "rebuild env reg now [] (pq_symbol q) ((accept_quote q ds)\<lparr>ds_history := hc\<rparr>) = (ds2, Inr snapshot)"
        "install_quote env now persist reg q ds sv = (sv', r)"
        "sv_generation sv' = sv_generation (set_state ds3 sv)" "ds3 = ds2 \<or> (\<exists>p. ds3 = fst (update_aggregate p ds2))"
proof (cases "minute_point q")
  case (Inl e)
  then show thesis using failed by (simp add: install_quote_def)
next
  case (Inr point)
  note point = Inr
  show thesis
  proof (cases "add_point point (ds_history (accept_quote q ds))")
    case (Inl e)
    then show thesis using point failed by (simp add: install_quote_def)
  next
    case (Inr hc)
    note hc = Inr
    obtain ds2 r where r: "rebuild env reg now [] (pq_symbol q) ((accept_quote q ds)\<lparr>ds_history := hc\<rparr>) = (ds2, r)"
      by fastforce
    show thesis
    proof (cases r)
      case (Inl e)
      then show thesis using point hc r rebuild_failed by (simp add: install_quote_def)
    next
      case (Inr snapshot)
      obtain ds3 a where a: "update_aggregate point ds2 = (ds3, a)" by fastforce
      then have ds3: "ds3 = fst (update_aggregate point ds2)" by simp
      obtain sv' r' where sv': "install_quote env now persist reg q ds sv = (sv', r')" by fastforce
      have "sv_generation sv' = sv_generation (set_state ds2 sv) \<or> sv_generation sv' = sv_generation (set_state ds3 sv)"
        using point hc r Inr a sv' by (auto simp: install_quote_def Let_def set_state_def persist_rows_def split: if_splits sum.splits)
      then show thesis using rebuilt [OF _ sv'] r Inr ds3 by blast
    qed
  qed
qed

lemma accept_quote_ok:
  assumes "service_ok env sv" and "\<not> quote_refused now current g q sv"
  shows "state_ok env (gn_registry (sv_generation sv)) ((accept_quote q (gn_state (sv_generation sv)))\<lparr>ds_history := hc\<rparr>)"
  by (rule set_last_quote_ok [where q = q and s = "pq_symbol q" and ds = "gn_state (sv_generation sv)"])
     (use assms in \<open>auto simp: service_ok_def accept_quote_def quote_refused_def\<close>)

lemma publish_quote_ok:
  assumes "service_ok env sv"
  shows "service_ok env (fst (publish_quote env now current persist g q sv))
    \<and> gn_registry (sv_generation (fst (publish_quote env now current persist g q sv))) = gn_registry (sv_generation sv)"
proof (cases "quote_refused now current g q sv")
  case True
  then show ?thesis using publish_quote_refused assms by simp
next
  case False
  let ?reg = "gn_registry (sv_generation sv)" and ?ds1 = "accept_quote q (gn_state (sv_generation sv))"
  obtain item where c: "canonical ?reg (pq_symbol q) item"
    using False unsupported_canonical by (auto simp: quote_refused_def)
  have ok1: "state_ok env ?reg ?ds1"
    using accept_quote_ok [OF assms False, of "ds_history ?ds1"] by simp
  have ok2: "state_ok env ?reg ds2"
    if "rebuild env ?reg now [] (pq_symbol q) (?ds1\<lparr>ds_history := hc\<rparr>) = (ds2, r)" for hc ds2 r
    using rebuild_ok [OF accept_quote_ok [OF assms False, of hc] c, where now = now and add = "[]"] that by simp
  show ?thesis
    unfolding publish_quote_accepted [OF False]
    by (cases rule: install_quote_outcome [of env now persist ?reg q "gn_state (sv_generation sv)" sv])
       (use ok1 ok2 update_aggregate_ok in \<open>auto simp: service_ok_def\<close>)
qed

lemma publish_history_ok:
  assumes "service_ok env sv" and "\<And>xs. set (order xs) = set xs"
  shows "service_ok env (fst (publish_history env now current persist g order points sv))
    \<and> gn_registry (sv_generation (fst (publish_history env now current persist g order points sv)))
      = gn_registry (sv_generation sv)"
proof (cases "publication_context g sv = None \<or> (\<exists>e. validate_history_timestamps now (gn_registry (sv_generation sv)) points = Inl e)
    \<or> (\<exists>e. load_history points (ds_history (gn_state (sv_generation sv))) = Inl e)")
  case True
  then show ?thesis using assms publication_context_cases [of g sv]
    by (auto simp: publish_history_def Let_def split: sum.splits)
next
  case False
  let ?reg = "gn_registry (sv_generation sv)" and ?ds = "gn_state (sv_generation sv)"
  obtain hc where hc: "load_history points (ds_history ?ds) = Inr hc"
    and v: "validate_history_timestamps now ?reg points = Inr ()"
    and ctx: "publication_context g sv = Some (sv_generation sv)"
    using False publication_context_cases [of g sv]
    by (cases "load_history points (ds_history ?ds)"; cases "validate_history_timestamps now ?reg points") auto
  have ok1: "state_ok env ?reg (?ds\<lparr>ds_history := hc\<rparr>)"
    by (rule state_ok_same [where ds = ?ds]) (use assms in \<open>auto simp: service_ok_def\<close>)
  obtain ds2 r where r: "rebuild_all env ?reg now (order (remdups (map pp_symbol points))) (?ds\<lparr>ds_history := hc\<rparr>) = (ds2, r)"
    by fastforce
  have "\<exists>item. canonical ?reg s item" if "s \<in> set (order (remdups (map pp_symbol points)))" for s
    using v that assms(2) unsupported_canonical
    by (fastforce simp: validate_history_timestamps_def res_simps list_ex_iff)
  with rebuild_all_ok [OF ok1, where now = now] r have "state_ok env ?reg ds2" by fastforce
  then show ?thesis using hc v ctx r ok1 by (simp add: publish_history_def Let_def split: sum.splits)
qed

lemma finish_publication_ok:
  assumes "state_ok env reg ds1" and "canonical reg s item" and "reg = gn_registry (sv_generation sv)"
  shows "service_ok env (fst (finish_publication env now reg persist s row ds1 sv))
    \<and> gn_registry (sv_generation (fst (finish_publication env now reg persist s row ds1 sv))) = reg"
  using rebuild_ok [OF assms(1,2), of now "[]"] assms(3)
  by (auto simp: finish_publication_def split: prod.splits sum.splits)

lemma publish_dividend_ok:
  assumes "service_ok env sv"
  shows "service_ok env (fst (publish_dividend env now current persist g event sv))
    \<and> gn_registry (sv_generation (fst (publish_dividend env now current persist g event sv))) = gn_registry (sv_generation sv)"
proof -
  let ?reg = "gn_registry (sv_generation sv)" and ?ds = "gn_state (sv_generation sv)"
  have ok1: "state_ok env ?reg (?ds\<lparr>ds_dividends := d\<rparr>)" for d
    by (rule state_ok_same [where ds = ?ds]) (use assms in \<open>auto simp: service_ok_def\<close>)
  show ?thesis
  proof (cases "unsupported (de_symbol event) ?reg")
    case False
    then obtain item where "canonical ?reg (de_symbol event) item" using unsupported_canonical by blast
    from finish_publication_ok [OF ok1 this refl] show ?thesis using assms publication_context_cases [of g sv]
      by (auto simp: publish_dividend_def Let_def)
  qed (use assms publication_context_cases [of g sv] in \<open>auto simp: publish_dividend_def Let_def\<close>)
qed

lemma publish_yield_metric_ok:
  assumes "service_ok env sv"
  shows "service_ok env (fst (publish_yield_metric env now current persist g metric sv))
    \<and> gn_registry (sv_generation (fst (publish_yield_metric env now current persist g metric sv)))
      = gn_registry (sv_generation sv)"
proof -
  let ?reg = "gn_registry (sv_generation sv)" and ?ds = "gn_state (sv_generation sv)"
  have ok1: "state_ok env ?reg (?ds\<lparr>ds_yield_metrics := m, ds_yield_stale := t\<rparr>)" for m t
    by (rule state_ok_same [where ds = ?ds]) (use assms in \<open>auto simp: service_ok_def\<close>)
  show ?thesis
  proof (cases "unsupported (ym_symbol metric) ?reg")
    case False
    then obtain item where "canonical ?reg (ym_symbol metric) item" using unsupported_canonical by blast
    from finish_publication_ok [OF ok1 this refl] show ?thesis using assms publication_context_cases [of g sv]
      by (auto simp: publish_yield_metric_def Let_def)
  qed (use assms publication_context_cases [of g sv] in \<open>auto simp: publish_yield_metric_def Let_def\<close>)
qed

lemma mark_source_failed_ok:
  assumes "service_ok env sv"
  shows "service_ok env (fst (mark_source_failed current g symbols sv))
    \<and> gn_registry (sv_generation (fst (mark_source_failed current g symbols sv))) = gn_registry (sv_generation sv)"
proof -
  have "state_ok env (gn_registry (sv_generation sv)) ((gn_state (sv_generation sv))\<lparr>ds_source_failures := f\<rparr>)" for f
    by (rule state_ok_same [where ds = "gn_state (sv_generation sv)"]) (use assms in \<open>auto simp: service_ok_def\<close>)
  then show ?thesis using assms publication_context_cases [of g sv] by (auto simp: mark_source_failed_def Let_def)
qed

end
