(* ===== verification/QP_Service_Props.thy ===== *)
theory QP_Service_Props
  imports QP_Service_Inv QP_Builtin
begin

text \<open>
  Properties of the service over every sequence of publications: what a reader is served,
  what the readiness probes report, and that a served price never goes back in time.
\<close>

subsection \<open>Publications as a step relation\<close>

inductive service_step :: "service_env \<Rightarrow> service \<Rightarrow> service \<Rightarrow> bool" for env where
  quote: "service_step env sv (fst (publish_quote env now current persist g q sv))"
| history: "(\<And>xs. set (order xs) = set xs) \<Longrightarrow>
    service_step env sv (fst (publish_history env now current persist g order points sv))"
| dividend: "service_step env sv (fst (publish_dividend env now current persist g event sv))"
| yield_metric: "service_step env sv (fst (publish_yield_metric env now current persist g metric sv))"
| failed: "service_step env sv (fst (mark_source_failed current g symbols sv))"

text \<open>A service as the constructor leaves it, on a registry built from plugins.\<close>

definition started :: "instrument_plugin list \<Rightarrow> service \<Rightarrow> bool" where
  "started plugins sv \<longleftrightarrow> mk_registry plugins = Inr (gn_registry (sv_generation sv))
     \<and> new_data_state = Inr (gn_state (sv_generation sv))"

definition service_reachable :: "service_env \<Rightarrow> instrument_plugin list \<Rightarrow> service \<Rightarrow> bool" where
  "service_reachable env plugins sv \<longleftrightarrow> (\<exists>sv0. started plugins sv0 \<and> (service_step env)\<^sup>*\<^sup>* sv0 sv)"

lemma service_step_ok:
  "service_step env sv sv' \<Longrightarrow> service_ok env sv \<Longrightarrow>
     service_ok env sv' \<and> gn_registry (sv_generation sv') = gn_registry (sv_generation sv)"
  by (induction rule: service_step.induct)
     (simp_all add: publish_quote_ok publish_history_ok publish_dividend_ok publish_yield_metric_ok mark_source_failed_ok)

lemma service_run_ok:
  "(service_step env)\<^sup>*\<^sup>* sv sv' \<Longrightarrow> service_ok env sv \<Longrightarrow>
     service_ok env sv' \<and> gn_registry (sv_generation sv') = gn_registry (sv_generation sv)"
proof (induction rule: rtranclp_induct)
  case (step sv' sv'')
  then show ?case using service_step_ok [OF step(2)] by simp
qed simp

lemma started_ok: "started plugins sv \<Longrightarrow> service_ok env sv"
proof -
  assume "started plugins sv"
  then obtain st where "mk_snapshot_store default_shards = Inr st"
    and ds: "gn_state (sv_generation sv) = \<lparr>ds_snapshots = st, ds_history = empty_history, ds_dividends = [],
      ds_yield_metrics = [], ds_yield_stale = [], ds_last_quotes = [], ds_source_failures = [], ds_wire_cache = [],
      ds_complete_symbols = [], ds_active_aggregates = []\<rparr>"
    by (auto simp: started_def new_data_state_def res_simps)
  then show ?thesis
    by (auto simp: service_ok_def state_ok_def symbol_ok_def mk_snapshot_store_inv mk_snapshot_store_get)
qed

lemma service_reachable_ok:
  assumes "service_reachable env plugins sv"
  shows "service_ok env sv" and "mk_registry plugins = Inr (gn_registry (sv_generation sv))"
proof -
  from assms obtain sv0 where s: "started plugins sv0" and run: "(service_step env)\<^sup>*\<^sup>* sv0 sv"
    by (auto simp: service_reachable_def)
  from run have "service_ok env sv \<and> gn_registry (sv_generation sv) = gn_registry (sv_generation sv0)"
    by (induction rule: rtranclp_induct) (use s started_ok service_step_ok in auto)
  then show "service_ok env sv" and "mk_registry plugins = Inr (gn_registry (sv_generation sv))"
    using s by (simp_all add: started_def)
qed

lemma registry_symbols_canonical:
  assumes "mk_registry plugins = Inr r" and "s \<in> set (registry_symbols r)"
  shows "\<exists>item. canonical r s item"
proof -
  let ?items = "concat (map ip_instruments plugins)"
  from assms(1) have r: "r = registry_tables.extend (tables_of ?items) \<lparr>rg_plugins = plugins\<rparr>"
    and adm: "admissible ?items" by (auto simp: mk_registry_iff)
  from assms(2) obtain i where i: "i \<in> set ?items" "s = is_symbol i"
    by (auto simp: registry_symbols_def r dict_keys_tables_of)
  then have "normalize_symbol s = s" using adm validate_instrument_symbol(1) [of i] by (auto simp: admissible_def)
  then have "resolve s r = Some i" using i by (simp add: r resolve_tables_of [OF adm] identities_def del: set_concat)
  then show ?thesis using i by (auto simp: canonical_def)
qed

subsection \<open>What a reader is served\<close>

text \<open>The stored snapshot projected afresh at the time of the request.\<close>

definition fresh_view ::
  "service_env \<Rightarrow> data_state \<Rightarrow> string \<Rightarrow> instrument_spec \<Rightarrow> quote_snapshot \<Rightarrow> instant \<Rightarrow> string \<times> quality_model \<Rightarrow> quote_model" where
  "fresh_view env ds s item snapshot now sq =
     (snapshot_to_wire (en_float env) snapshot item now (is_stale_after_seconds item) (Some (yield_threshold env ds s)))
       \<lparr>wr_market_status := fst sq, wr_quality := snd sq\<rparr>"

lemma quality_total: "\<exists>sq. quality env ds snapshot item now = Inr sq"
  by (simp add: quality_def effective_market_status_def scheduled_market_status_def most_recent_scheduled_close_def
      enum_of_def ensure_utc_def Let_def)

lemma refreshed_wire:
  assumes "qs_estimated_annual_yield snapshot = Some y" and "wr_estimated_annual_yield (wire_of env item snapshot t) = Some w"
  shows "refreshed_yield env ds s snapshot now w =
    Inr (yield_to_wire (en_float env) y (yield_quality_at y now (yield_threshold env ds s)))"
  using assms
  by (auto simp: refreshed_yield_def wire_of_def snapshot_to_wire_def Let_def yield_to_wire_def yield_quality_at_def)

lemma wire_yield_iff [simp]:
  "wr_estimated_annual_yield (wire_of env item snapshot t) = None \<longleftrightarrow> qs_estimated_annual_yield snapshot = None"
  by (simp add: wire_of_def snapshot_to_wire_def Let_def)

lemma get_quote_ok:
  assumes ok: "service_ok env sv" and c: "canonical (gn_registry (sv_generation sv)) s item"
    and snap: "store_get (en_hash env) (ds_snapshots (gn_state (sv_generation sv))) s = Some snapshot"
    and complete: "strict \<longrightarrow> snapshot_complete item snapshot"
  shows "\<exists>sq. quality env (gn_state (sv_generation sv)) snapshot item now = Inr sq \<and>
    get_quote env now strict (sv_generation sv) s =
      Inr (fresh_view env (gn_state (sv_generation sv)) s item snapshot now sq)"
proof -
  let ?ds = "gn_state (sv_generation sv)"
  obtain sq where q: "quality env ?ds snapshot item now = Inr sq" using quality_total by blast
  have "symbol_ok env s item ?ds" using ok c by (simp add: service_ok_def state_ok_def)
  then obtain t where w: "dict_get (ds_wire_cache ?ds) s = Some (wire_of env item snapshot t)"
    using snap by (auto simp: symbol_ok_def)
  obtain st qm where sq: "sq = (st, qm)" by (cases sq)
  show ?thesis
  proof (cases "qs_estimated_annual_yield snapshot")
    case None
    then show ?thesis
      using canonical_getitem [OF c] snap complete w q sq
      by (simp add: get_quote_def Let_def lift_error_def raise_if_def snapshot_complete_def is_complete_def
          fresh_view_def wire_of_def snapshot_to_wire_def)
  next
    case (Some y)
    then obtain wy where wy: "wr_estimated_annual_yield (wire_of env item snapshot t) = Some wy"
      by (cases "wr_estimated_annual_yield (wire_of env item snapshot t)") auto
    have "fresh_view env ?ds s item snapshot now sq = (wire_of env item snapshot t)\<lparr>wr_market_status := st, wr_quality := qm,
        wr_estimated_annual_yield := Some (yield_to_wire (en_float env) y (yield_quality_at y now (yield_threshold env ?ds s)))\<rparr>"
      using Some sq by (simp add: fresh_view_def wire_of_def snapshot_to_wire_def Let_def)
    then show ?thesis
      using canonical_getitem [OF c] snap complete w q sq wy refreshed_wire [OF Some wy]
      by (auto simp: get_quote_def Let_def lift_error_def raise_if_def snapshot_complete_def is_complete_def)
  qed
qed

lemma get_quote_as_of:
  assumes "service_ok env sv" and "canonical (gn_registry (sv_generation sv)) s item"
    and "store_get (en_hash env) (ds_snapshots (gn_state (sv_generation sv))) s = Some snapshot"
    and "get_quote env now strict (sv_generation sv) s = Inr view"
  shows "wr_as_of view = snapshot_as_of snapshot"
proof -
  have "strict \<longrightarrow> snapshot_complete item snapshot"
    using assms(4) canonical_getitem [OF assms(2)] assms(3)
    by (auto simp: get_quote_def lift_error_def Let_def raise_if_def snapshot_complete_def is_complete_def split: if_splits)
  from get_quote_ok [OF assms(1-3) this, of now] assms(4) show ?thesis
    by (auto simp: fresh_view_def snapshot_to_wire_def Let_def snapshot_as_of_def)
qed

text \<open>
  C5. After any sequence of publications, successful or not, \<^verbatim>\<open>get_quote\<close> on a registered
  symbol answers as if it projected the stored snapshot afresh at the time of the request,
  although it patches a cached wire model: with no snapshot or with mandatory metadata missing
  it raises \<^verbatim>\<open>DataUnavailableError\<close> with the matching reason, and it raises nothing else.
\<close>

theorem served_quote_is_fresh_projection:
  assumes "service_reachable env plugins sv" and "canonical (gn_registry (sv_generation sv)) s item"
  shows "\<exists>sq. (\<forall>snapshot. store_get (en_hash env) (ds_snapshots (gn_state (sv_generation sv))) s = Some snapshot \<longrightarrow>
        quality env (gn_state (sv_generation sv)) snapshot item now = Inr sq) \<and>
    get_quote env now True (sv_generation sv) s =
      (case store_get (en_hash env) (ds_snapshots (gn_state (sv_generation sv))) s of
         None \<Rightarrow> Inl (DataUnavailable s ''no valid price has ever been received'')
       | Some snapshot \<Rightarrow>
           if is_yield_strategy item \<noteq> None \<and> qs_estimated_annual_yield snapshot = None
           then Inl (DataUnavailable s ''required estimated annual yield is unavailable'')
           else if is_dividend_strategy item \<noteq> None \<and> qs_dividend snapshot = None
           then Inl (DataUnavailable s ''required latest regular dividend is unavailable'')
           else Inr (fresh_view env (gn_state (sv_generation sv)) s item snapshot now sq))"
proof (cases "store_get (en_hash env) (ds_snapshots (gn_state (sv_generation sv))) s")
  case None
  then show ?thesis using canonical_getitem [OF assms(2)] by (simp add: get_quote_def lift_error_def Let_def)
next
  case (Some snapshot)
  obtain sq where q: "quality env (gn_state (sv_generation sv)) snapshot item now = Inr sq" using quality_total by blast
  show ?thesis
  proof (cases "snapshot_complete item snapshot")
    case True
    then show ?thesis
      using get_quote_ok [OF service_reachable_ok(1) [OF assms(1)] assms(2) Some, of True now] Some q
      by (intro exI [of _ sq]) (auto simp: snapshot_complete_def is_complete_def)
  next
    case False
    then show ?thesis
      using canonical_getitem [OF assms(2)] Some q
      by (intro exI [of _ sq]) (auto simp: get_quote_def lift_error_def Let_def raise_if_def snapshot_complete_def is_complete_def)
  qed
qed

subsection \<open>Readiness\<close>

lemma get_quote_incomplete:
  assumes ok: "service_ok env sv" and c: "canonical (gn_registry (sv_generation sv)) s item"
    and snap: "store_get (en_hash env) (ds_snapshots (gn_state (sv_generation sv))) s = Some snapshot"
    and inc: "\<not> snapshot_complete item snapshot"
  shows "\<exists>m. get_quote env now True (sv_generation sv) s = Inl (DataUnavailable s m)"
  using canonical_getitem [OF c] snap inc
  by (auto simp: get_quote_def lift_error_def Let_def raise_if_def snapshot_complete_def is_complete_def)

lemma readiness_scan_exact:
  assumes ok: "service_ok env sv" and "\<And>s. s \<in> set ss \<Longrightarrow> \<exists>item. canonical (gn_registry (sv_generation sv)) s item"
  shows "readiness_scan env now (sv_generation sv) ss =
    Inr (filter (\<lambda>s. store_get (en_hash env) (ds_snapshots (gn_state (sv_generation sv))) s = None) ss,
         filter (\<lambda>s. store_get (en_hash env) (ds_snapshots (gn_state (sv_generation sv))) s \<noteq> None
           \<and> s \<notin> set (ds_complete_symbols (gn_state (sv_generation sv)))) ss)"
  using assms(2)
proof (induction ss)
  case (Cons s ss)
  let ?ds = "gn_state (sv_generation sv)"
  obtain item where c: "canonical (gn_registry (sv_generation sv)) s item" using Cons.prems by auto
  have sok: "symbol_ok env s item ?ds" using ok c by (simp add: service_ok_def state_ok_def)
  have IH: "readiness_scan env now (sv_generation sv) ss = Inr
     (filter (\<lambda>s. store_get (en_hash env) (ds_snapshots ?ds) s = None) ss,
      filter (\<lambda>s. store_get (en_hash env) (ds_snapshots ?ds) s \<noteq> None \<and> s \<notin> set (ds_complete_symbols ?ds)) ss)"
    using Cons by auto
  show ?case
  proof (cases "store_get (en_hash env) (ds_snapshots ?ds) s")
    case None
    then show ?thesis using IH by simp
  next
    case (Some snapshot)
    then have comp: "s \<in> set (ds_complete_symbols ?ds) \<longleftrightarrow> snapshot_complete item snapshot"
      using sok by (simp add: symbol_ok_def)
    show ?thesis
    proof (cases "snapshot_complete item snapshot")
      case True
      then show ?thesis using get_quote_ok [OF ok c Some, of True now] IH Some comp by auto
    next
      case False
      then show ?thesis using get_quote_incomplete [OF ok c Some, of now] IH Some comp by auto
    qed
  qed
qed simp

text \<open>
  C17. After any sequence of publications within one generation (quotes, histories, dividends,
  yields and failures of a source), successful or not, the readiness report never raises, lists
  exactly the registered symbols that have no price and those whose mandatory metadata is
  missing, and its incremental completeness set gives the public probe the same verdict as that
  full scan. The installation of warm bundles by an activation is not one of these steps.
\<close>

theorem readiness_agrees_with_scan:
  assumes "service_reachable env plugins sv"
  shows "\<exists>details. readiness env now p (sv_generation sv) = Inr (is_ready p (sv_generation sv), details)
    \<and> rd_missing_prices details = filter (\<lambda>s. store_get (en_hash env) (ds_snapshots (gn_state (sv_generation sv))) s = None)
        (registry_symbols (gn_registry (sv_generation sv)))
    \<and> rd_incomplete_metadata details = filter (\<lambda>s. store_get (en_hash env) (ds_snapshots (gn_state (sv_generation sv))) s \<noteq> None
        \<and> isl (get_quote env now True (sv_generation sv) s)) (registry_symbols (gn_registry (sv_generation sv)))
    \<and> (all_complete (sv_generation sv) \<longleftrightarrow> rd_missing_prices details = [] \<and> rd_incomplete_metadata details = [])"
proof -
  let ?gen = "sv_generation sv" and ?ds = "gn_state (sv_generation sv)"
  let ?syms = "registry_symbols (gn_registry ?gen)" and ?get = "store_get (en_hash env) (ds_snapshots ?ds)"
  note ok = service_reachable_ok(1) [OF assms]
  have canon: "\<And>s. s \<in> set ?syms \<Longrightarrow> \<exists>item. canonical (gn_registry ?gen) s item"
    by (rule registry_symbols_canonical [OF service_reachable_ok(2) [OF assms]])
  have flag: "(?get s = None \<longrightarrow> s \<notin> set (ds_complete_symbols ?ds))
      \<and> (?get s \<noteq> None \<longrightarrow> (s \<in> set (ds_complete_symbols ?ds) \<longleftrightarrow> \<not> isl (get_quote env now True ?gen s)))"
    if s: "s \<in> set ?syms" for s
  proof -
    obtain item where c: "canonical (gn_registry ?gen) s item" using canon [OF s] by blast
    then have sok: "symbol_ok env s item ?ds" using ok by (simp add: service_ok_def state_ok_def)
    show ?thesis
    proof (cases "?get s")
      case None
      then show ?thesis using sok by (simp add: symbol_ok_def)
    next
      case (Some snapshot)
      then show ?thesis
        using sok get_quote_ok [OF ok c Some, of True now] get_quote_incomplete [OF ok c Some, of now]
        by (cases "snapshot_complete item snapshot") (auto simp: symbol_ok_def)
    qed
  qed
  have inc: "filter (\<lambda>s. ?get s \<noteq> None \<and> s \<notin> set (ds_complete_symbols ?ds)) ?syms
      = filter (\<lambda>s. ?get s \<noteq> None \<and> isl (get_quote env now True ?gen s)) ?syms"
    using flag by (intro filter_cong) auto
  have "all_complete ?gen \<longleftrightarrow> filter (\<lambda>s. ?get s = None) ?syms = []
      \<and> filter (\<lambda>s. ?get s \<noteq> None \<and> isl (get_quote env now True ?gen s)) ?syms = []"
    unfolding all_complete_def list_all_iff filter_empty_conv using flag by blast
  moreover have "readiness_scan env now ?gen ?syms = Inr (filter (\<lambda>s. ?get s = None) ?syms,
      filter (\<lambda>s. ?get s \<noteq> None \<and> isl (get_quote env now True ?gen s)) ?syms)"
    unfolding inc [symmetric] by (rule readiness_scan_exact [OF ok canon])
  ultimately show ?thesis by (simp add: readiness_def Let_def)
qed

subsection \<open>Prices do not go back\<close>

text \<open>A publication changes the snapshot store only through \<^const>\<open>store_publish\<close>.\<close>

definition publishes :: "service_env \<Rightarrow> data_state \<Rightarrow> data_state \<Rightarrow> bool" where
  "publishes env ds ds' \<longleftrightarrow> (\<exists>vs. ds_snapshots ds' = fold (store_publish (en_hash env)) vs (ds_snapshots ds))"

lemma publishes_same: "ds_snapshots ds' = ds_snapshots ds \<Longrightarrow> publishes env ds ds'"
  unfolding publishes_def by (intro exI [of _ "[]"]) simp

lemma publishes_trans: "publishes env a b \<Longrightarrow> publishes env b c \<Longrightarrow> publishes env a c"
  unfolding publishes_def by (metis comp_apply fold_append)

lemma publishes_rebuild: "publishes env ds (fst (rebuild env reg now add s ds))"
proof (cases rule: rebuild_cases [of env reg now add s ds])
  case (installed hc q item snapshot)
  then show ?thesis unfolding publishes_def by (intro exI [of _ "[snapshot]"]) (simp add: install_snapshot_def)
qed (simp add: publishes_same)

lemma publishes_rebuild_from:
  "rebuild env reg now add s ds1 = (ds2, r) \<Longrightarrow> ds_snapshots ds1 = ds_snapshots ds \<Longrightarrow> publishes env ds ds2"
  using publishes_trans [OF publishes_same publishes_rebuild, of ds1 ds env reg now add s] by simp

lemma publishes_rebuild_all: "publishes env ds (fst (rebuild_all env reg now ss ds))"
proof (induction ss arbitrary: ds)
  case (Cons s ss)
  obtain ds' r where r: "rebuild env reg now [] s ds = (ds', r)" by fastforce
  then have "publishes env ds ds'" by (rule publishes_rebuild_from) simp
  then show ?case using r Cons.IH [of ds'] by (cases r) (auto intro: publishes_trans)
qed (simp add: publishes_same)

lemma publishes_finish:
  "ds_snapshots ds1 = ds_snapshots (gn_state (sv_generation sv)) \<Longrightarrow>
     publishes env (gn_state (sv_generation sv)) (gn_state (sv_generation (fst (finish_publication env now reg persist s row ds1 sv))))"
  by (auto simp: finish_publication_def split: prod.splits sum.splits intro: publishes_rebuild_from)

lemma publishes_install_quote:
  "publishes env (gn_state (sv_generation sv))
     (gn_state (sv_generation (fst (install_quote env now persist reg q (gn_state (sv_generation sv)) sv))))"
proof -
  let ?ds = "gn_state (sv_generation sv)"
  have acc: "ds_snapshots ((accept_quote q ?ds)\<lparr>ds_history := hc\<rparr>) = ds_snapshots ?ds" for hc
    by (simp add: accept_quote_def)
  show ?thesis
  proof (cases rule: install_quote_outcome [of env now persist reg q ?ds sv])
    case (failed e)
    then show ?thesis by (simp add: publishes_same accept_quote_def)
  next
    case (rebuild_failed hc ds2 e)
    then show ?thesis using publishes_rebuild_from [OF _ acc] by simp
  next
    case (rebuilt hc ds2 snapshot ds3 sv' r)
    then have "publishes env ?ds ds2" using publishes_rebuild_from [OF _ acc] by blast
    moreover have "ds_snapshots ds3 = ds_snapshots ds2" using rebuilt(4) by auto
    ultimately show ?thesis using rebuilt(2,3) by (auto intro: publishes_trans publishes_same)
  qed
qed

lemma service_step_publishes:
  "service_step env sv sv' \<Longrightarrow> publishes env (gn_state (sv_generation sv)) (gn_state (sv_generation sv'))"
proof (induction rule: service_step.induct)
  case (quote sv now current persist g q)
  then show ?case
    by (cases "quote_refused now current g q sv")
       (simp_all add: publish_quote_refused publishes_same publish_quote_accepted publishes_install_quote)
next
  case (history order sv now current persist g points)
  let ?ds = "gn_state (sv_generation sv)"
  have "publishes env ?ds ds2" if "rebuild_all env reg now ss (?ds\<lparr>ds_history := hc\<rparr>) = (ds2, r)" for reg ss hc ds2 r
    using publishes_trans [OF publishes_same publishes_rebuild_all, of "?ds\<lparr>ds_history := hc\<rparr>" ?ds env reg now ss] that by simp
  then show ?case using publication_context_cases [of g sv]
    by (auto simp: publish_history_def Let_def publishes_same split: sum.splits prod.splits)
next
  case (dividend sv now current persist g event)
  then show ?case using publication_context_cases [of g sv]
    by (auto simp: publish_dividend_def Let_def publishes_same publishes_finish)
next
  case (yield_metric sv now current persist g metric)
  then show ?case using publication_context_cases [of g sv]
    by (auto simp: publish_yield_metric_def Let_def publishes_same publishes_finish)
next
  case (failed sv current g symbols)
  then show ?case using publication_context_cases [of g sv]
    by (auto simp: mark_source_failed_def Let_def publishes_same)
qed

lemma service_run_publishes:
  "(service_step env)\<^sup>*\<^sup>* sv sv' \<Longrightarrow> publishes env (gn_state (sv_generation sv)) (gn_state (sv_generation sv'))"
  by (induction rule: rtranclp_induct) (auto intro: publishes_same publishes_trans service_step_publishes)

lemma accepted_quote_stored:
  assumes ok: "service_ok env sv" and res: "publish_quote env now current persist g q sv = (sv', Inr True)"
  shows "\<exists>snapshot. store_get (en_hash env) (ds_snapshots (gn_state (sv_generation sv'))) (pq_symbol q) = Some snapshot
    \<and> qs_quote snapshot = q \<and> qs_published_at snapshot = now"
proof -
  let ?reg = "gn_registry (sv_generation sv)" and ?ds = "gn_state (sv_generation sv)" and ?s = "pq_symbol q"
  have acc: "\<not> quote_refused now current g q sv" using publish_quote_refused [of now current g q sv env persist] res by auto
  then obtain item where c: "canonical ?reg ?s item" using unsupported_canonical by (auto simp: quote_refused_def)
  have last: "dict_get (ds_last_quotes ((accept_quote q ?ds)\<lparr>ds_history := hc\<rparr>)) ?s = Some q" for hc
    by (simp add: accept_quote_def dict_get_set)
  have stored: "\<exists>snapshot. store_get (en_hash env) (ds_snapshots ds2) ?s = Some snapshot \<and> qs_quote snapshot = q
      \<and> qs_published_at snapshot = now"
    if r: "rebuild env ?reg now [] ?s ((accept_quote q ?ds)\<lparr>ds_history := hc\<rparr>) = (ds2, Inr (Some x))" for hc ds2 x
    using r
  proof (cases rule: rebuild_cases [of env ?reg now "[]" ?s "(accept_quote q ?ds)\<lparr>ds_history := hc\<rparr>"])
    case (installed hc' q' item' snapshot)
    let ?ds1 = "(accept_quote q ?ds)\<lparr>ds_history := hc'\<rparr>"
    have ok1: "state_ok env ?reg ?ds1" by (rule accept_quote_ok [OF ok acc])
    then have inv: "store_inv (en_hash env) (ds_snapshots ?ds1)" and sok: "symbol_ok env ?s item ?ds1"
      using c by (simp_all add: state_ok_def)
    have q': "q' = q" using installed(1) last by simp
    have newer: "snapshot_as_of d \<le> snapshot_as_of snapshot"
      if "store_get (en_hash env) (ds_snapshots ?ds1) ?s = Some d" for d
    proof -
      have "dict_get (ds_last_quotes ?ds1) ?s = Some q" using last [of hc'] by simp
      then have "snapshot_as_of d \<le> pq_as_of q" using sok that by (simp add: symbol_ok_def)
      then show ?thesis using installed(3) q' by (simp add: snapshot_as_of_def)
    qed
    have "snapshot_symbol snapshot = ?s" using installed(3) q' by (simp add: snapshot_symbol_def)
    from install_snapshot_get [OF inv this newer, where k = ?s and item = item']
    show ?thesis using installed r q' by auto
  qed simp
  have some: "x \<noteq> None" if "rebuild env ?reg now [] ?s ((accept_quote q ?ds)\<lparr>ds_history := hc\<rparr>) = (ds2, Inr x)" for hc ds2 x
    using that last [of hc] by (auto simp: rebuild_def Let_def split: sum.splits prod.splits)
  show ?thesis
  proof (cases rule: install_quote_outcome [of env now persist ?reg q ?ds sv])
    case (rebuilt hc ds2 x ds3 sv'' r)
    then have "ds_snapshots (gn_state (sv_generation sv')) = ds_snapshots ds2"
      using res publish_quote_accepted [OF acc, of env persist] by auto
    moreover obtain y where "x = Some y" using some [OF rebuilt(1)] by auto
    ultimately show ?thesis using stored rebuilt(1) by simp
  qed (use res publish_quote_accepted [OF acc, of env persist] in auto)
qed

text \<open>
  C3. Within one generation, when \<^verbatim>\<open>publish_quote\<close> reports success the symbol is served
  with that quote's price and timestamp, and after any further publications, on this or any
  other symbol and whether they succeed or raise, \<^verbatim>\<open>get_quote\<close> without mandatory metadata
  still answers, and no answer, strict or not, carries an older timestamp. The publications
  are those of quotes, histories, dividends, yields and source failures; the installation of
  warm bundles by an activation is not one of them.
\<close>

theorem published_quote_served_and_never_older:
  assumes "service_reachable env plugins sv" and "publish_quote env now current persist g q sv = (sv', Inr True)"
    and "(service_step env)\<^sup>*\<^sup>* sv' sv''"
  shows "(\<exists>view. get_quote env t False (sv_generation sv') (pq_symbol q) = Inr view
        \<and> wr_as_of view = pq_as_of q \<and> wr_price view = en_float env (pq_price q))
    \<and> (\<exists>view. get_quote env t False (sv_generation sv'') (pq_symbol q) = Inr view)
    \<and> (\<forall>strict view. get_quote env t strict (sv_generation sv'') (pq_symbol q) = Inr view \<longrightarrow> pq_as_of q \<le> wr_as_of view)
    \<and> (\<exists>snapshot. store_get (en_hash env) (ds_snapshots (gn_state (sv_generation sv'))) (pq_symbol q) = Some snapshot
         \<and> qs_quote snapshot = q \<and> qs_published_at snapshot = now)"
proof -
  let ?s = "pq_symbol q"
  note ok = service_reachable_ok(1) [OF assms(1)]
  obtain snapshot where s: "store_get (en_hash env) (ds_snapshots (gn_state (sv_generation sv'))) ?s = Some snapshot"
    and q: "qs_quote snapshot = q" "qs_published_at snapshot = now"
    using accepted_quote_stored [OF ok assms(2)] by blast
  have ok': "service_ok env sv'" and reg': "gn_registry (sv_generation sv') = gn_registry (sv_generation sv)"
    using publish_quote_ok [OF ok, of now current persist g q] assms(2) by simp_all
  have "\<not> quote_refused now current g q sv" using publish_quote_refused [of now current g q sv env persist] assms(2) by auto
  then obtain item where c': "canonical (gn_registry (sv_generation sv')) ?s item"
    using unsupported_canonical reg' by (auto simp: quote_refused_def)
  have run: "service_ok env sv'' \<and> gn_registry (sv_generation sv'') = gn_registry (sv_generation sv')"
    by (rule service_run_ok [OF assms(3) ok'])
  then have c'': "canonical (gn_registry (sv_generation sv'')) ?s item" using c' by simp
  have "store_inv (en_hash env) (ds_snapshots (gn_state (sv_generation sv')))"
    using ok' by (simp add: service_ok_def state_ok_def)
  then obtain later where l: "store_get (en_hash env) (ds_snapshots (gn_state (sv_generation sv''))) ?s = Some later"
    "pq_as_of q \<le> snapshot_as_of later"
    using snap.run_never_older [OF _ s] service_run_publishes [OF assms(3)] q
    by (fastforce simp: publishes_def snapshot_as_of_def)
  have "wr_as_of view = snapshot_as_of later" if "get_quote env t strict (sv_generation sv'') ?s = Inr view" for strict view
    using get_quote_as_of [OF _ c'' l(1) that] run by simp
  moreover have "\<exists>view. get_quote env t False (sv_generation sv'') ?s = Inr view"
    using get_quote_ok [OF _ c'' l(1), of False t] run by auto
  moreover have "\<exists>view. get_quote env t False (sv_generation sv') ?s = Inr view
      \<and> wr_as_of view = pq_as_of q \<and> wr_price view = en_float env (pq_price q)"
    using get_quote_ok [OF ok' c' s, of False t] q(1) by (auto simp: fresh_view_def snapshot_to_wire_def Let_def)
  ultimately show ?thesis using s q l(2) by auto
qed

subsection \<open>A metric that cannot be used\<close>

lemma rebuild_unusable:
  assumes "canonical reg s item" and "is_yield_strategy item = Some STAKING_PROVIDER_METRIC"
    and "dict_get (ds_yield_metrics ds) s = Some metric" and "ym_accrual_mode metric = None"
  shows "\<exists>r. rebuild env reg now add s ds = (ds, r) \<and> (\<forall>x. r \<noteq> Inr (Some x))
    \<and> (dict_get (ds_last_quotes ds) s \<noteq> None \<longrightarrow> isl r)"
proof (cases "dict_get (ds_last_quotes ds) s")
  case None
  then show ?thesis by (simp add: rebuild_def)
next
  case (Some q)
  have "estimate_from_staking_metric metric = Inl (ValueError ''staking yield metrics require an accrual mode'')"
    using assms(4) by (simp add: estimate_from_staking_metric_def)
  then have "\<exists>e. rebuild_income item ds s q = Inl e"
    using assms(2,3) by (cases "rebuild_dividend item (dict_get (ds_dividends ds) s) q") (auto simp: rebuild_income_def rebuild_yield_def)
  then show ?thesis using Some canonical_getitem [OF assms(1)] by (auto simp: rebuild_def)
qed

lemma install_quote_unusable:
  assumes "canonical reg (pq_symbol q) item" and "is_yield_strategy item = Some STAKING_PROVIDER_METRIC"
    and "dict_get (ds_yield_metrics ds) (pq_symbol q) = Some metric" and "ym_accrual_mode metric = None"
  shows "isl (snd (install_quote env now persist reg q ds sv))
    \<and> ds_snapshots (gn_state (sv_generation (fst (install_quote env now persist reg q ds sv)))) = ds_snapshots ds"
proof -
  have blocked: "isl r \<and> ds_snapshots ds2 = ds_snapshots ds"
    if "rebuild env reg now [] (pq_symbol q) ((accept_quote q ds)\<lparr>ds_history := hc\<rparr>) = (ds2, r)" for hc ds2 r
    using rebuild_unusable [OF assms(1,2), of "(accept_quote q ds)\<lparr>ds_history := hc\<rparr>" metric env now "[]"] assms(3,4) that
    by (auto simp: accept_quote_def dict_get_set)
  show ?thesis
  proof (cases rule: install_quote_outcome [of env now persist reg q ds sv])
    case (rebuilt hc ds2 snapshot ds3 sv' r)
    then show ?thesis using blocked by fastforce
  qed (use blocked in \<open>auto simp: accept_quote_def\<close>)
qed

text \<open>Steps that leave the stored metric of a symbol in place.\<close>

definition keeps_metric :: "service_env \<Rightarrow> string \<Rightarrow> service \<Rightarrow> service \<Rightarrow> bool" where
  "keeps_metric env s sv sv' \<longleftrightarrow> service_step env sv sv'
     \<and> dict_get (ds_yield_metrics (gn_state (sv_generation sv'))) s = dict_get (ds_yield_metrics (gn_state (sv_generation sv))) s"

lemma rebuild_metrics [simp]: "ds_yield_metrics (fst (rebuild env reg now add s ds)) = ds_yield_metrics ds"
  by (cases rule: rebuild_cases [of env reg now add s ds]) (auto simp: install_snapshot_def)

text \<open>While an unusable metric is stored, no rebuild of any symbol changes the snapshot of its symbol.\<close>

lemma rebuild_unusable_store:
  assumes ok: "state_ok env reg ds" and "canonical reg s item" and "is_yield_strategy item = Some STAKING_PROVIDER_METRIC"
    and "dict_get (ds_yield_metrics ds) s = Some metric" and "ym_accrual_mode metric = None"
    and c: "\<exists>item. canonical reg s' item"
  shows "store_get (en_hash env) (ds_snapshots (fst (rebuild env reg now add s' ds))) s = store_get (en_hash env) (ds_snapshots ds) s"
proof (cases "s' = s")
  case True
  then show ?thesis using rebuild_unusable [OF assms(2-5), of env now add] by auto
next
  case False
  show ?thesis
  proof (cases rule: rebuild_cases [of env reg now add s' ds])
    case (installed hc q item' snapshot)
    have inv: "store_inv (en_hash env) (ds_snapshots (ds\<lparr>ds_history := hc\<rparr>))" using ok by (simp add: state_ok_def)
    obtain item'' where "symbol_ok env s' item'' ds" using ok c by (auto simp: state_ok_def)
    then have "pq_symbol q = s'" using installed(1) by (simp add: symbol_ok_def)
    then have "snapshot_symbol snapshot = s'" using installed(3) by (simp add: snapshot_symbol_def)
    from install_snapshot_other [OF inv this, of s item'] False installed show ?thesis by (simp add: same_symbol_def)
  qed simp
qed

lemma rebuild_all_unusable_store:
  assumes "state_ok env reg ds" and "canonical reg s item" and "is_yield_strategy item = Some STAKING_PROVIDER_METRIC"
    and "dict_get (ds_yield_metrics ds) s = Some metric" and "ym_accrual_mode metric = None"
    and "\<And>s. s \<in> set ss \<Longrightarrow> \<exists>item. canonical reg s item"
  shows "store_get (en_hash env) (ds_snapshots (fst (rebuild_all env reg now ss ds))) s = store_get (en_hash env) (ds_snapshots ds) s"
  using assms(1,4,6)
proof (induction ss arbitrary: ds)
  case (Cons x xs)
  obtain ds' r where r: "rebuild env reg now [] x ds = (ds', r)" by fastforce
  have c: "\<exists>item. canonical reg x item" using Cons.prems(3) by simp
  then have ok': "state_ok env reg ds'" using rebuild_ok [OF Cons.prems(1)] r by (metis fst_conv)
  have m: "dict_get (ds_yield_metrics ds') s = Some metric"
    using Cons.prems(2) rebuild_metrics [of env reg now "[]" x ds] r by simp
  have "store_get (en_hash env) (ds_snapshots ds') s = store_get (en_hash env) (ds_snapshots ds) s"
    using rebuild_unusable_store [OF Cons.prems(1) assms(2,3) Cons.prems(2) assms(5) c, of now "[]"] r by simp
  moreover have "store_get (en_hash env) (ds_snapshots (fst (rebuild_all env reg now xs ds'))) s = store_get (en_hash env) (ds_snapshots ds') s"
    using Cons.IH [OF ok' m] Cons.prems(3) by simp
  ultimately show ?case using r by (cases r) simp_all
qed simp

lemma finish_unusable_store:
  assumes "state_ok env reg ds1" and "canonical reg s item" and "is_yield_strategy item = Some STAKING_PROVIDER_METRIC"
    and "dict_get (ds_yield_metrics (gn_state (sv_generation (fst (finish_publication env now reg persist s' row ds1 sv))))) s = Some metric"
    and "ym_accrual_mode metric = None" and "\<exists>item. canonical reg s' item"
  shows "store_get (en_hash env) (ds_snapshots (gn_state (sv_generation (fst (finish_publication env now reg persist s' row ds1 sv))))) s
    = store_get (en_hash env) (ds_snapshots ds1) s"
proof -
  have st: "gn_state (sv_generation (fst (finish_publication env now reg persist s' row ds1 sv))) = fst (rebuild env reg now [] s' ds1)"
    by (auto simp: finish_publication_def split: prod.splits sum.splits)
  show ?thesis
    using rebuild_unusable_store [OF assms(1-3) _ assms(5,6), of now "[]"] assms(4) unfolding st by simp
qed

lemma install_unusable_store:
  assumes "service_ok env sv" and "\<not> quote_refused now current g q sv"
    and "canonical (gn_registry (sv_generation sv)) s item" and "is_yield_strategy item = Some STAKING_PROVIDER_METRIC"
    and "dict_get (ds_yield_metrics (gn_state (sv_generation sv))) s = Some metric" and "ym_accrual_mode metric = None"
  shows "store_get (en_hash env) (ds_snapshots (gn_state (sv_generation
      (fst (install_quote env now persist (gn_registry (sv_generation sv)) q (gn_state (sv_generation sv)) sv))))) s
    = store_get (en_hash env) (ds_snapshots (gn_state (sv_generation sv))) s"
proof -
  let ?reg = "gn_registry (sv_generation sv)" and ?ds = "gn_state (sv_generation sv)"
  have c: "\<exists>item. canonical ?reg (pq_symbol q) item"
    using assms(2) unsupported_canonical by (auto simp: quote_refused_def)
  have same: "store_get (en_hash env) (ds_snapshots ds2) s = store_get (en_hash env) (ds_snapshots ?ds) s"
    if r: "rebuild env ?reg now [] (pq_symbol q) ((accept_quote q ?ds)\<lparr>ds_history := hc\<rparr>) = (ds2, r)" for hc ds2 r
  proof -
    have "dict_get (ds_yield_metrics ((accept_quote q ?ds)\<lparr>ds_history := hc\<rparr>)) s = Some metric"
      using assms(5) by (simp add: accept_quote_def)
    from rebuild_unusable_store [OF accept_quote_ok [OF assms(1,2), of hc] assms(3,4) this assms(6) c, of now "[]"] r
    show ?thesis by (simp add: accept_quote_def)
  qed
  show ?thesis
  proof (cases rule: install_quote_outcome [of env now persist ?reg q ?ds sv])
    case (failed e)
    then show ?thesis by (simp add: accept_quote_def)
  next
    case (rebuild_failed hc ds2 e)
    then show ?thesis using same by simp
  next
    case (rebuilt hc ds2 snapshot ds3 sv' r)
    have "ds_snapshots ds3 = ds_snapshots ds2" using rebuilt(4) by auto
    then show ?thesis using same [OF rebuilt(1)] rebuilt(2,3) by simp
  qed
qed

lemma keeps_metric_store:
  assumes "keeps_metric env s sv sv'" and "service_ok env sv"
    and "canonical (gn_registry (sv_generation sv)) s item" and "is_yield_strategy item = Some STAKING_PROVIDER_METRIC"
    and "dict_get (ds_yield_metrics (gn_state (sv_generation sv))) s = Some metric" and "ym_accrual_mode metric = None"
  shows "store_get (en_hash env) (ds_snapshots (gn_state (sv_generation sv'))) s
    = store_get (en_hash env) (ds_snapshots (gn_state (sv_generation sv))) s"
proof -
  let ?reg = "gn_registry (sv_generation sv)" and ?ds = "gn_state (sv_generation sv)"
  have metric': "dict_get (ds_yield_metrics (gn_state (sv_generation sv'))) s = Some metric"
    using assms(1,5) by (simp add: keeps_metric_def)
  have ok1: "state_ok env ?reg (?ds\<lparr>ds_dividends := d\<rparr>)" "state_ok env ?reg (?ds\<lparr>ds_yield_metrics := m, ds_yield_stale := t\<rparr>)"
    "state_ok env ?reg (?ds\<lparr>ds_history := hc\<rparr>)" for d m t hc
    by (rule state_ok_same [where ds = ?ds]; use assms(2) in \<open>simp add: service_ok_def\<close>)+
  from assms(1) have "service_step env sv sv'" by (simp add: keeps_metric_def)
  then show ?thesis
  proof cases
    case (quote now current persist g q)
    then show ?thesis
      using publish_quote_refused [of now current g q sv env persist] install_unusable_store [OF assms(2) _ assms(3-6)]
        publish_quote_accepted [of now current g q sv env persist]
      by (cases "quote_refused now current g q sv") auto
  next
    case (history order now current persist g points)
    show ?thesis
    proof (cases "\<exists>hc. publication_context g sv \<noteq> None \<and> validate_history_timestamps now ?reg points = Inr ()
        \<and> load_history points (ds_history ?ds) = Inr hc")
      case False
      then show ?thesis using publication_context_cases [of g sv]
        by (auto simp: history(1) publish_history_def Let_def split: sum.splits)
    next
      case True
      then obtain hc where hc: "load_history points (ds_history ?ds) = Inr hc"
        and v: "validate_history_timestamps now ?reg points = Inr ()" and ctx: "publication_context g sv = Some (sv_generation sv)"
        using publication_context_cases [of g sv] by auto
      let ?ss = "order (remdups (map pp_symbol points))"
      have "\<exists>item. canonical ?reg s item" if "s \<in> set ?ss" for s
        using v that history(2) unsupported_canonical
        by (fastforce simp: validate_history_timestamps_def res_simps list_ex_iff)
      then have "store_get (en_hash env) (ds_snapshots (fst (rebuild_all env ?reg now ?ss (?ds\<lparr>ds_history := hc\<rparr>)))) s
          = store_get (en_hash env) (ds_snapshots ?ds) s"
        using rebuild_all_unusable_store [OF ok1(3) assms(3,4) _ assms(6), of hc ?ss now] assms(5) by simp
      moreover obtain ds2 r where "rebuild_all env ?reg now ?ss (?ds\<lparr>ds_history := hc\<rparr>) = (ds2, r)" by fastforce
      ultimately show ?thesis
        by (simp add: history(1) publish_history_def Let_def hc v ctx split: sum.splits)
    qed
  next
    case (dividend now current persist g event)
    then consider "gn_state (sv_generation sv') = ?ds" | row d where "\<not> unsupported (de_symbol event) ?reg"
        "sv' = fst (finish_publication env now ?reg persist (de_symbol event) row (?ds\<lparr>ds_dividends := d\<rparr>) sv)"
      using publication_context_cases [of g sv] by (auto simp: publish_dividend_def Let_def split: if_splits)
    then show ?thesis
    proof cases
      case (2 row d)
      then show ?thesis
        using finish_unusable_store [OF ok1(1) assms(3,4) _ assms(6) unsupported_canonical [OF 2(1)]] metric' by simp
    qed simp
  next
    case (yield_metric now current persist g m)
    then consider "gn_state (sv_generation sv') = ?ds" | row d t where "\<not> unsupported (ym_symbol m) ?reg"
        "sv' = fst (finish_publication env now ?reg persist (ym_symbol m) row (?ds\<lparr>ds_yield_metrics := d, ds_yield_stale := t\<rparr>) sv)"
      using publication_context_cases [of g sv] by (auto simp: publish_yield_metric_def Let_def split: if_splits)
    then show ?thesis
    proof cases
      case (2 row d t)
      then show ?thesis
        using finish_unusable_store [OF ok1(2) assms(3,4) _ assms(6) unsupported_canonical [OF 2(1)]] metric' by simp
    qed simp
  next
    case (failed current g symbols)
    then show ?thesis using publication_context_cases [of g sv] by (auto simp: mark_source_failed_def Let_def)
  qed
qed

lemma keeps_metric_run:
  assumes "(keeps_metric env s)\<^sup>*\<^sup>* sv sv'" and "service_ok env sv"
    and "canonical (gn_registry (sv_generation sv)) s item" and "is_yield_strategy item = Some STAKING_PROVIDER_METRIC"
    and "dict_get (ds_yield_metrics (gn_state (sv_generation sv))) s = Some metric" and "ym_accrual_mode metric = None"
  shows "service_ok env sv' \<and> gn_registry (sv_generation sv') = gn_registry (sv_generation sv)
    \<and> dict_get (ds_yield_metrics (gn_state (sv_generation sv'))) s = Some metric
    \<and> store_get (en_hash env) (ds_snapshots (gn_state (sv_generation sv'))) s
      = store_get (en_hash env) (ds_snapshots (gn_state (sv_generation sv))) s"
  using assms(1)
proof (induction rule: rtranclp_induct)
  case (step sv' sv'')
  then show ?case
    using keeps_metric_store [OF step(2) _ _ assms(4) _ assms(6)] service_step_ok [of env sv' sv''] assms(3)
    by (auto simp: keeps_metric_def)
qed (use assms in simp)

text \<open>
  C36. A staking metric without an accrual mode that is not refused in favour of the stored
  one is stored before it is used: the call raises exactly when a quote is already known; and
  as long as publications leave it in place (no other metric replaces it, within one
  generation) every quote published for the symbol raises and the served snapshot of the
  symbol stays what it was before the metric came.
\<close>

theorem unusable_staking_metric_blocks_quotes:
  assumes "service_reachable env plugins sv" and "canonical (gn_registry (sv_generation sv)) (ym_symbol metric) item"
    and "is_yield_strategy item = Some STAKING_PROVIDER_METRIC" and "ym_accrual_mode metric = None"
    and "case dict_get (ds_yield_metrics (gn_state (sv_generation sv))) (ym_symbol metric) of
        None \<Rightarrow> True | Some c \<Rightarrow> \<not> yield_refused env now (gn_state (sv_generation sv)) metric c"
    and "publish_yield_metric env now True persist None metric sv = (sv1, r)"
    and "(keeps_metric env (ym_symbol metric))\<^sup>*\<^sup>* sv1 sv2"
    and "pq_symbol q = ym_symbol metric" and "\<not> quote_refused later current g q sv2"
  shows "isl r = (dict_get (ds_last_quotes (gn_state (sv_generation sv))) (ym_symbol metric) \<noteq> None)
    \<and> dict_get (ds_yield_metrics (gn_state (sv_generation sv1))) (ym_symbol metric) = Some metric
    \<and> isl (snd (publish_quote env later current persist' g q sv2))
    \<and> store_get (en_hash env) (ds_snapshots (gn_state (sv_generation (fst (publish_quote env later current persist' g q sv2))))) (ym_symbol metric)
      = store_get (en_hash env) (ds_snapshots (gn_state (sv_generation sv))) (ym_symbol metric)"
proof -
  let ?reg = "gn_registry (sv_generation sv)" and ?ds = "gn_state (sv_generation sv)" and ?s = "ym_symbol metric"
  let ?ds1 = "?ds\<lparr>ds_yield_metrics := dict_set ?s metric (ds_yield_metrics ?ds),
    ds_yield_stale := dict_set ?s (default_yield_stale_after_seconds env metric) (ds_yield_stale ?ds)\<rparr>"
  have stored: "dict_get (ds_yield_metrics ?ds1) ?s = Some metric" by (simp add: dict_get_set)
  obtain x where x: "rebuild env ?reg now [] ?s ?ds1 = (?ds1, x)" "\<And>y. x \<noteq> Inr (Some y)"
      "dict_get (ds_last_quotes ?ds) ?s \<noteq> None \<Longrightarrow> isl x"
    using rebuild_unusable [OF assms(2,3) stored assms(4), of env now "[]"] by auto
  have none: "dict_get (ds_last_quotes ?ds) ?s = None \<Longrightarrow> x = Inr None" using x(1) by (auto simp: rebuild_def)
  have fresh: "\<not> (case dict_get (ds_yield_metrics ?ds) ?s of None \<Rightarrow> False | Some c \<Rightarrow> yield_refused env now ?ds metric c)"
    using assms(5) by (auto split: option.splits)
  have pub: "publish_yield_metric env now True persist None metric sv =
      finish_publication env now ?reg persist ?s (EnqueueYield metric (default_yield_stale_after_seconds env metric)) ?ds1 sv"
    using assms(2,3) fresh by (simp add: publish_yield_metric_def publication_context_def is_current_def unsupported_def
        canonical_def Let_def)
  have r: "isl r = (dict_get (ds_last_quotes ?ds) ?s \<noteq> None)" and sv1: "gn_state (sv_generation sv1) = ?ds1"
      "gn_registry (sv_generation sv1) = ?reg"
    using assms(6) pub x none by (auto simp: finish_publication_def split: sum.splits if_splits)
  have "service_ok env sv1"
    using publish_yield_metric_ok [OF service_reachable_ok(1) [OF assms(1)], of now True persist None metric] assms(6) by simp
  note run = keeps_metric_run [OF assms(7) this _ assms(3) _ assms(4)]
  have c2: "canonical (gn_registry (sv_generation sv2)) (pq_symbol q) item"
    and m2: "dict_get (ds_yield_metrics (gn_state (sv_generation sv2))) (pq_symbol q) = Some metric"
    and s2: "store_get (en_hash env) (ds_snapshots (gn_state (sv_generation sv2))) ?s = store_get (en_hash env) (ds_snapshots ?ds) ?s"
    using run assms(2,8) sv1 stored by auto
  have "isl (snd (publish_quote env later current persist' g q sv2)) \<and>
      ds_snapshots (gn_state (sv_generation (fst (publish_quote env later current persist' g q sv2)))) = ds_snapshots (gn_state (sv_generation sv2))"
    unfolding publish_quote_accepted [OF assms(9)] by (rule install_quote_unusable [OF c2 assms(3) m2 assms(4)])
  then show ?thesis using r s2 sv1 stored by simp
qed

end
