(* ===== verification/QP_Service_Samples.thy ===== *)
theory QP_Service_Samples
  imports QP_Service_Props
begin

text \<open>
  A small service on which the properties of the publication path are applied: one plugin
  with a plain instrument and a staking instrument, one accepted quote.
\<close>

definition demo_env :: service_env where
  "demo_env = \<lparr>en_hash = (\<lambda>_. 0), en_float = (\<lambda>x. x), en_offset = (\<lambda>_. 0), en_wall_offset = (\<lambda>_. 0),
     en_metadata_poll_seconds = 3600\<rparr>"

definition demo_spot :: instrument_spec where
  "demo_spot = mk_instrument_spec ''A:B'' ''A'' ''B'' ''A'' ''A'' CRYPTO ''spot'' ''last_trade''"

definition demo_staking :: instrument_spec where
  "demo_staking = (mk_instrument_spec ''S:B'' ''S'' ''B'' ''S'' ''S'' CRYPTO ''liquid_staking'' ''last_trade'')
     \<lparr>is_yield_strategy := Some STAKING_PROVIDER_METRIC, is_reward_accrual_mode := Some VALUE_ACCRUING,
      is_underlying_asset := Some ''ETH''\<rparr>"

definition demo_plugin :: instrument_plugin where
  "demo_plugin = \<lparr>ip_plugin_id = ''p'', ip_version = ''1'', ip_instruments = [demo_spot, demo_staking],
     ip_provider_installer = Some ''f'', ip_provider_bindings = [], ip_synthetic_recipes = []\<rparr>"

definition demo_registry :: registry where
  "demo_registry = \<lparr>rg_instruments = [(''A:B'', demo_spot), (''S:B'', demo_staking)], rg_aliases = [],
     rg_plugins = [demo_plugin]\<rparr>"

definition demo_state :: data_state where
  "demo_state = \<lparr>ds_snapshots = \<lparr>shards = replicate 64 []\<rparr>, ds_history = empty_history, ds_dividends = [],
     ds_yield_metrics = [], ds_yield_stale = [], ds_last_quotes = [], ds_source_failures = [], ds_wire_cache = [],
     ds_complete_symbols = [], ds_active_aggregates = []\<rparr>"

definition demo_service :: service where
  "demo_service = \<lparr>sv_generation = \<lparr>gn_id = ''g'', gn_revision = ''r'', gn_registry = demo_registry,
     gn_activated_at = 0, gn_state = demo_state\<rparr>, sv_storage = True, sv_outbox = []\<rparr>"

definition demo_quote :: "string \<Rightarrow> provider_quote" where
  "demo_quote s = \<lparr>pq_symbol = s, pq_price = 5, pq_as_of = 90000000, pq_provider = ''x'', pq_feed = ''f'',
     pq_price_basis = ''last_trade'', pq_market_status = ''open'', pq_is_derived = False, pq_components = [],
     pq_fallback_level = 0, pq_license_scope = '''', pq_coverage = None, pq_market_status_as_of = None\<rparr>"

definition demo_minute :: price_point where
  "demo_minute = \<lparr>pp_symbol = ''A:B'', pp_timestamp = 60000000, pp_price = 5, pp_provider = ''x'',
     pp_is_derived = False, pp_interval = ''1m''\<rparr>"

definition demo_rings :: history_cache where
  "demo_rings = empty_history\<lparr>one_minute := [(''A:B'', [demo_minute])],
     five_minute := [(''A:B'', [demo_minute\<lparr>pp_timestamp := 0, pp_interval := ''5m''\<rparr>])]\<rparr>"

definition demo_metric :: yield_metric where
  "demo_metric = \<lparr>ym_symbol = ''S:B'', ym_value = 3, ym_as_of = 80000000, ym_method = ''m'', ym_provider = ''x'',
     ym_is_proxy = False, ym_components = [], ym_rate_type = None, ym_observation_window_days = None,
     ym_accrual_mode = None, ym_underlying_asset = None, ym_is_estimate = False, ym_accrual_index = None,
     ym_quality = None, ym_fallback_level = 0\<rparr>"

definition no_references :: "(string, 'v option) dict" where
  "no_references = map (\<lambda>(n, _). (n, None)) WINDOWS"

lemma demo_registry_accepted: "case mk_registry [demo_plugin] of Inl e \<Rightarrow> False | Inr r \<Rightarrow> True"
  by code_simp

lemma demo_registry_built: "mk_registry [demo_plugin] = Inr demo_registry"
proof -
  obtain r where r: "mk_registry [demo_plugin] = Inr r" using demo_registry_accepted by (auto split: sum.splits)
  then have "r = registry_tables.extend (tables_of [demo_spot, demo_staking]) \<lparr>rg_plugins = [demo_plugin]\<rparr>"
    by (auto simp: mk_registry_iff demo_plugin_def)
  also have "\<dots> = demo_registry"
    by (simp add: demo_registry_def tables_of_def demo_spot_def demo_staking_def mk_instrument_spec_def
        alias_entries_def registry_tables.defs)
  finally show ?thesis using r by simp
qed

lemma demo_service_sel [simp]:
  "gn_registry (sv_generation demo_service) = demo_registry" "gn_state (sv_generation demo_service) = demo_state"
  "sv_storage demo_service"
  by (simp_all add: demo_service_def)

lemma demo_started: "started [demo_plugin] demo_service"
  by (simp add: started_def demo_registry_built new_data_state_def mk_snapshot_store_def default_shards_def demo_state_def)

lemma demo_reachable: "service_reachable demo_env [demo_plugin] demo_service"
  using demo_started by (auto simp: service_reachable_def)

lemma demo_normalized: "normalize_symbol ''A:B'' = ''A:B''" "normalize_symbol ''S:B'' = ''S:B''"
  by code_simp+

lemma demo_canonical: "canonical demo_registry ''A:B'' demo_spot" "canonical demo_registry ''S:B'' demo_staking"
  by (simp_all add: canonical_def resolve_def demo_registry_def demo_normalized Let_def)
     (simp_all add: demo_spot_def demo_staking_def mk_instrument_spec_def)

lemma demo_price: "json_number 5"
  by (simp add: json_number_def float_finite_def float_zero_def)

lemma demo_minute_point: "minute_point (demo_quote ''A:B'') = Inr demo_minute"
  by (simp add: minute_point_def demo_quote_def mk_price_point_def floor_minute_def time_units demo_minute_def
      ensure_utc_def res_simps demo_price)

lemma demo_add_point: "add_point demo_minute empty_history = Inr demo_rings"
  by (simp add: add_point_def prune_symbol_def prune_ring_def demo_rings_def demo_minute_def empty_history_def
      upsert_bucket_def bucket_of_def time_units retention_defs invalidate_references_def dict_list_def drop_reference_def)

lemma demo_changes: "\<exists>hc. rebuild_changes [] ''A:B'' (demo_quote ''A:B'') demo_rings = (hc, Inr no_references)
  \<and> points_for ''A:B'' hc = points_for ''A:B'' demo_rings"
proof -
  have "\<exists>hc. change_references ''A:B'' 90000000 demo_rings = Inr (hc, no_references)
      \<and> points_for ''A:B'' hc = points_for ''A:B'' demo_rings"
    by (simp add: change_references_def compute_references_def reference_at_def demo_rings_def Let_def dict_list_def
        WINDOWS_def latest_at_or_before_def find_last_def demo_minute_def empty_history_def no_references_def time_units
        points_for_def)
  moreover have "calculate_changes_from_references (NumFinite 5) no_references = Inr no_references"
    by (simp add: calculate_changes_from_references_def no_references_def WINDOWS_def
        decimal_NumFinite [OF demo_price] change_for_def)
  ultimately show ?thesis by (auto simp: rebuild_changes_def demo_quote_def)
qed

lemma demo_income: "rebuild_income demo_spot ds ''A:B'' q = Inr (None, None)"
  by (simp add: rebuild_income_def rebuild_dividend_def rebuild_yield_def demo_spot_def mk_instrument_spec_def
      split: option.split)

lemma demo_publishes:
  assumes "gn_registry (sv_generation sv) = demo_registry" and "ds_history (gn_state (sv_generation sv)) = empty_history"
    and "dict_get (ds_last_quotes (gn_state (sv_generation sv))) ''A:B'' = None"
  shows "\<exists>sv'. publish_quote demo_env 100000000 True False None (demo_quote ''A:B'') sv = (sv', Inr True)
    \<and> ds_yield_metrics (gn_state (sv_generation sv')) = ds_yield_metrics (gn_state (sv_generation sv))
    \<and> ds_active_aggregates (gn_state (sv_generation sv')) = ds_active_aggregates (gn_state (sv_generation sv))
    \<and> points_for ''A:B'' (ds_history (gn_state (sv_generation sv'))) = points_for ''A:B'' demo_rings
    \<and> ds_last_quotes (gn_state (sv_generation sv')) = dict_set ''A:B'' (demo_quote ''A:B'') (ds_last_quotes (gn_state (sv_generation sv)))"
proof -
  let ?ds = "gn_state (sv_generation sv)"
  obtain hc where hc: "rebuild_changes [] ''A:B'' (demo_quote ''A:B'') demo_rings = (hc, Inr no_references)"
    "points_for ''A:B'' hc = points_for ''A:B'' demo_rings"
    using demo_changes by blast
  have "\<not> quote_refused 100000000 True None (demo_quote ''A:B'') sv"
    using demo_canonical(1) assms by (simp add: quote_refused_def publication_context_def is_current_def unsupported_def canonical_def
        demo_quote_def future_limit_def time_units)
  moreover have sym: "pq_symbol (demo_quote ''A:B'') = ''A:B''" by (simp add: demo_quote_def)
  moreover have "ds_history (accept_quote q ?ds) = empty_history" for q
    using assms by (simp add: accept_quote_def)
  moreover have "dict_get (ds_last_quotes ((accept_quote (demo_quote ''A:B'') ?ds)\<lparr>ds_history := h\<rparr>)) ''A:B'' = Some (demo_quote ''A:B'')" for h
    by (simp add: accept_quote_def sym dict_get_set)
  ultimately show ?thesis
    using hc canonical_getitem [OF demo_canonical(1)] assms(1)
    by (simp add: publish_quote_accepted install_quote_def demo_minute_point demo_add_point Let_def rebuild_def demo_income
        install_snapshot_def accept_quote_def)
qed

lemma demo_published: "\<exists>sv. publish_quote demo_env 100000000 True False None (demo_quote ''A:B'') demo_service = (sv, Inr True)"
  using demo_publishes [of demo_service] by (auto simp: demo_state_def)

subsection \<open>The properties applied\<close>

theorem served_quote_is_fresh_projection_witness:
  "\<exists>sv snapshot view. service_reachable demo_env [demo_plugin] sv
     \<and> store_get (en_hash demo_env) (ds_snapshots (gn_state (sv_generation sv))) ''A:B'' = Some snapshot
     \<and> get_quote demo_env 120000000 True (sv_generation sv) ''A:B'' = Inr view"
proof -
  obtain sv where run: "publish_quote demo_env 100000000 True False None (demo_quote ''A:B'') demo_service = (sv, Inr True)"
    using demo_published by blast
  then have "service_step demo_env demo_service sv"
    using service_step.quote [of demo_env demo_service 100000000 True False None "demo_quote ''A:B''"] by simp
  then have reach: "service_reachable demo_env [demo_plugin] sv" using demo_started by (auto simp: service_reachable_def)
  have "gn_registry (sv_generation sv) = demo_registry"
    using service_step_ok [OF \<open>service_step demo_env demo_service sv\<close> service_reachable_ok(1) [OF demo_reachable]] by simp
  then have c: "canonical (gn_registry (sv_generation sv)) ''A:B'' demo_spot" using demo_canonical by simp
  obtain snapshot where "store_get (en_hash demo_env) (ds_snapshots (gn_state (sv_generation sv))) ''A:B'' = Some snapshot"
    using accepted_quote_stored [OF service_reachable_ok(1) [OF demo_reachable] run] by (auto simp: demo_quote_def)
  with reach served_quote_is_fresh_projection [OF reach c, of 120000000] show ?thesis
    by (auto simp: demo_spot_def mk_instrument_spec_def)
qed

theorem readiness_agrees_with_scan_witness:
  "\<exists>ready details. readiness demo_env 0
       \<lparr>ps_runtime = \<lparr>ft_py_gil_disabled = True, ft_gil_enabled = Some False\<rparr>, ps_require_free_threaded = True,
        ps_background_enabled = False, ps_storage_ready = True, ps_api_key_configured = True, ps_coordinator_running = None\<rparr>
       (sv_generation demo_service) = Inr (ready, details)
     \<and> rd_missing_prices details = [''A:B'', ''S:B''] \<and> \<not> all_complete (sv_generation demo_service)"
proof -
  have "store_get (en_hash demo_env) (ds_snapshots demo_state) s = None" for s
    by (simp add: store_get_def demo_state_def shard_index_def demo_env_def)
  moreover have "registry_symbols demo_registry = [''A:B'', ''S:B'']" by (simp add: registry_symbols_def demo_registry_def)
  ultimately show ?thesis
    using readiness_agrees_with_scan [OF demo_reachable, of 0 "\<lparr>ps_runtime = \<lparr>ft_py_gil_disabled = True,
      ft_gil_enabled = Some False\<rparr>, ps_require_free_threaded = True, ps_background_enabled = False,
      ps_storage_ready = True, ps_api_key_configured = True, ps_coordinator_running = None\<rparr>"] by auto
qed

theorem published_quote_served_and_never_older_witness:
  "\<exists>sv view. publish_quote demo_env 100000000 True False None (demo_quote ''A:B'') demo_service = (sv, Inr True)
     \<and> get_quote demo_env 120000000 False (sv_generation sv) ''A:B'' = Inr view
     \<and> wr_as_of view = 90000000 \<and> wr_price view = 5"
proof -
  obtain sv where run: "publish_quote demo_env 100000000 True False None (demo_quote ''A:B'') demo_service = (sv, Inr True)"
    using demo_published by blast
  from published_quote_served_and_never_older [OF demo_reachable run rtranclp.rtrancl_refl, of 120000000] run show ?thesis
    by (auto simp: demo_quote_def demo_env_def)
qed

text \<open>The metric arrives first, the plain instrument is published in between, then the staking one.\<close>

theorem unusable_staking_metric_blocks_quotes_witness:
  "\<exists>sv1 sv2. publish_yield_metric demo_env 100000000 True True None demo_metric demo_service = (sv1, Inr True)
     \<and> publish_quote demo_env 100000000 True False None (demo_quote ''A:B'') sv1 = (sv2, Inr True)
     \<and> isl (snd (publish_quote demo_env 100000000 True True None (demo_quote ''S:B'') sv2))"
proof -
  obtain sv1 r where run: "publish_yield_metric demo_env 100000000 True True None demo_metric demo_service = (sv1, r)" by fastforce
  have sym: "ym_symbol demo_metric = ''S:B''" and mode: "ym_accrual_mode demo_metric = None"
    and sup: "\<not> unsupported ''S:B'' demo_registry" and strat: "is_yield_strategy demo_staking = Some STAKING_PROVIDER_METRIC"
    using demo_canonical(2) by (simp_all add: demo_metric_def unsupported_def canonical_def demo_staking_def)
  then have r: "r = Inr True" and st: "gn_registry (sv_generation sv1) = demo_registry"
    "ds_last_quotes (gn_state (sv_generation sv1)) = []" "ds_history (gn_state (sv_generation sv1)) = empty_history"
    using run demo_canonical(2)
    by (auto simp: publish_yield_metric_def publication_context_def is_current_def Let_def canonical_def
        demo_state_def finish_publication_def rebuild_def persist_rows_def set_state_def)
  obtain sv2 where pub: "publish_quote demo_env 100000000 True False None (demo_quote ''A:B'') sv1 = (sv2, Inr True)"
    and st2: "ds_yield_metrics (gn_state (sv_generation sv2)) = ds_yield_metrics (gn_state (sv_generation sv1))"
    "dict_get (ds_last_quotes (gn_state (sv_generation sv2))) ''S:B'' = None"
    using demo_publishes [of sv1] st by (auto simp: dict_get_set)
  have "service_step demo_env sv1 sv2"
    using service_step.quote [of demo_env sv1 100000000 True False None "demo_quote ''A:B''"] pub by simp
  then have keep: "(keeps_metric demo_env ''S:B'')\<^sup>*\<^sup>* sv1 sv2" using st2(1) by (simp add: keeps_metric_def r_into_rtranclp)
  have "service_ok demo_env sv1"
    using publish_yield_metric_ok [OF service_reachable_ok(1) [OF demo_reachable], of 100000000 True True None demo_metric] run by simp
  then have reg2: "gn_registry (sv_generation sv2) = demo_registry"
    using service_step_ok [OF \<open>service_step demo_env sv1 sv2\<close>] st(1) by simp
  then have acc: "\<not> quote_refused 100000000 True None (demo_quote ''S:B'') sv2"
    using sup st2 by (simp add: quote_refused_def publication_context_def is_current_def demo_quote_def future_limit_def time_units)
  have none: "case dict_get (ds_yield_metrics (gn_state (sv_generation demo_service))) (ym_symbol demo_metric) of
      None \<Rightarrow> True | Some c \<Rightarrow> \<not> yield_refused demo_env 100000000 (gn_state (sv_generation demo_service)) demo_metric c"
    by (simp add: demo_state_def)
  have "isl (snd (publish_quote demo_env 100000000 True True None (demo_quote ''S:B'') sv2))"
    using unusable_staking_metric_blocks_quotes [OF demo_reachable _ strat mode none run _ _ acc, of True] demo_canonical(2) keep
    by (simp add: sym) (simp add: demo_quote_def)
  then show ?thesis using run r pub by blast
qed

end
