(* ===== verification/QP_Aggregates.thy ===== *)
theory QP_Aggregates
  imports QP_Service
begin

text \<open>
  The live five-minute aggregates of \<^verbatim>\<open>service.py\<close> against their specification: what a reader
  of a price table expects of an OHLC bar over the points of the current bucket.
\<close>

subsection \<open>Specification\<close>

text \<open>The latest stretch of consecutive points that share a five-minute bucket.\<close>

definition point_bucket :: "price_point \<Rightarrow> instant" where
  "point_bucket p = five_minute_bucket (pp_timestamp p)"

definition last_run :: "price_point list \<Rightarrow> price_point list" where
  "last_run ps = rev (takeWhile (\<lambda>p. point_bucket p = point_bucket (last ps)) (rev ps))"

definition ohlc :: "price_point list \<Rightarrow> aggregate_price option" where
  "ohlc ps =
     (if ps = [] then None
      else Some \<lparr>ag_symbol = pp_symbol (last ps), ag_bucket_start = point_bucket (last ps), ag_interval_seconds = 300,
        ag_open = pp_price (hd ps), ag_high = Max (pp_price ` set ps), ag_low = Min (pp_price ` set ps),
        ag_close = pp_price (last ps), ag_sample_count = int (length ps), ag_provider = pp_provider (last ps),
        ag_is_derived = pp_is_derived (last ps)\<rparr>)"

lemma last_run_Nil [simp]: "last_run [] = []"
  by (simp add: last_run_def)

lemma last_run_snoc:
  "last_run (ps @ [p]) = (if ps \<noteq> [] \<and> point_bucket (last ps) = point_bucket p then last_run ps @ [p] else [p])"
  by (cases ps rule: rev_cases) (auto simp: last_run_def)

lemma last_run_last: "ps \<noteq> [] \<Longrightarrow> last_run ps \<noteq> [] \<and> last (last_run ps) = last ps"
  by (cases ps rule: rev_cases) (auto simp: last_run_snoc)

lemma last_run_subset: "set (last_run ps) \<subseteq> set ps"
  unfolding last_run_def by (auto dest: set_takeWhileD)

subsection \<open>Implementation\<close>

lemma json_number_extreme:
  fixes x y :: rat
  shows "json_number x \<Longrightarrow> json_number y \<Longrightarrow> json_number (max x y) \<and> json_number (min x y)"
  by (simp add: max_def min_def)

lemma mk_aggregate_price_ok:
  assumes "json_number op" "json_number hi" "json_number lo" "json_number cl" "0 < i" "0 < n" "0 < lo"
    and "lo \<le> op" "op \<le> hi" "lo \<le> cl" "cl \<le> hi"
  shows "mk_aggregate_price s (Aware t) i (NumFinite op) (NumFinite hi) (NumFinite lo) (NumFinite cl) n prov d =
    Inr \<lparr>ag_symbol = s, ag_bucket_start = t, ag_interval_seconds = i, ag_open = op, ag_high = hi, ag_low = lo,
      ag_close = cl, ag_sample_count = n, ag_provider = prov, ag_is_derived = d\<rparr>"
  using assms by (simp add: mk_aggregate_price_def ensure_utc_def decimal_NumFinite raise_if_def not_le not_less)

text \<open>Adding a point to a bar, when its values are those of the points so far.\<close>

lemma update_aggregate_step:
  assumes wf: "list_all wf_point (qs @ [p])"
    and cur: "dict_get (ds_active_aggregates ds) (pp_symbol p) = ohlc qs"
    and bucket: "qs \<noteq> [] \<Longrightarrow> point_bucket (last qs) = point_bucket p"
  shows "\<exists>a. ohlc (qs @ [p]) = Some a \<and>
    update_aggregate p ds = (ds\<lparr>ds_active_aggregates := dict_set (pp_symbol p) a (ds_active_aggregates ds)\<rparr>, Inr a)"
proof (cases "qs = []")
  case True
  then show ?thesis using wf cur
    by (simp add: ohlc_def update_aggregate_def mk_aggregate_price_def ensure_utc_def decimal_NumFinite wf_point_def
        point_bucket_def Let_def)
next
  case False
  let ?P = "pp_price ` set qs"
  have fin: "finite ?P" "?P \<noteq> {}" using False by auto
  have mem: "Max ?P \<in> ?P" "Min ?P \<in> ?P" using fin by (simp_all add: Max_in Min_in)
  have all: "\<And>x. x \<in> ?P \<Longrightarrow> json_number x \<and> 0 < x" using wf by (auto simp: list_all_iff wf_point_def)
  have op: "pp_price (hd qs) \<in> ?P" using False by simp
  have p: "json_number (pp_price p)" "0 < pp_price p" using wf by (simp_all add: wf_point_def)
  have num: "json_number (max (Max ?P) (pp_price p))" "json_number (min (Min ?P) (pp_price p))"
    using json_number_extreme all mem p by blast+
  have pos: "0 < min (Min ?P) (pp_price p)" using all mem p by simp
  have le: "Min ?P \<le> pp_price (hd qs)" "pp_price (hd qs) \<le> Max ?P" using fin op by simp_all
  define hi lo where "hi = max (Max ?P) (pp_price p)" and "lo = min (Min ?P) (pp_price p)"
  have ext: "Max (pp_price ` set (qs @ [p])) = hi" "Min (pp_price ` set (qs @ [p])) = lo"
    using fin by (simp_all add: hi_def lo_def Max_insert Min_insert max.commute min.commute)
  have "json_number (pp_price (hd qs))" using all op by blast
  then have mk: "mk_aggregate_price (pp_symbol p) (Aware (point_bucket p)) 300 (NumFinite (pp_price (hd qs))) (NumFinite hi)
      (NumFinite lo) (NumFinite (pp_price p)) (int (length qs) + 1) (pp_provider p) (pp_is_derived p)
      = Inr \<lparr>ag_symbol = pp_symbol p, ag_bucket_start = point_bucket p, ag_interval_seconds = 300,
          ag_open = pp_price (hd qs), ag_high = hi, ag_low = lo, ag_close = pp_price p,
          ag_sample_count = int (length qs) + 1, ag_provider = pp_provider p, ag_is_derived = pp_is_derived p\<rparr>"
    using num pos p le by (intro mk_aggregate_price_ok) (auto simp: hi_def lo_def)
  have new: "ohlc (qs @ [p]) = Some \<lparr>ag_symbol = pp_symbol p, ag_bucket_start = point_bucket p, ag_interval_seconds = 300,
          ag_open = pp_price (hd qs), ag_high = hi, ag_low = lo, ag_close = pp_price p,
          ag_sample_count = int (length qs) + 1, ag_provider = pp_provider p, ag_is_derived = pp_is_derived p\<rparr>"
    using False unfolding ohlc_def ext by simp
  have "dict_get (ds_active_aggregates ds) (pp_symbol p) = Some \<lparr>ag_symbol = pp_symbol (last qs),
      ag_bucket_start = point_bucket p, ag_interval_seconds = 300, ag_open = pp_price (hd qs), ag_high = Max ?P,
      ag_low = Min ?P, ag_close = pp_price (last qs), ag_sample_count = int (length qs),
      ag_provider = pp_provider (last qs), ag_is_derived = pp_is_derived (last qs)\<rparr>"
    unfolding cur ohlc_def using False bucket by simp
  then show ?thesis using mk new
    unfolding update_aggregate_def Let_def point_bucket_def hi_def [symmetric] lo_def [symmetric]
    by (simp flip: hi_def lo_def)
qed

lemma update_aggregate_new_bucket:
  assumes "wf_point p" and "dict_get (ds_active_aggregates ds) (pp_symbol p) = ohlc qs" and "qs \<noteq> []"
    and "point_bucket (last qs) \<noteq> point_bucket p"
  shows "\<exists>a. ohlc [p] = Some a \<and>
    update_aggregate p ds = (ds\<lparr>ds_active_aggregates := dict_set (pp_symbol p) a (ds_active_aggregates ds)\<rparr>, Inr a)"
  using assms
  by (simp add: ohlc_def update_aggregate_def mk_aggregate_price_def ensure_utc_def decimal_NumFinite wf_point_def
      point_bucket_def Let_def)

definition feed_aggregates :: "price_point list \<Rightarrow> data_state \<Rightarrow> data_state" where
  "feed_aggregates ps ds = fold (\<lambda>p d. fst (update_aggregate p d)) ps ds"

text \<open>
  C19. The live aggregates implement their specification: after feeding any interleaving of
  valid points of any number of symbols, the stored bar of a symbol is the open, high, low,
  close and count of its latest stretch of points in one five-minute bucket, and no update
  raises.
\<close>

theorem aggregates_refine_ohlc:
  assumes "list_all wf_point (ps @ [p])" and "ds_active_aggregates ds = []"
  shows "dict_get (ds_active_aggregates (feed_aggregates (ps @ [p]) ds)) s = ohlc (last_run (filter (\<lambda>q. pp_symbol q = s) (ps @ [p])))
    \<and> snd (update_aggregate p (feed_aggregates ps ds))
      = Inr (the (ohlc (last_run (filter (\<lambda>q. pp_symbol q = pp_symbol p) (ps @ [p])))))"
proof -
  have step: "\<exists>a. ohlc (last_run (filter (\<lambda>q. pp_symbol q = pp_symbol x) (xs @ [x]))) = Some a \<and>
      update_aggregate x d = (d\<lparr>ds_active_aggregates := dict_set (pp_symbol x) a (ds_active_aggregates d)\<rparr>, Inr a)"
    if wf: "list_all wf_point (xs @ [x])"
      and cur: "dict_get (ds_active_aggregates d) (pp_symbol x) = ohlc (last_run (filter (\<lambda>q. pp_symbol q = pp_symbol x) xs))"
    for xs x d
  proof -
    let ?f = "filter (\<lambda>q. pp_symbol q = pp_symbol x) xs"
    have wfr: "list_all wf_point (last_run ?f @ [x])"
      using wf last_run_subset [of ?f] by (auto simp: list_all_iff)
    show ?thesis
    proof (cases "?f \<noteq> [] \<and> point_bucket (last ?f) \<noteq> point_bucket x")
      case True
      then show ?thesis
        using update_aggregate_new_bucket [OF _ cur] last_run_last [of ?f] wf by (simp add: last_run_snoc)
    next
      case False
      then have "last_run (?f @ [x]) = last_run ?f @ [x]" by (auto simp: last_run_snoc)
      moreover have "last_run ?f \<noteq> [] \<Longrightarrow> point_bucket (last (last_run ?f)) = point_bucket x"
        using False last_run_last [of ?f] by (cases "?f = []") simp_all
      ultimately show ?thesis using update_aggregate_step [OF wfr cur] by simp
    qed
  qed
  have run: "dict_get (ds_active_aggregates (feed_aggregates xs ds)) t = ohlc (last_run (filter (\<lambda>q. pp_symbol q = t) xs))"
    if "list_all wf_point xs" for xs t
    using that
  proof (induction xs arbitrary: t rule: rev_induct)
    case Nil
    then show ?case using assms(2) by (simp add: feed_aggregates_def ohlc_def)
  next
    case (snoc x xs)
    have feed: "feed_aggregates (xs @ [x]) ds = fst (update_aggregate x (feed_aggregates xs ds))"
      by (simp add: feed_aggregates_def)
    from step [OF snoc.prems snoc.IH] snoc.prems snoc.IH show ?case
      unfolding feed by (cases "pp_symbol x = t") (auto simp: dict_get_set)
  qed
  from step [OF assms(1) run] assms(1) have "snd (update_aggregate p (feed_aggregates ps ds))
      = Inr (the (ohlc (last_run (filter (\<lambda>q. pp_symbol q = pp_symbol p) (ps @ [p])))))" by auto
  with run [OF assms(1)] show ?thesis by blast
qed

theorem aggregates_refine_ohlc_witness:
  "\<exists>ds p q. ds_active_aggregates ds = [] \<and> ohlc [p, q] \<noteq> None \<and>
     dict_get (ds_active_aggregates (feed_aggregates ([p] @ [q]) ds)) ''A:B'' = ohlc [p, q]"
proof -
  let ?p = "\<lparr>pp_symbol = ''A:B'', pp_timestamp = 60000000, pp_price = 5, pp_provider = ''x'', pp_is_derived = False,
    pp_interval = ''1m''\<rparr>"
  let ?q = "?p\<lparr>pp_timestamp := 120000000, pp_price := 7\<rparr>"
  let ?ds = "\<lparr>ds_snapshots = \<lparr>shards = [[]]\<rparr>, ds_history = empty_history, ds_dividends = [],
     ds_yield_metrics = [], ds_yield_stale = [], ds_last_quotes = [], ds_source_failures = [], ds_wire_cache = [],
     ds_complete_symbols = [], ds_active_aggregates = []\<rparr>"
  have "list_all wf_point ([?p] @ [?q])"
    by (simp add: wf_point_def json_number_def float_finite_def float_zero_def)
  from aggregates_refine_ohlc [OF this, of ?ds "''A:B''"]
  have "dict_get (ds_active_aggregates (feed_aggregates ([?p] @ [?q]) ?ds)) ''A:B'' = ohlc (last_run [?p, ?q])" by simp
  moreover have "last_run [?p, ?q] = [?p, ?q]"
    by (simp add: last_run_def point_bucket_def five_minute_bucket_def time_units)
  moreover have "ohlc [?p, ?q] \<noteq> None" by (simp add: ohlc_def)
  ultimately show ?thesis by (intro exI [of _ ?ds] exI [of _ ?p] exI [of _ ?q]) simp
qed

end
