(* ===== verification/QP_Policy.thy ===== *)
theory QP_Policy
  imports QP_Generation
begin

text \<open>
  Loading of the managed instrument catalogue (\<^verbatim>\<open>quickprice/managed_config.py\<close>): the baseline
  generation of the installed instruments, the version-1 policy, the reconciliation of a
  persisted document with the baseline, and \<^verbatim>\<open>_load_catalog_document\<close>.

  Parameters. What \<^verbatim>\<open>json.loads\<close> and pydantic decode the bytes to is the function
  \<^verbatim>\<open>decode\<close>: an exception, the fields of a version-1 policy, or a typed but unvalidated
  version-2 document (absent optional fields filled with their defaults). SHA-256 and the
  JSON dump are functions as well. Messages of pydantic are the lists of \<^verbatim>\<open>QP_Catalog\<close>.
\<close>

datatype config_error =
    ManagedConfigurationError "string list"
  | RevisionConflictError "string list"
  | CatalogValidationError "string list"
  | ConfigValueError "string list"
  | ConfigTypeError "string list"
  | ConfigKeyError string

text \<open>\<^verbatim>\<open>except ValueError\<close>: \<^verbatim>\<open>CatalogValidationError\<close> is a \<^verbatim>\<open>ValueError\<close>, the others are not.\<close>

fun rewrap_value_error :: "(string list \<Rightarrow> config_error) \<Rightarrow> config_error \<Rightarrow> config_error" where
  "rewrap_value_error f (ConfigValueError m) = f m"
| "rewrap_value_error f (CatalogValidationError m) = f m"
| "rewrap_value_error f e = e"

definition map_error :: "('e \<Rightarrow> 'f) \<Rightarrow> 'e + 'a \<Rightarrow> 'f + 'a" where
  "map_error f r = (case r of Inl e \<Rightarrow> Inl (f e) | Inr x \<Rightarrow> Inr x)"

lemma map_error_Inr_iff [res_simps]: "map_error f r = Inr x \<longleftrightarrow> r = Inr x"
  by (cases r) (auto simp: map_error_def)

lemma map_error_Inr [simp]: "map_error f (Inr x) = Inr x"
  by (simp add: map_error_def)

record raw_override =
  ro_symbol :: string
  ro_poll :: "rat option"
  ro_stale :: "rat option"

datatype file_payload =
    PolicyV1 "string list" "raw_override list"
  | DocumentV2 catalog_document

record codec =
  cx_decode :: "string \<Rightarrow> config_error + file_payload"
  cx_encode :: "catalog_document \<Rightarrow> string"
  cx_sha256 :: "string \<Rightarrow> string"
  cx_revision :: "managed_definition list \<Rightarrow> string"

subsection \<open>The baseline generation\<close>

definition installed_route_step ::
  "provider_binding \<Rightarrow> (string, (string, string list) dict) dict \<Rightarrow> (string, (string, string list) dict) dict" where
  "installed_route_step binding routes_by_symbol =
     (let symbol = normalize_symbol (pb_symbol binding);
          capability_routes = dict_list routes_by_symbol symbol;
          existing = dict_list capability_routes (pb_capability binding);
          merged = rev (remdups (rev (existing @ map (\<lambda>n. lower (strip n)) (pb_providers binding))))
      in dict_set symbol (dict_set (pb_capability binding) merged capability_routes) routes_by_symbol)"

definition installed_routes :: "instrument_plugin list \<Rightarrow> (string, (string, string list) dict) dict" where
  "installed_routes plugins = fold installed_route_step (concat (map ip_provider_bindings plugins)) []"

definition builtin_policy_routes :: "string \<Rightarrow> (string, string list) dict" where
  "builtin_policy_routes symbol = dict_list BUILTIN_PROVIDER_ROUTES (normalize_symbol symbol)"

definition baseline_routes :: "(string, string list) dict \<Rightarrow> capability_route list" where
  "baseline_routes route_map =
     concat (map (\<lambda>c. case dict_get route_map c of None \<Rightarrow> [] | Some ps \<Rightarrow> [\<lparr>cr_capability = c, cr_providers = ps\<rparr>])
       catalog_capabilities)"

definition apply_override :: "(string, rat \<times> rat) dict \<Rightarrow> instrument_spec \<Rightarrow> instrument_spec" where
  "apply_override overrides item =
     (case dict_get overrides (is_symbol item) of
        None \<Rightarrow> item
      | Some (poll, stale) \<Rightarrow> item\<lparr>is_quote_poll_seconds := poll, is_stale_after_seconds := stale\<rparr>)"

definition baseline_definition ::
  "(string, (string, string list) dict) dict \<Rightarrow> string list \<Rightarrow> (string, rat \<times> rat) dict \<Rightarrow> instrument_spec \<Rightarrow>
   managed_definition validated" where
  "baseline_definition routes_by_symbol disabled overrides item =
     (let route_map = AList.updates (dict_keys (dict_list routes_by_symbol (is_symbol item)))
            (dict_values (dict_list routes_by_symbol (is_symbol item))) (builtin_policy_routes (is_symbol item)) in
      res_bind (res_map validate_route (baseline_routes route_map)) (\<lambda>routes.
      res_bind (builtin_instrument_id (is_symbol item)) (\<lambda>instrument_id.
      res_bind (res_map (\<lambda>(provider, vendor). validate_binding \<lparr>sb_provider = provider, sb_symbol = vendor\<rparr>)
        (builtin_provider_symbols (normalize_symbol (is_symbol item)))) (\<lambda>bindings.
      from_instrument_spec (apply_override overrides item) instrument_id BUILTIN (is_symbol item \<notin> set disabled)
        routes bindings None))))"

definition catalog_generation_from_registry ::
  "codec \<Rightarrow> registry \<Rightarrow> string list \<Rightarrow> (string, rat \<times> rat) dict \<Rightarrow> catalog_generation validated" where
  "catalog_generation_from_registry cx catalog disabled overrides =
     res_bind (res_map (baseline_definition (installed_routes (rg_plugins catalog)) disabled overrides)
       (dict_values (rg_instruments catalog))) (\<lambda>definitions.
     build_generation (cx_revision cx) definitions)"

subsection \<open>The version-1 policy\<close>

fun normalize_disabled :: "registry \<Rightarrow> string list \<Rightarrow> config_error + string list" where
  "normalize_disabled catalog [] = Inr []"
| "normalize_disabled catalog (x # xs) =
     (case canonical_symbol (normalize_symbol x) catalog of
        None \<Rightarrow> Inl (ManagedConfigurationError [''instrument policy contains an unknown or duplicate symbol''])
      | Some c \<Rightarrow> res_bind (normalize_disabled catalog xs) (\<lambda>cs. Inr (c # cs)))"

fun normalize_overrides ::
  "registry \<Rightarrow> raw_override list \<Rightarrow> (string, rat \<times> rat) dict \<Rightarrow> config_error + (string, rat \<times> rat) dict" where
  "normalize_overrides catalog [] acc = Inr acc"
| "normalize_overrides catalog (o1 # os) acc =
     (case resolve (normalize_symbol (ro_symbol o1)) catalog of
        None \<Rightarrow> Inl (ManagedConfigurationError [''instrument policy contains an invalid override''])
      | Some item \<Rightarrow>
          let symbol = is_symbol item;
              poll = (case ro_poll o1 of None \<Rightarrow> is_quote_poll_seconds item | Some p \<Rightarrow> p);
              stale = (case ro_stale o1 of None \<Rightarrow> is_stale_after_seconds item | Some s \<Rightarrow> s) in
          raise_if (symbol \<in> set (dict_keys acc))
            (ManagedConfigurationError [''instrument policy contains an invalid override'']) (
          raise_if (\<not> in_range (1/4) 86400 poll \<or> \<not> in_range 1 604800 stale \<or> stale < poll)
            (ManagedConfigurationError [''instrument policy interval is outside safe bounds''])
          (normalize_overrides catalog os (dict_set symbol (poll, stale) acc))))"

definition parse_v1_instrument_policy ::
  "registry \<Rightarrow> string list \<Rightarrow> raw_override list \<Rightarrow> config_error + (string list \<times> (string, rat \<times> rat) dict)" where
  "parse_v1_instrument_policy catalog disabled overrides =
     res_bind (normalize_disabled catalog disabled) (\<lambda>normalized.
     raise_if (\<not> distinct normalized)
       (ManagedConfigurationError [''instrument policy contains an unknown or duplicate symbol'']) (
     res_bind (normalize_overrides catalog overrides []) (\<lambda>os. Inr (normalized, os))))"

subsection \<open>Reconciliation with the installed built-ins\<close>

definition BUILTIN_ROUTE_DEFAULT_MIGRATIONS :: "(string \<times> string, string list list) dict" where
  "BUILTIN_ROUTE_DEFAULT_MIGRATIONS =
     [((''BETH:USDC'', ''quote''), [[''synthetic_beth_primary'', ''synthetic_beth_alternate'', ''coingecko'']]),
      ((''STETH:USDC'', ''quote''), [[''coingecko'']]),
      ((''WSTETH:USDC'', ''quote''), [[''coingecko'']]),
      ((''WBETH:USDC'', ''yield''), [[''binance_wbeth_rate'', ''ethereum_exchange_rate'', ''staking_market_ratio_proxy'']])]"

definition migrated_provider :: "string \<Rightarrow> string" where
  "migrated_provider p = (if p = ''binance_wbeth_rate'' then ''binance_staking_rate'' else p)"

definition route_by_capability :: "capability_route list \<Rightarrow> string \<Rightarrow> capability_route option" where
  "route_by_capability routes c = dict_get (fold (\<lambda>r. dict_set (cr_capability r) r) routes []) c"

definition reconciled_route :: "string \<Rightarrow> capability_route list \<Rightarrow> capability_route \<Rightarrow> capability_route" where
  "reconciled_route symbol baseline route =
     (let providers = map migrated_provider (cr_providers route);
          previous_defaults = dict_list BUILTIN_ROUTE_DEFAULT_MIGRATIONS (symbol, cr_capability route) in
      case (if cr_providers route \<in> set previous_defaults then route_by_capability baseline (cr_capability route) else None) of
        Some r \<Rightarrow> r
      | None \<Rightarrow> if providers \<noteq> cr_providers route then route\<lparr>cr_providers := providers\<rparr> else route)"

definition reconciled_builtin_routes ::
  "string \<Rightarrow> capability_route list \<Rightarrow> capability_route list \<Rightarrow> capability_route list" where
  "reconciled_builtin_routes symbol persisted baseline = map (reconciled_route symbol baseline) persisted"

definition reconciled_history :: "history_policy \<Rightarrow> history_policy \<Rightarrow> history_policy" where
  "reconciled_history persisted baseline =
     \<lparr>hp_enabled = hp_enabled persisted,
      hp_poll_seconds = (if hp_poll_seconds persisted \<noteq> None \<or> hp_poll_seconds baseline = None
        then hp_poll_seconds persisted else hp_poll_seconds baseline),
      hp_backfill_days = hp_backfill_days persisted\<rparr>"

text \<open>The baseline payload with the mutable fields of the persisted one.\<close>

definition reconciled_definition :: "managed_definition \<Rightarrow> managed_definition \<Rightarrow> managed_definition" where
  "reconciled_definition expected item =
     expected\<lparr>md_enabled := md_enabled item, md_quote_poll_seconds := md_quote_poll_seconds item,
       md_stale_after_seconds := md_stale_after_seconds item,
       md_history := reconciled_history (md_history item) (md_history expected),
       md_routes := (if md_routes item \<noteq> []
         then reconciled_builtin_routes (md_symbol item) (md_routes item) (md_routes expected) else md_routes expected),
       md_archived := False\<rparr>"

definition reconcile_item ::
  "(string, managed_definition) dict \<Rightarrow> managed_definition \<Rightarrow> config_error + managed_definition" where
  "reconcile_item baseline_by_id item =
     (if md_ownership item = CUSTOM then Inr item
      else case dict_get baseline_by_id (md_id item) of
             None \<Rightarrow> Inl (ManagedConfigurationError [''managed catalog references an unknown built-in instrument: ''])
           | Some expected \<Rightarrow>
               raise_if (md_symbol expected \<noteq> md_symbol item)
                 (ManagedConfigurationError [''managed catalog references an unknown built-in instrument: ''])
               (map_error CatalogValidationError (validate_definition (reconciled_definition expected item))))"

definition reconcile_generation ::
  "codec \<Rightarrow> catalog_generation \<Rightarrow> catalog_generation \<Rightarrow> config_error + catalog_generation" where
  "reconcile_generation cx baseline g =
     res_bind (res_map (reconcile_item (by_id baseline)) (cg_instruments g)) (\<lambda>reconciled.
     let seen = map md_id (filter (\<lambda>i. md_ownership i \<noteq> CUSTOM) (cg_instruments g)) in
     map_error ManagedConfigurationError
       (build_generation (cx_revision cx)
         (reconciled @ filter (\<lambda>i. md_id i \<notin> set seen) (cg_instruments baseline))))"

definition reconcile_optional ::
  "codec \<Rightarrow> catalog_generation \<Rightarrow> catalog_generation option \<Rightarrow> config_error + catalog_generation option" where
  "reconcile_optional cx baseline g =
     (case g of None \<Rightarrow> Inr None | Some x \<Rightarrow> res_bind (reconcile_generation cx baseline x) (\<lambda>y. Inr (Some y)))"

definition mk_document ::
  "codec \<Rightarrow> catalog_generation \<Rightarrow> catalog_generation option \<Rightarrow> catalog_generation option \<Rightarrow> config_error + catalog_document" where
  "mk_document cx active staged last_known_good =
     map_error ConfigValueError (validate_document (cx_revision cx)
       \<lparr>cd_version = 2, cd_active = active, cd_staged = staged, cd_last_known_good = last_known_good\<rparr>)"

definition reconcile_document ::
  "codec \<Rightarrow> catalog_generation \<Rightarrow> catalog_document \<Rightarrow> config_error + catalog_document" where
  "reconcile_document cx baseline doc =
     map_error (rewrap_value_error ManagedConfigurationError)
       (res_bind (reconcile_generation cx baseline (cd_active doc)) (\<lambda>active.
        res_bind (reconcile_optional cx baseline (cd_staged doc)) (\<lambda>staged.
        res_bind (reconcile_optional cx baseline (cd_last_known_good doc)) (\<lambda>last_known_good.
        mk_document cx active staged last_known_good))))"

subsection \<open>Loading\<close>

text \<open>\<^verbatim>\<open>_normalize_legacy_v2_staking_fallbacks\<close> on one instrument and one generation.\<close>

definition obsolete_fallback :: "managed_definition \<Rightarrow> bool" where
  "obsolete_fallback d =
     (md_ownership d = BUILTIN \<and> is_infix ''staking'' (md_asset_type d)
      \<and> (case md_income d of None \<Rightarrow> False
         | Some p \<Rightarrow> in_fallback_ratio_days p \<noteq> None \<and> in_reward_accrual_mode p \<noteq> Some VALUE_ACCRUING))"

definition drop_fallback :: "managed_definition \<Rightarrow> managed_definition" where
  "drop_fallback d =
     (if obsolete_fallback d
      then d\<lparr>md_income := map_option (\<lambda>p. p\<lparr>in_fallback_ratio_days := None\<rparr>) (md_income d)\<rparr> else d)"

text \<open>
  The revision of a changed generation is the digest of its definitions as the schema dumps
  them (\<^verbatim>\<open>cx_revision\<close>). \<^verbatim>\<open>_normalize_legacy_v2_staking_fallbacks\<close> hashes the JSON as it stands in
  the file; the two agree for the files the program writes, which contain every field, and
  differ for a hand-written file that leaves out fields with defaults.
\<close>

definition normalize_legacy_generation :: "codec \<Rightarrow> catalog_generation \<Rightarrow> catalog_generation \<times> bool" where
  "normalize_legacy_generation cx g =
     (if list_ex obsolete_fallback (cg_instruments g)
      then let items = map drop_fallback (cg_instruments g) in
           (\<lparr>cg_revision = cx_revision cx items, cg_instruments = items\<rparr>, True)
      else (g, False))"

definition normalize_legacy_optional :: "codec \<Rightarrow> catalog_generation option \<Rightarrow> catalog_generation option \<times> bool" where
  "normalize_legacy_optional cx g =
     (case g of None \<Rightarrow> (None, False)
      | Some x \<Rightarrow> (case normalize_legacy_generation cx x of (y, c) \<Rightarrow> (Some y, c)))"

definition normalize_legacy :: "codec \<Rightarrow> catalog_document \<Rightarrow> catalog_document \<times> bool" where
  "normalize_legacy cx doc =
     (let (active, c1) = normalize_legacy_generation cx (cd_active doc);
          (staged, c2) = normalize_legacy_optional cx (cd_staged doc);
          (last_known_good, c3) = normalize_legacy_optional cx (cd_last_known_good doc)
      in (doc\<lparr>cd_active := active, cd_staged := staged, cd_last_known_good := last_known_good\<rparr>, c1 \<or> c2 \<or> c3))"

definition baseline_generation :: "codec \<Rightarrow> registry \<Rightarrow> config_error + catalog_generation" where
  "baseline_generation cx catalog = map_error ConfigValueError (catalog_generation_from_registry cx catalog [] [])"

definition load_catalog_document :: "codec \<Rightarrow> registry \<Rightarrow> string \<Rightarrow> config_error + (catalog_document \<times> bool)" where
  "load_catalog_document cx catalog content =
     res_bind (baseline_generation cx catalog) (\<lambda>baseline.
     if content = [] then res_bind (mk_document cx baseline None None) (\<lambda>doc. Inr (doc, True))
     else res_bind (cx_decode cx content) (\<lambda>payload.
       case payload of
         PolicyV1 disabled overrides \<Rightarrow>
           res_bind (parse_v1_instrument_policy catalog disabled overrides) (\<lambda>(disabled, overrides).
           res_bind (map_error ConfigValueError (catalog_generation_from_registry cx catalog disabled overrides)) (\<lambda>active.
           res_bind (mk_document cx active None None) (\<lambda>doc. Inr (doc, True))))
       | DocumentV2 raw \<Rightarrow>
           let (normalized, legacy) = normalize_legacy cx raw in
           res_bind (map_error ManagedConfigurationError (validate_document (cx_revision cx) normalized)) (\<lambda>parsed.
           res_bind (reconcile_document cx baseline parsed) (\<lambda>reconciled.
           Inr (reconciled, legacy \<or> reconciled \<noteq> parsed)))))"

end
