(* ===== verification/QP_PolicyStore.thy ===== *)
theory QP_PolicyStore
  imports QP_Policy
begin

text \<open>
  \<^verbatim>\<open>InstrumentPolicyStore\<close> of \<^verbatim>\<open>quickprice/managed_config.py\<close>: one file with the active, staged
  and last-known-good generations, guarded by compare-and-swap on the file's digest and by a
  lease while an activation is in progress. Every method runs under the store's lock, so it
  is one step; a method that raises after writing returns the written state with the error.

  The file system is assumed to work: the checks of \<^verbatim>\<open>_read_bytes\<close> for symbolic links,
  \<^verbatim>\<open>_validate_integrity_permissions\<close> and the I/O errors of \<^verbatim>\<open>_atomic_write\<close> do not occur; a missing
  file is the empty content. JSON request bodies are lists of typed fields: a body with an
  unknown field or a value of the wrong type is rejected before it reaches these functions.
\<close>

subsection \<open>State\<close>

definition MAX_CATALOG_FILE_BYTES :: nat where "MAX_CATALOG_FILE_BYTES = 8 * 1024 * 1024"

record transition_token =
  tk_content :: string
  tk_revision :: string
  tk_lease_id :: string

record policy_store =
  st_catalog :: registry
  st_file :: string
  st_backup :: "string option"
  st_startup_revision :: string
  st_runtime_active_revision :: string
  st_transition_id :: "string option"
  st_migration_pending :: bool

record catalog_snapshot =
  sp_revision :: string
  sp_startup_revision :: string
  sp_restart_required :: bool
  sp_active :: catalog_generation
  sp_staged :: "catalog_generation option"
  sp_last_known_good :: "catalog_generation option"

type_synonym 'a store_result = "policy_store \<times> (config_error + 'a)"

definition hmac_compare_revision :: "string \<Rightarrow> string \<Rightarrow> bool" where
  "hmac_compare_revision current expected = (length expected = 64 \<and> current = expected)"

definition assert_revision :: "codec \<Rightarrow> string \<Rightarrow> string \<Rightarrow> config_error + unit" where
  "assert_revision cx content expected =
     raise_if (\<not> hmac_compare_revision (cx_sha256 cx content) expected)
       (RevisionConflictError [''instrument catalog changed concurrently'']) (Inr ())"

definition read_bytes :: "policy_store \<Rightarrow> config_error + string" where
  "read_bytes st =
     raise_if (MAX_CATALOG_FILE_BYTES < length (st_file st))
       (ManagedConfigurationError [''managed configuration file is too large'']) (Inr (st_file st))"

definition read_locked :: "codec \<Rightarrow> policy_store \<Rightarrow> config_error + (string \<times> catalog_document)" where
  "read_locked cx st =
     res_bind (read_bytes st) (\<lambda>content.
     res_bind (load_catalog_document cx (st_catalog st) content) (\<lambda>(document, _). Inr (content, document)))"

definition serialize_catalog_document :: "codec \<Rightarrow> catalog_document \<Rightarrow> config_error + string" where
  "serialize_catalog_document cx doc =
     raise_if (MAX_CATALOG_FILE_BYTES < length (cx_encode cx doc))
       (CatalogValidationError [''managed instrument catalog is too large'']) (Inr (cx_encode cx doc))"

text \<open>Whether a writer's token is the one of the lease in force.\<close>

definition holds_lease :: "transition_token option \<Rightarrow> policy_store \<Rightarrow> bool" where
  "holds_lease token st =
     (case st_transition_id st of
        None \<Rightarrow> False
      | Some lease \<Rightarrow> (case token of None \<Rightarrow> False | Some t \<Rightarrow> tk_lease_id t = lease))"

definition write_locked ::
  "codec \<Rightarrow> catalog_document \<Rightarrow> transition_token option \<Rightarrow> policy_store \<Rightarrow> config_error + policy_store" where
  "write_locked cx doc token st =
     raise_if (st_transition_id st \<noteq> None \<and> \<not> holds_lease token st)
       (RevisionConflictError [''instrument catalog activation is in progress'']) (
     res_bind (serialize_catalog_document cx doc) (\<lambda>content. Inr (st\<lparr>st_file := content\<rparr>)))"

definition catalog_snapshot_of :: "codec \<Rightarrow> policy_store \<Rightarrow> config_error + catalog_snapshot" where
  "catalog_snapshot_of cx st =
     res_bind (read_locked cx st) (\<lambda>(content, document).
     Inr \<lparr>sp_revision = cx_sha256 cx content, sp_startup_revision = st_startup_revision st,
          sp_restart_required = (cg_revision (cd_active document) \<noteq> st_runtime_active_revision st),
          sp_active = cd_active document, sp_staged = cd_staged document,
          sp_last_known_good = cd_last_known_good document\<rparr>)"

text \<open>The common frame of the writers: read, compare the revision, compute, write, report.\<close>

definition locked_update ::
  "codec \<Rightarrow> string \<Rightarrow> transition_token option \<Rightarrow> (catalog_document \<Rightarrow> config_error + catalog_document) \<Rightarrow> policy_store \<Rightarrow>
   catalog_snapshot store_result" where
  "locked_update cx expected_revision token f st =
     (case res_bind (read_locked cx st) (\<lambda>(content, document).
           res_bind (assert_revision cx content expected_revision) (\<lambda>_.
           res_bind (f document) (\<lambda>updated. write_locked cx updated token st))) of
        Inl e \<Rightarrow> (st, Inl e)
      | Inr st' \<Rightarrow> (st', catalog_snapshot_of cx st'))"

subsection \<open>Construction and migration\<close>

definition persist_migration :: "codec \<Rightarrow> policy_store \<Rightarrow> unit store_result" where
  "persist_migration cx st =
     (if st_transition_id st \<noteq> None
      then (st, Inl (RevisionConflictError [''instrument catalog activation is in progress'']))
      else case res_bind (read_bytes st) (\<lambda>content.
                res_bind (load_catalog_document cx (st_catalog st) content) (\<lambda>(document, needs_write).
                Inr (content, document, needs_write))) of
        Inl e \<Rightarrow> (st, Inl e)
      | Inr (content, document, needs_write) \<Rightarrow>
          if \<not> needs_write then (st\<lparr>st_migration_pending := False\<rparr>, Inr ())
          else
            let is_version_one = (case cx_decode cx content of Inr (PolicyV1 _ _) \<Rightarrow> True | _ \<Rightarrow> False);
                st1 = (if content \<noteq> [] \<and> is_version_one \<and> st_backup st = None then st\<lparr>st_backup := Some content\<rparr> else st) in
            (case serialize_catalog_document cx document of
               Inl e \<Rightarrow> (st1, Inl e)
             | Inr migrated \<Rightarrow>
                 (st1\<lparr>st_file := migrated, st_startup_revision := cx_sha256 cx migrated,
                      st_runtime_active_revision := cg_revision (cd_active document), st_migration_pending := False\<rparr>,
                  Inr ())))"

definition mk_policy_store :: "codec \<Rightarrow> registry \<Rightarrow> string \<Rightarrow> string option \<Rightarrow> bool \<Rightarrow> policy_store store_result" where
  "mk_policy_store cx catalog file backup defer_migration =
     (let st0 = \<lparr>st_catalog = catalog, st_file = file, st_backup = backup, st_startup_revision = [],
           st_runtime_active_revision = [], st_transition_id = None, st_migration_pending = False\<rparr> in
      case res_bind (read_bytes st0) (\<lambda>content. load_catalog_document cx catalog content) of
        Inl e \<Rightarrow> (st0, Inl e)
      | Inr (document, needs_write) \<Rightarrow>
          let st1 = st0\<lparr>st_migration_pending := needs_write, st_startup_revision := cx_sha256 cx file,
                st_runtime_active_revision := cg_revision (cd_active document)\<rparr> in
          if needs_write \<and> \<not> defer_migration
          then (case persist_migration cx st1 of (st2, Inl e) \<Rightarrow> (st2, Inl e) | (st2, Inr _) \<Rightarrow> (st2, Inr st2))
          else (st1, Inr st1))"

subsection \<open>The activation lease\<close>

text \<open>\<^verbatim>\<open>uuid7\<close> gives a fresh lease id, an argument.\<close>

definition capture_transition ::
  "codec \<Rightarrow> string \<Rightarrow> string \<Rightarrow> policy_store \<Rightarrow> transition_token store_result" where
  "capture_transition cx expected_revision lease_id st =
     (if st_transition_id st \<noteq> None
      then (st, Inl (RevisionConflictError [''instrument catalog activation is already in progress'']))
      else case res_bind (read_locked cx st) (\<lambda>(content, _).
                res_bind (assert_revision cx content expected_revision) (\<lambda>_.
                Inr \<lparr>tk_content = content, tk_revision = cx_sha256 cx content, tk_lease_id = lease_id\<rparr>)) of
        Inl e \<Rightarrow> (st, Inl e)
      | Inr token \<Rightarrow> (st\<lparr>st_transition_id := Some lease_id\<rparr>, Inr token))"

definition assert_transition :: "transition_token \<Rightarrow> policy_store \<Rightarrow> config_error + unit" where
  "assert_transition token st =
     raise_if (\<not> holds_lease (Some token) st)
       (RevisionConflictError [''instrument catalog activation lease is not current'']) (Inr ())"

definition commit_transition :: "codec \<Rightarrow> transition_token \<Rightarrow> string \<Rightarrow> policy_store \<Rightarrow> unit store_result" where
  "commit_transition cx token expected_revision st =
     (case res_bind (assert_transition token st) (\<lambda>_.
           res_bind (read_bytes st) (\<lambda>current. assert_revision cx current expected_revision)) of
        Inl e \<Rightarrow> (st, Inl e)
      | Inr _ \<Rightarrow> (st\<lparr>st_transition_id := None\<rparr>, Inr ()))"

definition abort_transition :: "transition_token \<Rightarrow> policy_store \<Rightarrow> unit store_result" where
  "abort_transition token st =
     (case assert_transition token st of
        Inl e \<Rightarrow> (st, Inl e)
      | Inr _ \<Rightarrow> (st\<lparr>st_transition_id := None\<rparr>, Inr ()))"

definition restore_transition ::
  "codec \<Rightarrow> transition_token \<Rightarrow> string \<Rightarrow> policy_store \<Rightarrow> catalog_snapshot store_result" where
  "restore_transition cx token expected_revision st =
     (if cx_sha256 cx (tk_content token) \<noteq> tk_revision token
      then (st, Inl (CatalogValidationError [''instrument catalog transition token is corrupted'']))
      else case res_bind (load_catalog_document cx (st_catalog st) (tk_content token)) (\<lambda>_.
                res_bind (assert_transition token st) (\<lambda>_.
                res_bind (read_bytes st) (\<lambda>current. assert_revision cx current expected_revision))) of
        Inl e \<Rightarrow> (st, Inl e)
      | Inr _ \<Rightarrow>
          let st' = st\<lparr>st_file := tk_content token, st_transition_id := None\<rparr> in (st', catalog_snapshot_of cx st'))"

definition assert_runtime_target ::
  "codec \<Rightarrow> string \<Rightarrow> string \<Rightarrow> string \<Rightarrow> policy_store \<Rightarrow> config_error + unit" where
  "assert_runtime_target cx expected_revision operation expected_target_revision st =
     res_bind (read_locked cx st) (\<lambda>(content, document).
     res_bind (assert_revision cx content expected_revision) (\<lambda>_.
     res_bind (if operation = ''activate'' then Inr (cd_staged document)
               else if operation = ''rollback'' then Inr (cd_last_known_good document)
               else Inl (ConfigValueError [''unsupported catalog runtime operation''])) (\<lambda>target.
     raise_if (case target of None \<Rightarrow> True | Some t \<Rightarrow> \<not> hmac_compare_revision (cg_revision t) expected_target_revision)
       (RevisionConflictError [''catalog activation target changed'']) (Inr ()))))"

definition mark_runtime_applied :: "codec \<Rightarrow> string option \<Rightarrow> policy_store \<Rightarrow> unit store_result" where
  "mark_runtime_applied cx revision st =
     (case res_bind (read_bytes st) (\<lambda>content.
           raise_if (case revision of None \<Rightarrow> False | Some r \<Rightarrow> \<not> hmac_compare_revision (cx_sha256 cx content) r)
             (RevisionConflictError [''instrument catalog changed before runtime activation'']) (
           res_bind (load_catalog_document cx (st_catalog st) content) (\<lambda>(document, _).
           Inr (cx_sha256 cx content, document)))) of
        Inl e \<Rightarrow> (st, Inl e)
      | Inr (current, document) \<Rightarrow>
          (st\<lparr>st_startup_revision := current, st_runtime_active_revision := cg_revision (cd_active document)\<rparr>, Inr ()))"

subsection \<open>Activation and rollback\<close>

definition activate_staged ::
  "codec \<Rightarrow> string \<Rightarrow> string option \<Rightarrow> transition_token option \<Rightarrow> policy_store \<Rightarrow> catalog_snapshot store_result" where
  "activate_staged cx expected_revision expected_staged_revision token =
     locked_update cx expected_revision token (\<lambda>document.
       case cd_staged document of
         None \<Rightarrow> Inl (CatalogValidationError [''there is no staged catalog to activate''])
       | Some staged \<Rightarrow>
           raise_if (case expected_staged_revision of None \<Rightarrow> False
               | Some r \<Rightarrow> \<not> hmac_compare_revision (cg_revision staged) r)
             (RevisionConflictError [''staged catalog changed during activation''])
           (mk_document cx staged None (Some (cd_active document))))"

definition rollback ::
  "codec \<Rightarrow> string \<Rightarrow> transition_token option \<Rightarrow> policy_store \<Rightarrow> catalog_snapshot store_result" where
  "rollback cx expected_revision token =
     locked_update cx expected_revision token (\<lambda>document.
       case cd_last_known_good document of
         None \<Rightarrow> Inl (CatalogValidationError [''there is no last-known-good catalog''])
       | Some good \<Rightarrow> mk_document cx good None (Some (cd_active document)))"

end
