(* ===== verification/QP_Activation.thy ===== *)
theory QP_Activation
  imports QP_ServiceRead QP_PolicyStore
begin

text \<open>
  Activation of a catalogue generation (\<^verbatim>\<open>quickprice/service.py\<close>): warm bundles are installed
  into a clone of the market state, the file store performs its transition under the lease,
  and one pointer switch publishes both; a failure at any point undoes what was done.

  Conventions. The history cache is one object shared by the previous and the candidate
  state, so what preparation loads into it stays when the candidate is dropped; the model
  carries it over. Collector hand-over is outside the model: its steps are the fault points
  of \<^verbatim>\<open>activation_faults\<close>. The activation runs as one step: publications of other tasks
  between its awaits are not interleaved here, edits of the file by others are excluded by
  the lease.
\<close>

subsection \<open>Warm bundles\<close>

record warmed_instrument =
  wu_definition :: managed_definition
  wu_quote :: provider_quote
  wu_dividend :: "dividend_event option"
  wu_yield :: "yield_metric option"

definition install_income :: "service_env \<Rightarrow> warmed_instrument \<Rightarrow> data_state \<Rightarrow> data_state \<times> unit result" where
  "install_income env item ds =
     (let symbol = md_symbol (wu_definition item);
          (ds1, r1) = (case wu_dividend item of
             None \<Rightarrow> (ds, Inr ())
           | Some e \<Rightarrow> if de_symbol e \<noteq> symbol
               then (ds, Inl (ValueError ''warm dividend symbol does not match its instrument''))
               else (ds\<lparr>ds_dividends := dict_set symbol e (ds_dividends ds)\<rparr>, Inr ()))
      in case r1 of
           Inl e \<Rightarrow> (ds1, Inl e)
         | Inr _ \<Rightarrow>
             (case wu_yield item of
                None \<Rightarrow> (ds1, Inr ())
              | Some m \<Rightarrow> if ym_symbol m \<noteq> symbol
                  then (ds1, Inl (ValueError ''warm yield symbol does not match its instrument''))
                  else (ds1\<lparr>ds_yield_metrics := dict_set symbol m (ds_yield_metrics ds1),
                            ds_yield_stale := dict_set symbol (default_yield_stale_after_seconds env m) (ds_yield_stale ds1)\<rparr>,
                        Inr ())))"

definition warm_point :: "warmed_instrument \<Rightarrow> price_point result" where
  "warm_point item =
     (let q = wu_quote item in
      mk_price_point (md_symbol (wu_definition item)) (Aware (floor_minute (pq_as_of q))) (NumFinite (pq_price q))
        (pq_provider q) (pq_is_derived q) ''1m'')"

definition install_warmed_item ::
  "service_env \<Rightarrow> instant \<Rightarrow> registry \<Rightarrow> warmed_instrument \<Rightarrow> data_state \<Rightarrow> data_state \<times> unit result" where
  "install_warmed_item env now reg item ds =
     (let symbol = md_symbol (wu_definition item); q = wu_quote item in
      if unsupported symbol reg then (ds, Inl (ValueError ''warm bundle contains an inactive instrument''))
      else if pq_symbol q \<noteq> symbol then (ds, Inl (ValueError ''warm quote symbol does not match its instrument''))
      else if now + future_limit < pq_as_of q
      then (ds, Inl (ValueError ''warm quote timestamp is more than 60 seconds in the future''))
      else
        (case install_income env item ds of
           (ds1, Inl e) \<Rightarrow> (ds1, Inl e)
         | (ds1, Inr _) \<Rightarrow>
             let ds2 = accept_quote q ds1 in
             (case warm_point item of
                Inl e \<Rightarrow> (ds2, Inl e)
              | Inr point \<Rightarrow>
                  (case rebuild env reg now [point] symbol ds2 of
                     (ds3, Inl e) \<Rightarrow> (ds3, Inl e)
                   | (ds3, Inr _) \<Rightarrow>
                       (case update_aggregate point ds3 of
                          (ds4, Inl e) \<Rightarrow> (ds4, Inl e)
                        | (ds4, Inr _) \<Rightarrow>
                            if symbol \<notin> set (ds_complete_symbols ds4)
                            then (ds4, Inl (ValueError ''warm bundle is missing mandatory income metadata''))
                            else (ds4, Inr ()))))))"

fun install_warmed_instruments ::
  "service_env \<Rightarrow> instant \<Rightarrow> registry \<Rightarrow> warmed_instrument list \<Rightarrow> data_state \<Rightarrow> data_state \<times> unit result" where
  "install_warmed_instruments env now reg [] ds = (ds, Inr ())"
| "install_warmed_instruments env now reg (w # ws) ds =
     (case install_warmed_item env now reg w ds of
        (ds', Inl e) \<Rightarrow> (ds', Inl e)
      | (ds', Inr _) \<Rightarrow> install_warmed_instruments env now reg ws ds')"

subsection \<open>Restoring archived state\<close>

text \<open>What \<^verbatim>\<open>storage.restore(symbols=...)\<close> returns; a yield record carries its stored threshold.\<close>

record restored_state =
  re_points :: "price_point list"
  re_dividends :: "dividend_event list"
  re_thresholds :: "(string, rat option) dict"
  re_yields :: "yield_metric list"
  re_quotes :: "provider_quote list"

definition restore_dividend :: "string list \<Rightarrow> dividend_event \<Rightarrow> data_state \<Rightarrow> data_state" where
  "restore_dividend allowed e ds =
     (if de_symbol e \<in> set allowed
         \<and> (case dict_get (ds_dividends ds) (de_symbol e) of None \<Rightarrow> True | Some c \<Rightarrow> de_ex_date c < de_ex_date e)
      then ds\<lparr>ds_dividends := dict_set (de_symbol e) e (ds_dividends ds)\<rparr> else ds)"

definition restore_yield ::
  "service_env \<Rightarrow> string list \<Rightarrow> (string, rat option) dict \<Rightarrow> yield_metric \<Rightarrow> data_state \<Rightarrow> data_state" where
  "restore_yield env allowed thresholds m ds =
     (if ym_symbol m \<in> set allowed
         \<and> (case dict_get (ds_yield_metrics ds) (ym_symbol m) of None \<Rightarrow> True | Some c \<Rightarrow> ym_as_of c < ym_as_of m)
      then ds\<lparr>ds_yield_metrics := dict_set (ym_symbol m) m (ds_yield_metrics ds),
              ds_yield_stale := dict_set (ym_symbol m)
                (restored_yield_stale_after_seconds env m
                  (case dict_get thresholds (ym_symbol m) of None \<Rightarrow> None | Some t \<Rightarrow> t)) (ds_yield_stale ds)\<rparr>
      else ds)"

definition restore_quote :: "string list \<Rightarrow> provider_quote \<Rightarrow> data_state \<Rightarrow> data_state" where
  "restore_quote allowed q ds =
     (if pq_symbol q \<in> set allowed
         \<and> (case dict_get (ds_last_quotes ds) (pq_symbol q) of None \<Rightarrow> True | Some c \<Rightarrow> pq_as_of c < pq_as_of q)
      then ds\<lparr>ds_last_quotes := dict_set (pq_symbol q) q (ds_last_quotes ds)\<rparr> else ds)"

definition restore_retained_candidate_state ::
  "service_env \<Rightarrow> restored_state option \<Rightarrow> string list \<Rightarrow> data_state \<Rightarrow> data_state \<times> unit result" where
  "restore_retained_candidate_state env restored symbols ds =
     (case restored of
        None \<Rightarrow> (ds, Inr ())
      | Some r \<Rightarrow>
          let points = filter (\<lambda>p. pp_symbol p \<in> set symbols) (re_points r) in
          (case (if points = [] then Inr (ds_history ds) else load_history points (ds_history ds)) of
             Inl e \<Rightarrow> (ds, Inl e)
           | Inr hc \<Rightarrow>
               (fold (restore_quote symbols) (re_quotes r)
                 (fold (restore_yield env symbols (re_thresholds r)) (re_yields r)
                   (fold (restore_dividend symbols) (re_dividends r) (ds\<lparr>ds_history := hc\<rparr>))), Inr ())))"

definition prepare_runtime_state ::
  "service_env \<Rightarrow> instant \<Rightarrow> registry \<Rightarrow> warmed_instrument list \<Rightarrow> restored_state option \<Rightarrow> string list \<Rightarrow> data_state \<Rightarrow>
   data_state \<times> unit result" where
  "prepare_runtime_state env now reg warmed restored retained_symbols ds =
     (case clone_state (en_hash env) ds of
        Inl e \<Rightarrow> (ds, Inl e)
      | Inr ds1 \<Rightarrow>
          (case (if retained_symbols = [] then (ds1, Inr ())
                 else restore_retained_candidate_state env restored retained_symbols ds1) of
             (ds2, Inl e) \<Rightarrow> (ds2, Inl e)
           | (ds2, Inr _) \<Rightarrow> install_warmed_instruments env now reg warmed ds2))"

subsection \<open>After the switch\<close>

fun publish_warmed_history :: "warmed_instrument list \<Rightarrow> data_state \<Rightarrow> data_state \<times> unit result" where
  "publish_warmed_history [] ds = (ds, Inr ())"
| "publish_warmed_history (w # ws) ds =
     (case res_bind (warm_point w) (\<lambda>p. add_point p (ds_history ds)) of
        Inl e \<Rightarrow> (ds, Inl e)
      | Inr hc \<Rightarrow> publish_warmed_history ws (ds\<lparr>ds_history := hc\<rparr>))"

definition warmed_rows :: "service_env \<Rightarrow> data_state \<Rightarrow> warmed_instrument \<Rightarrow> (persisted list) result" where
  "warmed_rows env ds item =
     (let symbol = md_symbol (wu_definition item) in
      res_bind (warm_point item) (\<lambda>point.
      res_bind (case wu_yield item of
          None \<Rightarrow> Inr []
        | Some m \<Rightarrow> (case dict_get (ds_yield_stale ds) symbol of
            None \<Rightarrow> Inl (KeyError symbol) | Some t \<Rightarrow> Inr [EnqueueYield m t])) (\<lambda>yields.
      Inr ([EnqueuePrice point]
        @ (case dict_get (ds_active_aggregates ds) symbol of None \<Rightarrow> [] | Some a \<Rightarrow> [EnqueueAggregate a])
        @ (case wu_dividend item of None \<Rightarrow> [] | Some e \<Rightarrow> [EnqueueDividend e])
        @ yields
        @ (case store_get (en_hash env) (ds_snapshots ds) symbol of None \<Rightarrow> [] | Some s \<Rightarrow> [EnqueueSnapshot s])))))"

text \<open>\<^verbatim>\<open>_persist_warmed_instruments\<close>; rows queued before an exception stay queued.\<close>

fun persist_warmed_instruments ::
  "service_env \<Rightarrow> data_state \<Rightarrow> warmed_instrument list \<Rightarrow> service \<Rightarrow> service \<times> unit result" where
  "persist_warmed_instruments env ds [] sv = (sv, Inr ())"
| "persist_warmed_instruments env ds (w # ws) sv =
     (case warmed_rows env ds w of
        Inl e \<Rightarrow> (sv, Inl e)
      | Inr rows \<Rightarrow> persist_warmed_instruments env ds ws (persist_rows rows sv))"

subsection \<open>The transaction\<close>

datatype activation_error =
    ServiceError py_error
  | StoreError config_error
  | CollectorError string

text \<open>The process state the transaction changes, and where collector hand-over fails.\<close>

record process_state =
  pr_service :: service
  pr_store :: policy_store
  pr_storage_ready :: bool

record activation_faults =
  fa_start :: bool
  fa_handover :: bool
  fa_confirm :: bool

record activation_request =
  rq_operation :: string
  rq_expected_revision :: string
  rq_target :: catalog_generation
  rq_registry :: registry
  rq_generation_id :: string
  rq_lease_id :: string
  rq_warmed :: "warmed_instrument list"
  rq_restored :: "restored_state option"

definition file_transition ::
  "codec \<Rightarrow> activation_request \<Rightarrow> transition_token \<Rightarrow> policy_store \<Rightarrow> policy_store \<times> (activation_error + catalog_snapshot)" where
  "file_transition cx rq token st =
     (if rq_operation rq = ''activate'' then
        (case activate_staged cx (rq_expected_revision rq) (Some (cg_revision (rq_target rq))) (Some token) st of
           (st', r) \<Rightarrow> (st', map_error StoreError r))
      else if rq_operation rq = ''rollback'' then
        (case rollback cx (rq_expected_revision rq) (Some token) st of (st', r) \<Rightarrow> (st', map_error StoreError r))
      else (st, Inl (ServiceError (ValueError ''unsupported catalog activation operation''))))"

text \<open>Checks between the file transition and the pointer switch.\<close>

definition confirm_file ::
  "codec \<Rightarrow> activation_request \<Rightarrow> catalog_snapshot \<Rightarrow> policy_store \<Rightarrow> policy_store \<times> (activation_error + unit)" where
  "confirm_file cx rq snapshot st =
     (case read_locked cx st of
        Inl e \<Rightarrow> (st, Inl (StoreError e))
      | Inr (_, document) \<Rightarrow>
          if cg_revision (cd_active document) \<noteq> cg_revision (rq_target rq)
          then (st, Inl (ServiceError (RuntimeError ''persisted catalog does not match the warmed generation'')))
          else if sp_revision snapshot = []
          then (st, Inl (ServiceError (RuntimeError ''catalog commit did not return an exact file revision'')))
          else (case mark_runtime_applied cx (Some (sp_revision snapshot)) st of
                  (st', r) \<Rightarrow> (st', map_error StoreError r)))"

text \<open>
  The exception handler: the previous generation is published again when the pointer moved,
  the shared history drops what only the candidate knew, and the file is restored (when its
  transition had returned) or the lease released. An exception of the store inside the
  handler is logged, and the original one is raised.
\<close>

definition undo_activation ::
  "codec \<Rightarrow> instant \<Rightarrow> generation \<Rightarrow> history_cache \<Rightarrow> transition_token option \<Rightarrow> catalog_snapshot option \<Rightarrow> process_state \<Rightarrow>
   process_state" where
  "undo_activation cx now previous shared token snapshot pr =
     (let moved = gn_id (sv_generation (pr_service pr)) \<noteq> gn_id previous;
          kept = fst (retain_history_symbols (registry_symbols (gn_registry previous)) shared);
          back = (if moved then previous\<lparr>gn_activated_at := now\<rparr> else sv_generation (pr_service pr));
          st = pr_store pr;
          st' = (case token of
              None \<Rightarrow> st
            | Some t \<Rightarrow>
                (case snapshot of
                   None \<Rightarrow> fst (abort_transition t st)
                 | Some s \<Rightarrow>
                     (case restore_transition cx t (sp_revision s) st of
                        (st1, Inl _) \<Rightarrow> fst (abort_transition t st1)
                      | (st1, Inr restored) \<Rightarrow>
                          (case mark_runtime_applied cx (Some (sp_revision restored)) st1 of
                             (st2, Inl _) \<Rightarrow> fst (abort_transition t st2)
                           | (st2, Inr _) \<Rightarrow> st2))))
      in pr\<lparr>pr_service := (pr_service pr)\<lparr>sv_generation := back\<lparr>gn_state := (gn_state back)\<lparr>ds_history := kept\<rparr>\<rparr>\<rparr>,
            pr_store := st'\<rparr>)"

text \<open>The local work after the point of no return; its failure only clears the storage flag.\<close>

definition finalize_activation ::
  "service_env \<Rightarrow> activation_request \<Rightarrow> process_state \<Rightarrow> process_state" where
  "finalize_activation env rq pr =
     (let sv = pr_service pr in
      case publish_warmed_history (rq_warmed rq) (gn_state (sv_generation sv)) of
        (ds1, Inl _) \<Rightarrow> pr\<lparr>pr_service := set_state ds1 sv, pr_storage_ready := False\<rparr>
      | (ds1, Inr _) \<Rightarrow>
          let ds2 = retain_state_symbols (registry_symbols (rq_registry rq)) ds1 in
          (case persist_warmed_instruments env ds2 (rq_warmed rq) (set_state ds2 sv) of
             (sv2, Inl _) \<Rightarrow> pr\<lparr>pr_service := sv2, pr_storage_ready := False\<rparr>
           | (sv2, Inr _) \<Rightarrow> pr\<lparr>pr_service := sv2\<rparr>))"

definition retained_of :: "registry \<Rightarrow> generation \<Rightarrow> string list" where
  "retained_of reg previous =
     filter (\<lambda>s. s \<notin> set (registry_symbols (gn_registry previous))) (registry_symbols reg)"

definition switch_generation ::
  "codec \<Rightarrow> instant \<Rightarrow> activation_request \<Rightarrow> activation_faults \<Rightarrow> data_state \<Rightarrow> transition_token \<Rightarrow> catalog_snapshot \<Rightarrow>
   process_state \<Rightarrow> process_state \<times> (activation_error + unit)" where
  "switch_generation cx now rq fa candidate token snapshot pr =
     (case confirm_file cx rq snapshot (pr_store pr) of
        (st1, Inl e) \<Rightarrow> (pr\<lparr>pr_store := st1\<rparr>, Inl e)
      | (st1, Inr _) \<Rightarrow>
          if fa_handover fa then (pr\<lparr>pr_store := st1\<rparr>, Inl (CollectorError ''handover''))
          else
            let (sv1, _, _) = activate_generation (rq_registry rq) (cg_revision (rq_target rq)) (rq_generation_id rq) now
                  (Some candidate) (pr_service pr);
                pr1 = pr\<lparr>pr_service := sv1, pr_store := st1\<rparr> in
            if fa_confirm fa then (pr1, Inl (CollectorError ''confirm''))
            else (case commit_transition cx token (sp_revision snapshot) st1 of
                    (st2, Inl e) \<Rightarrow> (pr1\<lparr>pr_store := st2\<rparr>, Inl (StoreError e))
                  | (st2, Inr _) \<Rightarrow> (pr1\<lparr>pr_store := st2\<rparr>, Inr ())))"

definition commit_catalog_activation ::
  "service_env \<Rightarrow> codec \<Rightarrow> instant \<Rightarrow> activation_request \<Rightarrow> activation_faults \<Rightarrow> process_state \<Rightarrow>
   process_state \<times> (activation_error + unit)" where
  "commit_catalog_activation env cx now rq fa pr =
     (let previous = sv_generation (pr_service pr); shared0 = ds_history (gn_state previous) in
      case capture_transition cx (rq_expected_revision rq) (rq_lease_id rq) (pr_store pr) of
        (st1, Inl e) \<Rightarrow> (undo_activation cx now previous shared0 None None (pr\<lparr>pr_store := st1\<rparr>), Inl (StoreError e))
      | (st1, Inr token) \<Rightarrow>
          let pr1 = pr\<lparr>pr_store := st1\<rparr> in
          (case prepare_runtime_state env now (rq_registry rq) (rq_warmed rq) (rq_restored rq)
                  (retained_of (rq_registry rq) previous) (gn_state previous) of
             (candidate, Inl e) \<Rightarrow>
               (undo_activation cx now previous (ds_history candidate) (Some token) None pr1, Inl (ServiceError e))
           | (candidate, Inr _) \<Rightarrow>
               if fa_start fa then
                 (undo_activation cx now previous (ds_history candidate) (Some token) None pr1, Inl (CollectorError ''start''))
               else
                 (case file_transition cx rq token st1 of
                    (st2, Inl e) \<Rightarrow>
                      (undo_activation cx now previous (ds_history candidate) (Some token) None (pr1\<lparr>pr_store := st2\<rparr>), Inl e)
                  | (st2, Inr snapshot) \<Rightarrow>
                      (case switch_generation cx now rq fa candidate token snapshot (pr1\<lparr>pr_store := st2\<rparr>) of
                         (pr2, Inl e) \<Rightarrow>
                           (undo_activation cx now previous (ds_history candidate) (Some token) (Some snapshot) pr2, Inl e)
                       | (pr2, Inr _) \<Rightarrow> (finalize_activation env rq pr2, Inr ())))))"

end
