(* ===== verification/QP_PolicyEdit.thy ===== *)
theory QP_PolicyEdit
  imports QP_PolicyStore
begin

text \<open>
  The editing methods of \<^verbatim>\<open>InstrumentPolicyStore\<close> (\<^verbatim>\<open>managed_config.py\<close>): drafts of instruments,
  updates, archiving, replacement and import of the staged generation, and the legacy policy
  patches.
\<close>

subsection \<open>Typed JSON objects of instrument definitions\<close>

datatype definition_field =
    FId string | FSymbol string | FBase string | FQuote string | FName string | FDescription string
  | FAssetClass asset_class | FAssetType string | FPriceBasis string | FChangeBasis string
  | FOwnership instrument_ownership | FEnabled bool | FArchived bool | FAliases "string list"
  | FMarketCalendar market_calendar | FQuotePollSeconds rat | FStaleAfterSeconds rat | FHistory history_policy
  | FRoutes "capability_route list" | FProviderSymbols "symbol_binding list" | FIncome "income_policy option"
  | FSynthetic "synthetic_definition option"

fun field_name :: "definition_field \<Rightarrow> string" where
  "field_name (FId _) = ''id''"
| "field_name (FSymbol _) = ''symbol''"
| "field_name (FBase _) = ''base''"
| "field_name (FQuote _) = ''quote''"
| "field_name (FName _) = ''name''"
| "field_name (FDescription _) = ''description''"
| "field_name (FAssetClass _) = ''asset_class''"
| "field_name (FAssetType _) = ''asset_type''"
| "field_name (FPriceBasis _) = ''price_basis''"
| "field_name (FChangeBasis _) = ''change_basis''"
| "field_name (FOwnership _) = ''ownership''"
| "field_name (FEnabled _) = ''enabled''"
| "field_name (FArchived _) = ''archived''"
| "field_name (FAliases _) = ''aliases''"
| "field_name (FMarketCalendar _) = ''market_calendar''"
| "field_name (FQuotePollSeconds _) = ''quote_poll_seconds''"
| "field_name (FStaleAfterSeconds _) = ''stale_after_seconds''"
| "field_name (FHistory _) = ''history''"
| "field_name (FRoutes _) = ''routes''"
| "field_name (FProviderSymbols _) = ''provider_symbols''"
| "field_name (FIncome _) = ''income''"
| "field_name (FSynthetic _) = ''synthetic''"

fun set_field :: "definition_field \<Rightarrow> managed_definition \<Rightarrow> managed_definition" where
  "set_field (FId v) d = d\<lparr>md_id := v\<rparr>"
| "set_field (FSymbol v) d = d\<lparr>md_symbol := v\<rparr>"
| "set_field (FBase v) d = d\<lparr>md_base := v\<rparr>"
| "set_field (FQuote v) d = d\<lparr>md_quote := v\<rparr>"
| "set_field (FName v) d = d\<lparr>md_name := v\<rparr>"
| "set_field (FDescription v) d = d\<lparr>md_description := v\<rparr>"
| "set_field (FAssetClass v) d = d\<lparr>md_asset_class := v\<rparr>"
| "set_field (FAssetType v) d = d\<lparr>md_asset_type := v\<rparr>"
| "set_field (FPriceBasis v) d = d\<lparr>md_price_basis := v\<rparr>"
| "set_field (FChangeBasis v) d = d\<lparr>md_change_basis := v\<rparr>"
| "set_field (FOwnership v) d = d\<lparr>md_ownership := v\<rparr>"
| "set_field (FEnabled v) d = d\<lparr>md_enabled := v\<rparr>"
| "set_field (FArchived v) d = d\<lparr>md_archived := v\<rparr>"
| "set_field (FAliases v) d = d\<lparr>md_aliases := v\<rparr>"
| "set_field (FMarketCalendar v) d = d\<lparr>md_market_calendar := v\<rparr>"
| "set_field (FQuotePollSeconds v) d = d\<lparr>md_quote_poll_seconds := v\<rparr>"
| "set_field (FStaleAfterSeconds v) d = d\<lparr>md_stale_after_seconds := v\<rparr>"
| "set_field (FHistory v) d = d\<lparr>md_history := v\<rparr>"
| "set_field (FRoutes v) d = d\<lparr>md_routes := v\<rparr>"
| "set_field (FProviderSymbols v) d = d\<lparr>md_provider_symbols := v\<rparr>"
| "set_field (FIncome v) d = d\<lparr>md_income := v\<rparr>"
| "set_field (FSynthetic v) d = d\<lparr>md_synthetic := v\<rparr>"

text \<open>\<^verbatim>\<open>payload.update(updates)\<close>; the values of the model's fields otherwise.\<close>

definition apply_fields :: "definition_field list \<Rightarrow> managed_definition \<Rightarrow> managed_definition" where
  "apply_fields fs d = fold set_field fs d"

definition has_field :: "string \<Rightarrow> definition_field list \<Rightarrow> bool" where
  "has_field name fs = list_ex (\<lambda>f. field_name f = name) fs"

text \<open>The defaults of \<^verbatim>\<open>ManagedInstrumentDefinition\<close>; required fields have placeholder values.\<close>

definition definition_defaults :: managed_definition where
  "definition_defaults = \<lparr>md_id = [], md_symbol = [], md_base = [], md_quote = [], md_name = [], md_description = [],
     md_asset_class = CRYPTO, md_asset_type = [], md_price_basis = [], md_change_basis = ''unadjusted_market_price'',
     md_ownership = CUSTOM, md_enabled = True, md_archived = False, md_aliases = [], md_market_calendar = ALWAYS_OPEN,
     md_quote_poll_seconds = 5, md_stale_after_seconds = 10,
     md_history = \<lparr>hp_enabled = True, hp_poll_seconds = None, hp_backfill_days = None\<rparr>, md_routes = [],
     md_provider_symbols = [], md_income = None, md_synthetic = None\<rparr>"

definition required_fields :: "string list" where
  "required_fields = [''id'', ''symbol'', ''base'', ''quote'', ''name'', ''description'', ''asset_class'', ''asset_type'',
     ''price_basis'', ''ownership'']"

text \<open>A complete payload; of one with missing fields only the messages about those are kept.\<close>

definition definition_from_payload :: "definition_field list \<Rightarrow> config_error + managed_definition" where
  "definition_from_payload fs =
     (let missing = filter (\<lambda>n. \<not> has_field n fs) required_fields in
      if missing \<noteq> [] then Inl (CatalogValidationError (map (\<lambda>_. ''Field required'') missing))
      else map_error CatalogValidationError (validate_definition (apply_fields fs definition_defaults)))"

definition updated_definition :: "definition_field list \<Rightarrow> managed_definition \<Rightarrow> config_error + managed_definition" where
  "updated_definition fs d = map_error CatalogValidationError (validate_definition (apply_fields fs d))"

subsection \<open>Staging\<close>

definition same_core :: "managed_definition \<Rightarrow> managed_definition \<Rightarrow> bool" where
  "same_core a b = (a\<lparr>md_enabled := md_enabled b, md_quote_poll_seconds := md_quote_poll_seconds b,
     md_stale_after_seconds := md_stale_after_seconds b, md_history := md_history b, md_routes := md_routes b\<rparr> = b)"

definition assert_builtin_update_allowed :: "managed_definition \<Rightarrow> managed_definition \<Rightarrow> config_error + unit" where
  "assert_builtin_update_allowed current candidate =
     (if md_ownership current \<noteq> BUILTIN then Inr ()
      else raise_if (\<not> same_core current candidate)
        (CatalogValidationError [''built-in instrument core fields are read-only: '']) (Inr ()))"

definition staged_base :: "catalog_document \<Rightarrow> catalog_generation" where
  "staged_base doc = (case cd_staged doc of None \<Rightarrow> cd_active doc | Some s \<Rightarrow> s)"

definition stage_generation :: "codec \<Rightarrow> catalog_document \<Rightarrow> catalog_generation \<Rightarrow> config_error + catalog_document" where
  "stage_generation cx doc staged = mk_document cx (cd_active doc) (Some staged) (cd_last_known_good doc)"

definition stage_definitions :: "codec \<Rightarrow> catalog_document \<Rightarrow> managed_definition list \<Rightarrow> config_error + catalog_document" where
  "stage_definitions cx doc definitions =
     map_error (rewrap_value_error CatalogValidationError)
       (res_bind (map_error ConfigValueError (build_generation (cx_revision cx) definitions)) (\<lambda>staged.
        stage_generation cx doc staged))"

fun index_of :: "('a \<Rightarrow> bool) \<Rightarrow> 'a list \<Rightarrow> nat option" where
  "index_of p [] = None"
| "index_of p (x # xs) = (if p x then Some 0 else map_option Suc (index_of p xs))"

definition create_instrument ::
  "codec \<Rightarrow> string \<Rightarrow> definition_field list \<Rightarrow> string \<Rightarrow> policy_store \<Rightarrow> catalog_snapshot store_result" where
  "create_instrument cx fresh_uuid instrument expected_revision =
     locked_update cx expected_revision None (\<lambda>document.
       raise_if (has_field ''id'' instrument \<or> has_field ''ownership'' instrument)
         (CatalogValidationError [''custom instrument id and ownership are server-managed'']) (
       res_bind (definition_from_payload (instrument @ [FId (''custom-'' @ fresh_uuid), FOwnership CUSTOM])) (\<lambda>candidate.
       stage_definitions cx document (cg_instruments (staged_base document) @ [candidate]))))"

definition update_instrument ::
  "codec \<Rightarrow> string \<Rightarrow> definition_field list \<Rightarrow> string \<Rightarrow> policy_store \<Rightarrow> catalog_snapshot store_result" where
  "update_instrument cx instrument_id updates expected_revision =
     locked_update cx expected_revision None (\<lambda>document.
       raise_if (has_field ''id'' updates \<or> has_field ''ownership'' updates)
         (CatalogValidationError [''instrument id and ownership are immutable'']) (
       let definitions = cg_instruments (staged_base document) in
       case index_of (\<lambda>item. md_id item = instrument_id) definitions of
         None \<Rightarrow> Inl (ConfigKeyError instrument_id)
       | Some index \<Rightarrow>
           res_bind (updated_definition updates (definitions ! index)) (\<lambda>candidate.
           res_bind (assert_builtin_update_allowed (definitions ! index) candidate) (\<lambda>_.
           stage_definitions cx document (definitions[index := candidate])))))"

definition archive_instrument :: "codec \<Rightarrow> string \<Rightarrow> string \<Rightarrow> policy_store \<Rightarrow> catalog_snapshot store_result" where
  "archive_instrument cx instrument_id expected_revision =
     locked_update cx expected_revision None (\<lambda>document.
       let definitions = cg_instruments (staged_base document) in
       case index_of (\<lambda>item. md_id item = instrument_id) definitions of
         None \<Rightarrow> Inl (ConfigKeyError instrument_id)
       | Some index \<Rightarrow>
           raise_if (md_ownership (definitions ! index) = BUILTIN)
             (CatalogValidationError [''built-in instruments can be disabled but not archived'']) (
           res_bind (updated_definition [FEnabled False, FArchived True] (definitions ! index)) (\<lambda>candidate.
           stage_definitions cx document (definitions[index := candidate]))))"

definition builtin_ids :: "managed_definition list \<Rightarrow> string list" where
  "builtin_ids items = map md_id (filter (\<lambda>i. md_ownership i = BUILTIN) items)"

definition assert_complete_builtin_set :: "codec \<Rightarrow> registry \<Rightarrow> catalog_generation \<Rightarrow> config_error + unit" where
  "assert_complete_builtin_set cx catalog g =
     res_bind (baseline_generation cx catalog) (\<lambda>baseline.
     raise_if (set (builtin_ids (cg_instruments g)) \<noteq> set (builtin_ids (cg_instruments baseline)))
       (CatalogValidationError [''staged catalog must retain every built-in instrument'']) (Inr ()))"

fun assert_updates_allowed :: "(string, managed_definition) dict \<Rightarrow> managed_definition list \<Rightarrow> config_error + unit" where
  "assert_updates_allowed current_by_id [] = Inr ()"
| "assert_updates_allowed current_by_id (item # items) =
     res_bind (case dict_get current_by_id (md_id item) of
         None \<Rightarrow> Inr () | Some current \<Rightarrow> assert_builtin_update_allowed current item) (\<lambda>_.
     assert_updates_allowed current_by_id items)"

text \<open>\<^verbatim>\<open>replace_staged\<close> with a generation object, validated when it came as JSON.\<close>

definition replace_staged ::
  "codec \<Rightarrow> catalog_generation \<Rightarrow> string \<Rightarrow> policy_store \<Rightarrow> catalog_snapshot store_result" where
  "replace_staged cx g expected_revision st =
     locked_update cx expected_revision None (\<lambda>document.
       res_bind (map_error CatalogValidationError (validate_generation (cx_revision cx) g)) (\<lambda>candidate.
       res_bind (assert_complete_builtin_set cx (st_catalog st) candidate) (\<lambda>_.
       res_bind (assert_updates_allowed (by_id (staged_base document)) (cg_instruments candidate)) (\<lambda>_.
       stage_generation cx document candidate)))) st"

subsection \<open>Import\<close>

record import_payload =
  im_unsupported_fields :: bool
  im_size :: nat
  im_version :: "nat option"
  im_revision :: "string option"
  im_instruments :: "definition_field list list option"

definition MAX_CATALOG_IMPORT_BYTES :: nat where "MAX_CATALOG_IMPORT_BYTES = 8 * 1024 * 1024"

text \<open>One imported item: replaces the entry of its id or is appended.\<close>

definition merge_item :: "managed_definition \<Rightarrow> managed_definition list \<Rightarrow> managed_definition list" where
  "merge_item item merged =
     (case index_of (\<lambda>m. md_id m = md_id item) merged of
        None \<Rightarrow> merged @ [item]
      | Some index \<Rightarrow> merged[index := item])"

fun merge_items ::
  "(string, managed_definition) dict \<Rightarrow> managed_definition list \<Rightarrow> managed_definition list \<Rightarrow>
   config_error + managed_definition list" where
  "merge_items base_by_id [] merged = Inr merged"
| "merge_items base_by_id (item # items) merged =
     res_bind (if md_ownership item = BUILTIN then
         (case dict_get base_by_id (md_id item) of
            None \<Rightarrow> Inl (CatalogValidationError [''catalog import contains an unknown built-in id''])
          | Some current \<Rightarrow>
              raise_if (md_ownership current \<noteq> BUILTIN)
                (CatalogValidationError [''catalog import contains an unknown built-in id''])
              (assert_builtin_update_allowed current item))
       else Inr ()) (\<lambda>_.
     merge_items base_by_id items (merge_item item merged))"

definition import_base :: "string \<Rightarrow> catalog_generation \<Rightarrow> config_error + managed_definition list" where
  "import_base mode base =
     (if mode = ''merge'' then Inr (cg_instruments base)
      else if mode = ''replace_custom'' \<or> mode = ''replace-custom''
      then Inr (filter (\<lambda>i. md_ownership i = BUILTIN) (cg_instruments base))
      else Inl (CatalogValidationError [''catalog import mode must be merge or replace_custom'']))"

definition import_items :: "codec \<Rightarrow> import_payload \<Rightarrow> config_error + managed_definition list" where
  "import_items cx payload =
     raise_if (im_unsupported_fields payload) (CatalogValidationError [''catalog import contains unsupported fields'']) (
     raise_if (MAX_CATALOG_IMPORT_BYTES < im_size payload) (CatalogValidationError [''catalog import is too large'']) (
     raise_if (im_version payload \<noteq> Some 2) (CatalogValidationError [''catalog import has an unsupported version'']) (
     case im_instruments payload of
       None \<Rightarrow> Inl (CatalogValidationError [''catalog import instruments must be an array''])
     | Some raw \<Rightarrow>
         res_bind (res_map definition_from_payload raw) (\<lambda>imported.
         case im_revision payload of
           None \<Rightarrow> Inr imported
         | Some r \<Rightarrow>
             res_bind (map_error CatalogValidationError
               (validate_generation (cx_revision cx) \<lparr>cg_revision = r, cg_instruments = imported\<rparr>)) (\<lambda>g.
             Inr (cg_instruments g))))))"

definition import_catalog ::
  "codec \<Rightarrow> import_payload \<Rightarrow> string \<Rightarrow> string \<Rightarrow> policy_store \<Rightarrow> catalog_snapshot store_result" where
  "import_catalog cx payload mode expected_revision =
     locked_update cx expected_revision None (\<lambda>document.
       res_bind (import_items cx payload) (\<lambda>incoming.
       let base = staged_base document in
       res_bind (import_base mode base) (\<lambda>merged.
       res_bind (merge_items (by_id base) incoming merged) (\<lambda>merged'.
       stage_definitions cx document merged'))))"

subsection \<open>The legacy policy\<close>

record policy_update =
  pu_unsupported_fields :: bool
  pu_symbol :: string
  pu_enabled :: "bool option"
  pu_poll :: "rat option"
  pu_stale :: "rat option"

fun apply_policy_updates ::
  "registry \<Rightarrow> policy_update list \<Rightarrow> string list \<Rightarrow> managed_definition list \<Rightarrow> config_error + managed_definition list" where
  "apply_policy_updates catalog [] seen definitions = Inr definitions"
| "apply_policy_updates catalog (u # us) seen definitions =
     raise_if (pu_unsupported_fields u) (ConfigValueError [''instrument updates contain unsupported fields'']) (
     case canonical_symbol (normalize_symbol (pu_symbol u)) catalog of
       None \<Rightarrow> Inl (ConfigValueError [''unknown or duplicate installed instrument: ''])
     | Some canonical \<Rightarrow>
         raise_if (canonical \<in> set seen) (ConfigValueError [''unknown or duplicate installed instrument: '']) (
         case pu_enabled u of
           None \<Rightarrow> Inl (ConfigValueError [''enabled must be a boolean for ''])
         | Some enabled \<Rightarrow>
             (case index_of (\<lambda>d. md_symbol d = canonical) definitions of
                None \<Rightarrow> Inl (ConfigKeyError canonical)
              | Some index \<Rightarrow>
                  let item = definitions ! index;
                      poll = (case pu_poll u of None \<Rightarrow> md_quote_poll_seconds item | Some p \<Rightarrow> p);
                      stale = (case pu_stale u of None \<Rightarrow> md_stale_after_seconds item | Some s \<Rightarrow> s) in
                  res_bind (map_error (rewrap_value_error ConfigValueError)
                      (updated_definition [FEnabled enabled, FQuotePollSeconds poll, FStaleAfterSeconds stale] item)) (\<lambda>d.
                  apply_policy_updates catalog us (canonical # seen) (definitions[index := d])))))"

definition legacy_policy_generation ::
  "codec \<Rightarrow> registry \<Rightarrow> catalog_generation \<Rightarrow> policy_update list \<Rightarrow> config_error + catalog_generation" where
  "legacy_policy_generation cx catalog base updates =
     raise_if (length (registry_symbols catalog) < length updates) (ConfigValueError [''invalid instrument policy update'']) (
     res_bind (apply_policy_updates catalog updates [] (cg_instruments base)) (\<lambda>definitions.
     map_error ConfigValueError (build_generation (cx_revision cx) definitions)))"

definition patch_active ::
  "codec \<Rightarrow> policy_update list \<Rightarrow> string \<Rightarrow> policy_store \<Rightarrow> catalog_snapshot store_result" where
  "patch_active cx updates expected_revision st =
     locked_update cx expected_revision None (\<lambda>document.
       res_bind (legacy_policy_generation cx (st_catalog st) (cd_active document) updates) (\<lambda>active.
       mk_document cx active (cd_staged document) (Some (cd_active document)))) st"

definition stage_patch ::
  "codec \<Rightarrow> policy_update list \<Rightarrow> string \<Rightarrow> policy_store \<Rightarrow> catalog_snapshot store_result" where
  "stage_patch cx updates expected_revision st =
     locked_update cx expected_revision None (\<lambda>document.
       res_bind (legacy_policy_generation cx (st_catalog st) (staged_base document) updates) (\<lambda>staged.
       stage_generation cx document staged)) st"

subsection \<open>Reports\<close>

definition export_catalog :: "codec \<Rightarrow> bool \<Rightarrow> policy_store \<Rightarrow> config_error + catalog_generation" where
  "export_catalog cx active st =
     res_bind (read_locked cx st) (\<lambda>(_, document).
     if active then Inr (cd_active document)
     else case cd_staged document of
            None \<Rightarrow> Inl (CatalogValidationError [''there is no staged catalog to export''])
          | Some g \<Rightarrow> Inr g)"

record store_validation =
  vd_revision :: string
  vd_generation_revision :: string
  vd_staged :: bool
  vd_total :: nat
  vd_active :: nat
  vd_custom :: nat

definition validate_store :: "codec \<Rightarrow> string option \<Rightarrow> policy_store \<Rightarrow> config_error + store_validation" where
  "validate_store cx expected_revision st =
     res_bind (read_locked cx st) (\<lambda>(content, document).
     res_bind (case expected_revision of None \<Rightarrow> Inr () | Some r \<Rightarrow> assert_revision cx content r) (\<lambda>_.
     let g = staged_base document in
     Inr \<lparr>vd_revision = cx_sha256 cx content, vd_generation_revision = cg_revision g,
          vd_staged = (cd_staged document \<noteq> None), vd_total = length (cg_instruments g),
          vd_active = length (filter is_live (cg_instruments g)),
          vd_custom = length (filter (\<lambda>i. md_ownership i = CUSTOM) (cg_instruments g))\<rparr>))"

end
