(* ===== verification/QP_PolicyStore_Props.thy ===== *)
theory QP_PolicyStore_Props
  imports QP_PolicyEdit
begin

text \<open>
  The activation lease of the instrument catalogue over every interleaving of the store's
  operations: while it is held nobody else changes the file, and its holder can always bring
  back the exact bytes the lease was taken on.
\<close>

subsection \<open>Operations as data\<close>

datatype store_op =
    OpPersistMigration
  | OpCapture string string
  | OpCommit transition_token string
  | OpAbort transition_token
  | OpRestore transition_token string
  | OpMarkApplied "string option"
  | OpActivate string "string option" "transition_token option"
  | OpRollback string "transition_token option"
  | OpCreate string "definition_field list" string
  | OpUpdate string "definition_field list" string
  | OpArchive string string
  | OpReplace catalog_generation string
  | OpImport import_payload string string
  | OpPatch "policy_update list" string
  | OpStagePatch "policy_update list" string

fun exec_op :: "codec \<Rightarrow> store_op \<Rightarrow> policy_store \<Rightarrow> policy_store" where
  "exec_op cx OpPersistMigration st = fst (persist_migration cx st)"
| "exec_op cx (OpCapture r l) st = fst (capture_transition cx r l st)"
| "exec_op cx (OpCommit t r) st = fst (commit_transition cx t r st)"
| "exec_op cx (OpAbort t) st = fst (abort_transition t st)"
| "exec_op cx (OpRestore t r) st = fst (restore_transition cx t r st)"
| "exec_op cx (OpMarkApplied r) st = fst (mark_runtime_applied cx r st)"
| "exec_op cx (OpActivate r s t) st = fst (activate_staged cx r s t st)"
| "exec_op cx (OpRollback r t) st = fst (rollback cx r t st)"
| "exec_op cx (OpCreate u fs r) st = fst (create_instrument cx u fs r st)"
| "exec_op cx (OpUpdate i fs r) st = fst (update_instrument cx i fs r st)"
| "exec_op cx (OpArchive i r) st = fst (archive_instrument cx i r st)"
| "exec_op cx (OpReplace g r) st = fst (replace_staged cx g r st)"
| "exec_op cx (OpImport p m r) st = fst (import_catalog cx p m r st)"
| "exec_op cx (OpPatch us r) st = fst (patch_active cx us r st)"
| "exec_op cx (OpStagePatch us r) st = fst (stage_patch cx us r st)"

text \<open>The lease an operation presents, and whether it would end that lease.\<close>

fun op_lease :: "store_op \<Rightarrow> string option" where
  "op_lease (OpCommit t _) = Some (tk_lease_id t)"
| "op_lease (OpAbort t) = Some (tk_lease_id t)"
| "op_lease (OpRestore t _) = Some (tk_lease_id t)"
| "op_lease (OpActivate _ _ t) = map_option tk_lease_id t"
| "op_lease (OpRollback _ t) = map_option tk_lease_id t"
| "op_lease _ = None"

fun op_releases :: "store_op \<Rightarrow> string option" where
  "op_releases (OpCommit t _) = Some (tk_lease_id t)"
| "op_releases (OpAbort t) = Some (tk_lease_id t)"
| "op_releases (OpRestore t _) = Some (tk_lease_id t)"
| "op_releases _ = None"

subsection \<open>One operation under a lease\<close>

definition leased :: "string \<Rightarrow> policy_store \<Rightarrow> bool" where
  "leased l st \<longleftrightarrow> st_transition_id st = Some l \<and> length (st_file st) \<le> MAX_CATALOG_FILE_BYTES"

lemma write_locked_leased:
  assumes "leased l st" and "write_locked cx doc token st = Inr st'"
  shows "leased l st' \<and> st_catalog st' = st_catalog st \<and> map_option tk_lease_id token = Some l"
  using assms
  by (auto simp: write_locked_def serialize_catalog_document_def leased_def holds_lease_def res_simps split: option.splits)

lemma locked_update_leased:
  assumes "leased l st"
  shows "leased l (fst (locked_update cx r token f st)) \<and> st_catalog (fst (locked_update cx r token f st)) = st_catalog st
    \<and> (map_option tk_lease_id token \<noteq> Some l \<longrightarrow> st_file (fst (locked_update cx r token f st)) = st_file st)"
  using assms write_locked_leased [OF assms, of cx _ token]
  by (auto simp: locked_update_def res_bind_Inr_iff split: sum.splits)

lemma holds_lease_leased: "leased l st \<Longrightarrow> holds_lease (Some t) st \<longleftrightarrow> tk_lease_id t = l"
  by (simp add: leased_def holds_lease_def)

lemmas writer_defs = activate_staged_def rollback_def create_instrument_def update_instrument_def archive_instrument_def
  replace_staged_def import_catalog_def patch_active_def stage_patch_def

lemma exec_op_leased:
  assumes l: "leased l st" and keep: "op_releases op \<noteq> Some l"
  shows "leased l (exec_op cx op st) \<and> st_catalog (exec_op cx op st) = st_catalog st
    \<and> (op_lease op \<noteq> Some l \<longrightarrow> st_file (exec_op cx op st) = st_file st)"
proof -
  have tid: "st_transition_id st = Some l" using l by (simp add: leased_def)
  have refused: "assert_transition t st = Inl (RevisionConflictError [''instrument catalog activation lease is not current''])"
    if "tk_lease_id t \<noteq> l" for t
    using that holds_lease_leased [OF l, of t] by (simp add: assert_transition_def)
  show ?thesis
  proof (cases op)
    case OpPersistMigration
    then show ?thesis using l tid by (simp add: persist_migration_def)
  next
    case (OpCapture r k)
    then show ?thesis using l tid by (simp add: capture_transition_def)
  next
    case (OpCommit t r)
    then show ?thesis using l keep refused by (simp add: commit_transition_def)
  next
    case (OpAbort t)
    then show ?thesis using l keep refused by (simp add: abort_transition_def)
  next
    case (OpRestore t r)
    then show ?thesis using l keep refused
      by (auto simp: restore_transition_def res_bind_def split: sum.splits)
  next
    case (OpMarkApplied r)
    then show ?thesis using l by (auto simp: mark_runtime_applied_def leased_def split: sum.splits)
  qed (use locked_update_leased [OF l] in \<open>simp_all add: writer_defs\<close>)
qed

definition run_ops :: "codec \<Rightarrow> store_op list \<Rightarrow> policy_store \<Rightarrow> policy_store" where
  "run_ops cx ops st = fold (exec_op cx) ops st"

lemma run_ops_leased:
  assumes "leased l st" and "list_all (\<lambda>op. op_releases op \<noteq> Some l) ops"
  shows "leased l (run_ops cx ops st) \<and> st_catalog (run_ops cx ops st) = st_catalog st
    \<and> (list_all (\<lambda>op. op_lease op \<noteq> Some l) ops \<longrightarrow> st_file (run_ops cx ops st) = st_file st)"
  using assms
proof (induction ops arbitrary: st)
  case (Cons op ops)
  have step: "leased l (exec_op cx op st) \<and> st_catalog (exec_op cx op st) = st_catalog st
      \<and> (op_lease op \<noteq> Some l \<longrightarrow> st_file (exec_op cx op st) = st_file st)"
    using exec_op_leased [OF Cons.prems(1)] Cons.prems(2) by simp
  from Cons.IH [of "exec_op cx op st"] step Cons.prems(2) show ?case by (simp add: run_ops_def)
qed (simp add: run_ops_def)

lemma capture_transition_iff:
  "capture_transition cx r l st = (st1, Inr token) \<longleftrightarrow>
     st_transition_id st = None \<and> st1 = st\<lparr>st_transition_id := Some l\<rparr>
     \<and> token = \<lparr>tk_content = st_file st, tk_revision = cx_sha256 cx (st_file st), tk_lease_id = l\<rparr>
     \<and> length (st_file st) \<le> MAX_CATALOG_FILE_BYTES
     \<and> (\<exists>doc w. load_catalog_document cx (st_catalog st) (st_file st) = Inr (doc, w))
     \<and> hmac_compare_revision (cx_sha256 cx (st_file st)) r"
  by (auto simp: capture_transition_def read_locked_def read_bytes_def assert_revision_def res_simps not_less split: sum.splits)

text \<open>
  C2. The activation lease: from the moment it is captured, over any sequence of operations
  of any callers (migration, drafts, imports, other captures, activations and rollbacks with
  whatever tokens) that does not release it, the file stays byte for byte what it was unless
  the holder itself writes; and at every moment the holder's restore, given the current
  revision, succeeds, brings back exactly the captured bytes and ends the lease.
\<close>

theorem lease_protects_catalog:
  assumes "capture_transition cx r l st = (st1, Inr token)"
    and "list_all (\<lambda>op. op_releases op \<noteq> Some l) ops" and "\<And>s. length (cx_sha256 cx s) = 64"
  shows "(list_all (\<lambda>op. op_lease op \<noteq> Some l) ops \<longrightarrow> st_file (run_ops cx ops st1) = st_file st)
    \<and> (\<exists>st3 snapshot. restore_transition cx token (cx_sha256 cx (st_file (run_ops cx ops st1))) (run_ops cx ops st1)
          = (st3, Inr snapshot)
        \<and> st_file st3 = st_file st \<and> st_transition_id st3 = None \<and> sp_revision snapshot = cx_sha256 cx (st_file st))"
proof -
  note cap = assms(1) [unfolded capture_transition_iff]
  have "leased l st1" using cap by (simp add: leased_def)
  note run = run_ops_leased [OF this assms(2), of cx]
  let ?st2 = "run_ops cx ops st1"
  obtain doc w where load: "load_catalog_document cx (st_catalog st) (st_file st) = Inr (doc, w)" using cap by blast
  have cat: "st_catalog ?st2 = st_catalog st" using run cap by simp
  have "holds_lease (Some token) ?st2" using holds_lease_leased [of l ?st2 token] run cap by simp
  moreover have "read_bytes ?st2 = Inr (st_file ?st2)" using run by (simp add: read_bytes_def leased_def)
  moreover have "assert_revision cx (st_file ?st2) (cx_sha256 cx (st_file ?st2)) = Inr ()"
    using assms(3) by (simp add: assert_revision_def hmac_compare_revision_def)
  ultimately have "restore_transition cx token (cx_sha256 cx (st_file ?st2)) ?st2 =
      (let st' = ?st2\<lparr>st_file := st_file st, st_transition_id := None\<rparr> in (st', catalog_snapshot_of cx st'))"
    using cap load cat by (simp add: restore_transition_def assert_transition_def)
  moreover have "\<exists>snap. catalog_snapshot_of cx (?st2\<lparr>st_file := st_file st, st_transition_id := None\<rparr>) = Inr snap
      \<and> sp_revision snap = cx_sha256 cx (st_file st)"
    using load cat cap by (simp add: catalog_snapshot_of_def read_locked_def read_bytes_def)
  ultimately show ?thesis using run cap by auto
qed


end
