(* ===== verification/QP_Policy_Props.thy ===== *)
theory QP_Policy_Props
  imports QP_Policy QP_Generation_Props
begin

text \<open>
  Reconciliation of a persisted catalogue with the installed built-ins is a projection:
  what it produces it leaves alone, so a migrated file needs no second migration.
\<close>

subsection \<open>Baselines\<close>

definition clean_routes :: "capability_route list \<Rightarrow> bool" where
  "clean_routes routes \<longleftrightarrow> distinct (map cr_capability routes)
     \<and> list_all (\<lambda>r. ''binance_wbeth_rate'' \<notin> set (cr_providers r)) routes"

definition baseline_ok :: "catalog_generation \<Rightarrow> bool" where
  "baseline_ok b \<longleftrightarrow> distinct (map md_id (cg_instruments b))
     \<and> list_all (\<lambda>d. md_ownership d = BUILTIN \<and> \<not> md_archived d \<and> clean_routes (md_routes d)
         \<and> validate_definition d = Inr d) (cg_instruments b)"

subsection \<open>Routes and histories\<close>

lemma dict_index_get:
  "dict_get (fold (\<lambda>x. dict_set (f x) x) xs m) k =
     (case find (\<lambda>x. f x = k) (rev xs) of Some x \<Rightarrow> Some x | None \<Rightarrow> dict_get m k)"
proof (induction xs rule: rev_induct)
  case (snoc x xs)
  then show ?case by (auto simp: dict_get_set)
qed simp

lemma dict_index_iff:
  assumes "distinct (map f xs)"
  shows "dict_get (fold (\<lambda>x. dict_set (f x) x) xs []) k = Some x \<longleftrightarrow> x \<in> set xs \<and> f x = k"
proof -
  have "find (\<lambda>x. f x = k) ys = Some x \<longleftrightarrow> x \<in> set ys \<and> f x = k" if "distinct (map f ys)" for ys
    using that by (induction ys) (auto simp: image_iff)
  from this [of "rev xs"] assms show ?thesis
    unfolding dict_index_get by (cases "find (\<lambda>x. f x = k) (rev xs)") (simp_all add: rev_map [symmetric])
qed

lemma route_by_capability_iff:
  "distinct (map cr_capability routes) \<Longrightarrow>
     route_by_capability routes c = Some r \<longleftrightarrow> r \<in> set routes \<and> cr_capability r = c"
  by (simp add: route_by_capability_def dict_index_iff)

lemma migrated_clean: "''binance_wbeth_rate'' \<notin> set ps \<Longrightarrow> map migrated_provider ps = ps"
  by (induction ps) (auto simp: migrated_provider_def)

lemma migrated_idem: "map migrated_provider (map migrated_provider ps) = map migrated_provider ps"
  by (simp add: migrated_provider_def)

lemma migrated_changed: "map migrated_provider ps \<noteq> ps \<Longrightarrow> ''binance_staking_rate'' \<in> set (map migrated_provider ps)"
  using migrated_clean [of ps] by (force simp: migrated_provider_def)

lemma defaults_without_new_name:
  "ps \<in> set (dict_list BUILTIN_ROUTE_DEFAULT_MIGRATIONS k) \<Longrightarrow> ''binance_staking_rate'' \<notin> set ps"
  by (auto simp: BUILTIN_ROUTE_DEFAULT_MIGRATIONS_def dict_list_def split: if_splits option.splits)

lemma reconciled_route_baseline:
  assumes "clean_routes routes" and "r \<in> set routes"
  shows "reconciled_route symbol routes r = r"
proof -
  have "route_by_capability routes (cr_capability r) = Some r"
    using assms by (simp add: route_by_capability_iff clean_routes_def)
  moreover have "map migrated_provider (cr_providers r) = cr_providers r"
    using assms by (intro migrated_clean) (auto simp: clean_routes_def list_all_iff)
  ultimately show ?thesis by (simp add: reconciled_route_def Let_def)
qed

lemma reconciled_route_idem:
  assumes "clean_routes routes"
  shows "reconciled_route symbol routes (reconciled_route symbol routes r) = reconciled_route symbol routes r"
proof (cases "if cr_providers r \<in> set (dict_list BUILTIN_ROUTE_DEFAULT_MIGRATIONS (symbol, cr_capability r))
    then route_by_capability routes (cr_capability r) else None")
  case (Some b)
  then have "b \<in> set routes" using assms by (simp add: route_by_capability_iff clean_routes_def split: if_splits)
  then show ?thesis using Some assms by (simp add: reconciled_route_def [of symbol routes r] reconciled_route_baseline)
next
  case None
  let ?ps = "map migrated_provider (cr_providers r)"
  show ?thesis
  proof (cases "?ps = cr_providers r")
    case True
    then have "reconciled_route symbol routes r = r" using None by (simp add: reconciled_route_def)
    then show ?thesis by simp
  next
    case False
    have "?ps \<notin> set (dict_list BUILTIN_ROUTE_DEFAULT_MIGRATIONS k)" for k
      using defaults_without_new_name migrated_changed [OF False] by blast
    moreover have "reconciled_route symbol routes r = r\<lparr>cr_providers := ?ps\<rparr>"
      using None False by (simp add: reconciled_route_def Let_def)
    ultimately show ?thesis by (simp add: reconciled_route_def [of _ _ "r\<lparr>cr_providers := ?ps\<rparr>"] migrated_provider_def)
  qed
qed

lemma reconciled_history_idem: "reconciled_history (reconciled_history h b) b = reconciled_history h b"
  by (simp add: reconciled_history_def)

lemma reconciled_history_self: "reconciled_history h h = h"
  by (cases h) (simp add: reconciled_history_def)

subsection \<open>Definitions and generations\<close>

lemma reconciled_definition_idem:
  assumes "clean_routes (md_routes e)" and "md_symbol d = md_symbol e"
  shows "reconciled_definition e (reconciled_definition e d) = reconciled_definition e d"
proof -
  have map_idem: "map (reconciled_route s (md_routes e)) (map (reconciled_route s (md_routes e)) rs)
      = map (reconciled_route s (md_routes e)) rs" for s rs
    using reconciled_route_idem [OF assms(1)] by (simp add: comp_def)
  have map_base: "map (reconciled_route s (md_routes e)) (md_routes e) = md_routes e" for s
    by (rule map_idI) (rule reconciled_route_baseline [OF assms(1)])
  show ?thesis
    using assms(2)
    by (simp add: reconciled_definition_def reconciled_builtin_routes_def reconciled_history_idem map_base
        reconciled_route_idem [OF assms(1)] comp_def)
qed

lemma reconciled_definition_self:
  assumes "clean_routes (md_routes e)" and "\<not> md_archived e"
  shows "reconciled_definition e e = e"
proof -
  have "map (reconciled_route s (md_routes e)) (md_routes e) = md_routes e" for s
    by (rule map_idI) (rule reconciled_route_baseline [OF assms(1)])
  then show ?thesis
    using assms(2) by (simp add: reconciled_definition_def reconciled_builtin_routes_def reconciled_history_self)
qed

lemma by_id_iff:
  "distinct (map md_id (cg_instruments b)) \<Longrightarrow>
     dict_get (by_id b) k = Some d \<longleftrightarrow> d \<in> set (cg_instruments b) \<and> md_id d = k"
  by (simp add: by_id_def dict_index_iff)

lemma reconcile_item_shape:
  assumes "baseline_ok b" and "reconcile_item (by_id b) item = Inr r"
  shows "md_id r = md_id item \<and> (md_ownership r = CUSTOM \<longleftrightarrow> md_ownership item = CUSTOM)
    \<and> (md_ownership item \<noteq> CUSTOM \<longrightarrow> md_id item \<in> md_id ` set (cg_instruments b))
    \<and> reconcile_item (by_id b) r = Inr r"
proof (cases "md_ownership item = CUSTOM")
  case True
  then show ?thesis using assms(2) by (auto simp: reconcile_item_def)
next
  case False
  then obtain e where e: "dict_get (by_id b) (md_id item) = Some e" and sym: "md_symbol item = md_symbol e"
    and r: "r = reconciled_definition e item" "validate_definition r = Inr r"
    using assms(2) by (auto simp: reconcile_item_def res_simps split: option.splits dest: validate_definition_same)
  have "e \<in> set (cg_instruments b)" "md_id e = md_id item"
    using e assms(1) by (simp_all add: by_id_iff baseline_ok_def)
  note e_in = this
  have clean: "clean_routes (md_routes e)" and own: "md_ownership e = BUILTIN"
    using assms(1) e_in by (auto simp: baseline_ok_def list_all_iff)
  have r_sel: "md_id r = md_id item" "md_ownership r = BUILTIN" "md_symbol r = md_symbol e"
    using own e_in by (simp_all add: r(1) reconciled_definition_def)
  have "reconciled_definition e r = r" using reconciled_definition_idem [OF clean sym] r(1) by simp
  then have "reconcile_item (by_id b) r = Inr r"
    using e r_sel r(2) by (simp add: reconcile_item_def)
  moreover have "md_id item \<in> md_id ` set (cg_instruments b)" using e_in by (metis image_eqI)
  ultimately show ?thesis using False r_sel by simp
qed

lemma reconcile_item_baseline:
  assumes "baseline_ok b" and "d \<in> set (cg_instruments b)"
  shows "reconcile_item (by_id b) d = Inr d"
proof -
  have "dict_get (by_id b) (md_id d) = Some d" using assms by (simp add: by_id_iff baseline_ok_def)
  then show ?thesis using assms
    by (auto simp: reconcile_item_def baseline_ok_def list_all_iff reconciled_definition_self)
qed

lemma reconcile_generation_idem:
  assumes ok: "baseline_ok b" and run: "reconcile_generation cx b g = Inr g'"
  shows "reconcile_generation cx b g' = Inr g'"
proof -
  let ?seen = "map md_id (filter (\<lambda>i. md_ownership i \<noteq> CUSTOM) (cg_instruments g))"
  let ?extra = "filter (\<lambda>i. md_id i \<notin> set ?seen) (cg_instruments b)"
  obtain rs where rs: "list_all2 (\<lambda>i r. reconcile_item (by_id b) i = Inr r) (cg_instruments g) rs"
    and build: "build_generation (cx_revision cx) (rs @ ?extra) = Inr g'"
    using run by (auto simp: reconcile_generation_def res_simps)
  have items: "cg_instruments g' = rs @ ?extra" using build by (simp add: build_generation_iff)
  have again: "list_all2 (\<lambda>i r. reconcile_item (by_id b) i = Inr r) (rs @ ?extra) (rs @ ?extra)"
  proof (rule list_all2_appendI)
    show "list_all2 (\<lambda>i r. reconcile_item (by_id b) i = Inr r) rs rs"
      using rs reconcile_item_shape [OF ok] by (auto simp: list_all2_conv_all_nth)
    show "list_all2 (\<lambda>i r. reconcile_item (by_id b) i = Inr r) ?extra ?extra"
      using reconcile_item_baseline [OF ok] by (auto simp: list_all2_same)
  qed
  have seen: "map md_id (filter (\<lambda>i. md_ownership i \<noteq> CUSTOM) rs) = ?seen"
    using rs
  proof (induction rule: list_all2_induct)
    case (Cons x xs y ys)
    then show ?case using reconcile_item_shape [OF ok, of x y] by simp
  qed simp
  have covered: "md_id x \<in> set (map md_id (filter (\<lambda>i. md_ownership i \<noteq> CUSTOM) (rs @ ?extra)))"
    if x: "x \<in> set (cg_instruments b)" for x
  proof (cases "md_id x \<in> set ?seen")
    case True
    then show ?thesis using seen by simp
  next
    case False
    moreover have "md_ownership x \<noteq> CUSTOM" using ok x by (auto simp: baseline_ok_def list_all_iff)
    ultimately show ?thesis using x by auto
  qed
  then have none: "filter (\<lambda>i. md_id i \<notin> set (map md_id (filter (\<lambda>i. md_ownership i \<noteq> CUSTOM) (rs @ ?extra))))
      (cg_instruments b) = []"
    unfolding filter_empty_conv by blast
  have "res_map (reconcile_item (by_id b)) (rs @ ?extra) = Inr (rs @ ?extra)"
    using again unfolding res_map_Inr_iff .
  then show ?thesis
    unfolding reconcile_generation_def items by (simp only: res_bind_simps Let_def none append_Nil2 build map_error_Inr)
qed

subsection \<open>Generations made from the registry\<close>

definition without_old_names :: "catalog_generation \<Rightarrow> bool" where
  "without_old_names b \<longleftrightarrow>
     list_all (\<lambda>d. list_all (\<lambda>r. ''binance_wbeth_rate'' \<notin> set (cr_providers r)) (md_routes d)) (cg_instruments b)"

lemma from_instrument_spec_eq:
  assumes "from_instrument_spec item i own en routes syms synth = Inr d"
  shows "d = \<lparr>md_id = i, md_symbol = is_symbol item, md_base = is_base item, md_quote = is_quote item,
         md_name = is_name item, md_description = is_description item, md_asset_class = is_asset_class item,
         md_asset_type = is_asset_type item, md_price_basis = is_price_basis item,
         md_change_basis = is_change_basis item, md_ownership = own, md_enabled = en,
         md_archived = False, md_aliases = is_aliases item, md_market_calendar = is_market_calendar item,
         md_quote_poll_seconds = is_quote_poll_seconds item, md_stale_after_seconds = is_stale_after_seconds item,
         md_history = \<lparr>hp_enabled = is_history_enabled item, hp_poll_seconds = is_history_poll_seconds item,
                     hp_backfill_days = None\<rparr>, md_routes = routes, md_provider_symbols = syms,
         md_income = spec_income item, md_synthetic = synth\<rparr>"
  using assms unfolding from_instrument_spec_def Let_def res_bind_Inr_iff by (blast dest: validate_definition_same)

lemma from_instrument_spec_sel:
  assumes "from_instrument_spec item i own en routes syms synth = Inr d"
  shows "validate_definition d = Inr d" and "md_id d = i" and "md_ownership d = own" and "\<not> md_archived d"
    and "md_symbol d = is_symbol item" and "md_routes d = routes"
  using assms by (auto simp: from_instrument_spec_def Let_def res_simps dest: validate_definition_same)

lemma validated_routes_distinct:
  "validate_definition d = Inr d \<Longrightarrow> distinct (map cr_capability (md_routes d))"
  by (auto simp: validate_definition_def definition_field_errors_def res_simps tuple_errors_def distinct_errors_def Let_def
      split: if_splits)

lemma catalog_generation_items:
  assumes "catalog_generation_from_registry cx catalog dis ov = Inr g"
  shows "list_all2 (\<lambda>i d. baseline_definition (installed_routes (rg_plugins catalog)) dis ov i = Inr d)
      (dict_values (rg_instruments catalog)) (cg_instruments g)"
    and "build_generation (cx_revision cx) (cg_instruments g) = Inr g"
proof -
  from assms obtain ds where ds: "list_all2 (\<lambda>i d. baseline_definition (installed_routes (rg_plugins catalog)) dis ov i = Inr d)
      (dict_values (rg_instruments catalog)) ds" and g: "build_generation (cx_revision cx) ds = Inr g"
    by (auto simp: catalog_generation_from_registry_def res_simps)
  have "cg_instruments g = ds" using g by (simp add: build_generation_iff)
  with ds g show "list_all2 (\<lambda>i d. baseline_definition (installed_routes (rg_plugins catalog)) dis ov i = Inr d)
      (dict_values (rg_instruments catalog)) (cg_instruments g)"
    and "build_generation (cx_revision cx) (cg_instruments g) = Inr g" by simp_all
qed

lemma baseline_definition_sel:
  assumes "baseline_definition rs dis ov i = Inr d"
  shows "validate_definition d = Inr d" "md_ownership d = BUILTIN" "\<not> md_archived d"
    and "builtin_instrument_id (is_symbol i) = Inr (md_id d)" and "md_symbol d = is_symbol i"
proof -
  obtain routes k syms where k: "builtin_instrument_id (is_symbol i) = Inr k"
    and d: "from_instrument_spec (apply_override ov i) k BUILTIN (is_symbol i \<notin> set dis) routes syms None = Inr d"
    using assms by (auto simp: baseline_definition_def Let_def res_simps)
  note sel = from_instrument_spec_sel [OF d]
  show "validate_definition d = Inr d" "md_ownership d = BUILTIN" "\<not> md_archived d"
    and "builtin_instrument_id (is_symbol i) = Inr (md_id d)" and "md_symbol d = is_symbol i"
    using sel k by (auto simp: apply_override_def split: option.splits)
qed

lemma baseline_generation_ok:
  assumes "baseline_generation cx catalog = Inr b" and "without_old_names b"
  shows "baseline_ok b"
proof -
  have run: "catalog_generation_from_registry cx catalog [] [] = Inr b"
    using assms(1) by (simp add: baseline_generation_def res_simps)
  note items = catalog_generation_items(1) [OF run]
  have "md_ownership d = BUILTIN \<and> \<not> md_archived d \<and> validate_definition d = Inr d" if "d \<in> set (cg_instruments b)" for d
    using list_all2_in2 [OF items that] baseline_definition_sel by blast
  moreover have "distinct (map md_id (cg_instruments b))"
    using catalog_generation_items(2) [OF run] by (simp add: build_generation_iff)
  ultimately show ?thesis
    using assms(2) validated_routes_distinct by (auto simp: baseline_ok_def clean_routes_def without_old_names_def list_all_iff)
qed

lemma baseline_definition_override:
  assumes "baseline_definition rs [] [] i = Inr e" and "baseline_definition rs dis ov i = Inr d"
  shows "d = e\<lparr>md_enabled := md_enabled d, md_quote_poll_seconds := md_quote_poll_seconds d,
    md_stale_after_seconds := md_stale_after_seconds d\<rparr>"
proof -
  obtain routes k syms where
    e: "from_instrument_spec (apply_override [] i) k BUILTIN True routes syms None = Inr e" and
    d: "from_instrument_spec (apply_override ov i) k BUILTIN (is_symbol i \<notin> set dis) routes syms None = Inr d"
    using assms by (auto simp: baseline_definition_def Let_def res_bind_Inr_iff)
  obtain poll stale where ov: "apply_override ov i = i\<lparr>is_quote_poll_seconds := poll, is_stale_after_seconds := stale\<rparr>"
  proof (cases "dict_get ov (is_symbol i)")
    case None
    then show thesis using that [where poll = "is_quote_poll_seconds i" and stale = "is_stale_after_seconds i"] by (simp add: apply_override_def)
  next
    case (Some ps)
    then show thesis using that [where poll = "fst ps" and stale = "snd ps"] by (cases ps) (simp add: apply_override_def)
  qed
  then have "spec_income (apply_override ov i) = spec_income i" "apply_override [] i = i"
    by (simp_all add: spec_income_def apply_override_def)
  then show ?thesis
    unfolding from_instrument_spec_eq [OF e] from_instrument_spec_eq [OF d] by (simp add: ov)
qed

lemma reconcile_overridden:
  assumes e: "clean_routes (md_routes e)" "\<not> md_archived e"
    and d: "d = e\<lparr>md_enabled := md_enabled d, md_quote_poll_seconds := md_quote_poll_seconds d,
      md_stale_after_seconds := md_stale_after_seconds d\<rparr>"
  shows "reconciled_definition e d = d"
proof -
  have sel: "md_history d = md_history e" "md_routes d = md_routes e" "md_symbol d = md_symbol e"
    by (subst d, simp)+
  have "md_archived e = False" using e(2) by simp
  moreover have "map (reconciled_route s (md_routes e)) (md_routes e) = md_routes e" for s
    by (rule map_idI) (rule reconciled_route_baseline [OF e(1)])
  ultimately have "reconciled_definition e d = e\<lparr>md_enabled := md_enabled d, md_quote_poll_seconds := md_quote_poll_seconds d,
      md_stale_after_seconds := md_stale_after_seconds d\<rparr>"
    by (simp add: reconciled_definition_def reconciled_builtin_routes_def sel reconciled_history_self)
  then show ?thesis using d by simp
qed

lemma reconcile_registry_generation:
  assumes base: "baseline_generation cx catalog = Inr b" and old: "without_old_names b"
    and run: "catalog_generation_from_registry cx catalog dis ov = Inr g"
  shows "reconcile_generation cx b g = Inr g"
proof -
  have run_b: "catalog_generation_from_registry cx catalog [] [] = Inr b"
    using base by (simp add: baseline_generation_def res_simps)
  have ok: "baseline_ok b" by (rule baseline_generation_ok [OF base old])
  let ?P = "\<lambda>d e. md_id d = md_id e \<and> md_ownership d = BUILTIN \<and> e \<in> set (cg_instruments b) \<and> reconcile_item (by_id b) d = Inr d"
  have item: "?P d e" if i: "baseline_definition rs dis ov i = Inr d" "baseline_definition rs [] [] i = Inr e"
    and e: "e \<in> set (cg_instruments b)" for rs i d e
  proof -
    note sel = baseline_definition_sel [OF i(1)] and sel_e = baseline_definition_sel [OF i(2)]
    have id: "md_id d = md_id e" using sel(4) sel_e(4) by simp
    have clean: "clean_routes (md_routes e)" "\<not> md_archived e" using ok e by (auto simp: baseline_ok_def list_all_iff)
    have "dict_get (by_id b) (md_id d) = Some e" using ok e id by (simp add: by_id_iff baseline_ok_def)
    then show ?thesis
      using sel sel_e id e reconcile_overridden [OF clean baseline_definition_override [OF i(2,1)]]
      by (simp add: reconcile_item_def)
  qed
  have pair: "list_all2 ?P (cg_instruments g) (cg_instruments b)"
    using catalog_generation_items(1) [OF run] catalog_generation_items(1) [OF run_b] item
    by (fastforce simp: list_all2_conv_all_nth)
  have same: "res_map (reconcile_item (by_id b)) (cg_instruments g) = Inr (cg_instruments g)"
    using pair unfolding res_map_Inr_iff by (auto simp: list_all2_conv_all_nth)
  have "md_id e \<in> set (map md_id (filter (\<lambda>i. md_ownership i \<noteq> CUSTOM) (cg_instruments g)))"
    if e: "e \<in> set (cg_instruments b)" for e
  proof -
    obtain x where "x \<in> set (cg_instruments g)" "md_id x = md_id e" "md_ownership x = BUILTIN"
      using list_all2_in2 [OF pair e] by blast
    then have "x \<in> set (filter (\<lambda>i. md_ownership i \<noteq> CUSTOM) (cg_instruments g))" by simp
    then show ?thesis unfolding set_map using \<open>md_id x = md_id e\<close> by (metis image_eqI)
  qed
  then have none: "filter (\<lambda>e. md_id e \<notin> set (map md_id (filter (\<lambda>i. md_ownership i \<noteq> CUSTOM) (cg_instruments g))))
      (cg_instruments b) = []"
    unfolding filter_empty_conv by blast
  show ?thesis
    unfolding reconcile_generation_def
    by (simp only: same res_bind_simps Let_def none append_Nil2 catalog_generation_items(2) [OF run] map_error_Inr)
qed

subsection \<open>Documents\<close>

lemma validated_income:
  assumes "validate_definition d = Inr d" and "md_income d = Some p"
  shows "validate_strategy_parameters p = None"
proof -
  have "optional_model validate_income (md_income d) = []"
    using assms(1) by (simp add: validate_definition_def definition_field_errors_def model_validate_Inr_iff)
  then show ?thesis using assms(2) by (simp add: optional_model_def validate_income_def)
qed

lemma strategy_fallback:
  "validate_strategy_parameters p = None \<Longrightarrow>
     in_fallback_ratio_days p = None \<or> in_reward_accrual_mode p = Some VALUE_ACCRUING"
  unfolding validate_strategy_parameters_def first_error_None_iff by auto

lemma validated_no_obsolete: "validate_definition d = Inr d \<Longrightarrow> \<not> obsolete_fallback d"
  using validated_income [of d] strategy_fallback by (auto simp: obsolete_fallback_def split: option.splits)

lemma normalize_legacy_valid:
  assumes "list_all (\<lambda>d. validate_definition d = Inr d) (cg_instruments g)"
  shows "normalize_legacy_generation cx g = (g, False)"
  using assms validated_no_obsolete by (auto simp: normalize_legacy_generation_def list_ex_iff list_all_iff)

lemma validated_generation_items:
  "errors_of (validate_generation f g) = [] \<Longrightarrow> list_all (\<lambda>d. validate_definition d = Inr d) (cg_instruments g)"
  by (auto simp: validate_generation_def validate_definition_def list_all_iff model_validate_Inr_iff)

lemma normalize_legacy_document:
  assumes "validate_document f doc = Inr doc"
  shows "normalize_legacy cx doc = (doc, False)"
proof -
  have "errors_of (validate_generation f (cd_active doc)) = []"
    "optional_model (validate_generation f) (cd_staged doc) = []"
    "optional_model (validate_generation f) (cd_last_known_good doc) = []"
    using assms by (simp_all add: validate_document_def model_validate_Inr_iff)
  then have "normalize_legacy_generation cx (cd_active doc) = (cd_active doc, False)"
    "normalize_legacy_optional cx (cd_staged doc) = (cd_staged doc, False)"
    "normalize_legacy_optional cx (cd_last_known_good doc) = (cd_last_known_good doc, False)"
    using normalize_legacy_valid [OF validated_generation_items]
    by (auto simp: normalize_legacy_optional_def optional_model_def split: option.splits)
  then show ?thesis by (simp add: normalize_legacy_def)
qed

lemma mk_document_iff:
  "mk_document cx a s l = Inr doc \<longleftrightarrow>
     doc = \<lparr>cd_version = 2, cd_active = a, cd_staged = s, cd_last_known_good = l\<rparr> \<and> validate_document (cx_revision cx) doc = Inr doc"
  by (auto simp: mk_document_def map_error_Inr_iff validate_document_def model_validate_Inr_iff)

lemma reconcile_optional_idem:
  "baseline_ok b \<Longrightarrow> reconcile_optional cx b g = Inr g' \<Longrightarrow> reconcile_optional cx b g' = Inr g'"
  by (auto simp: reconcile_optional_def res_bind_Inr_iff reconcile_generation_idem split: option.splits)

lemma reconcile_document_iff:
  "reconcile_document cx b doc = Inr doc' \<longleftrightarrow>
     reconcile_generation cx b (cd_active doc) = Inr (cd_active doc')
     \<and> reconcile_optional cx b (cd_staged doc) = Inr (cd_staged doc')
     \<and> reconcile_optional cx b (cd_last_known_good doc) = Inr (cd_last_known_good doc')
     \<and> mk_document cx (cd_active doc') (cd_staged doc') (cd_last_known_good doc') = Inr doc'"
  unfolding reconcile_document_def map_error_Inr_iff res_bind_Inr_iff by (auto simp: mk_document_iff)

lemma loaded_document_reconciled:
  assumes base: "baseline_generation cx catalog = Inr b" and old: "without_old_names b"
    and load: "load_catalog_document cx catalog content = Inr (doc, w)"
  shows "reconcile_document cx b doc = Inr doc"
proof -
  have ok: "baseline_ok b" by (rule baseline_generation_ok [OF base old])
  have fresh: "reconcile_document cx b d = Inr d"
    if "mk_document cx g None None = Inr d" and "catalog_generation_from_registry cx catalog dis ov = Inr g" for g d dis ov
    using that reconcile_registry_generation [OF base old that(2)]
    by (auto simp: reconcile_document_iff reconcile_optional_def mk_document_iff)
  show ?thesis
  proof (cases "content = []")
    case True
    then have "mk_document cx b None None = Inr doc"
      using load base by (auto simp: load_catalog_document_def res_bind_Inr_iff)
    moreover have "catalog_generation_from_registry cx catalog [] [] = Inr b"
      using base by (simp add: baseline_generation_def map_error_Inr_iff)
    ultimately show ?thesis by (rule fresh)
  next
    case False
    then obtain payload where "cx_decode cx content = Inr payload"
      using load base by (auto simp: load_catalog_document_def res_bind_Inr_iff)
    with False load base show ?thesis
    proof (cases payload)
      case (PolicyV1 disabled overrides)
      then obtain g dis ov where "catalog_generation_from_registry cx catalog dis ov = Inr g" "mk_document cx g None None = Inr doc"
        using False load base \<open>cx_decode cx content = Inr payload\<close>
        by (auto simp: load_catalog_document_def res_bind_Inr_iff map_error_Inr_iff)
      then show ?thesis using fresh by blast
    next
      case (DocumentV2 raw)
      then obtain parsed where "reconcile_document cx b parsed = Inr doc"
        using False load base \<open>cx_decode cx content = Inr payload\<close>
        by (auto simp: load_catalog_document_def res_bind_Inr_iff Let_def split: prod.splits)
      then show ?thesis
        unfolding reconcile_document_iff using reconcile_generation_idem [OF ok] reconcile_optional_idem [OF ok] by blast
    qed
  qed
qed

text \<open>
  C27. Migration converges in one write: whatever file is loaded (none, a version-1 policy or
  a version-2 document that predates the installed built-ins), writing the loaded document
  and loading it again gives the same document and asks for no further write. The encoder is
  only assumed to be inverted by the decoder on this document.
\<close>

theorem migrated_catalog_is_stable:
  assumes "baseline_generation cx catalog = Inr b" and "without_old_names b"
    and "load_catalog_document cx catalog content = Inr (doc, needs_write)"
    and "cx_decode cx (cx_encode cx doc) = Inr (DocumentV2 doc)" and "cx_encode cx doc \<noteq> []"
  shows "load_catalog_document cx catalog (cx_encode cx doc) = Inr (doc, False)"
proof -
  have rec: "reconcile_document cx b doc = Inr doc" by (rule loaded_document_reconciled [OF assms(1-3)])
  then have valid: "validate_document (cx_revision cx) doc = Inr doc" by (simp add: reconcile_document_iff mk_document_iff)
  show ?thesis
    unfolding load_catalog_document_def
    using assms(1,4,5) normalize_legacy_document [OF valid, of cx] valid rec by simp
qed

definition demo_installed :: instrument_spec where
  "demo_installed = mk_instrument_spec ''A:B'' ''A'' ''B'' ''A'' ''A'' CRYPTO ''spot'' ''last_trade''"

definition demo_catalog :: registry where
  "demo_catalog = \<lparr>rg_instruments = [(''A:B'', demo_installed)], rg_aliases = [], rg_plugins =
     [\<lparr>ip_plugin_id = ''p'', ip_version = ''1'', ip_instruments = [demo_installed], ip_provider_installer = Some ''f'',
       ip_provider_bindings = [\<lparr>pb_symbol = ''A:B'', pb_capability = ''quote'', pb_providers = [''binance'']\<rparr>],
       ip_synthetic_recipes = []\<rparr>]\<rparr>"

definition demo_codec :: codec where
  "demo_codec = \<lparr>cx_decode = (\<lambda>_. Inl (ConfigKeyError [])), cx_encode = (\<lambda>_. ''x''), cx_sha256 = (\<lambda>_. replicate 64 (CHR ''a'')),
     cx_revision = (\<lambda>_. replicate 64 (CHR ''b''))\<rparr>"

lemma demo_loads: "case load_catalog_document demo_codec demo_catalog [] of Inl e \<Rightarrow> False
    | Inr (doc, w) \<Rightarrow> w \<and> without_old_names (cd_active doc)"
  by code_simp

lemma load_empty_decode: "load_catalog_document (cx\<lparr>cx_decode := f\<rparr>) catalog [] = load_catalog_document cx catalog []"
  and baseline_decode: "baseline_generation (cx\<lparr>cx_decode := f\<rparr>) catalog = baseline_generation cx catalog"
  by (simp_all add: load_catalog_document_def baseline_generation_def catalog_generation_from_registry_def mk_document_def)

theorem migrated_catalog_is_stable_witness:
  "\<exists>cx doc. load_catalog_document cx demo_catalog [] = Inr (doc, True)
     \<and> load_catalog_document cx demo_catalog (cx_encode cx doc) = Inr (doc, False)"
proof -
  obtain doc where doc: "load_catalog_document demo_codec demo_catalog [] = Inr (doc, True)" "without_old_names (cd_active doc)"
    using demo_loads by (auto split: sum.splits)
  then have base: "baseline_generation demo_codec demo_catalog = Inr (cd_active doc)"
    by (auto simp: load_catalog_document_def res_bind_Inr_iff mk_document_iff)
  let ?cx = "demo_codec\<lparr>cx_decode := (\<lambda>_. Inr (DocumentV2 doc))\<rparr>"
  have load: "load_catalog_document ?cx demo_catalog [] = Inr (doc, True)" by (simp add: load_empty_decode doc)
  have "load_catalog_document ?cx demo_catalog (cx_encode ?cx doc) = Inr (doc, False)"
    by (rule migrated_catalog_is_stable [OF _ doc(2) load]) (simp_all add: baseline_decode base, simp add: demo_codec_def)
  with load show ?thesis by blast
qed

end
