(* ===== verification/QP_Activation_Props.thy ===== *)
theory QP_Activation_Props
  imports QP_Activation QP_PolicyStore_Props QP_Policy_Props QP_Service_Inv
begin

text \<open>
  Atomicity of a catalogue activation over the service and the file store together: it takes
  effect in both or in neither, wherever it fails.
\<close>

subsection \<open>The document a transition writes\<close>

definition switched_document :: "string \<Rightarrow> catalog_document \<Rightarrow> catalog_document option" where
  "switched_document operation doc =
     map_option (\<lambda>g. \<lparr>cd_version = 2, cd_active = g, cd_staged = None, cd_last_known_good = Some (cd_active doc)\<rparr>)
       (if operation = ''activate'' then cd_staged doc
        else if operation = ''rollback'' then cd_last_known_good doc else None)"

text \<open>The file holds a document that loads, within the size limit.\<close>

definition holds :: "codec \<Rightarrow> catalog_document \<Rightarrow> policy_store \<Rightarrow> bool" where
  "holds cx doc st \<longleftrightarrow> length (st_file st) \<le> MAX_CATALOG_FILE_BYTES
     \<and> (\<exists>w. load_catalog_document cx (st_catalog st) (st_file st) = Inr (doc, w))"

lemma holds_unique: "holds cx d st \<Longrightarrow> holds cx d' st \<Longrightarrow> d = d'"
  by (auto simp: holds_def)

lemma read_locked_holds: "holds cx doc st \<Longrightarrow> read_locked cx st = Inr (st_file st, doc)"
  by (auto simp: holds_def read_locked_def read_bytes_def not_less)

lemma locked_update_holds:
  assumes "holds cx doc st" and "hmac_compare_revision (cx_sha256 cx (st_file st)) r"
  shows "locked_update cx r token f st =
    (case res_bind (f doc) (\<lambda>d. write_locked cx d token st) of
       Inl e \<Rightarrow> (st, Inl e) | Inr st' \<Rightarrow> (st', catalog_snapshot_of cx st'))"
  using assms by (simp add: locked_update_def read_locked_holds assert_revision_def)

lemma switched_reconciled:
  assumes base: "baseline_generation cx catalog = Inr b" "without_old_names b"
    and doc: "reconcile_document cx b doc = Inr doc" and d: "switched_document operation doc = Some d"
    and valid: "validate_document (cx_revision cx) d = Inr d"
  shows "reconcile_document cx b d = Inr d"
proof -
  obtain g where g: "d = \<lparr>cd_version = 2, cd_active = g, cd_staged = None, cd_last_known_good = Some (cd_active doc)\<rparr>"
    and source: "cd_staged doc = Some g \<or> cd_last_known_good doc = Some g"
    using d by (auto simp: switched_document_def split: if_splits)
  have "reconcile_generation cx b g = Inr g"
    using doc source by (auto simp: reconcile_document_iff reconcile_optional_def res_bind_Inr_iff)
  moreover have "reconcile_generation cx b (cd_active doc) = Inr (cd_active doc)" using doc by (simp add: reconcile_document_iff)
  ultimately show ?thesis using valid by (simp add: reconcile_document_iff reconcile_optional_def mk_document_iff g)
qed

lemma reconciled_document_loads:
  assumes "baseline_generation cx catalog = Inr b" "reconcile_document cx b d = Inr d"
    and "cx_decode cx content = Inr (DocumentV2 d)" "content \<noteq> []"
  shows "load_catalog_document cx catalog content = Inr (d, False)"
proof -
  have valid: "validate_document (cx_revision cx) d = Inr d" using assms(2) by (simp add: reconcile_document_iff mk_document_iff)
  show ?thesis
    unfolding load_catalog_document_def using assms normalize_legacy_document [OF valid, of cx] valid by simp
qed

subsection \<open>The store during an activation\<close>

text \<open>What the codec and the catalogue have to provide for the written document to be readable.\<close>

definition readable :: "codec \<Rightarrow> string \<Rightarrow> policy_store \<Rightarrow> bool" where
  "readable cx operation st \<longleftrightarrow>
     (\<exists>b. baseline_generation cx (st_catalog st) = Inr b \<and> without_old_names b)
     \<and> (\<forall>doc d. holds cx doc st \<longrightarrow> switched_document operation doc = Some d \<longrightarrow>
          cx_decode cx (cx_encode cx d) = Inr (DocumentV2 d) \<and> cx_encode cx d \<noteq> [])"

lemma written_holds:
  assumes read: "readable cx operation st" and doc: "holds cx doc st" and d: "switched_document operation doc = Some d"
    and valid: "mk_document cx (cd_active d) None (cd_last_known_good d) = Inr d"
    and w: "write_locked cx d token st' = Inr st2" and cat: "st_catalog st' = st_catalog st"
  shows "holds cx d st2 \<and> st2 = st'\<lparr>st_file := st_file st2\<rparr>"
proof -
  obtain b where b: "baseline_generation cx (st_catalog st) = Inr b" "without_old_names b"
    and codec: "cx_decode cx (cx_encode cx d) = Inr (DocumentV2 d)" "cx_encode cx d \<noteq> []"
    using read doc d by (auto simp: readable_def)
  obtain w where load: "load_catalog_document cx (st_catalog st) (st_file st) = Inr (doc, w)"
    using doc by (auto simp: holds_def)
  have "reconcile_document cx b d = Inr d"
    using switched_reconciled [OF b loaded_document_reconciled [OF b load] d] valid by (simp add: mk_document_iff)
  note again = reconciled_document_loads [OF b(1) this codec]
  show ?thesis
    using w again cat by (auto simp: write_locked_def serialize_catalog_document_def holds_def res_simps)
qed


text \<open>The store under the lease of a token, with everything a restore needs.\<close>

definition under_lease :: "codec \<Rightarrow> transition_token \<Rightarrow> catalog_document \<Rightarrow> policy_store \<Rightarrow> bool" where
  "under_lease cx token doc st \<longleftrightarrow> st_transition_id st = Some (tk_lease_id token)
     \<and> tk_revision token = cx_sha256 cx (tk_content token) \<and> length (tk_content token) \<le> MAX_CATALOG_FILE_BYTES
     \<and> (\<exists>w. load_catalog_document cx (st_catalog st) (tk_content token) = Inr (doc, w))"

lemma snapshot_holds:
  "holds cx d st \<Longrightarrow> \<exists>snap. catalog_snapshot_of cx st = Inr snap \<and> sp_revision snap = cx_sha256 cx (st_file st)"
  by (simp add: catalog_snapshot_of_def read_locked_holds)

lemma mark_holds:
  assumes "holds cx d st" and "length (cx_sha256 cx (st_file st)) = 64"
  shows "mark_runtime_applied cx (Some (cx_sha256 cx (st_file st))) st =
    (st\<lparr>st_startup_revision := cx_sha256 cx (st_file st), st_runtime_active_revision := cg_revision (cd_active d)\<rparr>, Inr ())"
  using assms by (auto simp: mark_runtime_applied_def holds_def read_bytes_def hmac_compare_revision_def not_less)

lemma file_transition_cases:
  assumes read: "readable cx (rq_operation rq) st" and doc: "holds cx doc st"
    and r: "hmac_compare_revision (cx_sha256 cx (st_file st)) (rq_expected_revision rq)"
    and st1: "st1 = st\<lparr>st_transition_id := Some l\<rparr>"
    and run: "file_transition cx rq token st1 = (st2, res)"
  shows "(st2 = st1 \<and> (\<exists>e. res = Inl e))
    \<or> (\<exists>d snap. switched_document (rq_operation rq) doc = Some d \<and> res = Inr snap \<and> holds cx d st2
        \<and> st2 = st1\<lparr>st_file := st_file st2\<rparr> \<and> sp_revision snap = cx_sha256 cx (st_file st2))"
proof -
  have doc1: "holds cx doc st1" "st_file st1 = st_file st" using doc by (simp_all add: st1 holds_def)
  have step: "(st2 = st1 \<and> (\<exists>e. res = Inl e))
    \<or> (\<exists>d snap. switched_document (rq_operation rq) doc = Some d \<and> res = Inr snap \<and> holds cx d st2
        \<and> st2 = st1\<lparr>st_file := st_file st2\<rparr> \<and> sp_revision snap = cx_sha256 cx (st_file st2))"
    if f: "\<And>d. f doc = Inr d \<Longrightarrow> switched_document (rq_operation rq) doc = Some d
        \<and> mk_document cx (cd_active d) None (cd_last_known_good d) = Inr d"
      and go: "(case locked_update cx (rq_expected_revision rq) (Some token) f st1 of (st', r) \<Rightarrow> (st', map_error StoreError r)) = (st2, res)"
    for f
  proof (cases "res_bind (f doc) (\<lambda>d. write_locked cx d (Some token) st1)")
    case (Inl e)
    then show ?thesis using go locked_update_holds [OF doc1(1), of "rq_expected_revision rq" "Some token" f] r doc1(2)
      by (auto simp: map_error_def)
  next
    case (Inr st')
    then obtain d where d: "f doc = Inr d" and w: "write_locked cx d (Some token) st1 = Inr st'" by (auto simp: res_bind_Inr_iff)
    have "holds cx d st' \<and> st' = st1\<lparr>st_file := st_file st'\<rparr>"
      using written_holds [OF read doc _ _ w] f [OF d] by (simp add: st1)
    with snapshot_holds [of cx d st'] go locked_update_holds [OF doc1(1), of "rq_expected_revision rq" "Some token" f] r doc1(2) Inr f [OF d]
    show ?thesis by (auto simp: map_error_def)
  qed
  consider (a) "rq_operation rq = ''activate''" | (b) "rq_operation rq = ''rollback''"
    | (c) "rq_operation rq \<noteq> ''activate''" "rq_operation rq \<noteq> ''rollback''" by blast
  then show ?thesis
  proof cases
    case a
    show ?thesis
      by (rule step [OF _ run [unfolded file_transition_def if_P [OF a] activate_staged_def]])
        (auto simp: a switched_document_def res_simps mk_document_iff split: option.splits if_splits)
  next
    case b
    then show ?thesis
      by (intro step [OF _ run [unfolded file_transition_def b rollback_def, simplified]])
        (auto simp: switched_document_def mk_document_iff split: option.splits)
  next
    case c
    then show ?thesis using run by (auto simp: file_transition_def)
  qed
qed

lemma confirm_file_cases:
  assumes d: "holds cx d st" and sha: "\<And>s. length (cx_sha256 cx s) = 64"
    and snap: "sp_revision snap = cx_sha256 cx (st_file st)"
  shows "confirm_file cx rq snap st =
    (if cg_revision (cd_active d) \<noteq> cg_revision (rq_target rq)
     then (st, Inl (ServiceError (RuntimeError ''persisted catalog does not match the warmed generation'')))
     else (st\<lparr>st_startup_revision := cx_sha256 cx (st_file st), st_runtime_active_revision := cg_revision (cd_active d)\<rparr>, Inr ()))"
proof -
  have "cx_sha256 cx (st_file st) \<noteq> []" using sha [of "st_file st"] by auto
  then show ?thesis
    using mark_holds [OF d sha] by (simp add: confirm_file_def read_locked_holds [OF d] snap map_error_def)
qed

text \<open>Undoing puts the captured bytes back and ends the lease, whatever the file holds then.\<close>

lemma restore_under_lease:
  assumes "under_lease cx token doc st" and "length (st_file st) \<le> MAX_CATALOG_FILE_BYTES"
    and sha: "\<And>s. length (cx_sha256 cx s) = 64"
  shows "\<exists>snap. restore_transition cx token (cx_sha256 cx (st_file st)) st =
      (st\<lparr>st_file := tk_content token, st_transition_id := None\<rparr>, Inr snap) \<and> sp_revision snap = cx_sha256 cx (tk_content token)"
proof -
  have "holds cx doc (st\<lparr>st_file := tk_content token, st_transition_id := None\<rparr>)"
    using assms(1) by (simp add: under_lease_def holds_def)
  from snapshot_holds [OF this] assms show ?thesis
    by (auto simp: restore_transition_def under_lease_def assert_transition_def holds_lease_def read_bytes_def
        assert_revision_def hmac_compare_revision_def not_less Let_def)
qed

lemma undo_store_restores:
  assumes l: "under_lease cx token doc (pr_store pr)" and len: "length (st_file (pr_store pr)) \<le> MAX_CATALOG_FILE_BYTES"
    and sha: "\<And>s. length (cx_sha256 cx s) = 64" and snap: "sp_revision snap = cx_sha256 cx (st_file (pr_store pr))"
  shows "pr_store (undo_activation cx now previous shared (Some token) (Some snap) pr) =
    (pr_store pr)\<lparr>st_file := tk_content token, st_transition_id := None, st_startup_revision := cx_sha256 cx (tk_content token),
      st_runtime_active_revision := cg_revision (cd_active doc)\<rparr>"
proof -
  let ?st = "(pr_store pr)\<lparr>st_file := tk_content token, st_transition_id := None\<rparr>"
  obtain s where s: "restore_transition cx token (sp_revision snap) (pr_store pr) = (?st, Inr s)"
    "sp_revision s = cx_sha256 cx (st_file ?st)"
    using restore_under_lease [OF l len sha] snap by auto
  have "holds cx doc ?st" using l by (simp add: under_lease_def holds_def)
  from mark_holds [OF this sha] s show ?thesis by (simp add: undo_activation_def Let_def)
qed

lemma undo_store_aborts:
  assumes "st_transition_id (pr_store pr) = Some (tk_lease_id token)"
  shows "pr_store (undo_activation cx now previous shared (Some token) None pr) = (pr_store pr)\<lparr>st_transition_id := None\<rparr>"
  using assms by (simp add: undo_activation_def Let_def abort_transition_def assert_transition_def holds_lease_def)

subsection \<open>The service during an activation\<close>

text \<open>
  A generation is back: the same registry, revision and state, except for the shared history,
  which preparation may have extended for symbols of the candidate.
\<close>

definition rolled_back :: "generation \<Rightarrow> generation \<Rightarrow> bool" where
  "rolled_back previous g \<longleftrightarrow> gn_id g = gn_id previous \<and> gn_revision g = gn_revision previous
     \<and> gn_registry g = gn_registry previous \<and> gn_state g = (gn_state previous)\<lparr>ds_history := ds_history (gn_state g)\<rparr>"

lemma undo_service:
  assumes "sv_generation (pr_service pr) = previous \<or> gn_id (sv_generation (pr_service pr)) \<noteq> gn_id previous"
  shows "rolled_back previous (sv_generation (pr_service (undo_activation cx now previous shared token snap pr)))"
    and "sv_outbox (pr_service (undo_activation cx now previous shared token snap pr)) = sv_outbox (pr_service pr)"
    and "pr_storage_ready (undo_activation cx now previous shared token snap pr) = pr_storage_ready pr"
  using assms by (auto simp: undo_activation_def Let_def rolled_back_def)

lemma rebuild_complete_others:
  "s \<noteq> symbol \<Longrightarrow> s \<in> set (ds_complete_symbols (fst (rebuild env reg now ps symbol ds))) \<longleftrightarrow> s \<in> set (ds_complete_symbols ds)"
  by (auto simp: rebuild_def install_snapshot_def set_member_def Let_def split: option.splits sum.splits prod.splits)

lemma install_income_complete: "ds_complete_symbols (fst (install_income env item ds)) = ds_complete_symbols ds"
  by (auto simp: install_income_def Let_def split: option.splits sum.splits prod.splits if_splits)

lemma install_warmed_item_complete:
  assumes "install_warmed_item env now reg item ds = (ds', Inr ())"
  shows "insert (md_symbol (wu_definition item)) (set (ds_complete_symbols ds)) \<subseteq> set (ds_complete_symbols ds')"
proof -
  let ?symbol = "md_symbol (wu_definition item)"
  obtain ds1 point ds3 snap a where
    inc: "install_income env item ds = (ds1, Inr ())" and
    reb: "rebuild env reg now [point] ?symbol (accept_quote (wu_quote item) ds1) = (ds3, Inr snap)" and
    agg: "update_aggregate point ds3 = (ds', Inr a)" and mem: "?symbol \<in> set (ds_complete_symbols ds')"
    using assms by (auto simp: install_warmed_item_def Let_def split: if_splits prod.splits sum.splits)
  have "ds_complete_symbols ds1 = ds_complete_symbols ds" using install_income_complete [of env item ds] inc by simp
  moreover have "ds_complete_symbols ds' = ds_complete_symbols ds3" using agg update_aggregate_frame(4) [of point ds3] by simp
  ultimately have others: "s \<in> set (ds_complete_symbols ds') \<longleftrightarrow> s \<in> set (ds_complete_symbols ds)" if "s \<noteq> ?symbol" for s
    using rebuild_complete_others [OF that, of env reg now "[point]" "accept_quote (wu_quote item) ds1"] reb
    by (simp add: accept_quote_def)
  show ?thesis
  proof
    fix s
    assume "s \<in> insert ?symbol (set (ds_complete_symbols ds))"
    then show "s \<in> set (ds_complete_symbols ds')" by (cases "s = ?symbol") (simp_all add: mem others)
  qed
qed

lemma install_warmed_complete:
  "install_warmed_instruments env now reg ws ds = (ds', Inr ()) \<Longrightarrow>
     (\<lambda>w. md_symbol (wu_definition w)) ` set ws \<union> set (ds_complete_symbols ds) \<subseteq> set (ds_complete_symbols ds')"
proof (induction ws arbitrary: ds)
  case (Cons w ws)
  then obtain ds1 where w: "install_warmed_item env now reg w ds = (ds1, Inr ())"
    and ws: "install_warmed_instruments env now reg ws ds1 = (ds', Inr ())"
    by (auto split: prod.splits sum.splits)
  from Cons.IH [OF ws] install_warmed_item_complete [OF w] show ?case by auto
qed simp

lemma publish_warmed_history_frame:
  "ds_complete_symbols (fst (publish_warmed_history ws ds)) = ds_complete_symbols ds"
  by (induction ws arbitrary: ds) (simp_all split: sum.split)

lemma persist_rows_generation [simp]: "sv_generation (persist_rows rows sv) = sv_generation sv"
  by (simp add: persist_rows_def)

lemma persist_warmed_generation:
  "sv_generation (fst (persist_warmed_instruments env ds ws sv)) = sv_generation sv"
  by (induction ws arbitrary: sv) (auto split: sum.splits)

text \<open>Finalization stays within the new generation and never touches the store.\<close>

lemma finalize_activation_frame:
  defines "after rq env pr \<equiv> sv_generation (pr_service (finalize_activation env rq pr))"
  shows "pr_store (finalize_activation env rq pr) = pr_store pr"
    and "gn_id (after rq env pr) = gn_id (sv_generation (pr_service pr))"
    and "gn_revision (after rq env pr) = gn_revision (sv_generation (pr_service pr))"
    and "gn_registry (after rq env pr) = gn_registry (sv_generation (pr_service pr))"
    and "s \<in> set (ds_complete_symbols (gn_state (sv_generation (pr_service pr)))) \<Longrightarrow> s \<in> set (registry_symbols (rq_registry rq))
      \<Longrightarrow> s \<in> set (ds_complete_symbols (gn_state (after rq env pr)))"
proof -
  let ?sv = "pr_service pr"
  obtain ds1 r where pub: "publish_warmed_history (rq_warmed rq) (gn_state (sv_generation ?sv)) = (ds1, r)" by force
  have ds1: "ds_complete_symbols ds1 = ds_complete_symbols (gn_state (sv_generation ?sv))"
    using publish_warmed_history_frame [of "rq_warmed rq" "gn_state (sv_generation ?sv)"] pub by simp
  let ?ds2 = "retain_state_symbols (registry_symbols (rq_registry rq)) ds1"
  obtain sv2 r2 where per: "persist_warmed_instruments env ?ds2 (rq_warmed rq) (set_state ?ds2 ?sv) = (sv2, r2)" by force
  have sv2: "sv_generation sv2 = sv_generation (set_state ?ds2 ?sv)"
    using persist_warmed_generation [of env ?ds2 "rq_warmed rq" "set_state ?ds2 ?sv"] per by simp
  note facts = pub per sv2 ds1 and simps = finalize_activation_def after_def set_state_def retain_state_symbols_def
  show "pr_store (finalize_activation env rq pr) = pr_store pr"
    and "gn_id (after rq env pr) = gn_id (sv_generation (pr_service pr))"
    and "gn_revision (after rq env pr) = gn_revision (sv_generation (pr_service pr))"
    and "gn_registry (after rq env pr) = gn_registry (sv_generation (pr_service pr))"
    and "s \<in> set (ds_complete_symbols (gn_state (sv_generation (pr_service pr)))) \<Longrightarrow> s \<in> set (registry_symbols (rq_registry rq))
      \<Longrightarrow> s \<in> set (ds_complete_symbols (gn_state (after rq env pr)))"
    using facts by (auto simp: simps Let_def split: sum.splits)
qed

subsection \<open>The whole transaction\<close>

definition took_effect :: "codec \<Rightarrow> activation_request \<Rightarrow> process_state \<Rightarrow> process_state \<Rightarrow> bool" where
  "took_effect cx rq pr pr' \<longleftrightarrow>
     (let st = pr_store pr; st' = pr_store pr'; g = sv_generation (pr_service pr') in
      (\<exists>doc d. holds cx doc st \<and> switched_document (rq_operation rq) doc = Some d \<and> holds cx d st'
         \<and> cg_revision (cd_active d) = cg_revision (rq_target rq))
      \<and> st_transition_id st' = None \<and> st_runtime_active_revision st' = cg_revision (rq_target rq)
      \<and> gn_id g = rq_generation_id rq \<and> gn_revision g = cg_revision (rq_target rq) \<and> gn_registry g = rq_registry rq
      \<and> (\<forall>w\<in>set (rq_warmed rq). md_symbol (wu_definition w) \<in> set (registry_symbols (rq_registry rq)) \<longrightarrow>
           md_symbol (wu_definition w) \<in> set (ds_complete_symbols (gn_state g))))"

definition no_effect :: "codec \<Rightarrow> process_state \<Rightarrow> process_state \<Rightarrow> bool" where
  "no_effect cx pr pr' \<longleftrightarrow>
     (let st = pr_store pr; st' = pr_store pr' in
      st_file st' = st_file st \<and> st_transition_id st' = st_transition_id st
      \<and> (st_runtime_active_revision st' = st_runtime_active_revision st
         \<or> (\<exists>doc. holds cx doc st' \<and> st_runtime_active_revision st' = cg_revision (cd_active doc)))
      \<and> rolled_back (sv_generation (pr_service pr)) (sv_generation (pr_service pr'))
      \<and> sv_outbox (pr_service pr') = sv_outbox (pr_service pr) \<and> pr_storage_ready pr' = pr_storage_ready pr)"

lemma undo_without_file:
  assumes "st_transition_id (pr_store pr) = None" and "st1 = (pr_store pr)\<lparr>st_transition_id := Some (tk_lease_id token)\<rparr>"
  shows "no_effect cx pr (undo_activation cx now (sv_generation (pr_service pr)) shared (Some token) None (pr\<lparr>pr_store := st1\<rparr>))"
  using assms undo_store_aborts [of "pr\<lparr>pr_store := st1\<rparr>" token] undo_service [of "pr\<lparr>pr_store := st1\<rparr>" "sv_generation (pr_service pr)"]
  by (simp add: no_effect_def Let_def)

lemma undo_with_file:
  assumes l: "under_lease cx token doc (pr_store pr2)" and len: "length (st_file (pr_store pr2)) \<le> MAX_CATALOG_FILE_BYTES"
    and sha: "\<And>s. length (cx_sha256 cx s) = 64" and snap: "sp_revision snap = cx_sha256 cx (st_file (pr_store pr2))"
    and none: "st_transition_id (pr_store pr) = None" and tok: "tk_content token = st_file (pr_store pr)"
    and gen: "sv_generation (pr_service pr2) = sv_generation (pr_service pr)
      \<or> gn_id (sv_generation (pr_service pr2)) \<noteq> gn_id (sv_generation (pr_service pr))"
    and same: "sv_outbox (pr_service pr2) = sv_outbox (pr_service pr)" "pr_storage_ready pr2 = pr_storage_ready pr"
  shows "no_effect cx pr (undo_activation cx now (sv_generation (pr_service pr)) shared (Some token) (Some snap) pr2)"
proof -
  let ?pr' = "undo_activation cx now (sv_generation (pr_service pr)) shared (Some token) (Some snap) pr2"
  note st = undo_store_restores [OF l len sha snap, of now "sv_generation (pr_service pr)" shared]
  have "holds cx doc (pr_store ?pr')" using l by (simp add: st under_lease_def holds_def)
  moreover have "st_runtime_active_revision (pr_store ?pr') = cg_revision (cd_active doc)" by (simp add: st)
  moreover have "st_file (pr_store ?pr') = st_file (pr_store pr)" "st_transition_id (pr_store ?pr') = st_transition_id (pr_store pr)"
    by (simp_all add: st tok none)
  moreover note undo_service [OF gen, of cx now shared "Some token" "Some snap"]
  ultimately show ?thesis using same by (auto simp: no_effect_def Let_def)
qed

lemma switch_generation_cases:
  assumes d: "holds cx d (pr_store pr)" and sha: "\<And>s. length (cx_sha256 cx s) = 64"
    and snap: "sp_revision snap = cx_sha256 cx (st_file (pr_store pr))"
    and l: "under_lease cx token doc (pr_store pr)"
    and run: "switch_generation cx now rq fa candidate token snap pr = (pr2, res)"
  shows "case res of
      Inl _ \<Rightarrow> under_lease cx token doc (pr_store pr2) \<and> st_file (pr_store pr2) = st_file (pr_store pr)
        \<and> (sv_generation (pr_service pr2) = sv_generation (pr_service pr) \<or> gn_id (sv_generation (pr_service pr2)) = rq_generation_id rq)
        \<and> sv_outbox (pr_service pr2) = sv_outbox (pr_service pr) \<and> pr_storage_ready pr2 = pr_storage_ready pr
    | Inr _ \<Rightarrow> holds cx d (pr_store pr2) \<and> cg_revision (cd_active d) = cg_revision (rq_target rq)
        \<and> st_transition_id (pr_store pr2) = None \<and> st_runtime_active_revision (pr_store pr2) = cg_revision (rq_target rq)
        \<and> sv_generation (pr_service pr2) = \<lparr>gn_id = rq_generation_id rq, gn_revision = cg_revision (rq_target rq),
            gn_registry = rq_registry rq, gn_activated_at = now, gn_state = candidate\<rparr>"
  using run d l confirm_file_cases [OF d sha snap, of rq] sha
  by (auto simp: switch_generation_def activate_generation_def Let_def under_lease_def holds_def snap
      commit_transition_def assert_transition_def holds_lease_def read_bytes_def assert_revision_def hmac_compare_revision_def
      split: if_splits)

lemma after_file_transition:
  assumes capture: "st_transition_id (pr_store pr) = None" "tk_content token = st_file (pr_store pr)"
    and doc: "holds cx doc (pr_store pr)" "switched_document (rq_operation rq) doc = Some d"
    and lease: "under_lease cx token doc st2" and d: "holds cx d st2" and snap: "sp_revision snap = cx_sha256 cx (st_file st2)"
    and sha: "\<And>s. length (cx_sha256 cx s) = 64" and fresh: "rq_generation_id rq \<noteq> gn_id (sv_generation (pr_service pr))"
    and warm: "(\<lambda>w. md_symbol (wu_definition w)) ` set (rq_warmed rq) \<subseteq> set (ds_complete_symbols candidate)"
    and sw: "switch_generation cx now rq fa candidate token snap (pr\<lparr>pr_store := st2\<rparr>) = (pr3, res)"
  shows "case res of
      Inl _ \<Rightarrow> no_effect cx pr (undo_activation cx now (sv_generation (pr_service pr)) shared (Some token) (Some snap) pr3)
    | Inr _ \<Rightarrow> took_effect cx rq pr (finalize_activation env rq pr3)"
proof -
  let ?pr2 = "pr\<lparr>pr_store := st2\<rparr>"
  have pr2: "holds cx d (pr_store ?pr2)" "sp_revision snap = cx_sha256 cx (st_file (pr_store ?pr2))" "under_lease cx token doc (pr_store ?pr2)"
    using d snap lease by simp_all
  note outcome = switch_generation_cases [OF pr2(1) sha pr2(2,3) sw]
  show ?thesis
  proof (cases res)
    case (Inl e)
    then have "no_effect cx pr (undo_activation cx now (sv_generation (pr_service pr)) shared (Some token) (Some snap) pr3)"
      using outcome d snap capture fresh by (intro undo_with_file [OF _ _ sha]) (auto simp: holds_def)
    then show ?thesis using Inl by simp
  next
    case (Inr u)
    then show ?thesis
      using outcome doc warm finalize_activation_frame [where env = env and rq = rq and pr = pr3]
      by (auto simp: took_effect_def Let_def)
  qed
qed

lemma prepared_complete:
  "prepare_runtime_state env now reg warmed restored retained ds = (candidate, Inr ()) \<Longrightarrow>
     (\<lambda>w. md_symbol (wu_definition w)) ` set warmed \<subseteq> set (ds_complete_symbols candidate)"
  using install_warmed_complete by (fastforce simp: prepare_runtime_state_def split: sum.splits prod.splits if_splits)

text \<open>
  C1. A catalogue activation is atomic across the service and the catalogue file, whatever
  step fails (lease, preparation, warm bundles, collector start, file transition,
  confirmation, hand-over, commit). When it returns, the file holds the switched document
  with the requested generation active, the lease is released, the runtime is recorded as
  running that revision, the service runs the requested registry, and every warmed
  instrument is complete. When it raises, the file has its previous bytes and the lease its
  previous owner, and the service runs the previous generation with its state (the shared
  history apart), with nothing queued for storage. The new generation's id is fresh,
  digests have 64 characters, and the decoder reads back the document that is written.
\<close>

theorem activation_is_atomic:
  assumes "commit_catalog_activation env cx now rq fa pr = (pr', res)"
    and "rq_generation_id rq \<noteq> gn_id (sv_generation (pr_service pr))"
    and "readable cx (rq_operation rq) (pr_store pr)" and "\<And>s. length (cx_sha256 cx s) = 64"
  shows "case res of Inr _ \<Rightarrow> took_effect cx rq pr pr' | Inl _ \<Rightarrow> no_effect cx pr pr'"
proof -
  note run = assms(1) and fresh = assms(2) and read = assms(3) and sha = assms(4)
  let ?st = "pr_store pr" and ?prev = "sv_generation (pr_service pr)"
  obtain st1 cap where cap: "capture_transition cx (rq_expected_revision rq) (rq_lease_id rq) ?st = (st1, cap)" by force
  show ?thesis
  proof (cases cap)
    case (Inl e)
    then have "st1 = ?st" using cap by (auto simp: capture_transition_def split: if_splits sum.splits)
    then have "pr' = undo_activation cx now ?prev (ds_history (gn_state ?prev)) None None pr" "res = Inl (StoreError e)"
      using run cap Inl by (simp_all add: commit_catalog_activation_def Let_def)
    with undo_service [of pr ?prev cx now "ds_history (gn_state ?prev)" None None] show ?thesis
      by (simp add: no_effect_def undo_activation_def Let_def)
  next
    case (Inr token)
    note c = cap [unfolded Inr capture_transition_iff]
    then obtain doc w where load: "load_catalog_document cx (st_catalog ?st) (st_file ?st) = Inr (doc, w)" by blast
    have doc: "holds cx doc ?st" using c load by (simp add: holds_def)
    have st1: "st1 = ?st\<lparr>st_transition_id := Some (tk_lease_id token)\<rparr>" using c by simp
    have none: "st_transition_id ?st = None" using c by simp
    note undo1 = undo_without_file [OF none st1, of cx now]
    obtain candidate prep where prep: "prepare_runtime_state env now (rq_registry rq) (rq_warmed rq) (rq_restored rq)
        (retained_of (rq_registry rq) ?prev) (gn_state ?prev) = (candidate, prep)" by force
    show ?thesis
    proof (cases "isl prep \<or> fa_start fa")
      case True
      then show ?thesis using run cap Inr prep undo1 by (auto simp: commit_catalog_activation_def Let_def split: sum.splits)
    next
      case False
      then have prep: "prepare_runtime_state env now (rq_registry rq) (rq_warmed rq) (rq_restored rq)
        (retained_of (rq_registry rq) ?prev) (gn_state ?prev) = (candidate, Inr ())" and start: "\<not> fa_start fa"
        using prep by (cases prep; simp)+
      obtain st2 outcome where ftr: "file_transition cx rq token st1 = (st2, outcome)" by force
      have rev_ok: "hmac_compare_revision (cx_sha256 cx (st_file ?st)) (rq_expected_revision rq)" using c by simp
      from file_transition_cases [OF read doc rev_ok _ ftr] st1 consider
        (keep) e where "st2 = st1" "outcome = Inl e"
        | (wrote) d snap where "switched_document (rq_operation rq) doc = Some d" "outcome = Inr snap" "holds cx d st2"
          "st2 = st1\<lparr>st_file := st_file st2\<rparr>" "sp_revision snap = cx_sha256 cx (st_file st2)" by blast
      then show ?thesis
      proof cases
        case keep
        then show ?thesis using run cap Inr prep start ftr undo1 by (auto simp: commit_catalog_activation_def Let_def)
      next
        case wrote
        have lease: "under_lease cx token doc st2" using c load by (subst wrote(4)) (simp add: under_lease_def)
        have content: "tk_content token = st_file ?st" using c by simp
        obtain pr3 sw where sw: "switch_generation cx now rq fa candidate token snap (pr\<lparr>pr_store := st2\<rparr>) = (pr3, sw)" by force
        show ?thesis
          using run cap Inr prep start ftr wrote(2) sw
            after_file_transition [OF none content doc wrote(1) lease wrote(3,5) sha fresh prepared_complete [OF prep] sw]
          by (cases sw) (auto simp: commit_catalog_activation_def Let_def)
      qed
    qed
  qed
qed

end
