(* ===== verification/QP_Activation_Samples.thy ===== *)
theory QP_Activation_Samples
  imports QP_Activation_Props QP_Service_Samples
begin

text \<open>
  The properties of the catalogue store and of activation applied to a small installation:
  one instrument, a staged generation, one warm bundle.
\<close>

subsection \<open>A warm bundle\<close>

definition demo_definition :: managed_definition where
  "demo_definition = \<lparr>md_id = ''i'', md_symbol = ''A:B'', md_base = ''A'', md_quote = ''B'', md_name = ''A'', md_description = ''A'',
     md_asset_class = CRYPTO, md_asset_type = ''spot'', md_price_basis = ''last_trade'', md_change_basis = ''price'',
     md_ownership = CUSTOM, md_enabled = True, md_archived = False, md_aliases = [], md_market_calendar = is_market_calendar demo_spot,
     md_quote_poll_seconds = 60, md_stale_after_seconds = 300,
     md_history = \<lparr>hp_enabled = False, hp_poll_seconds = None, hp_backfill_days = None\<rparr>, md_routes = [], md_provider_symbols = [],
     md_income = None, md_synthetic = None\<rparr>"
definition demo_warm :: warmed_instrument where
  "demo_warm = \<lparr>wu_definition = demo_definition, wu_quote = demo_quote ''A:B'', wu_dividend = None, wu_yield = None\<rparr>"

lemma demo_warm_sel [simp]: "md_symbol (wu_definition demo_warm) = ''A:B''" "wu_quote demo_warm = demo_quote ''A:B''"
  "wu_dividend demo_warm = None" "wu_yield demo_warm = None"
  by (simp_all add: demo_warm_def demo_definition_def)

lemma demo_warm_point: "warm_point demo_warm = Inr demo_minute"
  using demo_minute_point by (simp add: warm_point_def minute_point_def demo_quote_def)

lemma demo_warm_changes: "calculate_changes (NumFinite 5) 90000000 [demo_minute] = Inr no_references"
  by (simp add: calculate_changes_def no_references_def WINDOWS_def decimal_NumFinite [OF demo_price] demo_minute_def time_units change_for_def Let_def find_last_def)

lemma demo_aggregate: "\<exists>ds' a. update_aggregate demo_minute ds = (ds', Inr a)" if "ds_active_aggregates ds = []"
  using that by (simp add: update_aggregate_def demo_minute_def mk_aggregate_price_def demo_price res_simps ensure_utc_def five_minute_bucket_def time_units Let_def decimal_NumFinite [OF demo_price])

lemma demo_installs: "\<exists>ds. install_warmed_item demo_env 100000000 demo_registry demo_warm demo_state = (ds, Inr ())"
proof -
  let ?ds = "accept_quote (demo_quote ''A:B'') demo_state"
  have sel: "pq_symbol (demo_quote ''A:B'') = ''A:B''" "pq_as_of (demo_quote ''A:B'') = 90000000" "pq_price (demo_quote ''A:B'') = 5"
    by (simp_all add: demo_quote_def)
  have points: "points_for ''A:B'' (ds_history ?ds) = []"
    by (simp add: accept_quote_def demo_state_def empty_history_def points_for_def dict_list_def)
  have "\<not> unsupported ''A:B'' demo_registry" using demo_canonical(1) by (simp add: unsupported_def canonical_def)
  moreover have complete: "is_complete demo_spot None None" by (simp add: is_complete_def demo_spot_def mk_instrument_spec_def)
  moreover have "\<exists>snap. rebuild demo_env demo_registry 100000000 [demo_minute] ''A:B'' ?ds = (install_snapshot demo_env demo_spot ''A:B'' snap ?ds, Inr (Some snap))
      \<and> is_complete demo_spot (qs_dividend snap) (qs_estimated_annual_yield snap)"
    using canonical_getitem [OF demo_canonical(1)] points
    by (simp add: rebuild_def accept_quote_def sel dict_get_set demo_income rebuild_changes_def demo_warm_changes complete Let_def)
  then obtain snap where snap: "rebuild demo_env demo_registry 100000000 [demo_minute] ''A:B'' ?ds = (install_snapshot demo_env demo_spot ''A:B'' snap ?ds, Inr (Some snap))"
      "is_complete demo_spot (qs_dividend snap) (qs_estimated_annual_yield snap)" by blast
  let ?ds3 = "install_snapshot demo_env demo_spot ''A:B'' snap ?ds"
  have "ds_active_aggregates ?ds3 = []" "''A:B'' \<in> set (ds_complete_symbols ?ds3)"
    using snap(2) by (simp_all add: install_snapshot_def accept_quote_def demo_state_def set_member_def)
  moreover obtain ds4 a where agg: "update_aggregate demo_minute ?ds3 = (ds4, Inr a)" using demo_aggregate calculation by blast
  moreover have "ds_complete_symbols ds4 = ds_complete_symbols ?ds3"
    using update_aggregate_frame(4) [of demo_minute ?ds3] agg by simp
  ultimately show ?thesis
    using snap(1) by (simp add: install_warmed_item_def install_income_def demo_warm_point sel future_limit_def time_units)
qed

lemma demo_clone: "clone_state (en_hash demo_env) demo_state = Inr demo_state"
  by (simp add: clone_state_def store_clone_def demo_state_def mk_snapshot_store_def store_all_def numeral_eq_Suc dict_update_def)

lemma demo_prepares: "\<exists>ds. prepare_runtime_state demo_env 100000000 demo_registry [demo_warm] None [] demo_state = (ds, Inr ())"
  using demo_installs by (auto simp: prepare_runtime_state_def demo_clone)

subsection \<open>A store\<close>

definition demo_store :: "string \<Rightarrow> policy_store" where
  "demo_store content = \<lparr>st_catalog = demo_catalog, st_file = content, st_backup = None, st_startup_revision = [],
     st_runtime_active_revision = [], st_transition_id = None, st_migration_pending = False\<rparr>"

lemma demo_store_sel [simp]:
  "st_catalog (demo_store c) = demo_catalog" "st_file (demo_store c) = c" "st_transition_id (demo_store c) = None"
  by (simp_all add: demo_store_def)

abbreviation demo_digest :: string where "demo_digest \<equiv> replicate 64 (CHR ''a'')"

lemma demo_document:
  "\<exists>doc. load_catalog_document demo_codec demo_catalog [] = Inr (doc, True) \<and> without_old_names (cd_active doc)"
  using demo_loads by (auto split: sum.splits)

text \<open>A foreign draft and a foreign activation are attempted while the lease is held.\<close>

theorem lease_protects_catalog_witness:
  "\<exists>st1 token st3 snapshot. capture_transition demo_codec demo_digest ''l'' (demo_store []) = (st1, Inr token)
     \<and> st_file (run_ops demo_codec [OpArchive ''i'' demo_digest, OpActivate demo_digest None None] st1) = []
     \<and> restore_transition demo_codec token demo_digest
         (run_ops demo_codec [OpArchive ''i'' demo_digest, OpActivate demo_digest None None] st1) = (st3, Inr snapshot)
     \<and> st_transition_id st3 = None"
proof -
  have sha: "cx_sha256 demo_codec s = demo_digest" for s by (simp add: demo_codec_def)
  obtain st1 token where cap: "capture_transition demo_codec demo_digest ''l'' (demo_store []) = (st1, Inr token)"
    using demo_document
    by (auto simp: capture_transition_iff demo_store_def sha hmac_compare_revision_def)
  from lease_protects_catalog [OF cap, of "[OpArchive ''i'' demo_digest, OpActivate demo_digest None None]"] cap
  show ?thesis by (auto simp: sha demo_store_def)
qed

subsection \<open>An activation\<close>

definition demo_request :: "catalog_generation \<Rightarrow> activation_request" where
  "demo_request target = \<lparr>rq_operation = ''activate'', rq_expected_revision = demo_digest, rq_target = target,
     rq_registry = demo_registry, rq_generation_id = ''h'', rq_lease_id = ''l'', rq_warmed = [demo_warm], rq_restored = None\<rparr>"

definition demo_process :: process_state where
  "demo_process = \<lparr>pr_service = demo_service, pr_store = demo_store ''s'', pr_storage_ready = True\<rparr>"

definition faults :: "bool \<Rightarrow> activation_faults" where
  "faults late = \<lparr>fa_start = False, fa_handover = False, fa_confirm = late\<rparr>"

text \<open>A codec whose file ''s'' has the active generation staged again and whose output is ''x''.\<close>

definition staged_codec :: "catalog_generation \<Rightarrow> codec" where
  "staged_codec g = demo_codec\<lparr>cx_decode := (\<lambda>c. Inr (DocumentV2
     (if c = ''s'' then \<lparr>cd_version = 2, cd_active = g, cd_staged = Some g, cd_last_known_good = None\<rparr>
      else \<lparr>cd_version = 2, cd_active = g, cd_staged = None, cd_last_known_good = Some g\<rparr>)))\<rparr>"

lemma staged_codec_sel [simp]:
  "cx_sha256 (staged_codec g) s = demo_digest" "cx_encode (staged_codec g) d = ''x''" "cx_revision (staged_codec g) = cx_revision demo_codec"
  by (simp_all add: staged_codec_def demo_codec_def)

lemma staged_loads:
  "\<exists>g. baseline_generation (staged_codec g) demo_catalog = Inr g \<and> without_old_names g
     \<and> load_catalog_document (staged_codec g) demo_catalog ''s'' =
         Inr (\<lparr>cd_version = 2, cd_active = g, cd_staged = Some g, cd_last_known_good = None\<rparr>, False)
     \<and> load_catalog_document (staged_codec g) demo_catalog ''x'' =
         Inr (\<lparr>cd_version = 2, cd_active = g, cd_staged = None, cd_last_known_good = Some g\<rparr>, False)"
proof -
  obtain doc where doc: "load_catalog_document demo_codec demo_catalog [] = Inr (doc, True)" "without_old_names (cd_active doc)"
    using demo_document by blast
  let ?g = "cd_active doc" and ?d = "\<lparr>cd_version = 2, cd_active = cd_active doc, cd_staged = Some (cd_active doc), cd_last_known_good = None\<rparr>"
    and ?e = "\<lparr>cd_version = 2, cd_active = cd_active doc, cd_staged = None, cd_last_known_good = Some (cd_active doc)\<rparr>"
  let ?cx = "staged_codec ?g"
  have base: "baseline_generation ?cx demo_catalog = Inr ?g" and valid: "errors_of (validate_generation (cx_revision demo_codec) ?g) = []"
    using doc(1) by (auto simp: staged_codec_def baseline_decode load_catalog_document_def res_bind_Inr_iff mk_document_iff
        validate_document_def model_validate_Inr_iff)
  have "catalog_generation_from_registry ?cx demo_catalog [] [] = Inr ?g"
    using base by (simp add: baseline_generation_def map_error_Inr_iff)
  from reconcile_registry_generation [OF base doc(2) this] have "reconcile_document ?cx ?g ?d = Inr ?d" "reconcile_document ?cx ?g ?e = Inr ?e"
    using valid by (simp_all add: reconcile_document_iff reconcile_optional_def mk_document_iff validate_document_def
        model_validate_Inr_iff optional_model_def)
  then show ?thesis
    using reconciled_document_loads [OF base, of ?d "''s''"] reconciled_document_loads [OF base, of ?e "''x''"] base doc(2)
    by (auto simp: staged_codec_def)
qed

text \<open>The file transition of the request, and the outcome of the whole activation.\<close>

lemma demo_outcome:
  assumes base: "baseline_generation (staged_codec g) demo_catalog = Inr g" and old: "without_old_names g"
    and s: "load_catalog_document (staged_codec g) demo_catalog ''s'' =
      Inr (\<lparr>cd_version = 2, cd_active = g, cd_staged = Some g, cd_last_known_good = None\<rparr>, False)"
    and x: "load_catalog_document (staged_codec g) demo_catalog ''x'' =
      Inr (\<lparr>cd_version = 2, cd_active = g, cd_staged = None, cd_last_known_good = Some g\<rparr>, False)"
  shows "isl (snd (commit_catalog_activation demo_env (staged_codec g) 100000000 (demo_request g) (faults late) demo_process)) = late"
proof -
  have "build_generation (cx_revision demo_codec) (cg_instruments g) = Inr g"
    using base catalog_generation_items(2) [of "staged_codec g" demo_catalog "[]" "[]" g] by (simp add: baseline_generation_def map_error_Inr_iff)
  then have "cg_revision g = cx_revision demo_codec (cg_instruments g)"
    unfolding build_generation_iff by (metis catalog_generation.select_convs(1))
  then have rev_ok: "length (cg_revision g) = 64" by (simp add: demo_codec_def)
  have valid: "mk_document (staged_codec g) g None (Some g) = Inr \<lparr>cd_version = 2, cd_active = g, cd_staged = None, cd_last_known_good = Some g\<rparr>"
    using loaded_document_reconciled [OF base old x] by (simp add: reconcile_document_iff)
  have cap: "capture_transition (staged_codec g) demo_digest ''l'' (demo_store ''s'') = ((demo_store ''s'')\<lparr>st_transition_id := Some ''l''\<rparr>,
      Inr \<lparr>tk_content = ''s'', tk_revision = demo_digest, tk_lease_id = ''l''\<rparr>)"
    unfolding capture_transition_iff using s
    by (intro conjI) (simp_all add: demo_store_def hmac_compare_revision_def MAX_CATALOG_FILE_BYTES_def, blast?)
  have ret: "retained_of demo_registry (sv_generation demo_service) = []" by (simp add: retained_of_def)
  obtain ds where prep: "prepare_runtime_state demo_env 100000000 demo_registry [demo_warm] None [] demo_state = (ds, Inr ())"
    using demo_prepares by blast
  show ?thesis
    using s x rev_ok valid
    by (simp add: commit_catalog_activation_def demo_process_def demo_request_def cap ret prep faults_def file_transition_def
        activate_staged_def locked_update_def read_locked_def read_bytes_def assert_revision_def hmac_compare_revision_def
        write_locked_def holds_lease_def serialize_catalog_document_def catalog_snapshot_of_def MAX_CATALOG_FILE_BYTES_def
        switch_generation_def confirm_file_def mark_runtime_applied_def commit_transition_def assert_transition_def map_error_def
        activate_generation_def Let_def)
qed

theorem activation_is_atomic_witness:
  "\<exists>cx rq pr1 pr2 e. commit_catalog_activation demo_env cx 100000000 rq (faults False) demo_process = (pr1, Inr ())
     \<and> took_effect cx rq demo_process pr1
     \<and> commit_catalog_activation demo_env cx 100000000 rq (faults True) demo_process = (pr2, Inl e)
     \<and> no_effect cx demo_process pr2"
proof -
  obtain g where base: "baseline_generation (staged_codec g) demo_catalog = Inr g" "without_old_names g"
    and load: "load_catalog_document (staged_codec g) demo_catalog ''s'' =
      Inr (\<lparr>cd_version = 2, cd_active = g, cd_staged = Some g, cd_last_known_good = None\<rparr>, False)"
    and again: "load_catalog_document (staged_codec g) demo_catalog ''x'' =
      Inr (\<lparr>cd_version = 2, cd_active = g, cd_staged = None, cd_last_known_good = Some g\<rparr>, False)"
    using staged_loads by blast
  let ?cx = "staged_codec g" and ?rq = "demo_request g"
  have read: "readable ?cx (rq_operation ?rq) (pr_store demo_process)"
    using base load by (simp add: readable_def holds_def demo_process_def demo_store_def demo_request_def switched_document_def)
      (simp add: staged_codec_def)
  have atomic: "case snd (commit_catalog_activation demo_env ?cx 100000000 ?rq (faults late) demo_process) of
      Inr _ \<Rightarrow> took_effect ?cx ?rq demo_process (fst (commit_catalog_activation demo_env ?cx 100000000 ?rq (faults late) demo_process))
    | Inl _ \<Rightarrow> no_effect ?cx demo_process (fst (commit_catalog_activation demo_env ?cx 100000000 ?rq (faults late) demo_process))" for late
    by (rule activation_is_atomic [OF _ _ read]) (simp_all add: demo_request_def demo_process_def demo_service_def)
  obtain pr1 r1 pr2 r2 where runs:
    "commit_catalog_activation demo_env ?cx 100000000 ?rq (faults False) demo_process = (pr1, r1)"
    "commit_catalog_activation demo_env ?cx 100000000 ?rq (faults True) demo_process = (pr2, r2)" by fastforce
  from demo_outcome [OF base load again] have "\<not> isl r1" "isl r2" using runs by (metis snd_conv)+
  with atomic [of False] atomic [of True] runs
  have "r1 = Inr ()" "took_effect ?cx ?rq demo_process pr1" "isl r2" "no_effect ?cx demo_process pr2"
    by (cases r1; cases r2; simp)+
  with runs show ?thesis by (metis isl_def)
qed

end
