(* ===== verification/QP_Descriptors.thy ===== *)
theory QP_Descriptors
  imports QP_Catalog QP_Router
begin

text \<open>
  The provider catalogue of \<^verbatim>\<open>quickprice/providers/descriptors.py\<close>: what each provider can
  serve, which symbol syntax it takes, what a call costs, and when a vendor symbol is the
  identity of a canonical instrument. Frozen sets are lists without repetition; decimals are
  rationals.
\<close>

datatype provider_kind = MARKET_DATA | INCOME_DATA | DERIVED

datatype vendor_symbol_kind =
  EXCHANGE_COMPACT | EXCHANGE_PAIR | LISTED_TICKER | MARKET_OR_TICKER | COIN_ID | FRED_SERIES | CANONICAL | NO_SYMBOL

datatype binding_verification_mode =
  STATIC_DETERMINISTIC | UPSTREAM_CATALOG | OPAQUE_UPSTREAM_IDENTITY | NOT_APPLICABLE

record provider_descriptor =
  ds_name :: string
  ds_display_name :: string
  ds_kind :: provider_kind
  ds_capabilities :: "capability list"
  ds_asset_classes :: "asset_class list"
  ds_credential_fields :: "string list"
  ds_setting_fields :: "string list"
  ds_fixed_hosts :: "string list"
  ds_vendor_symbol_kind :: vendor_symbol_kind
  ds_binding_verification :: binding_verification_mode
  ds_search_supported :: bool
  ds_streaming_quotes :: bool
  ds_stream_symbol_limit :: "nat option"
  ds_stream_symbol_limit_setting :: "string option"
  ds_rest_calls_per_minute_setting :: "string option"
  ds_quote_credit_cost :: rat
  ds_history_credit_cost :: rat
  ds_dividend_credit_cost :: rat
  ds_yield_credit_cost :: rat
  ds_notes :: string

definition descriptor_supports :: "provider_descriptor \<Rightarrow> asset_class \<Rightarrow> capability \<Rightarrow> bool" where
  "descriptor_supports d asset cap = (asset \<in> set (ds_asset_classes d) \<and> cap \<in> set (ds_capabilities d))"

text \<open>The settings are the set of names of the fields that hold a truthy value.\<close>

definition credentials_configured :: "provider_descriptor \<Rightarrow> string set option \<Rightarrow> bool" where
  "credentials_configured d settings =
     (if ds_setting_fields d = [] then True
      else case settings of None \<Rightarrow> False | Some present \<Rightarrow> list_all (\<lambda>f. f \<in> present) (ds_setting_fields d))"

definition credit_cost :: "provider_descriptor \<Rightarrow> capability \<Rightarrow> rat" where
  "credit_cost d cap =
     (case cap of QUOTE \<Rightarrow> ds_quote_credit_cost d | HISTORY \<Rightarrow> ds_history_credit_cost d
      | DIVIDEND \<Rightarrow> ds_dividend_credit_cost d | YIELD \<Rightarrow> ds_yield_credit_cost d)"

definition LISTED_CLASSES :: "asset_class list" where "LISTED_CLASSES = [EQUITY, BOND]"
definition ALL_CLASSES :: "asset_class list" where "ALL_CLASSES = [CRYPTO, EQUITY, BOND, FX]"
definition QUOTE_HISTORY :: "capability list" where "QUOTE_HISTORY = [QUOTE, HISTORY]"

text \<open>\<^verbatim>\<open>_descriptor\<close> with the defaults of its keyword arguments.\<close>

definition mk_descriptor ::
  "string \<Rightarrow> string \<Rightarrow> capability list \<Rightarrow> asset_class list \<Rightarrow> (string \<times> string) list \<Rightarrow> string list \<Rightarrow> string \<Rightarrow>
   provider_descriptor" where
  "mk_descriptor name display_name capabilities asset_classes credentials hosts notes =
     \<lparr>ds_name = name, ds_display_name = display_name, ds_kind = MARKET_DATA, ds_capabilities = capabilities,
      ds_asset_classes = asset_classes, ds_credential_fields = map fst credentials, ds_setting_fields = map snd credentials,
      ds_fixed_hosts = hosts, ds_vendor_symbol_kind = NO_SYMBOL, ds_binding_verification = STATIC_DETERMINISTIC,
      ds_search_supported = False, ds_streaming_quotes = False, ds_stream_symbol_limit = None,
      ds_stream_symbol_limit_setting = None, ds_rest_calls_per_minute_setting = None, ds_quote_credit_cost = 0,
      ds_history_credit_cost = 0, ds_dividend_credit_cost = 0, ds_yield_credit_cost = 0, ds_notes = notes\<rparr>"

subsection \<open>The catalogue\<close>

definition exchange_descriptors :: "provider_descriptor list" where
  "exchange_descriptors = [
     (mk_descriptor ''binance'' ''Binance Spot'' QUOTE_HISTORY [CRYPTO] [] [''api.binance.com'', ''stream.binance.com'']
        ''Public spot trades, books, and klines.'')
       \<lparr>ds_vendor_symbol_kind := EXCHANGE_COMPACT, ds_binding_verification := UPSTREAM_CATALOG, ds_search_supported := True,
        ds_streaming_quotes := True\<rparr>,
     (mk_descriptor ''okx'' ''OKX Spot'' QUOTE_HISTORY [CRYPTO] [] [''www.okx.com''] ''Public spot books and candles.'')
       \<lparr>ds_vendor_symbol_kind := EXCHANGE_PAIR, ds_binding_verification := UPSTREAM_CATALOG, ds_search_supported := True\<rparr>,
     (mk_descriptor ''kraken'' ''Kraken Spot'' QUOTE_HISTORY [CRYPTO] [] [''api.kraken.com'', ''ws.kraken.com'']
        ''Public spot trades and OHLC; history is limited to the latest 720 bars.'')
       \<lparr>ds_vendor_symbol_kind := EXCHANGE_COMPACT, ds_binding_verification := UPSTREAM_CATALOG, ds_search_supported := True,
        ds_streaming_quotes := True\<rparr>,
     (mk_descriptor ''coingecko'' ''CoinGecko Demo'' QUOTE_HISTORY [CRYPTO] [(''COINGECKO_API_KEY'', ''coingecko_api_key'')]
        [''api.coingecko.com''] ''Aggregated fallback data with a monthly credit allowance.'')
       \<lparr>ds_vendor_symbol_kind := COIN_ID, ds_binding_verification := OPAQUE_UPSTREAM_IDENTITY, ds_search_supported := True,
        ds_quote_credit_cost := 1, ds_history_credit_cost := 1\<rparr>]"

definition listed_descriptors :: "provider_descriptor list" where
  "listed_descriptors = [
     (mk_descriptor ''alpaca'' ''Alpaca IEX'' [QUOTE, HISTORY, DIVIDEND] LISTED_CLASSES
        [(''ALPACA_API_KEY'', ''alpaca_api_key''), (''ALPACA_API_SECRET'', ''alpaca_api_secret'')]
        [''data.alpaca.markets'', ''paper-api.alpaca.markets'']
        ''IEX single-venue market data for personal internal use.'')
       \<lparr>ds_vendor_symbol_kind := LISTED_TICKER, ds_binding_verification := UPSTREAM_CATALOG, ds_search_supported := True,
        ds_streaming_quotes := True, ds_stream_symbol_limit := Some 30,
        ds_stream_symbol_limit_setting := Some ''alpaca_stream_symbol_limit'',
        ds_rest_calls_per_minute_setting := Some ''alpaca_rest_calls_per_minute''\<rparr>,
     (mk_descriptor ''finnhub'' ''Finnhub'' [QUOTE] LISTED_CLASSES [(''FINNHUB_API_KEY'', ''finnhub_api_key'')]
        [''api.finnhub.io'', ''ws.finnhub.io''] ''Quote-only fallback under the configured minute allowance.'')
       \<lparr>ds_vendor_symbol_kind := LISTED_TICKER, ds_binding_verification := UPSTREAM_CATALOG, ds_search_supported := True,
        ds_streaming_quotes := True, ds_stream_symbol_limit := Some 50,
        ds_rest_calls_per_minute_setting := Some ''finnhub_calls_per_minute'', ds_quote_credit_cost := 1\<rparr>,
     (mk_descriptor ''twelve_data'' ''Twelve Data'' QUOTE_HISTORY (LISTED_CLASSES @ [FX])
        [(''TWELVE_DATA_API_KEY'', ''twelve_data_api_key'')] [''api.twelvedata.com'']
        ''REST market data governed by the configured daily credit budget.'')
       \<lparr>ds_vendor_symbol_kind := MARKET_OR_TICKER, ds_binding_verification := UPSTREAM_CATALOG, ds_search_supported := True,
        ds_quote_credit_cost := 1, ds_history_credit_cost := 1\<rparr>,
     (mk_descriptor ''alpha_vantage'' ''Alpha Vantage'' QUOTE_HISTORY (LISTED_CLASSES @ [FX])
        [(''ALPHA_VANTAGE_API_KEY'', ''alpha_vantage_api_key'')] [''www.alphavantage.co'']
        ''Low-frequency emergency fallback; dividend data is excluded from automatic routes.'')
       \<lparr>ds_vendor_symbol_kind := MARKET_OR_TICKER, ds_binding_verification := UPSTREAM_CATALOG, ds_search_supported := True,
        ds_quote_credit_cost := 1, ds_history_credit_cost := 1\<rparr>]"

definition income_descriptors :: "provider_descriptor list" where
  "income_descriptors = [
     (mk_descriptor ''fred'' ''Federal Reserve Economic Data'' [YIELD] [BOND] [(''FRED_API_KEY'', ''fred_api_key'')]
        [''api.stlouisfed.org''] ''Controlled United States Treasury series for proxy yields.'')
       \<lparr>ds_kind := INCOME_DATA, ds_vendor_symbol_kind := FRED_SERIES, ds_search_supported := True, ds_yield_credit_cost := 1\<rparr>,
     (mk_descriptor ''binance_staking_rate'' ''Binance Staking Rate'' [YIELD] [CRYPTO]
        [(''BINANCE_API_KEY'', ''binance_api_key''), (''BINANCE_API_SECRET'', ''binance_api_secret'')] [''api.binance.com''] [])
       \<lparr>ds_kind := INCOME_DATA, ds_vendor_symbol_kind := CANONICAL, ds_yield_credit_cost := 1\<rparr>,
     (mk_descriptor ''aave_v3'' ''Aave V3 Supply APR'' [YIELD] [CRYPTO] [(''ETHEREUM_RPC_URLS'', ''ethereum_rpc_urls'')] []
        ''Reads the current reserve liquidity rate from the fixed Aave V3 Ethereum deployment.'')
       \<lparr>ds_kind := INCOME_DATA, ds_vendor_symbol_kind := CANONICAL\<rparr>,
     (mk_descriptor ''ethereum_exchange_rate'' ''Ethereum Exchange Rate'' [YIELD] [CRYPTO]
        [(''ETHEREUM_RPC_URLS'', ''ethereum_rpc_urls'')] [] [])
       \<lparr>ds_kind := INCOME_DATA, ds_vendor_symbol_kind := CANONICAL\<rparr>,
     (mk_descriptor ''lido'' ''Lido APR'' [YIELD] [CRYPTO] [] [''eth-api.lido.fi''] [])
       \<lparr>ds_kind := INCOME_DATA, ds_vendor_symbol_kind := CANONICAL\<rparr>,
     (mk_descriptor ''okx_beth_yield'' ''OKX BETH APR'' [YIELD] [CRYPTO] [] [''www.okx.com''] [])
       \<lparr>ds_kind := INCOME_DATA, ds_vendor_symbol_kind := CANONICAL\<rparr>]"

definition derived_descriptors :: "provider_descriptor list" where
  "derived_descriptors = map (\<lambda>d. d\<lparr>ds_kind := DERIVED, ds_binding_verification := NOT_APPLICABLE\<rparr>) [
     mk_descriptor ''staking_market_ratio_proxy'' ''Staking Market Ratio Proxy'' [YIELD] [CRYPTO] [] []
       ''Annualizes the configured token-to-underlying ratio lookback.'',
     mk_descriptor ''staking_backing_proxy'' ''Staking Protocol Backing Proxy'' QUOTE_HISTORY [CRYPTO] [] []
       ''Quote and constant-ratio history derived from underlying prices and controlled protocol backing rules.'',
     mk_descriptor ''synthetic'' ''Restricted Synthetic'' QUOTE_HISTORY ALL_CLASSES [] [] [],
     mk_descriptor ''synthetic_fx'' ''USD Hub FX Synthetic'' QUOTE_HISTORY [FX] [] [] []]"

definition PROVIDER_CATALOG :: "provider_descriptor list" where
  "PROVIDER_CATALOG = exchange_descriptors @ listed_descriptors @ income_descriptors @ derived_descriptors"

definition descriptor_named :: "string \<Rightarrow> provider_descriptor option" where
  "descriptor_named name = find (\<lambda>d. ds_name d = name) PROVIDER_CATALOG"

definition canonical_provider_name :: "string \<Rightarrow> string" where
  "canonical_provider_name name =
     (let normalized = lower (strip name) in
      if normalized = ''binance_wbeth_rate'' then ''binance_staking_rate''
      else if descriptor_named normalized \<noteq> None then normalized
      else if normalized = ''synthetic_fx_history'' then ''synthetic_fx''
      else if is_prefix ''synthetic_'' normalized then ''synthetic''
      else normalized)"

definition get_provider_descriptor :: "string \<Rightarrow> provider_descriptor result" where
  "get_provider_descriptor name =
     (case descriptor_named (canonical_provider_name name) of
        None \<Rightarrow> Inl (ValueError ''unknown provider: '') | Some d \<Rightarrow> Inr d)"

definition configured_provider_names :: "string set option \<Rightarrow> string list" where
  "configured_provider_names settings = map ds_name (filter (\<lambda>d. credentials_configured d settings) PROVIDER_CATALOG)"

subsection \<open>Vendor symbols\<close>

fun split_all :: "char \<Rightarrow> string \<Rightarrow> string list" where
  "split_all c [] = [[]]"
| "split_all c (x # xs) = (if x = c then [] # split_all c xs
     else case split_all c xs of [] \<Rightarrow> [[x]] | s # ss \<Rightarrow> (x # s) # ss)"

definition upper_run :: "nat \<Rightarrow> nat \<Rightarrow> string \<Rightarrow> bool" where
  "upper_run low high s = (list_all upper_head s \<and> low \<le> length s \<and> length s \<le> high)"

definition compact_pattern :: "string \<Rightarrow> bool" where "compact_pattern = upper_run 4 30"

definition pair_pattern :: "string \<Rightarrow> bool" where
  "pair_pattern s = (case split_once (CHR ''-'') s of None \<Rightarrow> False
     | Some (base, quote) \<Rightarrow> upper_run 2 15 base \<and> upper_run 2 15 quote)"

definition ticker_pattern :: "string \<Rightarrow> bool" where
  "ticker_pattern = head_tail is_upper_letter (\<lambda>c. upper_head c \<or> c \<in> set ''.-'') 19"

definition market_part :: "string \<Rightarrow> bool" where
  "market_part = head_tail upper_head (\<lambda>c. upper_head c \<or> c \<in> set ''._-'') 19"

definition market_pattern :: "string \<Rightarrow> bool" where
  "market_pattern s = (case split_once (CHR ''/'') s of None \<Rightarrow> market_part s
     | Some (base, quote) \<Rightarrow> market_part base \<and> market_part quote)"

definition coin_id_pattern :: "string \<Rightarrow> bool" where
  "coin_id_pattern s = list_all (\<lambda>part. part \<noteq> [] \<and> list_all lower_head part) (split_all (CHR ''-'') s)"

definition vendor_symbol_valid :: "vendor_symbol_kind \<Rightarrow> string \<Rightarrow> bool" where
  "vendor_symbol_valid kind s =
     (case kind of
        EXCHANGE_COMPACT \<Rightarrow> compact_pattern s | EXCHANGE_PAIR \<Rightarrow> pair_pattern s | LISTED_TICKER \<Rightarrow> ticker_pattern s
      | MARKET_OR_TICKER \<Rightarrow> market_pattern s | COIN_ID \<Rightarrow> coin_id_pattern s
      | FRED_SERIES \<Rightarrow> s \<in> set SUPPORTED_TREASURY_PROXY_FRED_SERIES | CANONICAL \<Rightarrow> symbol_pattern s | NO_SYMBOL \<Rightarrow> False)"

definition validate_provider_symbol :: "string \<Rightarrow> string \<Rightarrow> string result" where
  "validate_provider_symbol provider vendor_symbol =
     res_bind (get_provider_descriptor provider) (\<lambda>descriptor.
     let candidate = strip vendor_symbol in
     raise_if (candidate = [] \<or> 80 < length candidate \<or> list_ex (\<lambda>c. (of_char c :: nat) < 32) candidate)
       (ValueError ''vendor symbol is empty or too long'') (
     raise_if (is_infix ''://'' candidate \<or> CHR ''@'' \<in> set candidate \<or> CHR ''?'' \<in> set candidate \<or> CHR ''#'' \<in> set candidate)
       (ValueError ''vendor symbol contains a forbidden URL or credential delimiter'') (
     raise_if (ds_vendor_symbol_kind descriptor = NO_SYMBOL) (ValueError ''provider '') (
     let normalized = (if ds_vendor_symbol_kind descriptor = COIN_ID then lower candidate else upper candidate) in
     raise_if (\<not> vendor_symbol_valid (ds_vendor_symbol_kind descriptor) normalized) (ValueError ''invalid '')
       (Inr normalized)))))"

definition COINGECKO_SUPPORTED_QUOTE_ASSETS :: "string list" where
  "COINGECKO_SUPPORTED_QUOTE_ASSETS = [''USD'', ''USDC'']"

definition kraken_alias :: "string \<Rightarrow> string" where
  "kraken_alias asset = (if asset = ''BTC'' then ''XBT'' else if asset = ''DOGE'' then ''XDG'' else asset)"

definition identity_matches ::
  "provider_descriptor \<Rightarrow> asset_class \<Rightarrow> string \<Rightarrow> string \<Rightarrow> string \<Rightarrow> string \<Rightarrow> bool" where
  "identity_matches descriptor asset canonical base quote upper_vendor =
     (let provider = ds_name descriptor in
      if provider = ''binance'' then upper_vendor = base @ quote
      else if provider = ''okx'' then upper_vendor = base @ ''-'' @ quote
      else if provider = ''kraken'' then upper_vendor = kraken_alias base @ kraken_alias quote
      else if provider \<in> {''alpaca'', ''finnhub'', ''twelve_data'', ''alpha_vantage''}
      then (if asset = FX then upper_vendor = base @ ''/'' @ quote else quote = ''USD'' \<and> upper_vendor = base)
      else if ds_vendor_symbol_kind descriptor = COIN_ID then quote \<in> set COINGECKO_SUPPORTED_QUOTE_ASSETS
      else if ds_vendor_symbol_kind descriptor = CANONICAL then upper_vendor = canonical
      else True)"

definition validate_provider_binding_identity ::
  "string \<Rightarrow> asset_class \<Rightarrow> string \<Rightarrow> string \<Rightarrow> string result" where
  "validate_provider_binding_identity instrument_symbol asset provider vendor_symbol =
     (let canonical = normalize_symbol instrument_symbol in
      case split_once (CHR '':'') canonical of
        None \<Rightarrow> Inl (ValueError ''instrument binding identity is invalid'')
      | Some (base, quote) \<Rightarrow>
          res_bind (get_provider_descriptor provider) (\<lambda>descriptor.
          res_bind (validate_provider_symbol (ds_name descriptor) vendor_symbol) (\<lambda>normalized_vendor.
          raise_if (asset \<notin> set (ds_asset_classes descriptor)) (ValueError ''provider binding is incompatible with '') (
          raise_if (\<not> identity_matches descriptor asset canonical base quote (upper normalized_vendor))
            (ValueError ''provider binding does not match '') (Inr normalized_vendor)))))"

definition MAX_PROVIDER_SEARCH_QUERY_LENGTH :: nat where "MAX_PROVIDER_SEARCH_QUERY_LENGTH = 100"

definition clean_query :: "string \<Rightarrow> string result" where
  "clean_query query =
     (let normalized = strip query in
      raise_if (normalized = [] \<or> MAX_PROVIDER_SEARCH_QUERY_LENGTH < length normalized)
        (ValueError ''search query is empty or too long'') (
      raise_if (list_ex (\<lambda>c. (of_char c :: nat) < 32) normalized)
        (ValueError ''search query contains control characters'') (Inr normalized)))"

end
