(* ===== verification/QP_Compiler.thy ===== *)
theory QP_Compiler
  imports QP_Descriptors QP_Generation
begin

text \<open>
  The route compiler of \<^verbatim>\<open>quickprice/providers/compiler.py\<close>: from the instruments of a
  catalogue generation to a provider chain per instrument and capability. The enums of the
  inputs are typed here: the compiler's own conversions of strings cannot fail on them.
\<close>

datatype compile_error = RouteCompileError string | CompileValueError string

definition wrap_value_error :: "'a result \<Rightarrow> compile_error + 'a" where
  "wrap_value_error r = (case r of Inl _ \<Rightarrow> Inl (RouteCompileError ''invalid binding for '') | Inr x \<Rightarrow> Inr x)"

definition plain_value_error :: "'a result \<Rightarrow> compile_error + 'a" where
  "plain_value_error r = (case r of Inl _ \<Rightarrow> Inl (CompileValueError ''unknown provider: '') | Inr x \<Rightarrow> Inr x)"

definition MAX_PROVIDER_CHAIN_LENGTH :: nat where "MAX_PROVIDER_CHAIN_LENGTH = 4"
definition COMPILER_MAX_SYNTHETIC_DEPTH :: nat where "COMPILER_MAX_SYNTHETIC_DEPTH = 4"

subsection \<open>Inputs\<close>

record synthetic_input =
  si_operation :: synthetic_operation
  si_inputs :: "string list"
  si_max_skew_seconds :: rat
  si_input_max_age_seconds :: "rat option list"

definition mk_synthetic_input ::
  "synthetic_operation \<Rightarrow> string list \<Rightarrow> rat \<Rightarrow> rat option list \<Rightarrow> compile_error + synthetic_input" where
  "mk_synthetic_input operation inputs max_skew max_ages =
     (let expected = (if operation = INVERSE then 1 else 2);
          ages = (if max_ages = [] then replicate expected None else max_ages) in
      raise_if (length inputs \<noteq> expected) (RouteCompileError ''synthetic '') (
      raise_if (max_skew < 0) (RouteCompileError ''synthetic maximum skew cannot be negative'') (
      raise_if (length ages \<noteq> expected \<or> list_ex (\<lambda>a. case a of None \<Rightarrow> False | Some x \<Rightarrow> x \<le> 0) ages)
        (RouteCompileError ''synthetic input maximum ages are invalid'')
        (Inr \<lparr>si_operation = operation, si_inputs = map normalize_symbol inputs, si_max_skew_seconds = max_skew,
              si_input_max_age_seconds = ages\<rparr>))))"

record route_input =
  ri_symbol :: string
  ri_asset_class :: asset_class
  ri_asset_type :: string
  ri_quote_poll_seconds :: rat
  ri_ownership :: string
  ri_history_enabled :: bool
  ri_history_poll_seconds :: rat
  ri_history_backfill_days :: int
  ri_metadata_poll_seconds :: rat
  ri_dividend_strategy :: "string option"
  ri_yield_strategy :: "yield_strategy option"
  ri_underlying_asset :: "string option"
  ri_reward_accrual_mode :: "string option"
  ri_provider_symbols :: "(string, string) dict"
  ri_routes :: "(capability, string list) dict"
  ri_synthetic :: "synthetic_input option"

definition reward_mode_value :: "string option \<Rightarrow> string option" where
  "reward_mode_value = map_option (\<lambda>v. lower (strip v))"

fun normalized_bindings ::
  "string \<Rightarrow> asset_class \<Rightarrow> (string \<times> string) list \<Rightarrow> (string, string) dict \<Rightarrow> compile_error + (string, string) dict" where
  "normalized_bindings symbol asset [] bindings = Inr bindings"
| "normalized_bindings symbol asset ((provider, vendor_symbol) # rest) bindings =
     (let normalized = lower (strip provider) in
      raise_if (normalized \<in> set (dict_keys bindings)) (RouteCompileError ''duplicate provider binding for '') (
      res_bind (wrap_value_error (validate_provider_symbol normalized vendor_symbol)) (\<lambda>normalized_binding.
      res_bind (wrap_value_error (validate_provider_binding_identity symbol asset normalized normalized_binding)) (\<lambda>_.
      normalized_bindings symbol asset rest (dict_set normalized normalized_binding bindings)))))"

definition clean_chain :: "string list \<Rightarrow> string list" where
  "clean_chain providers = map (\<lambda>p. lower (strip p)) (filter (\<lambda>p. strip p \<noteq> []) providers)"

fun normalized_routes ::
  "(capability \<times> string list) list \<Rightarrow> (capability, string list) dict \<Rightarrow> compile_error + (capability, string list) dict" where
  "normalized_routes [] routes = Inr routes"
| "normalized_routes ((cap, providers) # rest) routes =
     raise_if (clean_chain providers = []) (RouteCompileError ''provider chain cannot be empty: '')
       (normalized_routes rest (dict_set cap (clean_chain providers) routes))"

text \<open>\<^verbatim>\<open>__post_init__\<close> on the arguments given as a record.\<close>

definition mk_route_input :: "route_input \<Rightarrow> compile_error + route_input" where
  "mk_route_input x =
     (let symbol = normalize_symbol (ri_symbol x); asset = ri_asset_class x;
          dividend = map_option (\<lambda>v. lower (strip v)) (ri_dividend_strategy x) in
      raise_if (CHR '':'' \<notin> set symbol) (RouteCompileError ''invalid instrument symbol: '') (
      raise_if (strip (ri_asset_type x) = []) (RouteCompileError ''instrument '') (
      raise_if (ri_quote_poll_seconds x \<le> 0 \<or> ri_history_poll_seconds x \<le> 0 \<or> ri_metadata_poll_seconds x \<le> 0
          \<or> ri_history_backfill_days x \<le> 0) (RouteCompileError ''instrument '') (
      res_bind (normalized_bindings symbol asset (ri_provider_symbols x) []) (\<lambda>bindings.
      res_bind (normalized_routes (ri_routes x) []) (\<lambda>routes.
      raise_if (case dividend of None \<Rightarrow> False | Some d \<Rightarrow> d \<notin> set SUPPORTED_DIVIDEND_STRATEGIES)
        (RouteCompileError ''invalid dividend strategy for '')
        (Inr (x\<lparr>ri_symbol := symbol, ri_asset_type := strip (ri_asset_type x),
           ri_ownership := lower (strip (ri_ownership x)), ri_provider_symbols := bindings, ri_routes := routes,
           ri_dividend_strategy := dividend, ri_reward_accrual_mode := reward_mode_value (ri_reward_accrual_mode x),
           ri_underlying_asset := map_option (\<lambda>v. upper (strip v)) (ri_underlying_asset x)\<rparr>))))))))"

definition ownership_value :: "instrument_ownership \<Rightarrow> string" where
  "ownership_value own = (if own = BUILTIN then ''builtin'' else ''custom'')"

definition capability_of :: "string \<Rightarrow> compile_error + capability" where
  "capability_of v =
     (if v = ''quote'' then Inr QUOTE else if v = ''history'' then Inr HISTORY else if v = ''dividend'' then Inr DIVIDEND
      else if v = ''yield'' then Inr YIELD else Inl (CompileValueError ''not a valid Capability''))"

text \<open>The vendor symbols of a definition: its bindings, the FRED series, the FX pair.\<close>

definition fred_bindings :: "income_policy option \<Rightarrow> (string, string) dict \<Rightarrow> compile_error + (string, string) dict" where
  "fred_bindings income symbols =
     (case income of
        None \<Rightarrow> Inr symbols
      | Some p \<Rightarrow>
          if is_treasury p then
            (case in_fred_series p of
               None \<Rightarrow> Inl (RouteCompileError ''Treasury proxy yield requires IncomePolicy.fred_series'')
             | Some series \<Rightarrow>
                 raise_if (in_yield_strategy p = Some TREASURY_3M_PROXY_MINUS_EXPENSE \<and> series \<noteq> TREASURY_3M_FRED_SERIES)
                   (RouteCompileError ''the three-month Treasury strategy requires '') (
                 raise_if (case dict_get symbols ''fred'' of None \<Rightarrow> False | Some v \<Rightarrow> upper (strip v) \<noteq> series)
                   (RouteCompileError ''FRED provider binding must match IncomePolicy.fred_series'')
                   (Inr (dict_set ''fred'' series symbols))))
          else raise_if (dict_get symbols ''fred'' \<noteq> None)
                 (RouteCompileError ''FRED provider binding requires the Treasury proxy yield strategy'') (Inr symbols))"

definition set_default :: "string \<Rightarrow> string \<Rightarrow> (string, string) dict \<Rightarrow> (string, string) dict" where
  "set_default k v d = (if dict_get d k = None then dict_set k v d else d)"

definition definition_symbols :: "managed_definition \<Rightarrow> compile_error + (string, string) dict" where
  "definition_symbols d =
     res_bind (fred_bindings (md_income d) (fold (\<lambda>b. dict_set (sb_provider b) (sb_symbol b)) (md_provider_symbols d) []))
       (\<lambda>symbols.
     let pair = replace_char (CHR '':'') (CHR ''/'') (md_symbol d) in
     Inr (if md_asset_class d = FX then set_default ''alpha_vantage'' pair (set_default ''twelve_data'' pair symbols)
          else symbols))"

definition definition_synthetic :: "managed_definition \<Rightarrow> compile_error + synthetic_input option" where
  "definition_synthetic d =
     (case md_synthetic d of
        None \<Rightarrow> Inr None
      | Some s \<Rightarrow> res_bind (mk_synthetic_input (sd_operation s) (sd_inputs s) (sd_max_skew_seconds s)
                    (sd_input_max_age_seconds s)) (\<lambda>x. Inr (Some x)))"

definition positive_or :: "'a :: zero \<Rightarrow> 'a option \<Rightarrow> 'a" where
  "positive_or fallback x = (case x of None \<Rightarrow> fallback | Some v \<Rightarrow> if v = 0 then fallback else v)"

definition route_input_from_definition :: "managed_definition \<Rightarrow> compile_error + route_input" where
  "route_input_from_definition d =
     res_bind (definition_symbols d) (\<lambda>symbols.
     res_bind (res_map (\<lambda>r. res_bind (capability_of (cr_capability r)) (\<lambda>c. Inr (c, cr_providers r))) (md_routes d)) (\<lambda>routes.
     res_bind (definition_synthetic d) (\<lambda>synthetic.
     mk_route_input
       \<lparr>ri_symbol = md_symbol d, ri_asset_class = md_asset_class d, ri_asset_type = md_asset_type d,
        ri_quote_poll_seconds = md_quote_poll_seconds d, ri_ownership = ownership_value (md_ownership d),
        ri_history_enabled = hp_enabled (md_history d),
        ri_history_poll_seconds = positive_or 3600 (hp_poll_seconds (md_history d)),
        ri_history_backfill_days = positive_or 400 (hp_backfill_days (md_history d)),
        ri_metadata_poll_seconds = 21600, ri_dividend_strategy = income_dividend d,
        ri_yield_strategy = income_yield d, ri_underlying_asset = income_underlying d,
        ri_reward_accrual_mode = map_option accrual_mode_value (income_mode d), ri_provider_symbols = symbols,
        ri_routes = fold (\<lambda>(c, ps). dict_set c ps) routes [], ri_synthetic = synthetic\<rparr>)))"

definition active_definitions :: "managed_definition list \<Rightarrow> managed_definition list" where
  "active_definitions = filter (\<lambda>d. md_enabled d \<and> \<not> md_archived d)"

subsection \<open>Required and recommended routes\<close>

definition required_capabilities :: "route_input \<Rightarrow> capability list" where
  "required_capabilities item =
     [QUOTE] @ (if ri_history_enabled item then [HISTORY] else [])
     @ (if ri_dividend_strategy item \<noteq> None \<or> ri_yield_strategy item = Some LATEST_DISTRIBUTION_ANNUALIZED
        then [DIVIDEND] else [])
     @ (if ri_yield_strategy item \<notin> {None, Some LATEST_DISTRIBUTION_ANNUALIZED} then [YIELD] else [])"

definition requires_vendor_symbol :: "string \<Rightarrow> compile_error + bool" where
  "requires_vendor_symbol provider =
     res_bind (plain_value_error (get_provider_descriptor provider)) (\<lambda>d.
     Inr (ds_kind d = MARKET_DATA \<or> provider = ''fred''))"

definition is_staking :: "route_input \<Rightarrow> bool" where
  "is_staking item = is_infix ''staking'' (lower (ri_asset_type item))"

definition staking_yield_candidates :: "route_input \<Rightarrow> string list" where
  "staking_yield_candidates item =
     (let builtin = dict_list (dict_list BUILTIN_PROVIDER_ROUTES (ri_symbol item)) ''yield'' in
      if builtin \<noteq> [] then builtin
      else if reward_mode_value (ri_reward_accrual_mode item) = Some ''value_accruing''
      then [''staking_market_ratio_proxy''] else [])"

definition recommended_candidates :: "route_input \<Rightarrow> capability \<Rightarrow> string list" where
  "recommended_candidates item cap =
     (if ri_synthetic item \<noteq> None \<and> cap \<in> {QUOTE, HISTORY} then [''synthetic'']
      else case ri_asset_class item of
        CRYPTO \<Rightarrow>
          if cap \<in> {QUOTE, HISTORY} then [''binance'', ''okx'', ''kraken'', ''coingecko'']
          else if cap = YIELD \<and> is_staking item then staking_yield_candidates item else []
      | FX \<Rightarrow>
          (case split_once (CHR '':'') (ri_symbol item) of
             None \<Rightarrow> []
           | Some (base, quote) \<Rightarrow>
               if base = ''USD'' \<or> quote = ''USD'' then [''twelve_data'', ''alpha_vantage''] else [''synthetic_fx''])
      | _ \<Rightarrow>
          (case cap of
             QUOTE \<Rightarrow> [''alpaca'', ''finnhub'', ''twelve_data'', ''alpha_vantage'']
           | HISTORY \<Rightarrow> [''alpaca'', ''twelve_data'', ''alpha_vantage'']
           | DIVIDEND \<Rightarrow> [''alpaca'']
           | YIELD \<Rightarrow> [''fred'']))"

fun select_recommended ::
  "route_input \<Rightarrow> capability \<Rightarrow> string list option \<Rightarrow> string list \<Rightarrow> compile_error + string list" where
  "select_recommended item cap available [] = Inr []"
| "select_recommended item cap available (provider # rest) =
     res_bind (plain_value_error (get_provider_descriptor provider)) (\<lambda>descriptor.
     res_bind (requires_vendor_symbol provider) (\<lambda>needs_symbol.
     res_bind (select_recommended item cap available rest) (\<lambda>selected.
     Inr (if (case available of None \<Rightarrow> False | Some names \<Rightarrow> provider \<notin> set names)
             \<or> \<not> descriptor_supports descriptor (ri_asset_class item) cap
             \<or> needs_symbol \<and> dict_get (ri_provider_symbols item) provider = None
          then selected else provider # selected))))"

definition recommended_provider_chain ::
  "route_input \<Rightarrow> capability \<Rightarrow> string list option \<Rightarrow> compile_error + string list" where
  "recommended_provider_chain item cap available = select_recommended item cap available (recommended_candidates item cap)"

subsection \<open>Validation of a chain\<close>

record chain_options =
  co_available :: "string list option"
  co_max_chain_length :: nat
  co_drop_unconfigured :: bool
  co_allow_empty :: bool

text \<open>One provider of the chain: an exception, or whether it is kept.\<close>

definition check_provider :: "route_input \<Rightarrow> capability \<Rightarrow> chain_options \<Rightarrow> string \<Rightarrow> compile_error + bool" where
  "check_provider item cap opts provider =
     (let canonical = canonical_provider_name provider; builtin = (ri_ownership item = ''builtin'') in
      raise_if (canonical \<noteq> provider
          \<and> (\<not> builtin \<or> provider \<notin> set (dict_list (dict_list BUILTIN_PROVIDER_ROUTES (normalize_symbol (ri_symbol item)))
                (capability_value cap))))
        (RouteCompileError ''provider is not publicly selectable: '') (
      case get_provider_descriptor provider of
        Inl _ \<Rightarrow> Inl (RouteCompileError ''unknown provider: '')
      | Inr descriptor \<Rightarrow>
          raise_if (\<not> descriptor_supports descriptor (ri_asset_class item) cap) (RouteCompileError ''provider '') (
          if (case co_available opts of None \<Rightarrow> False | Some names \<Rightarrow> provider \<notin> set names \<and> canonical \<notin> set names)
          then (if co_drop_unconfigured opts then Inr False else Inl (RouteCompileError ''provider is not configured: ''))
          else
            raise_if ((ds_kind descriptor = MARKET_DATA \<or> provider = ''fred'')
                \<and> dict_get (ri_provider_symbols item) provider = None)
              (RouteCompileError ''provider symbol is missing: '') (
            raise_if (provider = ''coingecko'' \<and> cap \<in> {QUOTE, HISTORY}
                \<and> (case split_once (CHR '':'') (ri_symbol item) of None \<Rightarrow> True
                   | Some (_, quote) \<Rightarrow> quote \<notin> set COINGECKO_SUPPORTED_QUOTE_ASSETS))
              (RouteCompileError ''CoinGecko route uses an unsupported quote asset: '') (
            if provider = ''staking_market_ratio_proxy''
               \<and> reward_mode_value (ri_reward_accrual_mode item) \<noteq> Some ''value_accruing''
            then (if builtin then Inr False
                  else Inl (RouteCompileError ''market-ratio staking yield requires value_accruing rewards: ''))
            else Inr True)))))"

fun select_providers :: "route_input \<Rightarrow> capability \<Rightarrow> chain_options \<Rightarrow> string list \<Rightarrow> compile_error + string list" where
  "select_providers item cap opts [] = Inr []"
| "select_providers item cap opts (provider # rest) =
     res_bind (check_provider item cap opts provider) (\<lambda>keep.
     res_bind (select_providers item cap opts rest) (\<lambda>selected. Inr (if keep then provider # selected else selected)))"

definition validate_chain ::
  "route_input \<Rightarrow> capability \<Rightarrow> string list \<Rightarrow> chain_options \<Rightarrow> compile_error + string list" where
  "validate_chain item cap providers opts =
     (let chain = map (\<lambda>p. lower (strip p)) providers in
      raise_if (chain = []) (RouteCompileError ''missing provider route: '') (
      raise_if (co_max_chain_length opts < length chain) (RouteCompileError ''provider chain exceeds '') (
      raise_if (\<not> distinct chain) (RouteCompileError ''provider chain contains duplicates: '') (
      res_bind (select_providers item cap opts chain) (\<lambda>selected.
      if selected = [] then
        (if co_allow_empty opts then Inr [] else Inl (RouteCompileError ''no configured provider remains: ''))
      else
        raise_if ((''synthetic'' \<in> set selected \<or> ''synthetic_fx'' \<in> set selected)
            \<and> ri_synthetic item = None \<and> ''synthetic_fx'' \<notin> set chain)
          (RouteCompileError ''synthetic route has no recipe: '') (
        raise_if (''synthetic_fx'' \<in> set selected
            \<and> (case split_once (CHR '':'') (ri_symbol item) of None \<Rightarrow> True | Some (base, _) \<Rightarrow> base = ''USD''))
          (RouteCompileError ''USD hub pairs must use direct providers: '') (
        raise_if (''synthetic_fx'' \<in> set selected \<and> ri_synthetic item \<noteq> None)
          (RouteCompileError ''explicit synthetic recipes must use the synthetic provider: '') (Inr selected))))))))"

subsection \<open>Dependencies of synthetic instruments\<close>

type_synonym route_items = "(string, route_input) dict"

text \<open>\<^verbatim>\<open>visit\<close> over the inputs of one recipe; \<^verbatim>\<open>depths\<close> is the memo table.\<close>

function visit_inputs ::
  "route_items \<Rightarrow> nat \<Rightarrow> string list \<Rightarrow> (string, nat) dict \<Rightarrow> string list \<Rightarrow>
   compile_error + ((string, nat) dict \<times> nat list)" where
  "visit_inputs items maximum visiting depths [] = Inr (depths, [])"
| "visit_inputs items maximum visiting depths (s # ss) =
     res_bind
       (case dict_get items s of
          None \<Rightarrow> Inl (RouteCompileError ''synthetic input is not defined: '')
        | Some item \<Rightarrow>
            if s \<in> set visiting then Inl (RouteCompileError ''synthetic dependency cycle includes '')
            else case dict_get depths s of
              Some d \<Rightarrow> Inr (depths, d)
            | None \<Rightarrow>
                (case ri_synthetic item of
                   None \<Rightarrow> Inr (dict_set s 0 depths, 0)
                 | Some recipe \<Rightarrow>
                     res_bind (visit_inputs items maximum (s # visiting) depths (si_inputs recipe)) (\<lambda>(depths', ds).
                     let d = 1 + max_depth ds in
                     raise_if (maximum < d) (RouteCompileError ''synthetic dependency depth exceeds '')
                       (Inr (dict_set s d depths', d)))))
       (\<lambda>(depths', d). res_bind (visit_inputs items maximum visiting depths' ss) (\<lambda>(depths'', ds). Inr (depths'', d # ds)))"
  by pat_completeness auto
termination
proof (relation "measures [\<lambda>(g, m, i, t, ss). card (set (dict_keys g) - set i), \<lambda>(g, m, i, t, ss). length ss]", goal_cases)
  case (2 items maximum visiting depths s ss)
  then have "s \<in> set (dict_keys items)" by (force dest: map_of_SomeD)
  then have "card (set (dict_keys items) - insert s (set visiting)) < card (set (dict_keys items) - set visiting)"
    using 2 by (intro card_minus_insert) auto
  then show ?case by simp
qed auto

definition validate_synthetic_dependencies :: "route_items \<Rightarrow> nat \<Rightarrow> compile_error + unit" where
  "validate_synthetic_dependencies items maximum =
     raise_if (maximum = 0) (CompileValueError ''maximum synthetic depth must be positive'')
       (res_bind (visit_inputs items maximum [] [] (dict_keys items)) (\<lambda>_. Inr ()))"

subsection \<open>Compilation of the routes\<close>

record compiled_routes =
  kr_symbol :: string
  kr_provider_symbols :: "(string, string) dict"
  kr_routes :: "(capability, string list) dict"
  kr_synthetic :: "synthetic_input option"

definition compiled_providers_for :: "compiled_routes \<Rightarrow> capability \<Rightarrow> string list" where
  "compiled_providers_for r cap = dict_list (kr_routes r) cap"

type_synonym compiled = "(string, compiled_routes) dict"

record compile_options =
  ko_available :: "string list option"
  ko_max_chain_length :: nat
  ko_maximum_synthetic_depth :: nat
  ko_drop_unconfigured :: bool
  ko_strict :: bool

text \<open>One capability of one instrument: an exception, no route, or the chain.\<close>

definition compile_capability :: "compile_options \<Rightarrow> route_input \<Rightarrow> capability \<Rightarrow> compile_error + string list" where
  "compile_capability opts item cap =
     (let explicit = dict_get (ri_routes item) cap in
      res_bind (case explicit of Some ps \<Rightarrow> Inr ps | None \<Rightarrow> recommended_provider_chain item cap (ko_available opts))
        (\<lambda>candidates.
      if candidates = [] \<and> \<not> ko_strict opts then Inr []
      else validate_chain item cap candidates
        \<lparr>co_available = ko_available opts, co_max_chain_length = ko_max_chain_length opts,
         co_drop_unconfigured = (ko_drop_unconfigured opts \<and> (explicit = None \<or> ri_ownership item = ''builtin'')),
         co_allow_empty = (\<not> ko_strict opts \<or> ri_ownership item = ''builtin'')\<rparr>))"

fun compile_capabilities ::
  "compile_options \<Rightarrow> route_input \<Rightarrow> capability list \<Rightarrow> (capability, string list) dict \<Rightarrow>
   compile_error + (capability, string list) dict" where
  "compile_capabilities opts item [] routes = Inr routes"
| "compile_capabilities opts item (cap # caps) routes =
     res_bind (compile_capability opts item cap) (\<lambda>chain.
     compile_capabilities opts item caps (if chain = [] then routes else dict_set cap chain routes))"

definition compile_item :: "compile_options \<Rightarrow> route_input \<Rightarrow> compile_error + compiled_routes" where
  "compile_item opts item =
     res_bind (compile_capabilities opts item (required_capabilities item) []) (\<lambda>routes.
     Inr \<lparr>kr_symbol = ri_symbol item, kr_provider_symbols = ri_provider_symbols item, kr_routes = routes,
          kr_synthetic = ri_synthetic item\<rparr>)"

fun index_items :: "route_input list \<Rightarrow> route_items \<Rightarrow> compile_error + route_items" where
  "index_items [] items = Inr items"
| "index_items (x # xs) items =
     raise_if (ri_symbol x \<in> set (dict_keys items)) (RouteCompileError ''duplicate instrument route definition: '')
       (index_items xs (dict_set (ri_symbol x) x items))"

subsection \<open>Dependencies of market-ratio staking yields\<close>

definition ratio_policy_for :: "string \<Rightarrow> staking_ratio_policy option" where
  "ratio_policy_for symbol = find (\<lambda>p. sp_symbol p = symbol) BUILTIN_STAKING_RATIO_POLICIES"

definition pair_with_quote :: "string \<Rightarrow> string \<Rightarrow> string" where
  "pair_with_quote asset symbol =
     asset @ '':'' @ (case split_once (CHR '':'') symbol of None \<Rightarrow> [] | Some (_, quote) \<Rightarrow> quote)"

definition check_ratio_pairs :: "compiled \<Rightarrow> string \<Rightarrow> string \<Rightarrow> compile_error + unit" where
  "check_ratio_pairs compiled staking_pair underlying_pair =
     (case (dict_get compiled staking_pair, dict_get compiled underlying_pair) of
        (Some staking, Some underlying) \<Rightarrow>
          raise_if (compiled_providers_for staking HISTORY = [])
            (RouteCompileError ''market-ratio staking token requires a usable history route: '') (
          raise_if (compiled_providers_for underlying HISTORY = [])
            (RouteCompileError ''market-ratio staking underlying pair has no usable history route: '') (Inr ()))
      | _ \<Rightarrow> Inl (RouteCompileError ''market-ratio staking dependency is not active: ''))"

definition check_ratio_item :: "route_items \<Rightarrow> compiled \<Rightarrow> string \<Rightarrow> compiled_routes \<Rightarrow> compile_error + unit" where
  "check_ratio_item items compiled symbol route =
     (if ''staking_market_ratio_proxy'' \<notin> set (compiled_providers_for route YIELD) then Inr ()
      else case ratio_policy_for symbol of
        Some policy \<Rightarrow>
          if sp_staking_pair policy \<notin> set (dict_keys items) \<or> sp_underlying_pair policy \<notin> set (dict_keys items)
          then raise_if (sp_staking_pair policy \<notin> set (dict_keys BUILTIN_COINGECKO_COIN_IDS)
                 \<or> sp_underlying_pair policy \<notin> set (dict_keys BUILTIN_COINGECKO_COIN_IDS))
               (RouteCompileError ''built-in market-ratio dependency is unavailable: '') (Inr ())
          else check_ratio_pairs compiled (sp_staking_pair policy) (sp_underlying_pair policy)
      | None \<Rightarrow>
          (case Option.bind (dict_get items symbol) ri_underlying_asset of
             None \<Rightarrow> Inl (RouteCompileError ''market-ratio staking yield requires an underlying asset: '')
           | Some asset \<Rightarrow> check_ratio_pairs compiled symbol (pair_with_quote asset symbol)))"

fun validate_staking_ratio_dependencies :: "route_items \<Rightarrow> compiled \<Rightarrow> compiled \<Rightarrow> compile_error + unit" where
  "validate_staking_ratio_dependencies items compiled [] = Inr ()"
| "validate_staking_ratio_dependencies items compiled ((symbol, route) # rest) =
     res_bind (check_ratio_item items compiled symbol route) (\<lambda>_.
     validate_staking_ratio_dependencies items compiled rest)"

text \<open>\<^verbatim>\<open>compile_route_plan\<close> up to the credit estimates.\<close>

definition compile_routes ::
  "compile_options \<Rightarrow> route_input list \<Rightarrow> compile_error + (route_items \<times> compiled)" where
  "compile_routes opts definitions =
     raise_if (ko_max_chain_length opts = 0) (CompileValueError ''maximum provider chain length must be positive'') (
     res_bind (index_items definitions []) (\<lambda>items.
     res_bind (validate_synthetic_dependencies items (ko_maximum_synthetic_depth opts)) (\<lambda>_.
     res_bind (res_map (\<lambda>(symbol, item). res_bind (compile_item opts item) (\<lambda>r. Inr (symbol, r))) items) (\<lambda>compiled.
     res_bind (validate_staking_ratio_dependencies items compiled compiled) (\<lambda>_.
     Inr (items, compiled))))))"

end
