(* ===== verification/QP_Compiler_Props.thy ===== *)
theory QP_Compiler_Props
  imports QP_Compiler QP_Generation_Props
begin

text \<open>
  What a compiled route plan guarantees, and how the compiler's dependency check relates to
  the one of the catalogue.
\<close>

subsection \<open>The dependency check\<close>

definition inputs_of :: "route_input \<Rightarrow> string list" where
  "inputs_of item = (case ri_synthetic item of None \<Rightarrow> [] | Some r \<Rightarrow> si_inputs r)"

definition item_graph :: "route_items \<Rightarrow> string graph" where
  "item_graph items = map (\<lambda>(s, item). (s, inputs_of item)) items"

lemma item_graph_list: "dict_list (item_graph items) s = (case dict_get items s of None \<Rightarrow> [] | Some item \<Rightarrow> inputs_of item)"
  by (induction items) (auto simp: item_graph_def dict_list_def)

definition resolved :: "route_items \<Rightarrow> nat \<Rightarrow> string \<Rightarrow> nat \<Rightarrow> bool" where
  "resolved items maximum s d \<longleftrightarrow> depth_upper (item_graph items) s d \<and> d \<le> maximum
     \<and> set (dict_list (item_graph items) s) \<subseteq> set (dict_keys items)"

lemma dict_get_key: "dict_get d k = Some v \<Longrightarrow> k \<in> set (dict_keys d)"
  by (force dest: map_of_SomeD)

lemma dict_get_None_iff: "dict_get d k = None \<longleftrightarrow> k \<notin> set (dict_keys d)"
  by (simp add: map_of_eq_None_iff)

lemma visit_inputs_sound:
  assumes "visit_inputs items maximum visiting depths ss = Inr (depths', ds)" and "memo_ok (resolved items maximum) depths"
  shows "memo_ok (resolved items maximum) depths' \<and> list_all2 (resolved items maximum) ss ds \<and> set ss \<subseteq> set (dict_keys items)"
  using assms
proof (induction items maximum visiting depths ss arbitrary: depths' ds rule: visit_inputs.induct)
  case (1 items maximum visiting depths)
  then show ?case by simp
next
  case (2 items maximum visiting depths s ss)
  let ?P = "resolved items maximum"
  obtain m d ds' where
    hd: "(case dict_get items s of
          None \<Rightarrow> Inl (RouteCompileError ''synthetic input is not defined: '')
        | Some item \<Rightarrow>
            if s \<in> set visiting then Inl (RouteCompileError ''synthetic dependency cycle includes '')
            else case dict_get depths s of
              Some d \<Rightarrow> Inr (depths, d)
            | None \<Rightarrow>
                (case ri_synthetic item of
                   None \<Rightarrow> Inr (dict_set s 0 depths, 0)
                 | Some recipe \<Rightarrow>
                     res_bind (visit_inputs items maximum (s # visiting) depths (si_inputs recipe)) (\<lambda>(depths', ds).
                     let d = 1 + max_depth ds in
                     raise_if (maximum < d) (RouteCompileError ''synthetic dependency depth exceeds '')
                       (Inr (dict_set s d depths', d))))) = Inr (m, d)"
    and tl: "visit_inputs items maximum visiting m ss = Inr (depths', ds')" and ds: "ds = d # ds'"
    using "2.prems"(1) by (auto simp: res_simps)
  obtain item where item: "dict_get items s = Some item" and ns: "s \<notin> set visiting"
    using hd by (auto split: option.splits if_splits)
  have list: "dict_list (item_graph items) s = inputs_of item" by (simp add: item_graph_list item)
  have "memo_ok ?P m \<and> ?P s d"
  proof (cases "dict_get depths s")
    case (Some e)
    with hd item ns "2.prems"(2) show ?thesis by (auto simp: memo_ok_def)
  next
    case None
    show ?thesis
    proof (cases "ri_synthetic item")
      case leaf: None
      then have "inputs_of item = []" by (simp add: inputs_of_def)
      then have "?P s 0" by (simp add: resolved_def list depth_upper_def relpow_edges_Suc del: relpow.simps)
      with None leaf hd item ns "2.prems"(2) show ?thesis by (auto simp: memo_ok_set)
    next
      case (Some recipe)
      with None hd item ns obtain m1 ds1 where
        rec: "visit_inputs items maximum (s # visiting) depths (si_inputs recipe) = Inr (m1, ds1)"
        and d: "d = 1 + max_depth ds1" "\<not> maximum < d" "m = dict_set s d m1"
        by (auto simp: res_simps Let_def)
      from "2.IH"(1) [OF item ns None Some rec "2.prems"(2)]
      have sub: "memo_ok ?P m1" "list_all2 ?P (si_inputs recipe) ds1" "set (si_inputs recipe) \<subseteq> set (dict_keys items)" by auto
      have ins: "inputs_of item = si_inputs recipe" by (simp add: inputs_of_def Some)
      have "list_all2 (depth_upper (item_graph items)) (dict_list (item_graph items) s) ds1"
        using sub(2) unfolding list ins by (rule list_all2_mono) (simp add: resolved_def)
      then have "?P s d" using depth_upper_step d sub(3) by (simp add: resolved_def list ins)
      with sub(1) d(3) show ?thesis by (simp add: memo_ok_set)
    qed
  qed
  with "2.IH"(2) [OF hd refl tl] dict_get_key [OF item] show ?case by (simp add: ds)
qed

definition recipes_wf :: "route_items \<Rightarrow> bool" where
  "recipes_wf items \<longleftrightarrow> (\<forall>s item r. dict_get items s = Some item \<longrightarrow> ri_synthetic item = Some r \<longrightarrow>
     si_inputs r \<noteq> [] \<and> set (si_inputs r) \<subseteq> set (dict_keys items))"

lemma visit_inputs_complete:
  assumes "edges (item_graph items) ^^ Suc maximum = {}"
    and "recipes_wf items" and "\<forall>x \<in> set visiting. \<forall>s \<in> set ss. (x, s) \<in> (edges (item_graph items))\<^sup>+"
    and "memo_ok (depth_lower (item_graph items)) depths" and "set ss \<subseteq> set (dict_keys items)"
  shows "\<exists>depths' ds. visit_inputs items maximum visiting depths ss = Inr (depths', ds)
    \<and> memo_ok (depth_lower (item_graph items)) depths' \<and> list_all2 (depth_lower (item_graph items)) ss ds"
  using assms
proof (induction items maximum visiting depths ss rule: visit_inputs.induct)
  case (1 items maximum visiting depths)
  then show ?case by simp
next
  case (2 items maximum visiting depths s ss)
  let ?g = "item_graph items"
  let ?head = "case dict_get items s of
          None \<Rightarrow> Inl (RouteCompileError ''synthetic input is not defined: '')
        | Some item \<Rightarrow>
            if s \<in> set visiting then Inl (RouteCompileError ''synthetic dependency cycle includes '')
            else case dict_get depths s of
              Some d \<Rightarrow> Inr (depths, d)
            | None \<Rightarrow>
                (case ri_synthetic item of
                   None \<Rightarrow> Inr (dict_set s 0 depths, 0)
                 | Some recipe \<Rightarrow>
                     res_bind (visit_inputs items maximum (s # visiting) depths (si_inputs recipe)) (\<lambda>(depths', ds).
                     let d = 1 + max_depth ds in
                     raise_if (maximum < d) (RouteCompileError ''synthetic dependency depth exceeds '')
                       (Inr (dict_set s d depths', d))))"
  have ns: "s \<notin> set visiting" using short_paths_acyclic [OF "2.prems"(1)] "2.prems"(3) by (auto simp: acyclic_def)
  obtain item where item: "dict_get items s = Some item"
    using "2.prems"(5) dict_get_None_iff [of items s] by (cases "dict_get items s") auto
  have "\<exists>m d. ?head = Inr (m, d) \<and> memo_ok (depth_lower ?g) m \<and> depth_lower ?g s d"
  proof (cases "dict_get depths s")
    case (Some e)
    with "2.prems"(4) item ns show ?thesis by (auto simp: memo_ok_def)
  next
    case None
    show ?thesis
    proof (cases "ri_synthetic item")
      case leaf: None
      have "depth_lower ?g s 0" by (simp add: depth_lower_def)
      with None leaf item ns "2.prems"(4) show ?thesis by (simp add: memo_ok_set)
    next
      case (Some recipe)
      have ins: "dict_list ?g s = si_inputs recipe" by (simp add: item_graph_list item inputs_of_def Some)
      have wf: "si_inputs recipe \<noteq> []" "set (si_inputs recipe) \<subseteq> set (dict_keys items)"
        using "2.prems"(2) item Some by (auto simp: recipes_wf_def)
      have edge: "(s, c) \<in> edges ?g" if "c \<in> set (si_inputs recipe)" for c using that by (simp add: edges_iff ins)
      have vis: "\<forall>x \<in> set (s # visiting). \<forall>c \<in> set (si_inputs recipe). (x, c) \<in> (edges ?g)\<^sup>+"
        using edge "2.prems"(3) by (auto intro: trancl_into_trancl)
      obtain m1 ds1 where rec: "visit_inputs items maximum (s # visiting) depths (si_inputs recipe) = Inr (m1, ds1)"
        and m1: "memo_ok (depth_lower ?g) m1" and ds1: "list_all2 (depth_lower ?g) (si_inputs recipe) ds1"
        using "2.IH"(1) [OF item ns None Some "2.prems"(1,2) vis "2.prems"(4) wf(2)] by blast
      have low: "depth_lower ?g s (1 + max_depth ds1)" using depth_lower_step [of ?g s ds1] ds1 wf(1) ins by simp
      then have "\<not> maximum < 1 + max_depth ds1" using depth_lower_bounded "2.prems"(1) by blast
      then show ?thesis using None Some item ns m1 low rec by (simp add: Let_def memo_ok_set)
    qed
  qed
  then obtain m d where hd: "?head = Inr (m, d)" and m: "memo_ok (depth_lower ?g) m" and d: "depth_lower ?g s d" by blast
  obtain depths' ds where tl: "visit_inputs items maximum visiting m ss = Inr (depths', ds)" "memo_ok (depth_lower ?g) depths'"
    "list_all2 (depth_lower ?g) ss ds"
    using "2.IH"(2) [OF hd refl "2.prems"(1,2) _ m] "2.prems"(3,5) by auto
  have "visit_inputs items maximum visiting depths (s # ss) = Inr (depths', d # ds)"
    unfolding visit_inputs.simps(2) hd by (simp add: tl(1))
  with tl d show ?case by simp
qed

lemma depth_upper_empty:
  assumes "\<And>s. s \<in> set (dict_keys g) \<Longrightarrow> \<exists>d \<le> n. depth_upper g s d"
  shows "edges g ^^ Suc n = {}"
proof -
  have False if path: "(s, t) \<in> edges g ^^ Suc n" for s t
  proof -
    obtain c where "(s, c) \<in> edges g" using path by (metis relpow_Suc_E2)
    then have "s \<in> set (dict_keys g)" by (cases "dict_get g s") (auto simp: edges_iff dict_list_def dest: dict_get_key)
    then obtain d where d: "d \<le> n" "depth_upper g s d" using assms by blast
    then have "(s, t) \<in> edges g ^^ (Suc d + (n - d))" using path by simp
    then obtain u where "(s, u) \<in> edges g ^^ Suc d" unfolding relpow_add by blast
    with d(2) show False by (simp add: depth_upper_def)
  qed
  then show ?thesis by auto
qed

lemma item_graph_keys [simp]: "set (dict_keys (item_graph items)) = set (dict_keys items)"
  by (force simp: item_graph_def)

text \<open>Exactly the acyclic recipes over defined inputs with short chains pass.\<close>

lemma validate_synthetic_dependencies_iff:
  assumes "dict_wf items" and "\<And>s item r. (s, item) \<in> set items \<Longrightarrow> ri_synthetic item = Some r \<Longrightarrow> si_inputs r \<noteq> []"
  shows "validate_synthetic_dependencies items maximum = Inr () \<longleftrightarrow>
    0 < maximum \<and> (\<forall>(s, item) \<in> set items. set (inputs_of item) \<subseteq> set (dict_keys items))
    \<and> edges (item_graph items) ^^ Suc maximum = {}"
proof
  assume "validate_synthetic_dependencies items maximum = Inr ()"
  then obtain depths ds where pos: "0 < maximum" and run: "visit_inputs items maximum [] [] (dict_keys items) = Inr (depths, ds)"
    by (auto simp: validate_synthetic_dependencies_def res_simps)
  from visit_inputs_sound [OF run memo_ok_Nil]
  have all: "list_all2 (resolved items maximum) (dict_keys items) ds" by simp
  have ok: "\<exists>d. resolved items maximum s d" if "s \<in> set (dict_keys items)" for s
    using list_all2_in1 [OF all that] by blast
  have "edges (item_graph items) ^^ Suc maximum = {}"
    by (rule depth_upper_empty) (use ok in \<open>auto simp: resolved_def simp del: set_map\<close>)
  moreover have "set (inputs_of item) \<subseteq> set (dict_keys items)" if m: "(s, item) \<in> set items" for s item
  proof -
    have "dict_get items s = Some item" using m assms(1) by (simp add: dict_get_mem)
    moreover obtain d where "resolved items maximum s d" using ok m by force
    ultimately show ?thesis by (simp add: resolved_def item_graph_list)
  qed
  ultimately show "0 < maximum \<and> (\<forall>(s, item) \<in> set items. set (inputs_of item) \<subseteq> set (dict_keys items))
    \<and> edges (item_graph items) ^^ Suc maximum = {}" using pos by blast
next
  assume ok: "0 < maximum \<and> (\<forall>(s, item) \<in> set items. set (inputs_of item) \<subseteq> set (dict_keys items))
    \<and> edges (item_graph items) ^^ Suc maximum = {}"
  have wf: "recipes_wf items"
    unfolding recipes_wf_def
  proof (intro allI impI)
    fix s item r
    assume item: "dict_get items s = Some item" "ri_synthetic item = Some r"
    from item(1) have m: "(s, item) \<in> set items" by (rule map_of_SomeD)
    show "si_inputs r \<noteq> [] \<and> set (si_inputs r) \<subseteq> set (dict_keys items)"
      using assms(2) [OF m item(2)] ok m item(2) by (fastforce simp: inputs_of_def)
  qed
  have "\<exists>depths ds. visit_inputs items maximum [] [] (dict_keys items) = Inr (depths, ds)"
    using visit_inputs_complete [of maximum items "[]" "dict_keys items" "[]"] ok wf by auto
  then show "validate_synthetic_dependencies items maximum = Inr ()"
    using ok by (auto simp: validate_synthetic_dependencies_def)
qed

subsection \<open>Inputs made from definitions\<close>

lemma mk_synthetic_input_Inr:
  "mk_synthetic_input op ins skew ages = Inr r \<Longrightarrow> si_inputs r = map normalize_symbol ins \<and> si_inputs r \<noteq> [] \<and> si_operation r = op"
  by (cases ins) (auto simp: mk_synthetic_input_def res_simps Let_def split: if_splits)

lemma mk_route_input_sel:
  "mk_route_input x = Inr y \<Longrightarrow> ri_symbol y = normalize_symbol (ri_symbol x) \<and> ri_synthetic y = ri_synthetic x
    \<and> ri_asset_class y = ri_asset_class x"
  by (auto simp: mk_route_input_def res_simps Let_def)

lemma route_input_from_definition_sel:
  assumes "validate_definition d = Inr d" and "route_input_from_definition d = Inr x"
  shows "ri_symbol x = md_symbol d"
    and "inputs_of x = (case md_synthetic d of None \<Rightarrow> [] | Some r \<Rightarrow> sd_inputs r)"
    and "ri_synthetic x = Some r \<Longrightarrow> si_inputs r \<noteq> []"
proof -
  obtain synthetic raw where syn: "definition_synthetic d = Inr synthetic" and x: "mk_route_input raw = Inr x"
    and raw: "ri_symbol raw = md_symbol d" "ri_synthetic raw = synthetic"
    using assms(2) by (auto simp: route_input_from_definition_def res_simps)
  note sel = mk_route_input_sel [OF x]
  show "ri_symbol x = md_symbol d"
    using sel raw validate_definition_fields(1) [OF assms(1)] by (simp add: canonical_errors_Nil)
  show "ri_synthetic x = Some r \<Longrightarrow> si_inputs r \<noteq> []"
    using sel raw syn by (auto simp: definition_synthetic_def res_simps dest: mk_synthetic_input_Inr split: option.splits)
  show "inputs_of x = (case md_synthetic d of None \<Rightarrow> [] | Some r \<Rightarrow> sd_inputs r)"
  proof (cases "md_synthetic d")
    case None
    then show ?thesis using sel raw syn by (simp add: definition_synthetic_def inputs_of_def)
  next
    case (Some r)
    then obtain r' where r': "synthetic = Some r'" "si_inputs r' = map normalize_symbol (sd_inputs r)"
      using syn by (auto simp: definition_synthetic_def res_simps dest: mk_synthetic_input_Inr)
    have "optional_model validate_synthetic (md_synthetic d) = []" by (rule validate_definition_fields(13) [OF assms(1)])
    then have "inputs_errors (sd_inputs r) = []" by (simp add: Some optional_model_def validate_synthetic_def)
    then have "\<forall>s \<in> set (sd_inputs r). canonical_errors s = []" by (auto simp: inputs_errors_def list_ex_iff split: if_splits)
    then have "map normalize_symbol (sd_inputs r) = sd_inputs r" by (intro map_idI) (simp add: canonical_errors_Nil)
    then show ?thesis using Some sel raw r' by (simp add: inputs_of_def)
  qed
qed

lemma index_items_iff:
  "index_items xs items = Inr table \<longleftrightarrow> distinct (map ri_symbol xs) \<and> set (map ri_symbol xs) \<inter> set (dict_keys items) = {}
     \<and> table = items @ map (\<lambda>x. (ri_symbol x, x)) xs"
proof (induction xs arbitrary: items)
  case (Cons x xs)
  show ?case
  proof (cases "ri_symbol x \<in> set (dict_keys items)")
    case False
    then have "dict_set (ri_symbol x) x items = items @ [(ri_symbol x, x)]" by (rule dict_set_new)
    then show ?thesis using False by (auto simp: Cons.IH)
  qed auto
qed auto

subsection \<open>Catalogue and compiler agree\<close>

lemma list_dependency_graph_Cons:
  "dict_list (dependency_graph (d # items)) s =
     (if is_live d \<and> md_symbol d = s \<and> md_synthetic d \<noteq> None then sd_inputs (the (md_synthetic d))
      else dict_list (dependency_graph items) s)"
  by (cases "is_live d"; cases "md_synthetic d") (simp_all add: dependency_graph_def live_recipes_def synthetic_graph_def dict_list_def)

lemma list_dependency_graph:
  assumes "distinct (map md_symbol items)"
  shows "dict_list (dependency_graph items) s =
    (case find (\<lambda>d. md_symbol d = s) (active_definitions items) of None \<Rightarrow> []
     | Some d \<Rightarrow> (case md_synthetic d of None \<Rightarrow> [] | Some r \<Rightarrow> sd_inputs r))"
  using assms
proof (induction items arbitrary: s)
  case (Cons d items)
  have tail: "dict_list (dependency_graph items) (md_symbol d) = []"
  proof -
    have "find (\<lambda>e. md_symbol e = md_symbol d) (active_definitions items) = None"
      unfolding find_None_iff using Cons.prems
      by (simp add: active_definitions_def) (metis image_eqI)
    with Cons show ?thesis by simp
  qed
  show ?case
  proof (cases "md_symbol d = s \<and> is_live d")
    case True
    then show ?thesis using tail by (cases "md_synthetic d") (auto simp: list_dependency_graph_Cons active_definitions_def is_live_def)
  next
    case False
    then have "find (\<lambda>e. md_symbol e = s) (active_definitions (d # items)) = find (\<lambda>e. md_symbol e = s) (active_definitions items)"
      by (auto simp: active_definitions_def is_live_def)
    with False Cons show ?thesis by (auto simp: list_dependency_graph_Cons)
  qed
qed (simp add: dependency_graph_def synthetic_graph_def active_definitions_def dict_list_def)

text \<open>
  C15. Two independent checks agree: whatever generation the catalogue accepts, the route
  compiler's own traversal of its live instruments finds every synthetic input defined, no
  cycle and no chain deeper than its limit, so a generation that was accepted for staging is
  never rejected for its dependencies when it is activated.
\<close>

theorem accepted_generation_passes_compiler:
  assumes "build_generation revision items = Inr g"
    and "res_map route_input_from_definition (active_definitions items) = Inr inputs"
  shows "\<exists>table. index_items inputs [] = Inr table \<and> dict_keys table = map md_symbol (active_definitions items)
    \<and> validate_synthetic_dependencies table COMPILER_MAX_SYNTHETIC_DEPTH = Inr ()"
proof -
  have valid: "list_all (\<lambda>d. validate_definition d = Inr d) items" and names: "distinct (concat (map own_names items))"
    and live: "inputs_live items" and short: "edges (dependency_graph items) ^^ Suc MAX_SYNTHETIC_DEPTH = {}"
    using assms(1) by (auto simp: build_generation_iff simp del: relpow.simps)
  have dist: "distinct (map md_symbol items)" by (rule distinct_symbols [OF names])
  have pair: "list_all2 (\<lambda>d x. route_input_from_definition d = Inr x) (active_definitions items) inputs"
    using assms(2) by (simp add: res_map_Inr_iff)
  have sel: "ri_symbol x = md_symbol d \<and> inputs_of x = (case md_synthetic d of None \<Rightarrow> [] | Some r \<Rightarrow> sd_inputs r)
      \<and> (\<forall>r. ri_synthetic x = Some r \<longrightarrow> si_inputs r \<noteq> [])"
    if "route_input_from_definition d = Inr x" "d \<in> set (active_definitions items)" for d x
    using route_input_from_definition_sel [OF _ that(1)] valid that(2) by (auto simp: list_all_iff active_definitions_def)
  have pair2: "list_all2 (\<lambda>d x. ri_symbol x = md_symbol d \<and> inputs_of x = (case md_synthetic d of None \<Rightarrow> [] | Some r \<Rightarrow> sd_inputs r)
      \<and> (\<forall>r. ri_synthetic x = Some r \<longrightarrow> si_inputs r \<noteq> [])) (active_definitions items) inputs"
    using pair sel by (auto simp: list_all2_conv_all_nth)
  then have syms: "map ri_symbol inputs = map md_symbol (active_definitions items)"
    by (induction rule: list_all2_induct) auto
  have act: "distinct (map md_symbol (active_definitions items))"
    using dist by (simp add: active_definitions_def distinct_map_filter)
  let ?table = "map (\<lambda>x. (ri_symbol x, x)) inputs"
  have keys: "dict_keys ?table = map md_symbol (active_definitions items)" using syms by (simp add: comp_def)
  have wf: "dict_wf ?table" using act keys by (simp add: comp_def)
  have same: "dict_list (item_graph ?table) s = dict_list (dependency_graph items) s" for s
    unfolding list_dependency_graph [OF dist] item_graph_list using pair2
    by (induction rule: list_all2_induct) (auto split: option.splits)
  have "edges (item_graph ?table) = edges (dependency_graph items)" by (auto simp: edges_iff same)
  moreover have "set (inputs_of x) \<subseteq> set (dict_keys ?table)" if x: "x \<in> set inputs" for x
  proof -
    obtain d where d: "d \<in> set (active_definitions items)" "inputs_of x = (case md_synthetic d of None \<Rightarrow> [] | Some r \<Rightarrow> sd_inputs r)"
      using list_all2_in2 [OF pair2 x] by blast
    have "i \<in> md_symbol ` set (active_definitions items)" if i: "i \<in> set (inputs_of x)" for i
    proof -
      obtain r where r: "md_synthetic d = Some r" "i \<in> set (sd_inputs r)" using i d(2) by (auto split: option.splits)
      then have "(md_symbol d, r) \<in> set (concat (map live_recipes items))"
        using d(1) by (force simp: live_recipes_def active_definitions_def is_live_def)
      then have "i \<in> md_symbol ` set (filter is_live items)"
        using live r(2) unfolding inputs_live_def list_all_iff by fastforce
      then show ?thesis by (simp add: active_definitions_def is_live_def)
    qed
    then show ?thesis using keys by auto
  qed
  moreover have "si_inputs r \<noteq> []" if "x \<in> set inputs" "ri_synthetic x = Some r" for x r
    using list_all2_in2 [OF pair2 that(1)] that(2) by blast
  ultimately have "validate_synthetic_dependencies ?table COMPILER_MAX_SYNTHETIC_DEPTH = Inr ()"
    using short by (subst validate_synthetic_dependencies_iff [OF wf])
      (auto simp: COMPILER_MAX_SYNTHETIC_DEPTH_def MAX_SYNTHETIC_DEPTH_def simp del: relpow.simps)
  moreover have "index_items inputs [] = Inr ?table" using act syms by (simp add: index_items_iff)
  ultimately show ?thesis using keys by blast
qed

subsection \<open>What a compiled plan guarantees\<close>

definition usable_provider :: "string list option \<Rightarrow> route_input \<Rightarrow> capability \<Rightarrow> string \<Rightarrow> bool" where
  "usable_provider available item cap p \<longleftrightarrow>
     (\<exists>d. get_provider_descriptor p = Inr d \<and> descriptor_supports d (ri_asset_class item) cap
        \<and> (case available of None \<Rightarrow> True | Some names \<Rightarrow> p \<in> set names \<or> canonical_provider_name p \<in> set names)
        \<and> (ds_kind d = MARKET_DATA \<longrightarrow> dict_get (ri_provider_symbols item) p \<noteq> None))"

definition usable_chain :: "compile_options \<Rightarrow> route_input \<Rightarrow> capability \<Rightarrow> string list \<Rightarrow> bool" where
  "usable_chain opts item cap chain \<longleftrightarrow> chain \<noteq> [] \<and> distinct chain \<and> length chain \<le> ko_max_chain_length opts
     \<and> cap \<in> set (required_capabilities item) \<and> list_all (usable_provider (ko_available opts) item cap) chain"

lemma check_provider_kept:
  "check_provider item cap opts p = Inr True \<Longrightarrow> usable_provider (co_available opts) item cap p"
  by (auto simp: check_provider_def usable_provider_def res_simps Let_def split: sum.splits if_splits option.splits)

lemma select_providers_filter:
  "select_providers item cap opts chain = Inr selected \<Longrightarrow>
     selected = filter (\<lambda>p. check_provider item cap opts p = Inr True) chain"
proof (induction chain arbitrary: selected)
  case (Cons p chain)
  then obtain keep rest where "check_provider item cap opts p = Inr keep" "select_providers item cap opts chain = Inr rest"
    "selected = (if keep then p # rest else rest)" by (auto simp: res_simps)
  with Cons.IH show ?case by (cases keep) auto
qed simp

lemma validate_chain_usable:
  assumes "validate_chain item cap providers opts = Inr chain"
  shows "distinct chain \<and> length chain \<le> co_max_chain_length opts \<and> list_all (usable_provider (co_available opts) item cap) chain
    \<and> (chain = [] \<longrightarrow> co_allow_empty opts)"
proof -
  define all where "all = map (\<lambda>p. lower (strip p)) providers"
  obtain selected where ok: "\<not> co_max_chain_length opts < length all" "distinct all"
    and sel: "select_providers item cap opts all = Inr selected" and chain: "chain = selected"
    and empty: "selected = [] \<longrightarrow> co_allow_empty opts"
    using assms by (auto simp: validate_chain_def res_simps Let_def all_def split: if_splits)
  note f = select_providers_filter [OF sel]
  have "length selected \<le> co_max_chain_length opts"
    unfolding f by (rule order_trans [OF length_filter_le]) (use ok(1) in simp)
  moreover have "distinct selected" "list_all (usable_provider (co_available opts) item cap) selected"
    using ok(2) check_provider_kept by (auto simp: f list_all_iff)
  ultimately show ?thesis using empty by (simp add: chain)
qed

lemma compile_capabilities_usable:
  assumes "compile_capabilities opts item caps routes = Inr routes'" and "set caps \<subseteq> set (required_capabilities item)"
    and "\<And>cap chain. dict_get routes cap = Some chain \<Longrightarrow> usable_chain opts item cap chain"
  shows "(dict_get routes' cap = Some chain \<longrightarrow> usable_chain opts item cap chain)
    \<and> (ko_strict opts \<and> ri_ownership item \<noteq> ''builtin'' \<longrightarrow> set caps \<subseteq> set (dict_keys routes'))
    \<and> set (dict_keys routes) \<subseteq> set (dict_keys routes')"
  using assms
proof (induction opts item caps routes arbitrary: routes' rule: compile_capabilities.induct)
  case (1 opts item routes)
  then show ?case by simp
next
  case (2 opts item c caps routes)
  then obtain ch where ch: "compile_capability opts item c = Inr ch"
    and rest: "compile_capabilities opts item caps (if ch = [] then routes else dict_set c ch routes) = Inr routes'"
    by (auto simp: res_simps)
  have usable: "usable_chain opts item c ch" if "ch \<noteq> []"
    using ch that "2.prems"(2)
    by (auto simp: compile_capability_def usable_chain_def res_simps Let_def split: if_splits dest: validate_chain_usable)
  have nonempty: "ch \<noteq> []" if "ko_strict opts" "ri_ownership item \<noteq> ''builtin''"
    using ch that by (auto simp: compile_capability_def res_simps Let_def split: if_splits dest: validate_chain_usable)
  have "usable_chain opts item cap' chain'" if "dict_get (if ch = [] then routes else dict_set c ch routes) cap' = Some chain'" for cap' chain'
    using that usable "2.prems"(3) by (auto simp: dict_get_set split: if_splits)
  note ih = "2.IH" [OF ch rest _ this]
  have "set (dict_keys routes) \<subseteq> set (dict_keys (if ch = [] then routes else dict_set c ch routes))"
    "ch \<noteq> [] \<Longrightarrow> c \<in> set (dict_keys (if ch = [] then routes else dict_set c ch routes))"
    by (auto simp: dict_keys_set simp del: set_map)
  then show ?case using ih "2.prems"(2) nonempty by (cases "ch = []") (auto simp del: set_map)
qed

text \<open>
  C12. What a compiled route plan guarantees: one entry per instrument, in the given order;
  every chain is non-empty, without repetition, within the length limit and belongs to a
  capability the instrument needs; each of its providers is known, serves that asset class
  and capability, is configured, and has a vendor symbol for the instrument when it is a
  market data provider; in strict mode a custom instrument has a chain for every capability
  it needs; and the synthetic recipes are acyclic over instruments of the plan, within the
  depth limit.
\<close>

theorem compiled_plan_sound:
  assumes "compile_routes opts definitions = Inr (items, compiled)"
    and "list_all (\<lambda>x. case ri_synthetic x of None \<Rightarrow> True | Some r \<Rightarrow> si_inputs r \<noteq> []) definitions"
  shows "dict_keys compiled = map ri_symbol definitions \<and> distinct (dict_keys compiled)
    \<and> edges (item_graph items) ^^ Suc (ko_maximum_synthetic_depth opts) = {}
    \<and> (\<forall>x \<in> set definitions. \<exists>r. dict_get compiled (ri_symbol x) = Some r
        \<and> (\<forall>cap chain. dict_get (kr_routes r) cap = Some chain \<longrightarrow> usable_chain opts x cap chain)
        \<and> (ko_strict opts \<and> ri_ownership x \<noteq> ''builtin'' \<longrightarrow> set (required_capabilities x) \<subseteq> set (dict_keys (kr_routes r)))
        \<and> set (inputs_of x) \<subseteq> set (dict_keys compiled))"
proof -
  let ?table = "map (\<lambda>x. (ri_symbol x, x)) definitions"
  have idx: "index_items definitions [] = Inr items"
    and dep: "validate_synthetic_dependencies items (ko_maximum_synthetic_depth opts) = Inr ()"
    and comp: "res_map (\<lambda>(symbol, item). res_bind (compile_item opts item) (\<lambda>r. Inr (symbol, r))) items = Inr compiled"
    using assms(1) by (auto simp: compile_routes_def raise_if_Inr_iff res_bind_Inr_iff)
  have items: "items = ?table" and dist: "distinct (map ri_symbol definitions)" using idx by (simp_all add: index_items_iff)
  have wf: "dict_wf items" using dist by (simp add: items comp_def)
  have pair: "list_all2 (\<lambda>x e. fst e = ri_symbol x \<and> compile_item opts x = Inr (snd e)) definitions compiled"
    using comp unfolding items res_map_Inr_iff list_all2_map1 by (rule list_all2_mono) (auto simp: res_bind_Inr_iff)
  have keys: "dict_keys compiled = map ri_symbol definitions" using pair by (induction rule: list_all2_induct) auto
  have deps: "(\<forall>(s, item) \<in> set items. set (inputs_of item) \<subseteq> set (dict_keys items))
      \<and> edges (item_graph items) ^^ Suc (ko_maximum_synthetic_depth opts) = {}"
    using dep assms(2) by (subst (asm) validate_synthetic_dependencies_iff [OF wf]) (auto simp: items list_all_iff simp del: relpow.simps)
  have entry: "\<exists>r. dict_get compiled (ri_symbol x) = Some r
        \<and> (\<forall>cap chain. dict_get (kr_routes r) cap = Some chain \<longrightarrow> usable_chain opts x cap chain)
        \<and> (ko_strict opts \<and> ri_ownership x \<noteq> ''builtin'' \<longrightarrow> set (required_capabilities x) \<subseteq> set (dict_keys (kr_routes r)))
        \<and> set (inputs_of x) \<subseteq> set (dict_keys compiled)" if x: "x \<in> set definitions" for x
  proof -
    obtain r where r: "(ri_symbol x, r) \<in> set compiled" "compile_item opts x = Inr r"
      using list_all2_in1 [OF pair x] by (auto simp: prod_eq_iff)
    then have "dict_get compiled (ri_symbol x) = Some r" using dist keys by (intro map_of_is_SomeI) (simp_all del: set_map)
    moreover obtain routes where "compile_capabilities opts x (required_capabilities x) [] = Inr routes" "kr_routes r = routes"
      using r(2) by (auto simp: compile_item_def res_bind_Inr_iff)
    ultimately show ?thesis
      using compile_capabilities_usable [of opts x "required_capabilities x" "[]" routes] deps x keys by (auto simp: items comp_def)
  qed
  with keys dist deps show ?thesis by auto
qed

subsection \<open>A catalogue of two instruments\<close>

theorem accepted_generation_passes_compiler_witness:
  "\<exists>inputs table. res_map route_input_from_definition (active_definitions sample_items) = Inr inputs
     \<and> index_items inputs [] = Inr table \<and> dict_keys table = [''A:B'', ''B:A'']
     \<and> validate_synthetic_dependencies table COMPILER_MAX_SYNTHETIC_DEPTH = Inr ()"
proof -
  have "case build_generation sample_revision sample_items of Inl e \<Rightarrow> False | Inr g \<Rightarrow> True" by code_simp
  then obtain g where g: "build_generation sample_revision sample_items = Inr g" by (auto split: sum.splits)
  have "case res_map route_input_from_definition (active_definitions sample_items) of Inl e \<Rightarrow> False | Inr xs \<Rightarrow> True" by code_simp
  then obtain inputs where inputs: "res_map route_input_from_definition (active_definitions sample_items) = Inr inputs"
    by (auto split: sum.splits)
  have "map md_symbol (active_definitions sample_items) = [''A:B'', ''B:A'']" by code_simp
  with accepted_generation_passes_compiler [OF g inputs] inputs show ?thesis by auto
qed

definition direct_input :: route_input where
  "direct_input = \<lparr>ri_symbol = ''SOL:USDC'', ri_asset_class = CRYPTO, ri_asset_type = ''spot'', ri_quote_poll_seconds = 5,
     ri_ownership = ''custom'', ri_history_enabled = False, ri_history_poll_seconds = 3600, ri_history_backfill_days = 400,
     ri_metadata_poll_seconds = 21600, ri_dividend_strategy = None, ri_yield_strategy = None, ri_underlying_asset = None,
     ri_reward_accrual_mode = None, ri_provider_symbols = [(''binance'', ''SOLUSDC''), (''kraken'', ''SOLUSDC'')],
     ri_routes = [(QUOTE, [''kraken'', ''binance''])], ri_synthetic = None\<rparr>"

definition crossed_input :: route_input where
  "crossed_input = direct_input\<lparr>ri_symbol := ''USDC:SOL'', ri_provider_symbols := [], ri_routes := [],
     ri_synthetic := Some \<lparr>si_operation = INVERSE, si_inputs = [''SOL:USDC''], si_max_skew_seconds = 2,
       si_input_max_age_seconds = [None]\<rparr>\<rparr>"

definition sample_options :: compile_options where
  "sample_options = \<lparr>ko_available = Some [''binance'', ''kraken'', ''synthetic''], ko_max_chain_length = 4,
     ko_maximum_synthetic_depth = 4, ko_drop_unconfigured = True, ko_strict = True\<rparr>"

theorem compiled_plan_sound_witness:
  "\<exists>items compiled r. compile_routes sample_options [direct_input, crossed_input] = Inr (items, compiled)
     \<and> dict_get compiled ''USDC:SOL'' = Some r \<and> QUOTE \<in> set (dict_keys (kr_routes r))"
proof -
  have "case compile_routes sample_options [direct_input, crossed_input] of Inl e \<Rightarrow> False | Inr (i, c) \<Rightarrow> True" by code_simp
  then obtain items compiled where run: "compile_routes sample_options [direct_input, crossed_input] = Inr (items, compiled)"
    by (auto split: sum.splits)
  have recipes: "list_all (\<lambda>x. case ri_synthetic x of None \<Rightarrow> True | Some r \<Rightarrow> si_inputs r \<noteq> []) [direct_input, crossed_input]"
    and crossed: "ri_symbol crossed_input = ''USDC:SOL''" "ko_strict sample_options" "ri_ownership crossed_input \<noteq> ''builtin''"
      "QUOTE \<in> set (required_capabilities crossed_input)"
    by (simp_all add: direct_input_def crossed_input_def sample_options_def required_capabilities_def)
  have member: "crossed_input \<in> set [direct_input, crossed_input]" by simp
  note sound = compiled_plan_sound [OF run recipes, THEN conjunct2, THEN conjunct2, THEN conjunct2, THEN bspec, OF member]
  then obtain r where r: "dict_get compiled ''USDC:SOL'' = Some r"
    "set (required_capabilities crossed_input) \<subseteq> set (dict_keys (kr_routes r))"
    using crossed by (auto simp del: set_map)
  then show ?thesis using run crossed(4) by blast
qed

end
