(* ===== verification/QP_Credits.thy ===== *)
theory QP_Credits
  imports QP_Compiler "HOL-Library.List_Lexorder" "HOL-Library.Char_ord" "HOL-Library.Product_Lexorder"
begin

text \<open>
  Credit estimates of \<^verbatim>\<open>quickprice/providers/compiler.py\<close>: what the routes of a plan will spend
  per day at the metered providers, which part of it is committed, and \<^verbatim>\<open>compile_route_plan\<close>.

  Credits are integers below \<^verbatim>\<open>10^28\<close>, on which the decimal sums of the code are exact. A
  Python set of strings is a list without repetition that is sorted where the code sorts it.
\<close>

subsection \<open>Budgets of the metered providers\<close>

record credit_settings =
  cs_twelve_daily :: int
  cs_twelve_fx_reserve :: int
  cs_alpha_daily :: int
  cs_coingecko_monthly :: int
  cs_finnhub_per_minute :: int

record budget_context =
  bc_period :: string
  bc_limit :: "int option"
  bc_monthly_limit :: "int option"
  bc_daily_limit :: int
  bc_reserved :: "int option"
  bc_available_outside_reserve :: "int option"

definition ALPHA_VANTAGE_DEFAULT_FX_QUOTE_RESERVE_CREDITS :: int where
  "ALPHA_VANTAGE_DEFAULT_FX_QUOTE_RESERVE_CREDITS = 20"
definition COINGECKO_SHARED_QUOTE_CACHE_SECONDS :: rat where "COINGECKO_SHARED_QUOTE_CACHE_SECONDS = 600"
definition COINGECKO_DAILY_QUOTE_RESERVE_CREDITS :: int where
  "COINGECKO_DAILY_QUOTE_RESERVE_CREDITS = \<lceil>86400 / COINGECKO_SHARED_QUOTE_CACHE_SECONDS\<rceil> + 1"
definition COINGECKO_SIMPLE_PRICE_IDS_PER_REQUEST :: nat where "COINGECKO_SIMPLE_PRICE_IDS_PER_REQUEST = 250"
definition COINGECKO_SIMPLE_PRICE_ID_CHARACTERS_PER_REQUEST :: nat where
  "COINGECKO_SIMPLE_PRICE_ID_CHARACTERS_PER_REQUEST = 3500"
definition BUILTIN_COINGECKO_NORMALIZATION_COIN_ID :: string where
  "BUILTIN_COINGECKO_NORMALIZATION_COIN_ID = ''usd-coin''"

text \<open>A reserve may take all but one credit of a limit.\<close>

definition clamp_reserve :: "int \<Rightarrow> int \<Rightarrow> int" where
  "clamp_reserve limit reserve = min reserve (max 0 (limit - 1))"

definition day_context :: "int \<Rightarrow> int \<Rightarrow> budget_context" where
  "day_context limit reserve =
     \<lparr>bc_period = ''utc_day'', bc_limit = Some limit, bc_monthly_limit = None, bc_daily_limit = limit,
      bc_reserved = Some (clamp_reserve limit reserve),
      bc_available_outside_reserve = Some (max 0 (limit - clamp_reserve limit reserve))\<rparr>"

definition credit_budget_context :: "credit_settings option \<Rightarrow> (string, budget_context) dict" where
  "credit_budget_context settings =
     (case settings of
        None \<Rightarrow> []
      | Some s \<Rightarrow>
          let coingecko_limit = cs_coingecko_monthly s div 31;
              coingecko_reserve = clamp_reserve coingecko_limit COINGECKO_DAILY_QUOTE_RESERVE_CREDITS in
          [(''twelve_data'', day_context (cs_twelve_daily s) (cs_twelve_fx_reserve s)),
           (''alpha_vantage'', day_context (cs_alpha_daily s) ALPHA_VANTAGE_DEFAULT_FX_QUOTE_RESERVE_CREDITS),
           (''coingecko'',
             \<lparr>bc_period = ''rolling_month_safe_utc_day'', bc_limit = None, bc_monthly_limit = Some (cs_coingecko_monthly s),
              bc_daily_limit = coingecko_limit, bc_reserved = Some coingecko_reserve,
              bc_available_outside_reserve = Some (max 0 (coingecko_limit - coingecko_reserve))\<rparr>),
           (''finnhub'',
             \<lparr>bc_period = ''minute'', bc_limit = Some (cs_finnhub_per_minute s), bc_monthly_limit = None,
              bc_daily_limit = cs_finnhub_per_minute s * 1440, bc_reserved = None, bc_available_outside_reserve = None\<rparr>)])"

definition daily_credit_caps :: "credit_settings option \<Rightarrow> (string, rat) dict" where
  "daily_credit_caps settings =
     (case settings of
        None \<Rightarrow> []
      | Some s \<Rightarrow>
          [(''twelve_data'', of_int (cs_twelve_daily s)), (''alpha_vantage'', of_int (cs_alpha_daily s)),
           (''coingecko'', of_int (cs_coingecko_monthly s div 31)),
           (''finnhub'', of_int (cs_finnhub_per_minute s * 1440))])"

subsection \<open>How many requests a route makes in a day\<close>

record request_profile =
  rq_cycles_per_day :: int
  rq_steady_per_cycle :: int
  rq_cold_start :: int

definition requests_per_day :: "request_profile \<Rightarrow> int" where
  "requests_per_day p = rq_cold_start p + max 0 (rq_cycles_per_day p - 1) * rq_steady_per_cycle p"

definition PAGE_BAR_LIMIT :: rat where "PAGE_BAR_LIMIT = 5000"

definition cold_pages :: "rat \<Rightarrow> int \<Rightarrow> int" where
  "cold_pages interval retained_days = \<lceil>of_int (max 1 \<lceil>of_int retained_days * 86400 / interval\<rceil>) / PAGE_BAR_LIMIT\<rceil>"

definition steady_pages :: "rat \<Rightarrow> rat \<Rightarrow> int" where
  "steady_pages interval poll_seconds = \<lceil>of_int (max 1 (\<lceil>poll_seconds / interval\<rceil> + 2)) / PAGE_BAR_LIMIT\<rceil>"

definition collector_history_profile :: "string \<Rightarrow> rat \<Rightarrow> int \<Rightarrow> request_profile" where
  "collector_history_profile provider poll_seconds backfill_days =
     (let cycles = \<lceil>86400 / poll_seconds\<rceil> in
      if canonical_provider_name provider = ''alpha_vantage''
      then \<lparr>rq_cycles_per_day = cycles, rq_steady_per_cycle = 1, rq_cold_start = 1\<rparr>
      else \<lparr>rq_cycles_per_day = cycles,
            rq_steady_per_cycle = 1 + steady_pages 60 poll_seconds + steady_pages 300 poll_seconds,
            rq_cold_start = 1 + cold_pages 60 (min 2 backfill_days) + cold_pages 300 (min 45 backfill_days)\<rparr>)"

subsection \<open>Demands\<close>

record credit_demand =
  cd_poll_seconds :: rat
  cd_history_backfill_days :: int
  cd_collector_history :: bool
  cd_bases :: "string list"
  cd_ownerships :: "string list"
  cd_quota_scopes :: "string list"
  cd_committed :: bool

definition credit_request_profile :: "string \<Rightarrow> credit_demand \<Rightarrow> request_profile" where
  "credit_request_profile provider demand =
     (if cd_collector_history demand
      then collector_history_profile provider (cd_poll_seconds demand) (cd_history_backfill_days demand)
      else \<lparr>rq_cycles_per_day = \<lceil>86400 / cd_poll_seconds demand\<rceil>, rq_steady_per_cycle = 1, rq_cold_start = 1\<rparr>)"

definition quota_scope :: "string \<Rightarrow> asset_class \<Rightarrow> string" where
  "quota_scope provider asset =
     (if canonical_provider_name provider = ''twelve_data'' \<and> asset = FX then ''fx_reserved'' else ''general'')"

definition poll_seconds_for :: "route_input \<Rightarrow> capability \<Rightarrow> rat" where
  "poll_seconds_for item cap =
     (case cap of QUOTE \<Rightarrow> ri_quote_poll_seconds item | HISTORY \<Rightarrow> ri_history_poll_seconds item
      | DIVIDEND \<Rightarrow> ri_metadata_poll_seconds item | YIELD \<Rightarrow> ri_metadata_poll_seconds item)"

text \<open>The arguments of one call of the nested function \<^verbatim>\<open>add\<close>.\<close>

record demand_call =
  dl_provider :: string
  dl_capability :: capability
  dl_symbol :: string
  dl_poll_seconds :: rat
  dl_basis :: string
  dl_asset_class :: asset_class
  dl_ownership :: string
  dl_committed :: bool
  dl_backfill_days :: int
  dl_collector_history :: bool
  dl_group :: "string option"

type_synonym demand_key = "string \<times> capability \<times> string \<times> string"
type_synonym demands = "(demand_key, credit_demand) dict"

definition new_demand :: "demand_call \<Rightarrow> string \<Rightarrow> credit_demand" where
  "new_demand c scope =
     \<lparr>cd_poll_seconds = dl_poll_seconds c, cd_history_backfill_days = dl_backfill_days c,
      cd_collector_history = dl_collector_history c, cd_bases = [dl_basis c], cd_ownerships = [dl_ownership c],
      cd_quota_scopes = [scope], cd_committed = dl_committed c\<rparr>"

definition join_demand :: "demand_call \<Rightarrow> string \<Rightarrow> credit_demand \<Rightarrow> credit_demand" where
  "join_demand c scope d =
     \<lparr>cd_poll_seconds = min (cd_poll_seconds d) (dl_poll_seconds c),
      cd_history_backfill_days = max (cd_history_backfill_days d) (dl_backfill_days c),
      cd_collector_history = (cd_collector_history d \<or> dl_collector_history c),
      cd_bases = List.insert (dl_basis c) (cd_bases d), cd_ownerships = List.insert (dl_ownership c) (cd_ownerships d),
      cd_quota_scopes = List.insert scope (cd_quota_scopes d), cd_committed = (cd_committed d \<or> dl_committed c)\<rparr>"

definition add_demand :: "demand_call \<Rightarrow> demands \<Rightarrow> compile_error + demands" where
  "add_demand c demands =
     res_bind (plain_value_error (get_provider_descriptor (dl_provider c))) (\<lambda>descriptor.
     Inr (if credit_cost descriptor (dl_capability c) = 0 then demands
          else
            let canonical = ds_name descriptor;
                key = (canonical, dl_capability c, normalize_symbol (dl_symbol c),
                       case dl_group c of None \<Rightarrow> dl_basis c | Some g \<Rightarrow> g);
                scope = quota_scope canonical (dl_asset_class c) in
            dict_set key (case dict_get demands key of None \<Rightarrow> new_demand c scope | Some d \<Rightarrow> join_demand c scope d) demands))"

fun add_demands :: "demand_call list \<Rightarrow> demands \<Rightarrow> compile_error + demands" where
  "add_demands [] demands = Inr demands"
| "add_demands (c # cs) demands = res_bind (add_demand c demands) (add_demands cs)"

text \<open>The calls for one chain: the first provider is the committed one.\<close>

definition chain_calls :: "string list \<Rightarrow> (string \<Rightarrow> bool \<Rightarrow> demand_call) \<Rightarrow> demand_call list" where
  "chain_calls providers call = map (\<lambda>(position, provider). call provider (position = (0 :: nat))) (enumerate 0 providers)"

definition direct_calls :: "route_input \<Rightarrow> compiled_routes \<Rightarrow> demand_call list" where
  "direct_calls item route = concat (map (\<lambda>(cap, providers). chain_calls providers (\<lambda>provider committed.
     \<lparr>dl_provider = provider, dl_capability = cap, dl_symbol = ri_symbol item, dl_poll_seconds = poll_seconds_for item cap,
      dl_basis = ''direct_route'', dl_asset_class = ri_asset_class item, dl_ownership = ri_ownership item,
      dl_committed = committed, dl_backfill_days = ri_history_backfill_days item, dl_collector_history = (cap = HISTORY),
      dl_group = None\<rparr>)) (kr_routes route))"

definition synthetic_calls :: "route_items \<Rightarrow> compiled \<Rightarrow> route_input \<Rightarrow> compiled_routes \<Rightarrow> demand_call list" where
  "synthetic_calls items compiled item route =
     (case ri_synthetic item of
        None \<Rightarrow> []
      | Some recipe \<Rightarrow> concat (map (\<lambda>cap.
          if ''synthetic'' \<notin> set (compiled_providers_for route cap) then []
          else concat (map (\<lambda>dependency.
            case (dict_get compiled dependency, dict_get items dependency) of
              (Some dependency_route, Some dependency_item) \<Rightarrow>
                chain_calls (compiled_providers_for dependency_route cap) (\<lambda>provider committed.
                  \<lparr>dl_provider = provider, dl_capability = cap, dl_symbol = dependency,
                   dl_poll_seconds = poll_seconds_for item cap, dl_basis = ''synthetic_dependency:'' @ ri_symbol item,
                   dl_asset_class = ri_asset_class dependency_item, dl_ownership = ri_ownership item,
                   dl_committed = committed, dl_backfill_days = ri_history_backfill_days item,
                   dl_collector_history = (cap = HISTORY), dl_group = None\<rparr>)
            | _ \<Rightarrow> []) (si_inputs recipe))) [QUOTE, HISTORY]))"

subsection \<open>Spokes of FX pairs\<close>

definition currency_pattern :: "string \<Rightarrow> bool" where
  "currency_pattern = head_tail is_upper_letter (\<lambda>c. upper_head c \<or> c \<in> set ''._-'') 15"

definition dynamic_fx_requirements :: "string \<Rightarrow> compile_error + string list" where
  "dynamic_fx_requirements symbol =
     (case split_all (CHR '':'') (normal_symbol symbol) of
        [base, quote] \<Rightarrow>
          raise_if (base = quote \<or> \<not> currency_pattern base \<or> \<not> currency_pattern quote)
            (CompileValueError ''invalid FX symbol '')
            (Inr (if base = ''USD'' then [''USD:'' @ quote]
                  else if quote = ''USD'' then [''USD:'' @ base]
                  else [''USD:'' @ quote, ''USD:'' @ base]))
      | _ \<Rightarrow> Inl (CompileValueError ''invalid FX symbol ''))"

definition spoke_calls :: "string list option \<Rightarrow> route_input \<Rightarrow> capability \<Rightarrow> string list \<Rightarrow> demand_call list" where
  "spoke_calls available item cap dependencies = concat (map (\<lambda>dependency.
     chain_calls (filter (\<lambda>p. case available of None \<Rightarrow> True | Some names \<Rightarrow> p \<in> set names) [''twelve_data'', ''alpha_vantage''])
       (\<lambda>provider committed.
         \<lparr>dl_provider = provider, dl_capability = cap, dl_symbol = dependency, dl_poll_seconds = poll_seconds_for item cap,
          dl_basis = ''fx_spoke_dependency:'' @ ri_symbol item, dl_asset_class = FX, dl_ownership = ri_ownership item,
          dl_committed = committed, dl_backfill_days = ri_history_backfill_days item, dl_collector_history = (cap = HISTORY),
          dl_group = Some ''fx_spoke_dependency''\<rparr>)) dependencies)"

definition fx_calls :: "string list option \<Rightarrow> route_input \<Rightarrow> compiled_routes \<Rightarrow> compile_error + demand_call list" where
  "fx_calls available item route =
     (if ri_asset_class item \<noteq> FX then Inr []
      else res_bind (res_map (\<lambda>(cap, names).
             if set names \<inter> set (compiled_providers_for route cap) = {} then Inr []
             else res_bind (dynamic_fx_requirements (ri_symbol item)) (\<lambda>dependencies.
               Inr (spoke_calls available item cap dependencies)))
             [(QUOTE, [''synthetic_fx'']), (HISTORY, [''synthetic_fx'', ''synthetic_fx_history''])])
           (\<lambda>calls. Inr (concat calls)))"

subsection \<open>Dependencies of market-ratio staking yields\<close>

definition ratio_dependencies :: "route_input \<Rightarrow> string list" where
  "ratio_dependencies item =
     (case ratio_policy_for (ri_symbol item) of
        Some policy \<Rightarrow> [sp_staking_pair policy, sp_underlying_pair policy]
      | None \<Rightarrow> (case ri_underlying_asset item of
          None \<Rightarrow> []
        | Some asset \<Rightarrow> [ri_symbol item, pair_with_quote asset (ri_symbol item)]))"

definition ratio_call :: "route_input \<Rightarrow> string \<Rightarrow> asset_class \<Rightarrow> string \<Rightarrow> bool \<Rightarrow> demand_call" where
  "ratio_call item dependency asset provider committed =
     \<lparr>dl_provider = provider, dl_capability = HISTORY, dl_symbol = dependency,
      dl_poll_seconds = ri_metadata_poll_seconds item, dl_basis = ''staking_ratio_dependency:'' @ ri_symbol item,
      dl_asset_class = asset, dl_ownership = ri_ownership item, dl_committed = committed, dl_backfill_days = 400,
      dl_collector_history = False, dl_group = None\<rparr>"

definition ratio_calls ::
  "string list option \<Rightarrow> route_items \<Rightarrow> compiled \<Rightarrow> route_input \<Rightarrow> compiled_routes \<Rightarrow> demand_call list" where
  "ratio_calls available items compiled item route =
     (if ''staking_market_ratio_proxy'' \<notin> set (compiled_providers_for route YIELD) then []
      else
        let dependencies = ratio_dependencies item;
            internal = filter (\<lambda>d. d \<notin> set (dict_keys compiled)) dependencies in
        if internal \<noteq> [] then concat (map (\<lambda>dependency.
            if (case available of None \<Rightarrow> True | Some names \<Rightarrow> ''coingecko'' \<in> set names)
            then [ratio_call item dependency CRYPTO ''coingecko'' True] else []) internal)
        else concat (map (\<lambda>dependency.
            case (dict_get compiled dependency, dict_get items dependency) of
              (Some dependency_route, Some dependency_item) \<Rightarrow>
                chain_calls (compiled_providers_for dependency_route HISTORY)
                  (ratio_call item dependency (ri_asset_class dependency_item))
            | _ \<Rightarrow> []) dependencies))"

definition derived_demands ::
  "string list option \<Rightarrow> route_items \<Rightarrow> compiled \<Rightarrow> string \<times> compiled_routes \<Rightarrow> demands \<Rightarrow> compile_error + demands" where
  "derived_demands available items compiled entry demands =
     (case dict_get items (fst entry) of
        None \<Rightarrow> Inr demands
      | Some item \<Rightarrow>
          res_bind (add_demands (synthetic_calls items compiled item (snd entry)) demands) (\<lambda>demands.
          res_bind (fx_calls available item (snd entry)) (\<lambda>calls.
          res_bind (add_demands calls demands) (\<lambda>demands.
          add_demands (ratio_calls available items compiled item (snd entry)) demands))))"

fun fold_res :: "('a \<Rightarrow> 's \<Rightarrow> 'e + 's) \<Rightarrow> 'a list \<Rightarrow> 's \<Rightarrow> 'e + 's" where
  "fold_res f [] s = Inr s"
| "fold_res f (x # xs) s = res_bind (f x s) (fold_res f xs)"

definition direct_demands :: "route_items \<Rightarrow> string \<times> compiled_routes \<Rightarrow> demands \<Rightarrow> compile_error + demands" where
  "direct_demands items entry demands =
     (case dict_get items (fst entry) of None \<Rightarrow> Inr demands | Some item \<Rightarrow> add_demands (direct_calls item (snd entry)) demands)"

definition build_demands :: "string list option \<Rightarrow> route_items \<Rightarrow> compiled \<Rightarrow> compile_error + demands" where
  "build_demands available items compiled =
     res_bind (fold_res (direct_demands items) compiled []) (fold_res (derived_demands available items compiled) compiled)"

subsection \<open>Estimate lines\<close>

record credit_line =
  cl_provider :: string
  cl_capability :: capability
  cl_symbol :: string
  cl_requests_per_day :: int
  cl_estimated_credits_per_day :: rat
  cl_cycles_per_day :: int
  cl_steady_per_cycle :: int
  cl_cold_start :: int
  cl_bases :: "string list"
  cl_committed :: bool
  cl_ownerships :: "string list"
  cl_quota_scopes :: "string list"

definition sorted_set :: "string list \<Rightarrow> string list" where
  "sorted_set xs = sort (remdups xs)"

text \<open>\<^verbatim>\<open>coingecko_simple_price_id_batches\<close>: \<^verbatim>\<open>current\<close> is the open batch with its characters.\<close>

fun id_batches :: "string list \<Rightarrow> string list \<Rightarrow> nat \<Rightarrow> compile_error + string list list" where
  "id_batches [] current characters = Inr (if current = [] then [] else [current])"
| "id_batches (coin_id # rest) current characters =
     (let limit = COINGECKO_SIMPLE_PRICE_ID_CHARACTERS_PER_REQUEST;
          added = length coin_id + (if current = [] then 0 else 1) in
      raise_if (limit < length coin_id) (CompileValueError ''CoinGecko coin ID exceeds the safe query length'') (
      if current \<noteq> [] \<and> (COINGECKO_SIMPLE_PRICE_IDS_PER_REQUEST \<le> length current \<or> limit < characters + added)
      then res_bind (id_batches rest [coin_id] (length coin_id)) (\<lambda>batches. Inr (current # batches))
      else id_batches rest (current @ [coin_id]) (characters + added)))"

definition coingecko_simple_price_id_batches :: "string list \<Rightarrow> compile_error + string list list" where
  "coingecko_simple_price_id_batches coin_ids =
     id_batches (sorted_set (filter (\<lambda>c. c \<noteq> []) (map strip coin_ids))) [] 0"

definition routed_coin_ids :: "route_items \<Rightarrow> compiled \<Rightarrow> string list" where
  "routed_coin_ids items compiled = concat (map (\<lambda>(symbol, routes).
     if list_ex (\<lambda>(_, providers). ''coingecko'' \<in> set providers) (kr_routes routes)
     then (case Option.bind (dict_get items symbol) (\<lambda>item. dict_get (ri_provider_symbols item) ''coingecko'') of
             None \<Rightarrow> [] | Some coin_id \<Rightarrow> [coin_id])
     else []) compiled)"

definition ratio_coin_ids :: "compiled \<Rightarrow> string list" where
  "ratio_coin_ids compiled = concat (map (\<lambda>policy.
     case dict_get compiled (sp_symbol policy) of
       None \<Rightarrow> []
     | Some routes \<Rightarrow>
         if ''staking_market_ratio_proxy'' \<notin> set (compiled_providers_for routes YIELD) then []
         else List.map_filter (dict_get BUILTIN_COINGECKO_COIN_IDS) [sp_staking_pair policy, sp_underlying_pair policy])
     BUILTIN_STAKING_RATIO_POLICIES)"

definition is_coingecko_quote :: "demand_key \<Rightarrow> bool" where
  "is_coingecko_quote key = (fst key = ''coingecko'' \<and> fst (snd key) = QUOTE)"

definition provider_cost :: "string \<Rightarrow> capability \<Rightarrow> rat" where
  "provider_cost provider cap =
     (case get_provider_descriptor provider of Inl _ \<Rightarrow> 0 | Inr descriptor \<Rightarrow> credit_cost descriptor cap)"

text \<open>The decimal digits of an f-string.\<close>

fun nat_str :: "nat \<Rightarrow> string" where
  "nat_str n = (if n < 10 then [] else nat_str (n div 10)) @ [char_of (48 + n mod 10)]"

declare nat_str.simps [simp del]

text \<open>All CoinGecko quotes share one cached batch request.\<close>

definition shared_batch_line :: "nat \<Rightarrow> credit_demand list \<Rightarrow> credit_line" where
  "shared_batch_line batch_count quotes =
     (let refreshes = \<lceil>86400 / max COINGECKO_SHARED_QUOTE_CACHE_SECONDS (Min (set (map cd_poll_seconds quotes)))\<rceil>;
          requests = refreshes * int batch_count in
      \<lparr>cl_provider = ''coingecko'', cl_capability = QUOTE, cl_symbol = ''*'', cl_requests_per_day = requests,
       cl_estimated_credits_per_day = of_int requests * provider_cost ''coingecko'' QUOTE, cl_cycles_per_day = refreshes,
       cl_steady_per_cycle = int batch_count, cl_cold_start = int batch_count,
       cl_bases = sorted_set (concat (map cd_bases quotes) @ [''shared_batch_cache'', ''shared_batch_count:'' @ nat_str batch_count]),
       cl_committed = list_ex cd_committed quotes, cl_ownerships = sorted_set (concat (map cd_ownerships quotes)),
       cl_quota_scopes = sorted_set (concat (map cd_quota_scopes quotes))\<rparr>)"

definition shared_lines :: "route_items \<Rightarrow> compiled \<Rightarrow> demands \<Rightarrow> compile_error + credit_line list" where
  "shared_lines items compiled demands =
     (let quotes = map snd (filter (is_coingecko_quote \<circ> fst) demands) in
      if quotes = [] then Inr []
      else res_bind (coingecko_simple_price_id_batches
             (BUILTIN_COINGECKO_NORMALIZATION_COIN_ID # routed_coin_ids items compiled @ ratio_coin_ids compiled)) (\<lambda>batches.
           Inr [shared_batch_line (length batches) quotes]))"

definition demand_line :: "demand_key \<times> credit_demand \<Rightarrow> credit_line" where
  "demand_line entry =
     (let (provider, cap, symbol, group) = fst entry; demand = snd entry;
          profile = credit_request_profile provider demand; requests = requests_per_day profile in
      \<lparr>cl_provider = provider, cl_capability = cap, cl_symbol = symbol, cl_requests_per_day = requests,
       cl_estimated_credits_per_day = of_int requests * provider_cost provider cap,
       cl_cycles_per_day = rq_cycles_per_day profile, cl_steady_per_cycle = rq_steady_per_cycle profile,
       cl_cold_start = rq_cold_start profile, cl_bases = sorted_set (cd_bases demand), cl_committed = cd_committed demand,
       cl_ownerships = sorted_set (cd_ownerships demand), cl_quota_scopes = sorted_set (cd_quota_scopes demand)\<rparr>)"

definition demand_order :: "demand_key \<times> credit_demand \<Rightarrow> string \<times> string \<times> string \<times> string" where
  "demand_order entry = (let (provider, cap, symbol, group) = fst entry in (provider, capability_value cap, symbol, group))"

definition line_order :: "credit_line \<Rightarrow> string \<times> string \<times> string" where
  "line_order line = (cl_provider line, capability_value (cl_capability line), cl_symbol line)"

definition credit_lines :: "route_items \<Rightarrow> compiled \<Rightarrow> demands \<Rightarrow> compile_error + credit_line list" where
  "credit_lines items compiled demands =
     res_bind (shared_lines items compiled demands) (\<lambda>shared.
     Inr (sort_key line_order (shared @ map demand_line
       (sort_key demand_order (filter (Not \<circ> is_coingecko_quote \<circ> fst) demands)))))"

subsection \<open>Totals\<close>

type_synonym totals = "(string, rat) dict"
type_synonym scoped_totals = "(string, totals) dict"

definition add_total :: "'k \<Rightarrow> rat \<Rightarrow> ('k, rat) dict \<Rightarrow> ('k, rat) dict" where
  "add_total key amount totals = dict_set key ((case dict_get totals key of None \<Rightarrow> 0 | Some x \<Rightarrow> x) + amount) totals"

definition total_of :: "('k, rat) dict \<Rightarrow> 'k \<Rightarrow> rat" where
  "total_of totals key = (case dict_get totals key of None \<Rightarrow> 0 | Some x \<Rightarrow> x)"

definition add_scope_total :: "string \<Rightarrow> rat \<Rightarrow> string \<Rightarrow> scoped_totals \<Rightarrow> scoped_totals" where
  "add_scope_total provider amount scope totals =
     dict_set provider (add_total scope amount (dict_list totals provider)) totals"

definition line_totals :: "credit_line list \<Rightarrow> totals" where
  "line_totals lines = fold (\<lambda>l. add_total (cl_provider l) (cl_estimated_credits_per_day l)) lines []"

definition line_scope_totals :: "credit_line list \<Rightarrow> scoped_totals" where
  "line_scope_totals lines =
     fold (\<lambda>l. fold (add_scope_total (cl_provider l) (cl_estimated_credits_per_day l)) (cl_quota_scopes l)) lines []"

definition scope_total_of :: "scoped_totals \<Rightarrow> string \<Rightarrow> string \<Rightarrow> rat" where
  "scope_total_of totals provider scope = total_of (dict_list totals provider) scope"

definition hard_cap :: "credit_settings option \<Rightarrow> totals \<Rightarrow> totals" where
  "hard_cap settings = map (\<lambda>(provider, total). (provider,
     case dict_get (daily_credit_caps settings) provider of None \<Rightarrow> total | Some cap \<Rightarrow> min total cap))"

subsection \<open>The plan\<close>

record route_plan =
  rp_instruments :: compiled
  rp_routes :: "(string \<times> capability \<times> string list) list"
  rp_estimated :: totals
  rp_committed :: totals
  rp_committed_by_scope :: scoped_totals
  rp_worst_case :: totals
  rp_worst_case_by_scope :: scoped_totals
  rp_hard_capped :: totals
  rp_credit_estimates :: "credit_line list"
  rp_context :: "(string, budget_context) dict"

fun check_daily_limits :: "(string \<times> rat) list \<Rightarrow> totals \<Rightarrow> compile_error + unit" where
  "check_daily_limits [] used = Inr ()"
| "check_daily_limits ((raw_provider, limit) # rest) used =
     raise_if (limit < 0) (CompileValueError ''credit limit cannot be negative: '') (
     raise_if (limit < total_of used (lower (strip raw_provider)))
       (RouteCompileError ''estimated daily credits exceed budget for '') (check_daily_limits rest used))"

definition compile_route_plan ::
  "compile_options \<Rightarrow> credit_settings option \<Rightarrow> (string \<times> rat) list \<Rightarrow> route_input list \<Rightarrow> compile_error + route_plan" where
  "compile_route_plan opts settings daily_limits definitions =
     res_bind (compile_routes opts definitions) (\<lambda>(items, compiled).
     res_bind (build_demands (ko_available opts) items compiled) (\<lambda>demands.
     res_bind (credit_lines items compiled demands) (\<lambda>lines.
     let committed = filter cl_committed lines in
     res_bind (check_daily_limits daily_limits (line_totals committed)) (\<lambda>_.
     Inr \<lparr>rp_instruments = compiled,
          rp_routes = concat (map (\<lambda>(symbol, r). map (\<lambda>(cap, chain). (symbol, cap, chain)) (kr_routes r)) compiled),
          rp_estimated = line_totals committed, rp_committed = line_totals committed,
          rp_committed_by_scope = line_scope_totals committed, rp_worst_case = line_totals lines,
          rp_worst_case_by_scope = line_scope_totals lines, rp_hard_capped = hard_cap settings (line_totals lines),
          rp_credit_estimates = lines, rp_context = credit_budget_context settings\<rparr>))))"

end
