(* ===== verification/QP_Budget.thy ===== *)
theory QP_Budget
  imports QP_Credits
begin

text \<open>
  Credit admission of a candidate route plan: \<^verbatim>\<open>_incremental_budget_errors\<close> of
  \<^verbatim>\<open>quickprice/catalog_runtime.py\<close>, which guards every activation, and
  \<^verbatim>\<open>incremental_credit_budget_errors\<close> of \<^verbatim>\<open>quickprice/providers/compiler.py\<close>, its twin on the
  compiler's side. Floats made from the integer settings are exact.
\<close>

subsection \<open>The runtime's admission check\<close>

record budget_violation =
  bv_provider :: string
  bv_proposed :: rat
  bv_limit :: rat
  bv_effective_limit :: rat
  bv_grandfathered_unchanged :: rat
  bv_scope :: "string option"

definition credit_limits :: "credit_settings \<Rightarrow> totals" where
  "credit_limits s =
     [(''twelve_data'', of_int (cs_twelve_daily s)), (''alpha_vantage'', of_int (cs_alpha_daily s)),
      (''coingecko'', of_int (cs_coingecko_monthly s div 31)), (''finnhub'', of_int (cs_finnhub_per_minute s * 1440))]"

type_synonym line_identity = "string \<times> string \<times> string \<times> string list \<times> string list"

definition credit_line_identity :: "credit_line \<Rightarrow> line_identity" where
  "credit_line_identity line =
     (cl_provider line, capability_value (cl_capability line), cl_symbol line,
      sort (filter (\<lambda>b. \<not> is_prefix ''shared_batch_count:'' b) (cl_bases line)), sort (cl_quota_scopes line))"

definition identity_scopes :: "line_identity \<Rightarrow> string list" where
  "identity_scopes identity = snd (snd (snd (snd identity)))"

definition committed_by_identity :: "credit_line list \<Rightarrow> (line_identity, rat) dict" where
  "committed_by_identity lines =
     fold (\<lambda>l. add_total (credit_line_identity l) (cl_estimated_credits_per_day l)) (filter cl_committed lines) []"

text \<open>The demand both plans commit in common, per identity; then summed per provider and per scope.\<close>

definition common_demand :: "credit_line list \<Rightarrow> credit_line list \<Rightarrow> (line_identity \<times> rat) list" where
  "common_demand active candidate =
     List.map_filter (\<lambda>(identity, active_value).
       map_option (\<lambda>candidate_value. (identity, min active_value candidate_value))
         (dict_get (committed_by_identity candidate) identity)) (committed_by_identity active)"

definition retained_committed_credits :: "route_plan \<Rightarrow> route_plan \<Rightarrow> totals \<times> scoped_totals" where
  "retained_committed_credits active candidate =
     (let common = common_demand (rp_credit_estimates active) (rp_credit_estimates candidate) in
      (fold (\<lambda>(identity, amount). add_total (fst identity) amount) common [],
       fold (\<lambda>(identity, amount). fold (add_scope_total (fst identity) amount) (identity_scopes identity)) common []))"

record admission_context =
  ac_retained :: totals
  ac_effective :: totals
  ac_retained_by_scope :: scoped_totals
  ac_effective_general :: rat

definition credit_admission_context :: "credit_settings \<Rightarrow> route_plan \<Rightarrow> route_plan \<Rightarrow> admission_context" where
  "credit_admission_context s active candidate =
     (let (retained, by_scope) = retained_committed_credits active candidate;
          reserve = min (cs_twelve_fx_reserve s) (max 0 (cs_twelve_daily s - 1)) in
      \<lparr>ac_retained = retained,
       ac_effective = map (\<lambda>(provider, limit). (provider, max limit (total_of retained provider))) (credit_limits s),
       ac_retained_by_scope = by_scope,
       ac_effective_general =
         max (of_int (cs_twelve_daily s) - of_int reserve) (scope_total_of by_scope ''twelve_data'' ''general'')\<rparr>)"

definition provider_violation :: "admission_context \<Rightarrow> route_plan \<Rightarrow> string \<times> rat \<Rightarrow> budget_violation option" where
  "provider_violation context candidate entry =
     (let (provider, limit) = entry;
          proposed = total_of (rp_committed candidate) provider;
          effective = the (dict_get (ac_effective context) provider) in
      if effective < proposed
      then Some \<lparr>bv_provider = provider, bv_proposed = proposed, bv_limit = limit, bv_effective_limit = effective,
                 bv_grandfathered_unchanged = total_of (ac_retained context) provider, bv_scope = None\<rparr>
      else None)"

definition incremental_budget_errors :: "credit_settings \<Rightarrow> route_plan \<Rightarrow> route_plan \<Rightarrow> budget_violation list" where
  "incremental_budget_errors s active candidate =
     (let context = credit_admission_context s active candidate;
          proposed_general = scope_total_of (rp_committed_by_scope candidate) ''twelve_data'' ''general'';
          configured_general = max 0 (of_int (cs_twelve_daily s)
            - min (of_int (cs_twelve_fx_reserve s)) (max 0 (of_int (cs_twelve_daily s) - 1))) in
      List.map_filter (provider_violation context candidate) (credit_limits s)
      @ (if ac_effective_general context < proposed_general
         then [\<lparr>bv_provider = ''twelve_data'', bv_proposed = proposed_general, bv_limit = configured_general,
                bv_effective_limit = ac_effective_general context,
                bv_grandfathered_unchanged = scope_total_of (ac_retained_by_scope context) ''twelve_data'' ''general'',
                bv_scope = Some ''general''\<rparr>]
         else []))"

subsection \<open>The compiler's admission check\<close>

definition compiler_line_identity :: "credit_line \<Rightarrow> line_identity" where
  "compiler_line_identity line =
     (cl_provider line, capability_value (cl_capability line), cl_symbol line, cl_bases line, cl_quota_scopes line)"

definition committed_lines :: "route_plan option \<Rightarrow> string \<Rightarrow> string option \<Rightarrow> (line_identity, rat) dict" where
  "committed_lines plan provider scope =
     (case plan of
        None \<Rightarrow> []
      | Some p \<Rightarrow>
          fold (\<lambda>l. add_total (compiler_line_identity l) (cl_estimated_credits_per_day l))
            (filter (\<lambda>l. cl_committed l \<and> cl_provider l = provider
                \<and> (case scope of None \<Rightarrow> True | Some q \<Rightarrow> q \<in> set (cl_quota_scopes l))) (rp_credit_estimates p)) [])"

definition retained_credits :: "route_plan option \<Rightarrow> route_plan \<Rightarrow> string \<Rightarrow> string option \<Rightarrow> rat" where
  "retained_credits active candidate provider scope =
     sum_list (map (\<lambda>(identity, active_value).
       min active_value (total_of (committed_lines (Some candidate) provider scope) identity))
       (committed_lines active provider scope))"

definition incremental_credit_budget_errors :: "route_plan option \<Rightarrow> route_plan \<Rightarrow> string list" where
  "incremental_credit_budget_errors active candidate =
     List.map_filter (\<lambda>(provider, context).
       if max (of_int (bc_daily_limit context)) (retained_credits active candidate provider None)
            < total_of (rp_committed candidate) provider
       then Some (provider @ '' committed daily credits exceed the total budget: '') else None) (rp_context candidate)
     @ (case Option.bind (dict_get (rp_context candidate) ''twelve_data'') bc_available_outside_reserve of
          None \<Rightarrow> []
        | Some general_limit \<Rightarrow>
            if max (of_int general_limit) (retained_credits active candidate ''twelve_data'' (Some ''general''))
                 < scope_total_of (rp_committed_by_scope candidate) ''twelve_data'' ''general''
            then [''twelve_data non-FX committed daily credits exceed the unreserved budget: ''] else [])"

end
