(* ===== verification/QP_Budget_Props.thy ===== *)
theory QP_Budget_Props
  imports QP_Budget
begin

text \<open>
  What credit admission guarantees: above its limit a provider keeps at most the demand it
  already had, line by line, and the compiler's check is at least as strict as the runtime's.
\<close>

subsection \<open>Totals as weighted sums\<close>

definition wsum :: "('k \<Rightarrow> rat) \<Rightarrow> ('k \<times> rat) list \<Rightarrow> rat" where
  "wsum w d = (\<Sum>(k, v)\<leftarrow>d. w k * v)"

lemma wsum_simps [simp]: "wsum w [] = 0" "wsum w ((k, v) # d) = w k * v + wsum w d"
  by (simp_all add: wsum_def)

lemma total_of_add_total: "total_of (add_total k a d) k' = total_of d k' + (if k = k' then a else 0)"
  by (auto simp: total_of_def add_total_def)

lemma total_of_Nil [simp]: "total_of [] k = 0"
  by (simp add: total_of_def)

lemma wsum_update: "wsum w (dict_set k v d) = wsum w d + w k * (v - total_of d k)"
  by (induction d) (auto simp: total_of_def algebra_simps)

lemma wsum_add_total: "wsum w (add_total k a d) = wsum w d + w k * a"
  by (simp add: add_total_def wsum_update total_of_def split: option.split)

lemma wsum_fold:
  "wsum w (fold (\<lambda>x. add_total (f x) (g x)) xs d) = wsum w d + (\<Sum>x\<leftarrow>xs. w (f x) * g x)"
  by (induction xs arbitrary: d) (simp_all add: wsum_add_total)

lemma total_of_fold:
  "total_of (fold (\<lambda>x. add_total (f x) (g x)) xs d) k = total_of d k + (\<Sum>x\<leftarrow>xs. if f x = k then g x else 0)"
  by (induction xs arbitrary: d) (simp_all add: total_of_add_total)

lemma scope_total_of_Nil [simp]: "scope_total_of [] p q = 0"
  by (simp add: scope_total_of_def dict_list_def)

lemma scope_total_add:
  "scope_total_of (add_scope_total p a q t) p' q' = scope_total_of t p' q' + (if p = p' \<and> q = q' then a else 0)"
  by (auto simp: scope_total_of_def add_scope_total_def total_of_add_total)

lemma scope_total_fold1:
  "scope_total_of (fold (add_scope_total p a) qs t) p' q' =
     scope_total_of t p' q' + (if p = p' then of_nat (count_list qs q') * a else 0)"
  by (induction qs arbitrary: t) (auto simp: scope_total_add algebra_simps)

lemma scope_total_fold:
  "scope_total_of (fold (\<lambda>x. fold (add_scope_total (p x) (a x)) (qs x)) xs t) p' q' =
     scope_total_of t p' q' + (\<Sum>x\<leftarrow>xs. if p x = p' then of_nat (count_list (qs x) q') * a x else 0)"
  by (induction xs arbitrary: t) (simp_all add: scope_total_fold1)

lemma fold_add_total_wf: "dict_wf d \<Longrightarrow> dict_wf (fold (\<lambda>x. add_total (f x) (g x)) xs d)"
  by (induction xs arbitrary: d) (simp_all add: add_total_def dict_set_wf)

lemma wsum_set:
  assumes "dict_wf d" and "set (dict_keys d) \<subseteq> S" and "finite S"
  shows "wsum w d = (\<Sum>k\<in>S. w k * total_of d k)"
  using assms
proof (induction d arbitrary: S)
  case Nil
  then show ?case by simp
next
  case (Cons e d)
  obtain k v where e: "e = (k, v)" by fastforce
  have k: "k \<in> S" "k \<notin> set (dict_keys d)" using Cons.prems by (auto simp: e)
  have "wsum w d = (\<Sum>k'\<in>S - {k}. w k' * total_of d k')" using Cons k by (intro Cons.IH) (auto simp: e)
  also have "\<dots> = (\<Sum>k'\<in>S - {k}. w k' * total_of (e # d) k')" by (rule sum.cong) (auto simp: total_of_def e)
  finally show ?case
    using sum.remove [OF Cons.prems(3) k(1), of "\<lambda>k'. w k' * total_of (e # d) k'"]
    by (simp add: e total_of_def)
qed

text \<open>The part two tables have in common covers the second one exactly when nothing in it grew.\<close>

definition common_entries :: "('k \<times> rat) list \<Rightarrow> ('k \<times> rat) list \<Rightarrow> ('k \<times> rat) list" where
  "common_entries a c = List.map_filter (\<lambda>(k, v). map_option (\<lambda>v'. (k, min v v')) (dict_get c k)) a"

lemma common_entries_simps [simp]:
  "common_entries [] c = []"
  "common_entries ((k, v) # a) c =
     (case dict_get c k of None \<Rightarrow> common_entries a c | Some v' \<Rightarrow> (k, min v v') # common_entries a c)"
  by (simp_all add: common_entries_def List.map_filter_def split: option.split)

lemma wsum_common:
  assumes "\<And>k v. (k, v) \<in> set a \<Longrightarrow> 0 \<le> v"
  shows "wsum w (common_entries a c) = wsum w (map (\<lambda>(k, v). (k, min v (total_of c k))) a)"
  using assms
proof (induction a)
  case (Cons e a)
  obtain k v where e: "e = (k, v)" by fastforce
  have "0 \<le> v" using Cons.prems e by auto
  moreover have "wsum w (common_entries a c) = wsum w (map (\<lambda>(k, v). (k, min v (total_of c k))) a)"
    using Cons.prems by (intro Cons.IH) auto
  ultimately show ?case
    by (cases "dict_get c k") (simp_all add: e total_of_def)
qed simp

lemma total_of_map_min:
  "total_of (map (\<lambda>(k, v). (k, min v (f k))) a) k = (if k \<in> set (dict_keys a) then min (total_of a k) (f k) else 0)"
  by (induction a) (auto simp: total_of_def)

lemma common_covers_iff:
  assumes wf: "dict_wf a" "dict_wf c" and a0: "\<And>k v. (k, v) \<in> set a \<Longrightarrow> 0 \<le> v" and c0: "\<And>k. 0 \<le> total_of c k"
    and w0: "\<And>k. 0 \<le> w k"
  shows "wsum w c \<le> wsum w (common_entries a c) \<longleftrightarrow> (\<forall>k. 0 < w k \<longrightarrow> total_of c k \<le> total_of a k)"
proof -
  let ?S = "set (dict_keys a) \<union> set (dict_keys c)"
  let ?m = "map (\<lambda>(k, v). (k, min v (total_of c k))) a"
  have ta: "0 \<le> total_of a k" for k
    using a0 by (auto simp: total_of_def split: option.split dest: map_of_SomeD)
  have outa: "total_of a k = 0" if "k \<notin> set (dict_keys a)" for k
    using that by (auto simp: total_of_def map_of_eq_None_iff [symmetric] split: option.split)
  have outc: "total_of c k = 0" if "k \<notin> set (dict_keys c)" for k
    using that by (auto simp: total_of_def map_of_eq_None_iff [symmetric] split: option.split)
  have keys: "dict_keys ?m = dict_keys a" by (induction a) auto
  have mk: "total_of ?m k = min (total_of a k) (total_of c k)" for k
    using outa [of k] c0 [of k] by (auto simp: total_of_map_min)
  have m: "wsum w (common_entries a c) = (\<Sum>k\<in>?S. w k * min (total_of a k) (total_of c k))"
  proof -
    have "dict_wf ?m" "set (dict_keys ?m) \<subseteq> ?S" unfolding keys using wf(1) by auto
    moreover have "wsum w (common_entries a c) = wsum w ?m" by (rule wsum_common) (rule a0)
    ultimately show ?thesis using wsum_set [of ?m ?S w] by (simp only: mk) simp
  qed
  have c: "wsum w c = (\<Sum>k\<in>?S. w k * total_of c k)" using wsum_set [of c ?S w] wf(2) by simp
  have diff: "wsum w c - wsum w (common_entries a c) =
      (\<Sum>k\<in>?S. w k * (total_of c k - min (total_of a k) (total_of c k)))"
    unfolding m c by (simp add: sum_subtractf [symmetric] right_diff_distrib)
  have nonneg: "0 \<le> w k * (total_of c k - min (total_of a k) (total_of c k))" for k
    using w0 [of k] by simp
  have "wsum w c \<le> wsum w (common_entries a c) \<longleftrightarrow>
      (\<Sum>k\<in>?S. w k * (total_of c k - min (total_of a k) (total_of c k))) = 0"
    using diff sum_nonneg [of ?S "\<lambda>k. w k * (total_of c k - min (total_of a k) (total_of c k))"] nonneg by auto
  also have "\<dots> \<longleftrightarrow> (\<forall>k\<in>?S. w k * (total_of c k - min (total_of a k) (total_of c k)) = 0)"
    by (rule sum_nonneg_eq_0_iff) (use nonneg in auto)
  also have "\<dots> \<longleftrightarrow> (\<forall>k. 0 < w k \<longrightarrow> total_of c k \<le> total_of a k)"
  proof -
    have "w k * (total_of c k - min (total_of a k) (total_of c k)) = 0 \<longleftrightarrow> (0 < w k \<longrightarrow> total_of c k \<le> total_of a k)" for k
      using w0 [of k] by (cases "w k = 0") (auto simp: min_def)
    moreover have "k \<notin> ?S \<Longrightarrow> total_of c k \<le> total_of a k" for k using ta [of k] outc [of k] by simp
    ultimately show ?thesis by blast
  qed
  finally show ?thesis .
qed

subsection \<open>Plans\<close>

lemma provider_cost_nonneg: "0 \<le> provider_cost provider cap"
proof -
  have "0 \<le> credit_cost d cap" if "d \<in> set PROVIDER_CATALOG" for d
    using that by (cases cap) (auto simp: credit_cost_def PROVIDER_CATALOG_def exchange_descriptors_def
      listed_descriptors_def income_descriptors_def derived_descriptors_def mk_descriptor_def)
  then show ?thesis
    by (auto simp: provider_cost_def get_provider_descriptor_def descriptor_named_def find_Some_iff
      split: option.split dest!: nth_mem)
qed

lemma pages_nonneg: "0 \<le> cold_pages i n" "0 \<le> steady_pages i r"
  by (simp_all add: cold_pages_def steady_pages_def PAGE_BAR_LIMIT_def ceiling_mono [of 0, simplified])

lemma requests_per_day_nonneg: "0 \<le> requests_per_day (credit_request_profile provider d)"
  using pages_nonneg
  by (simp add: requests_per_day_def credit_request_profile_def collector_history_profile_def Let_def add_nonneg_nonneg)

lemma credit_lines_members:
  assumes "credit_lines items compiled demands = Inr ls" and "l \<in> set ls"
  shows "(\<exists>e. l = demand_line e) \<or> (\<exists>n qs. l = shared_batch_line n qs)"
proof -
  from assms obtain shared where s: "shared_lines items compiled demands = Inr shared"
    and l: "l \<in> set shared \<union> demand_line ` set demands"
    by (auto simp: credit_lines_def res_simps)
  have "\<exists>n qs. x = shared_batch_line n qs" if x: "x \<in> set shared" for x
  proof -
    obtain n where "x = shared_batch_line n (map snd (filter (is_coingecko_quote \<circ> fst) demands))"
      using x s by (auto simp: shared_lines_def Let_def res_simps split: if_splits)
    then show ?thesis by blast
  qed
  then show ?thesis using l by blast
qed

lemma demand_line_nonneg: "0 \<le> cl_estimated_credits_per_day (demand_line e)"
  using requests_per_day_nonneg provider_cost_nonneg by (auto simp: demand_line_def Let_def split: prod.split)

lemma shared_batch_line_nonneg: "0 \<le> cl_estimated_credits_per_day (shared_batch_line n qs)"
proof -
  have "- 1 < (86400 :: rat) / max 600 x" for x by (rule less_le_trans [of _ 0]) (auto simp: max_def)
  then show ?thesis
    using provider_cost_nonneg
    by (auto simp: shared_batch_line_def Let_def COINGECKO_SHARED_QUOTE_CACHE_SECONDS_def intro!: mult_nonneg_nonneg)
qed

lemma line_scopes_distinct: "distinct (cl_quota_scopes (demand_line e))" "distinct (cl_quota_scopes (shared_batch_line n qs))"
  by (auto simp: demand_line_def shared_batch_line_def sorted_set_def Let_def split: prod.split)

lemma credit_lines_ok:
  assumes "credit_lines items compiled demands = Inr ls" and "l \<in> set ls"
  shows "0 \<le> cl_estimated_credits_per_day l" and "distinct (cl_quota_scopes l)"
  using credit_lines_members [OF assms] demand_line_nonneg shared_batch_line_nonneg line_scopes_distinct by auto

text \<open>What admission uses of a compiled plan.\<close>

definition plan_totals_ok :: "route_plan \<Rightarrow> bool" where
  "plan_totals_ok p \<longleftrightarrow>
     rp_committed p = line_totals (filter cl_committed (rp_credit_estimates p))
     \<and> rp_committed_by_scope p = line_scope_totals (filter cl_committed (rp_credit_estimates p))
     \<and> (\<forall>l \<in> set (rp_credit_estimates p). 0 \<le> cl_estimated_credits_per_day l \<and> distinct (cl_quota_scopes l))"

lemma compiled_plan_totals: "compile_route_plan opts settings limits defs = Inr p \<Longrightarrow> plan_totals_ok p"
  by (auto simp: compile_route_plan_def plan_totals_ok_def res_simps Let_def
    dest: credit_lines_ok split: prod.splits)

lemma compiled_plan_context:
  "compile_route_plan opts settings limits defs = Inr p \<Longrightarrow> rp_context p = credit_budget_context settings"
  by (auto simp: compile_route_plan_def res_simps Let_def split: prod.splits)

subsection \<open>The runtime's admission\<close>

definition provider_weight :: "string \<Rightarrow> line_identity \<Rightarrow> rat" where
  "provider_weight p identity = (if fst identity = p then 1 else 0)"

definition scope_weight :: "string \<Rightarrow> string \<Rightarrow> line_identity \<Rightarrow> rat" where
  "scope_weight p q identity = (if fst identity = p then of_nat (count_list (identity_scopes identity) q) else 0)"

lemma weights_nonneg [simp]: "0 \<le> provider_weight p k" "0 \<le> scope_weight p q k"
  by (simp_all add: provider_weight_def scope_weight_def)

lemma weights_pos:
  "0 < provider_weight p k \<longleftrightarrow> fst k = p"
  "0 < scope_weight p q k \<longleftrightarrow> fst k = p \<and> q \<in> set (identity_scopes k)"
  by (auto simp: provider_weight_def scope_weight_def count_list_0_iff simp flip: neq0_conv)

lemma total_as_wsum:
  "total_of (fold (\<lambda>(k, a). add_total (fst k) a) d t) p = total_of t p + wsum (provider_weight p) d"
  by (induction d arbitrary: t) (auto simp: total_of_add_total provider_weight_def)

lemma scope_total_as_wsum:
  "scope_total_of (fold (\<lambda>(k, a). fold (add_scope_total (fst k) a) (identity_scopes k)) d t) p q =
     scope_total_of t p q + wsum (scope_weight p q) d"
  by (induction d arbitrary: t) (auto simp: scope_total_fold1 scope_weight_def)

lemma common_demand_entries: "common_demand a c = common_entries (committed_by_identity a) (committed_by_identity c)"
  by (simp add: common_demand_def common_entries_def)

lemma identity_fst [simp]: "fst (credit_line_identity l) = cl_provider l"
  by (simp add: credit_line_identity_def)

lemma count_list_insort: "count_list (insort x xs) y = count_list (x # xs) y"
  by (induction xs) auto

lemma count_list_sort: "count_list (sort xs) x = count_list (xs :: 'a :: linorder list) x"
  by (induction xs) (simp_all add: count_list_insort)

lemma identity_count [simp]: "count_list (identity_scopes (credit_line_identity l)) q = count_list (cl_quota_scopes l) q"
  by (simp add: credit_line_identity_def identity_scopes_def count_list_sort)

lemma committed_total_as_wsum:
  assumes "plan_totals_ok p"
  shows "total_of (rp_committed p) provider = wsum (provider_weight provider) (committed_by_identity (rp_credit_estimates p))"
    and "scope_total_of (rp_committed_by_scope p) provider q =
      wsum (scope_weight provider q) (committed_by_identity (rp_credit_estimates p))"
proof -
  let ?ls = "filter cl_committed (rp_credit_estimates p)"
  have "(\<Sum>l\<leftarrow>ls. if cl_provider l = provider then cl_estimated_credits_per_day l else 0) =
      (\<Sum>l\<leftarrow>ls. provider_weight provider (credit_line_identity l) * cl_estimated_credits_per_day l)" for ls
    by (induction ls) (auto simp: provider_weight_def)
  then show "total_of (rp_committed p) provider = wsum (provider_weight provider) (committed_by_identity (rp_credit_estimates p))"
    using assms by (simp add: plan_totals_ok_def line_totals_def committed_by_identity_def wsum_fold total_of_fold)
  have "(\<Sum>l\<leftarrow>ls. if cl_provider l = provider then of_nat (count_list (cl_quota_scopes l) q) * cl_estimated_credits_per_day l else 0) =
      (\<Sum>l\<leftarrow>ls. scope_weight provider q (credit_line_identity l) * cl_estimated_credits_per_day l)" for ls
    by (induction ls) (auto simp: scope_weight_def)
  then show "scope_total_of (rp_committed_by_scope p) provider q =
      wsum (scope_weight provider q) (committed_by_identity (rp_credit_estimates p))"
    using assms by (simp add: plan_totals_ok_def line_scope_totals_def committed_by_identity_def wsum_fold scope_total_fold)
qed

text \<open>The committed demand of one upstream request: all committed lines of its identity.\<close>

definition line_demand :: "(credit_line \<Rightarrow> line_identity) \<Rightarrow> route_plan \<Rightarrow> line_identity \<Rightarrow> rat" where
  "line_demand ident p identity =
     (\<Sum>l\<leftarrow>filter cl_committed (rp_credit_estimates p). if ident l = identity then cl_estimated_credits_per_day l else 0)"

lemma committed_by_identity_total:
  "total_of (committed_by_identity (rp_credit_estimates p)) identity = line_demand credit_line_identity p identity"
  by (simp add: committed_by_identity_def total_of_fold line_demand_def)

lemma dict_set_entries: "set (dict_set k v d) \<subseteq> insert (k, v) (set d)"
  by (induction d) auto

lemma fold_add_total_nonneg:
  assumes "\<And>x. x \<in> set xs \<Longrightarrow> 0 \<le> g x" and "\<And>k v. (k, v) \<in> set d \<Longrightarrow> 0 \<le> v"
    and "(k, v) \<in> set (fold (\<lambda>x. add_total (f x) (g x)) xs d)"
  shows "0 \<le> v"
  using assms
proof (induction xs arbitrary: d)
  case (Cons x xs)
  have "0 \<le> total_of d (f x)" using Cons.prems(2) by (auto simp: total_of_def split: option.split dest: map_of_SomeD)
  then have "0 \<le> v'" if "(k', v') \<in> set (add_total (f x) (g x) d)" for k' v'
    using that Cons.prems(1) [of x] Cons.prems(2) dict_set_entries [of "f x" "total_of d (f x) + g x" d]
    by (auto simp: add_total_def total_of_def dest: subsetD)
  with Cons show ?case by auto
qed auto

lemma committed_by_identity_ok:
  assumes "plan_totals_ok p"
  shows "dict_wf (committed_by_identity (rp_credit_estimates p))"
    and "(k, v) \<in> set (committed_by_identity (rp_credit_estimates p)) \<Longrightarrow> 0 \<le> v"
    and "0 \<le> total_of (committed_by_identity (rp_credit_estimates p)) k"
proof -
  show "dict_wf (committed_by_identity (rp_credit_estimates p))"
    unfolding committed_by_identity_def by (rule fold_add_total_wf) simp
  show *: "0 \<le> v" if "(k, v) \<in> set (committed_by_identity (rp_credit_estimates p))" for k v
    using that assms unfolding committed_by_identity_def
    by (rule_tac fold_add_total_nonneg [rotated 2]) (auto simp: plan_totals_ok_def)
  show "0 \<le> total_of (committed_by_identity (rp_credit_estimates p)) k"
    by (cases "dict_get (committed_by_identity (rp_credit_estimates p)) k")
      (simp_all add: total_of_def * [OF map_of_SomeD])
qed

lemma retained_covers_iff:
  assumes "plan_totals_ok active" and "plan_totals_ok candidate" and "\<And>k. 0 \<le> w k"
  shows "wsum w (committed_by_identity (rp_credit_estimates candidate))
      \<le> wsum w (common_demand (rp_credit_estimates active) (rp_credit_estimates candidate)) \<longleftrightarrow>
    (\<forall>k. 0 < w k \<longrightarrow> line_demand credit_line_identity candidate k \<le> line_demand credit_line_identity active k)"
  unfolding common_demand_entries committed_by_identity_total [symmetric]
  by (rule common_covers_iff)
    (use assms committed_by_identity_ok [OF assms(1)] committed_by_identity_ok [OF assms(2)] in auto)

definition general_limit :: "credit_settings \<Rightarrow> int" where
  "general_limit s = cs_twelve_daily s - clamp_reserve (cs_twelve_daily s) (cs_twelve_fx_reserve s)"

definition grows_nowhere ::
  "(credit_line \<Rightarrow> line_identity) \<Rightarrow> (line_identity \<Rightarrow> bool) \<Rightarrow> route_plan \<Rightarrow> route_plan \<Rightarrow> bool" where
  "grows_nowhere ident P active candidate \<longleftrightarrow>
     (\<forall>k. P k \<longrightarrow> line_demand ident candidate k \<le> line_demand ident active k)"

lemma retained_committed_credits_wsum:
  "total_of (fst (retained_committed_credits a c)) p =
     wsum (provider_weight p) (common_demand (rp_credit_estimates a) (rp_credit_estimates c))"
  "scope_total_of (snd (retained_committed_credits a c)) p q =
     wsum (scope_weight p q) (common_demand (rp_credit_estimates a) (rp_credit_estimates c))"
  by (simp_all add: retained_committed_credits_def Let_def total_as_wsum scope_total_as_wsum)

lemma provider_admitted_iff:
  assumes "plan_totals_ok active" and "plan_totals_ok candidate" and "(p, limit) \<in> set (credit_limits s)"
  shows "provider_violation (credit_admission_context s active candidate) candidate (p, limit) = None \<longleftrightarrow>
    total_of (rp_committed candidate) p \<le> limit
    \<or> grows_nowhere credit_line_identity (\<lambda>k. fst k = p) active candidate"
proof -
  let ?r = "total_of (fst (retained_committed_credits active candidate)) p"
  have eff: "dict_get (ac_effective (credit_admission_context s active candidate)) p = Some (max limit ?r)"
    using assms(3) by (auto simp: credit_admission_context_def credit_limits_def split: prod.split)
  have "total_of (rp_committed candidate) p \<le> ?r \<longleftrightarrow>
      grows_nowhere credit_line_identity (\<lambda>k. fst k = p) active candidate"
    unfolding retained_committed_credits_wsum committed_total_as_wsum [OF assms(2)]
    by (simp add: retained_covers_iff [OF assms(1,2)] weights_pos grows_nowhere_def)
  then show ?thesis by (auto simp: provider_violation_def eff Let_def le_max_iff_disj not_less)
qed

lemma general_admitted_iff:
  assumes "plan_totals_ok active" and "plan_totals_ok candidate"
  shows "scope_total_of (rp_committed_by_scope candidate) ''twelve_data'' ''general''
      \<le> ac_effective_general (credit_admission_context s active candidate) \<longleftrightarrow>
    scope_total_of (rp_committed_by_scope candidate) ''twelve_data'' ''general'' \<le> of_int (general_limit s)
    \<or> grows_nowhere credit_line_identity
        (\<lambda>k. fst k = ''twelve_data'' \<and> ''general'' \<in> set (identity_scopes k)) active candidate"
proof -
  let ?r = "scope_total_of (snd (retained_committed_credits active candidate)) ''twelve_data'' ''general''"
  have eff: "ac_effective_general (credit_admission_context s active candidate) = max (of_int (general_limit s)) ?r"
    by (auto simp: credit_admission_context_def general_limit_def clamp_reserve_def split: prod.split)
  have "scope_total_of (rp_committed_by_scope candidate) ''twelve_data'' ''general'' \<le> ?r \<longleftrightarrow>
      grows_nowhere credit_line_identity
        (\<lambda>k. fst k = ''twelve_data'' \<and> ''general'' \<in> set (identity_scopes k)) active candidate"
    unfolding retained_committed_credits_wsum committed_total_as_wsum [OF assms(2)]
    by (simp add: retained_covers_iff [OF assms] weights_pos grows_nowhere_def)
  then show ?thesis unfolding eff by (simp add: le_max_iff_disj)
qed

lemma map_filter_Nil_iff: "List.map_filter f xs = [] \<longleftrightarrow> (\<forall>x \<in> set xs. f x = None)"
  by (auto simp: List.map_filter_def filter_empty_conv)

lemma admission_iff:
  assumes "plan_totals_ok active" and "plan_totals_ok candidate"
  shows "incremental_budget_errors s active candidate = [] \<longleftrightarrow>
    (\<forall>(p, limit) \<in> set (credit_limits s).
       total_of (rp_committed candidate) p \<le> limit
       \<or> grows_nowhere credit_line_identity (\<lambda>k. fst k = p) active candidate)
    \<and> (scope_total_of (rp_committed_by_scope candidate) ''twelve_data'' ''general'' \<le> of_int (general_limit s)
       \<or> grows_nowhere credit_line_identity
           (\<lambda>k. fst k = ''twelve_data'' \<and> ''general'' \<in> set (identity_scopes k)) active candidate)"
proof -
  let ?c = "credit_admission_context s active candidate"
  have "(\<forall>x \<in> set (credit_limits s). provider_violation ?c candidate x = None) \<longleftrightarrow>
      (\<forall>(p, limit) \<in> set (credit_limits s). total_of (rp_committed candidate) p \<le> limit
         \<or> grows_nowhere credit_line_identity (\<lambda>k. fst k = p) active candidate)"
    by (rule ball_cong [OF refl]) (clarsimp simp: provider_admitted_iff [OF assms])
  then show ?thesis
    unfolding general_admitted_iff [OF assms, symmetric]
    by (simp add: incremental_budget_errors_def Let_def map_filter_Nil_iff not_less)
qed

text \<open>
  C11. Credit admission of a candidate plan against the active one, exactly: a plan is admitted
  if and only if every metered provider either stays within its daily limit or commits, request
  by request, no more than the active plan does, and the same holds of Twelve Data's unreserved
  share. In particular an unchanged plan is always admitted, however far a budget was lowered.
\<close>

theorem admission_never_raises_demand:
  assumes "compile_route_plan o1 s1 l1 d1 = Inr active" and "compile_route_plan o2 s2 l2 d2 = Inr candidate"
  shows "(incremental_budget_errors s active candidate = [] \<longleftrightarrow>
      (\<forall>(p, limit) \<in> set (credit_limits s).
         total_of (rp_committed candidate) p \<le> limit
         \<or> grows_nowhere credit_line_identity (\<lambda>k. fst k = p) active candidate)
      \<and> (scope_total_of (rp_committed_by_scope candidate) ''twelve_data'' ''general'' \<le> of_int (general_limit s)
         \<or> grows_nowhere credit_line_identity
             (\<lambda>k. fst k = ''twelve_data'' \<and> ''general'' \<in> set (identity_scopes k)) active candidate))
    \<and> incremental_budget_errors s active active = []"
  using admission_iff [OF compiled_plan_totals [OF assms(1)] compiled_plan_totals [OF assms(2)], of s]
    admission_iff [OF compiled_plan_totals [OF assms(1)] compiled_plan_totals [OF assms(1)], of s]
  by (auto simp: grows_nowhere_def)

subsection \<open>The compiler's admission\<close>

definition coarse_identity :: "line_identity \<Rightarrow> line_identity" where
  "coarse_identity = (\<lambda>(provider, cap, symbol, bases, scopes).
     (provider, cap, symbol, sort (filter (\<lambda>b. \<not> is_prefix ''shared_batch_count:'' b) bases), sort scopes))"

lemma coarse_identity: "credit_line_identity l = coarse_identity (compiler_line_identity l)"
  by (simp add: credit_line_identity_def compiler_line_identity_def coarse_identity_def)

definition scope_matches :: "string option \<Rightarrow> string list \<Rightarrow> bool" where
  "scope_matches scope scopes = (case scope of None \<Rightarrow> True | Some q \<Rightarrow> q \<in> set scopes)"

lemma committed_lines_total:
  "total_of (committed_lines (Some p) provider scope) k =
     (if fst k = provider \<and> scope_matches scope (identity_scopes k) then line_demand compiler_line_identity p k else 0)"
proof -
  have "(\<Sum>l\<leftarrow>filter (\<lambda>l. cl_committed l \<and> cl_provider l = provider
        \<and> (case scope of None \<Rightarrow> True | Some q \<Rightarrow> q \<in> set (cl_quota_scopes l))) ls.
        if compiler_line_identity l = k then cl_estimated_credits_per_day l else 0) =
      (if fst k = provider \<and> scope_matches scope (identity_scopes k)
       then (\<Sum>l\<leftarrow>filter cl_committed ls. if compiler_line_identity l = k then cl_estimated_credits_per_day l else 0) else 0)" for ls
    by (cases scope; induction ls) (auto simp: compiler_line_identity_def identity_scopes_def scope_matches_def)
  then show ?thesis by (simp add: committed_lines_def total_of_fold line_demand_def)
qed

lemma committed_lines_ok:
  assumes "plan_totals_ok p"
  shows "dict_wf (committed_lines (Some p) provider scope)"
    and "(k, v) \<in> set (committed_lines (Some p) provider scope) \<Longrightarrow> 0 \<le> v"
proof -
  show "dict_wf (committed_lines (Some p) provider scope)" by (simp add: committed_lines_def fold_add_total_wf)
  show "(k, v) \<in> set (committed_lines (Some p) provider scope) \<Longrightarrow> 0 \<le> v"
    using assms unfolding committed_lines_def option.case
    by (rule_tac fold_add_total_nonneg [rotated 2]) (auto simp: plan_totals_ok_def)
qed

lemma retained_credits_wsum:
  assumes "plan_totals_ok active"
  shows "retained_credits (Some active) candidate provider scope =
    wsum (\<lambda>_. 1) (common_entries (committed_lines (Some active) provider scope) (committed_lines (Some candidate) provider scope))"
proof -
  have "wsum (\<lambda>_. 1) (map (\<lambda>(k, v). (k, f k v)) d) = (\<Sum>(k, v)\<leftarrow>d. f k v)" for f and d :: "(line_identity \<times> rat) list"
    by (induction d) auto
  then show ?thesis
    by (simp add: retained_credits_def wsum_common [OF committed_lines_ok(2) [OF assms]])
qed

lemma compiler_retained_covers_iff:
  assumes "plan_totals_ok active" and "plan_totals_ok candidate"
  shows "wsum (\<lambda>_. 1) (committed_lines (Some candidate) provider scope) \<le> retained_credits (Some active) candidate provider scope
    \<longleftrightarrow> grows_nowhere compiler_line_identity (\<lambda>k. fst k = provider \<and> scope_matches scope (identity_scopes k)) active candidate"
proof -
  have nonneg: "0 \<le> total_of (committed_lines (Some candidate) provider scope) k" for k
    using committed_lines_ok(2) [OF assms(2)]
    by (cases "dict_get (committed_lines (Some candidate) provider scope) k")
      (simp_all add: total_of_def committed_lines_ok(2) [OF assms(2) map_of_SomeD])
  show ?thesis
    unfolding retained_credits_wsum [OF assms(1)]
    by (subst common_covers_iff)
      (use nonneg committed_lines_ok [OF assms(1)] committed_lines_ok [OF assms(2)] in
        \<open>auto simp: committed_lines_total grows_nowhere_def\<close>)
qed

lemma distinct_count: "distinct xs \<Longrightarrow> count_list xs x = (if x \<in> set xs then 1 else 0)"
  by (induction xs) (auto simp: count_list_0_iff)

lemma compiler_totals:
  assumes "plan_totals_ok p"
  shows "wsum (\<lambda>_. 1) (committed_lines (Some p) provider None) = total_of (rp_committed p) provider"
    and "wsum (\<lambda>_. 1) (committed_lines (Some p) provider (Some q)) = scope_total_of (rp_committed_by_scope p) provider q"
proof -
  have "(\<Sum>l\<leftarrow>filter (\<lambda>l. cl_committed l \<and> cl_provider l = provider) ls. cl_estimated_credits_per_day l) =
      (\<Sum>l\<leftarrow>filter cl_committed ls. if cl_provider l = provider then cl_estimated_credits_per_day l else 0)" for ls
    by (induction ls) auto
  then show "wsum (\<lambda>_. 1) (committed_lines (Some p) provider None) = total_of (rp_committed p) provider"
    using assms by (simp add: plan_totals_ok_def committed_lines_def wsum_fold line_totals_def total_of_fold)
  have "(\<Sum>l\<leftarrow>filter (\<lambda>l. cl_committed l \<and> cl_provider l = provider \<and> q \<in> set (cl_quota_scopes l)) ls. cl_estimated_credits_per_day l) =
      (\<Sum>l\<leftarrow>filter cl_committed ls. if cl_provider l = provider
        then of_nat (count_list (cl_quota_scopes l) q) * cl_estimated_credits_per_day l else 0)"
    if "\<forall>l \<in> set ls. distinct (cl_quota_scopes l)" for ls
    using that by (induction ls) (auto simp: distinct_count)
  from this [of "rp_credit_estimates p"]
  show "wsum (\<lambda>_. 1) (committed_lines (Some p) provider (Some q)) = scope_total_of (rp_committed_by_scope p) provider q"
    using assms by (simp add: plan_totals_ok_def committed_lines_def wsum_fold line_scope_totals_def scope_total_fold)
qed

lemma compiler_admission_iff:
  assumes "plan_totals_ok active" and "plan_totals_ok candidate"
  shows "incremental_credit_budget_errors (Some active) candidate = [] \<longleftrightarrow>
    (\<forall>(p, context) \<in> set (rp_context candidate).
       total_of (rp_committed candidate) p \<le> of_int (bc_daily_limit context)
       \<or> grows_nowhere compiler_line_identity (\<lambda>k. fst k = p) active candidate)
    \<and> (case Option.bind (dict_get (rp_context candidate) ''twelve_data'') bc_available_outside_reserve of
         None \<Rightarrow> True
       | Some g \<Rightarrow> scope_total_of (rp_committed_by_scope candidate) ''twelve_data'' ''general'' \<le> of_int g
           \<or> grows_nowhere compiler_line_identity
               (\<lambda>k. fst k = ''twelve_data'' \<and> ''general'' \<in> set (identity_scopes k)) active candidate)"
proof -
  have all: "total_of (rp_committed candidate) p \<le> retained_credits (Some active) candidate p None \<longleftrightarrow>
      grows_nowhere compiler_line_identity (\<lambda>k. fst k = p) active candidate" for p
    using compiler_retained_covers_iff [OF assms, of p None]
    by (simp add: compiler_totals [OF assms(2)] scope_matches_def)
  have general: "scope_total_of (rp_committed_by_scope candidate) p q \<le> retained_credits (Some active) candidate p (Some q)
      \<longleftrightarrow> grows_nowhere compiler_line_identity (\<lambda>k. fst k = p \<and> q \<in> set (identity_scopes k)) active candidate" for p q
    using compiler_retained_covers_iff [OF assms, of p "Some q"]
    by (simp add: compiler_totals [OF assms(2)] scope_matches_def)
  have each: "(\<forall>(p, context) \<in> set cs. \<not> max (of_int (bc_daily_limit context)) (retained_credits (Some active) candidate p None)
        < total_of (rp_committed candidate) p) \<longleftrightarrow>
      (\<forall>(p, context) \<in> set cs. total_of (rp_committed candidate) p \<le> of_int (bc_daily_limit context)
        \<or> grows_nowhere compiler_line_identity (\<lambda>k. fst k = p) active candidate)" for cs
    unfolding not_less le_max_iff_disj all ..
  have filtered: "List.map_filter (\<lambda>(p, x). if b p x then Some (f p) else None) cs = [] \<longleftrightarrow> (\<forall>(p, x) \<in> set cs. \<not> b p x)"
    for b :: "string \<Rightarrow> budget_context \<Rightarrow> bool" and f :: "string \<Rightarrow> string" and cs
    by (auto simp: map_filter_Nil_iff)
  show ?thesis
    unfolding incremental_credit_budget_errors_def append_is_Nil_conv filtered each
    by (cases "Option.bind (dict_get (rp_context candidate) ''twelve_data'') bc_available_outside_reserve")
      (auto simp: not_less general [symmetric])
qed

lemma line_demand_coarse:
  assumes "plan_totals_ok p"
    and "finite S" and "compiler_line_identity ` {l \<in> set (rp_credit_estimates p). cl_committed l} \<subseteq> S"
  shows "line_demand credit_line_identity p k =
    (\<Sum>k'\<in>S. (if coarse_identity k' = k then 1 else 0) * line_demand compiler_line_identity p k')"
proof -
  let ?g = "\<lambda>l k'. (if coarse_identity k' = k then 1 else 0) * (if compiler_line_identity l = k' then cl_estimated_credits_per_day l else 0)"
  have one: "(if credit_line_identity l = k then cl_estimated_credits_per_day l else 0) = (\<Sum>k'\<in>S. ?g l k')"
    if "compiler_line_identity l \<in> S" for l
  proof -
    have "(\<Sum>k'\<in>S. ?g l k') = (\<Sum>k'\<in>{compiler_line_identity l}. ?g l k')"
      by (rule sum.mono_neutral_right) (use that assms(2) in auto)
    then show ?thesis by (simp add: coarse_identity)
  qed
  have "(\<Sum>l\<leftarrow>ls. if credit_line_identity l = k then cl_estimated_credits_per_day l else 0) =
      (\<Sum>k'\<in>S. (if coarse_identity k' = k then 1 else 0) * (\<Sum>l\<leftarrow>ls. if compiler_line_identity l = k' then cl_estimated_credits_per_day l else 0))"
    if "compiler_line_identity ` set ls \<subseteq> S" for ls
    using that by (induction ls) (simp_all add: one sum.distrib distrib_left)
  from this [of "filter cl_committed (rp_credit_estimates p)"] assms(3)
  show ?thesis unfolding line_demand_def by force
qed

lemma grows_nowhere_coarse:
  assumes "plan_totals_ok active" and "plan_totals_ok candidate"
    and "grows_nowhere compiler_line_identity P active candidate"
    and "\<And>k'. P (coarse_identity k') \<Longrightarrow> P k'"
  shows "grows_nowhere credit_line_identity P active candidate"
  unfolding grows_nowhere_def
proof (intro allI impI)
  fix k assume P: "P k"
  let ?S = "compiler_line_identity ` (set (rp_credit_estimates active) \<union> set (rp_credit_estimates candidate))"
  have le: "(if coarse_identity k' = k then 1 else 0) * line_demand compiler_line_identity candidate k'
      \<le> (if coarse_identity k' = k then 1 else 0) * line_demand compiler_line_identity active k'" for k'
    using P assms(4) [of k'] assms(3) [unfolded grows_nowhere_def, rule_format, of k']
    by (cases "coarse_identity k' = k") simp_all
  have "line_demand credit_line_identity candidate k =
      (\<Sum>k'\<in>?S. (if coarse_identity k' = k then 1 else 0) * line_demand compiler_line_identity candidate k')"
    by (rule line_demand_coarse [OF assms(2)]) auto
  also have "\<dots> \<le> (\<Sum>k'\<in>?S. (if coarse_identity k' = k then 1 else 0) * line_demand compiler_line_identity active k')"
    by (rule sum_mono) (rule le)
  also have "\<dots> = line_demand credit_line_identity active k"
    by (rule line_demand_coarse [OF assms(1), symmetric]) auto
  finally show "line_demand credit_line_identity candidate k \<le> line_demand credit_line_identity active k" .
qed

lemma coarse_identity_keeps:
  "fst (coarse_identity k) = fst k" "set (identity_scopes (coarse_identity k)) = set (identity_scopes k)"
  by (auto simp: coarse_identity_def identity_scopes_def split: prod.splits)

text \<open>
  C39. The compiler's own admission check is at least as strict as the one that guards an
  activation: a plan it lets pass is admitted by the runtime under the same settings. (The
  runtime ignores the number of shared CoinGecko batches when it compares requests.)
\<close>

theorem compiler_admission_implies_runtime:
  assumes "compile_route_plan o1 s1 l1 d1 = Inr active" and "compile_route_plan o2 (Some s) l2 d2 = Inr candidate"
    and "0 \<le> cs_twelve_daily s" and "incremental_credit_budget_errors (Some active) candidate = []"
  shows "incremental_budget_errors s active candidate = []"
proof -
  note ok = compiled_plan_totals [OF assms(1)] compiled_plan_totals [OF assms(2)]
  have provider: "grows_nowhere credit_line_identity (\<lambda>k. fst k = p) active candidate"
    if "grows_nowhere compiler_line_identity (\<lambda>k. fst k = p) active candidate" for p
    by (rule grows_nowhere_coarse [OF ok that]) (simp add: coarse_identity_keeps)
  have general: "grows_nowhere credit_line_identity (\<lambda>k. fst k = p \<and> q \<in> set (identity_scopes k)) active candidate"
    if "grows_nowhere compiler_line_identity (\<lambda>k. fst k = p \<and> q \<in> set (identity_scopes k)) active candidate" for p q
    by (rule grows_nowhere_coarse [OF ok that]) (simp add: coarse_identity_keeps)
  have limit: "max 0 (cs_twelve_daily s - clamp_reserve (cs_twelve_daily s) (cs_twelve_fx_reserve s)) = general_limit s"
    using assms(3) by (simp add: general_limit_def clamp_reserve_def)
  show ?thesis
    using assms(4) provider general
    unfolding admission_iff [OF ok] compiler_admission_iff [OF ok] compiled_plan_context [OF assms(2)]
    by (simp add: credit_budget_context_def credit_limits_def day_context_def Let_def limit) blast
qed

subsection \<open>A small plan\<close>

text \<open>
  One custom stock quoted every thirty seconds at Finnhub: 2880 calls a day. Under a budget of
  one call a minute it exceeds the limit, and is kept because it does not grow.
\<close>

definition sample_settings :: "int \<Rightarrow> credit_settings" where
  "sample_settings per_minute =
     \<lparr>cs_twelve_daily = 800, cs_twelve_fx_reserve = 100, cs_alpha_daily = 25, cs_coingecko_monthly = 9300,
      cs_finnhub_per_minute = per_minute\<rparr>"

definition sample_route :: "rat \<Rightarrow> route_input" where
  "sample_route poll =
     \<lparr>ri_symbol = ''ABC:USD'', ri_asset_class = EQUITY, ri_asset_type = ''stock'', ri_quote_poll_seconds = poll,
      ri_ownership = ''custom'', ri_history_enabled = False, ri_history_poll_seconds = 3600, ri_history_backfill_days = 400,
      ri_metadata_poll_seconds = 21600, ri_dividend_strategy = None, ri_yield_strategy = None, ri_underlying_asset = None,
      ri_reward_accrual_mode = None, ri_provider_symbols = [(''finnhub'', ''ABC'')], ri_routes = [(QUOTE, [''finnhub''])],
      ri_synthetic = None\<rparr>"

definition sample_options :: compile_options where
  "sample_options =
     \<lparr>ko_available = None, ko_max_chain_length = 4, ko_maximum_synthetic_depth = 4, ko_drop_unconfigured = False, ko_strict = True\<rparr>"

definition sample_plan :: "rat \<Rightarrow> int \<Rightarrow> compile_error + route_plan" where
  "sample_plan poll per_minute = compile_route_plan sample_options (Some (sample_settings per_minute)) [] [sample_route poll]"

lemma sample_plan_eval:
  "case sample_plan 30 1 of
     Inr plan \<Rightarrow> total_of (rp_committed plan) ''finnhub'' = 2880 \<and> incremental_credit_budget_errors (Some plan) plan = []
   | _ \<Rightarrow> False"
  by code_simp

theorem admission_never_raises_demand_witness:
  "\<exists>plan. sample_plan 30 1 = Inr plan \<and> total_of (credit_limits (sample_settings 1)) ''finnhub'' < total_of (rp_committed plan) ''finnhub''
     \<and> incremental_budget_errors (sample_settings 1) plan plan = []"
proof -
  obtain plan where plan: "sample_plan 30 1 = Inr plan" and over: "total_of (rp_committed plan) ''finnhub'' = 2880"
    using sample_plan_eval by (auto split: sum.splits)
  have "incremental_budget_errors (sample_settings 1) plan plan = []"
    using admission_never_raises_demand [OF plan [unfolded sample_plan_def] plan [unfolded sample_plan_def]] by blast
  with plan over show ?thesis by (auto simp: credit_limits_def sample_settings_def total_of_def)
qed

theorem compiler_admission_implies_runtime_witness:
  "\<exists>plan. sample_plan 30 1 = Inr plan \<and> incremental_credit_budget_errors (Some plan) plan = []
     \<and> incremental_budget_errors (sample_settings 1) plan plan = []"
proof -
  obtain plan where plan: "sample_plan 30 1 = Inr plan" and ok: "incremental_credit_budget_errors (Some plan) plan = []"
    using sample_plan_eval by (auto split: sum.splits)
  have "incremental_budget_errors (sample_settings 1) plan plan = []"
    by (rule compiler_admission_implies_runtime [OF plan [unfolded sample_plan_def] plan [unfolded sample_plan_def] _ ok])
      (simp add: sample_settings_def)
  with plan ok show ?thesis by blast
qed

end
