(* ===== verification/QP_CatalogRuntime.thy ===== *)
theory QP_CatalogRuntime
  imports QP_Budget QP_Activation
begin

text \<open>
  \<^verbatim>\<open>quickprice/catalog_runtime.py\<close>: what changes between two generations, the warm-up of the
  changed instruments, and the activation job. The JSON dump that serves as the fingerprint of
  a definition is a parameter. Provider calls, upstream verification of bindings and the
  construction of adapters are outcomes handed to the functions; clock readings are arguments.
\<close>

subsection \<open>What a generation changes\<close>

definition is_active_item :: "managed_definition \<Rightarrow> bool" where
  "is_active_item d = (md_enabled d \<and> \<not> md_archived d)"

definition changed_symbols ::
  "(managed_definition \<Rightarrow> string) \<Rightarrow> catalog_generation \<Rightarrow> catalog_generation \<Rightarrow> string list" where
  "changed_symbols dump current target =
     map md_symbol (filter (\<lambda>item. is_active_item item
       \<and> (case dict_get (by_id current) (md_id item) of None \<Rightarrow> True | Some previous \<Rightarrow> dump previous \<noteq> dump item))
       (cg_instruments target))"

record catalog_diff =
  di_added :: "string list"
  di_changed :: "string list"
  di_archived_or_disabled :: "string list"
  di_total :: nat

definition live_in :: "managed_definition option \<Rightarrow> bool" where
  "live_in x = (case x of None \<Rightarrow> False | Some d \<Rightarrow> is_active_item d)"

definition catalog_diff_of ::
  "(managed_definition \<Rightarrow> string) \<Rightarrow> catalog_generation \<Rightarrow> catalog_generation \<Rightarrow> catalog_diff" where
  "catalog_diff_of dump current target =
     (let before = dict_get (by_id current); after = dict_get (by_id target);
          ids = sorted_set (dict_keys (by_id current) @ dict_keys (by_id target));
          added = filter (\<lambda>i. live_in (after i) \<and> \<not> live_in (before i)) ids;
          dropped = filter (\<lambda>i. live_in (before i) \<and> \<not> live_in (after i)) ids;
          changed = filter (\<lambda>i. live_in (before i) \<and> live_in (after i) \<and> dump (the (before i)) \<noteq> dump (the (after i))) ids in
      \<lparr>di_added = map (\<lambda>i. md_symbol (the (after i))) added, di_changed = map (\<lambda>i. md_symbol (the (after i))) changed,
       di_archived_or_disabled = map (\<lambda>i. md_symbol (the (before i))) dropped,
       di_total = length added + length changed + length dropped\<rparr>)"

subsection \<open>Exceptions of a job\<close>

datatype job_exception =
  CatalogWarmError string capability string
| ExceptionGroup "job_exception list"
| CatalogRouteError string string capability
| CatalogBudgetError "budget_violation list"
| BindingVerificationError "string list"
| JobCompileError string
| JobTimeout
| OtherException string

definition compile_failure :: "compile_error \<Rightarrow> job_exception" where
  "compile_failure e = (case e of RouteCompileError m \<Rightarrow> JobCompileError m | CompileValueError m \<Rightarrow> OtherException ''ValueError'')"

fun require_caps :: "route_plan \<Rightarrow> string \<Rightarrow> capability list \<Rightarrow> job_exception + unit" where
  "require_caps plan symbol [] = Inr ()"
| "require_caps plan symbol (cap # caps) =
     raise_if (case dict_get (rp_instruments plan) symbol of None \<Rightarrow> True | Some r \<Rightarrow> compiled_providers_for r cap = [])
       (CatalogRouteError ''provider_route_missing'' symbol cap) (require_caps plan symbol caps)"

fun require_changed_routes :: "route_plan \<Rightarrow> string list \<Rightarrow> managed_definition list \<Rightarrow> job_exception + unit" where
  "require_changed_routes plan changed [] = Inr ()"
| "require_changed_routes plan changed (d # ds) =
     (if md_symbol d \<notin> set changed \<or> \<not> is_active_item d then require_changed_routes plan changed ds
      else case route_input_from_definition d of
        Inl e \<Rightarrow> Inl (compile_failure e)
      | Inr item \<Rightarrow>
          res_bind (require_caps plan (md_symbol d) (required_capabilities item)) (\<lambda>_.
          require_changed_routes plan changed ds))"

subsection \<open>Warming one instrument\<close>

definition needs_dividend :: "managed_definition \<Rightarrow> bool" where
  "needs_dividend d = (case md_income d of None \<Rightarrow> False
     | Some p \<Rightarrow> in_dividend_strategy p \<noteq> None \<or> in_yield_strategy p = Some LATEST_DISTRIBUTION_ANNUALIZED)"

definition needs_yield :: "managed_definition \<Rightarrow> bool" where
  "needs_yield d = (case md_income d of None \<Rightarrow> False
     | Some p \<Rightarrow> in_yield_strategy p \<notin> {None, Some LATEST_DISTRIBUTION_ANNUALIZED})"

definition warm_capabilities :: "managed_definition \<Rightarrow> capability list" where
  "warm_capabilities d = [QUOTE] @ (if needs_dividend d then [DIVIDEND] else []) @ (if needs_yield d then [YIELD] else [])"

text \<open>What the router answers: a domain value of the expected type, another value, or an exception.\<close>

datatype 'a warm_answer = Answer 'a | WrongType | Failed string

text \<open>The validators return the name of the exception class they raise.\<close>

definition validate_quote :: "zone \<Rightarrow> instant \<Rightarrow> managed_definition \<Rightarrow> provider_quote \<Rightarrow> string + unit" where
  "validate_quote offset now d q =
     (let age = max 0 (seconds_of (now - pq_as_of q));
          status_age = map_option (\<lambda>t. seconds_of (now - t)) (pq_market_status_as_of q) in
      raise_if (pq_symbol q \<noteq> md_symbol d) ''ValueError'' (
      raise_if (now + 60 * second < pq_as_of q) ''ValueError'' (
      case scheduled_market_status offset (Member (md_market_calendar d)) (Aware now) of
        Inl _ \<Rightarrow> Inl ''ValueError''
      | Inr status \<Rightarrow>
          let confirmed_closed = (md_market_calendar d \<noteq> ALWAYS_OPEN \<and> pq_market_status q = ''closed''
                \<and> (case status_age of None \<Rightarrow> False | Some a \<Rightarrow> 0 \<le> a \<and> a \<le> 300)) in
          raise_if (md_stale_after_seconds d < age \<and> status \<noteq> ''closed'' \<and> \<not> confirmed_closed) ''ValueError'' (Inr ()))))"

definition validate_dividend :: "string \<Rightarrow> dividend_event \<Rightarrow> string + unit" where
  "validate_dividend symbol e =
     raise_if (de_symbol e \<noteq> symbol) ''ValueError'' (raise_if (de_event_type e \<noteq> ''regular_cash'') ''ValueError'' (Inr ()))"

definition validate_yield :: "service_env \<Rightarrow> instant \<Rightarrow> string \<Rightarrow> yield_metric \<Rightarrow> string + unit" where
  "validate_yield env now symbol m =
     raise_if (ym_symbol m \<noteq> symbol) ''ValueError'' (
     raise_if (now + 60 * second < ym_as_of m) ''ValueError'' (
     raise_if (default_yield_stale_after_seconds env m < seconds_of (now - ym_as_of m)) ''ValueError'' (Inr ())))"

definition checked_answer :: "('a \<Rightarrow> string + unit) \<Rightarrow> 'a warm_answer \<Rightarrow> string + 'a" where
  "checked_answer check answer =
     (case answer of Failed cause \<Rightarrow> Inl cause | WrongType \<Rightarrow> Inl ''TypeError'' | Answer x \<Rightarrow> res_bind (check x) (\<lambda>_. Inr x))"

definition warm_failure :: "string \<Rightarrow> capability \<Rightarrow> string + 'a \<Rightarrow> job_exception + 'a" where
  "warm_failure symbol cap r = (case r of Inl cause \<Rightarrow> Inl (CatalogWarmError symbol cap cause) | Inr x \<Rightarrow> Inr x)"

record warm_answers =
  wa_quote :: "provider_quote warm_answer"
  wa_dividend_configured :: bool
  wa_dividend :: "dividend_event warm_answer"
  wa_yield_configured :: bool
  wa_yield :: "yield_metric warm_answer"
  wa_quote_now :: instant
  wa_yield_now :: instant

definition optional_warm ::
  "bool \<Rightarrow> bool \<Rightarrow> string \<Rightarrow> capability \<Rightarrow> ('a \<Rightarrow> string + unit) \<Rightarrow> 'a warm_answer \<Rightarrow> job_exception + 'a option" where
  "optional_warm needed configured symbol cap check answer =
     (if \<not> needed then Inr None
      else res_bind (warm_failure symbol cap (raise_if (\<not> configured) ''RouteCompileError'' (checked_answer check answer)))
             (\<lambda>x. Inr (Some x)))"

definition warm_one ::
  "service_env \<Rightarrow> zone \<Rightarrow> (string, managed_definition) dict \<Rightarrow> (string \<Rightarrow> warm_answers) \<Rightarrow> string \<Rightarrow>
   job_exception + warmed_instrument" where
  "warm_one env offset definitions answers symbol =
     (case dict_get definitions symbol of
        None \<Rightarrow> Inl (OtherException ''KeyError'')
      | Some d \<Rightarrow>
          let a = answers symbol in
          res_bind (warm_failure symbol QUOTE (checked_answer (validate_quote offset (wa_quote_now a) d) (wa_quote a))) (\<lambda>quote.
          res_bind (optional_warm (needs_dividend d) (wa_dividend_configured a) symbol DIVIDEND
            (validate_dividend symbol) (wa_dividend a)) (\<lambda>dividend.
          res_bind (optional_warm (needs_yield d) (wa_yield_configured a) symbol YIELD
            (validate_yield env (wa_yield_now a) symbol) (wa_yield a)) (\<lambda>yield_metric.
          Inr \<lparr>wu_definition = d, wu_quote = quote, wu_dividend = dividend, wu_yield = yield_metric\<rparr>))))"

text \<open>
  \<^verbatim>\<open>_warm\<close>: the tasks of a group run concurrently; when one fails the others are cancelled and
  the group raises the failures collected so far. \<^verbatim>\<open>finished_first\<close> lists the symbols whose tasks
  ended before that, in the order they ended.
\<close>

definition warm_all ::
  "service_env \<Rightarrow> zone \<Rightarrow> catalog_generation \<Rightarrow> (string \<Rightarrow> warm_answers) \<Rightarrow> bool \<Rightarrow> string list \<Rightarrow> string list \<Rightarrow>
   job_exception + warmed_instrument list" where
  "warm_all env offset target answers timed_out finished_first symbols =
     (if timed_out then Inl JobTimeout
      else
        let results = map (warm_one env offset (by_symbol target) answers) symbols;
            failure = (\<lambda>r. case r of Inl e \<Rightarrow> [e] | Inr _ \<Rightarrow> []);
            seen = concat (map (failure \<circ> warm_one env offset (by_symbol target) answers)
                     (filter (\<lambda>s. s \<in> set symbols) finished_first)) in
        if list_all (\<lambda>r. failure r = []) results then res_map (\<lambda>r. r) results
        else Inl (ExceptionGroup (if seen = [] then take 1 (concat (map failure results)) else seen)))"

subsection \<open>Sizing a warm-up\<close>

text \<open>
  A provider of a chain as the warm-up sees it; a timeout or interval that is not a finite
  number is absent. The symbols to warm are changed symbols of the target, hence defined in it.
\<close>

record warm_provider =
  wp_name :: string
  wp_routing_timeout :: "rat option"
  wp_minimum_interval :: "rat option"

record warm_settings =
  ws_alpaca_per_minute :: rat
  ws_finnhub_per_minute :: rat
  ws_twelve_per_minute :: rat
  ws_provider_timeout :: rat
  ws_router_timeout :: rat
  ws_warm_timeout :: rat

definition WARM_CONCURRENCY :: int where "WARM_CONCURRENCY = 4"
definition MAX_WARM_CONCURRENCY :: int where "MAX_WARM_CONCURRENCY = 32"
definition WARM_TIMEOUT_MARGIN_SECONDS :: rat where "WARM_TIMEOUT_MARGIN_SECONDS = 15"

definition warm_provider_rate_per_minute :: "warm_settings \<Rightarrow> warm_provider \<Rightarrow> rat option" where
  "warm_provider_rate_per_minute s p =
     (let positive = (\<lambda>r. if 0 < r then Some r else None) in
      if wp_name p = ''alpaca'' then positive (ws_alpaca_per_minute s)
      else if wp_name p = ''finnhub'' then positive (ws_finnhub_per_minute s)
      else if wp_name p = ''twelve_data'' then positive (ws_twelve_per_minute s)
      else case wp_minimum_interval p of None \<Rightarrow> None | Some i \<Rightarrow> if 0 < i then Some (60 / i) else None)"

definition provider_routing_timeout :: "warm_settings \<Rightarrow> warm_provider \<Rightarrow> rat" where
  "provider_routing_timeout s p =
     (case wp_routing_timeout p of Some t \<Rightarrow> if 0 < t then t else ws_router_timeout s | None \<Rightarrow> ws_router_timeout s)"

record warm_plan =
  wx_symbol_count :: nat
  wx_capability_operations :: nat
  wx_worst_case_attempts :: nat
  wx_concurrency :: int
  wx_configured_timeout :: rat
  wx_effective_timeout :: rat
  wx_provider_attempts :: "(string \<times> nat) list"
  wx_primary_operations :: "(string \<times> nat) list"
  wx_rate_floors :: "(string \<times> rat) list"

definition count_name :: "string \<Rightarrow> (string, nat) dict \<Rightarrow> (string, nat) dict" where
  "count_name name counts = dict_set name ((case dict_get counts name of None \<Rightarrow> 0 | Some n \<Rightarrow> n) + 1) counts"

definition warm_chains ::
  "(string \<Rightarrow> capability \<Rightarrow> warm_provider list) \<Rightarrow> (string, managed_definition) dict \<Rightarrow> string list \<Rightarrow> warm_provider list list" where
  "warm_chains chain_of definitions symbols = concat (map (\<lambda>symbol.
     case dict_get definitions symbol of None \<Rightarrow> [] | Some d \<Rightarrow> map (chain_of symbol) (warm_capabilities d)) symbols)"

definition rate_floors :: "warm_settings \<Rightarrow> warm_provider list \<Rightarrow> (string, nat) dict \<Rightarrow> (string \<times> rat) list" where
  "rate_floors s providers attempts = List.map_filter (\<lambda>(name, count).
     case find (\<lambda>p. wp_name p = name) providers of
       None \<Rightarrow> None
     | Some p \<Rightarrow> map_option (\<lambda>rate. (name, of_nat count * 60 / rate)) (warm_provider_rate_per_minute s p)) attempts"

definition warm_execution_plan ::
  "warm_settings \<Rightarrow> (string \<Rightarrow> capability \<Rightarrow> warm_provider list) \<Rightarrow> catalog_generation \<Rightarrow> string list \<Rightarrow> warm_plan" where
  "warm_execution_plan s chain_of target symbols =
     (let chains = warm_chains chain_of (by_symbol target) symbols;
          attempts = concat chains;
          concurrency = min MAX_WARM_CONCURRENCY (max WARM_CONCURRENCY \<lceil>(of_nat (max 1 (length symbols)) :: rat) / 64\<rceil>);
          counts = fold (count_name \<circ> wp_name) attempts [];
          floors = rate_floors s attempts counts;
          maximum = fold (max \<circ> provider_routing_timeout s) attempts (ws_provider_timeout s);
          total = sum_list (map (provider_routing_timeout s) attempts);
          rate_floor = fold (max \<circ> snd) floors 0;
          effective = max (ws_warm_timeout s) (max (total / of_int concurrency + maximum + WARM_TIMEOUT_MARGIN_SECONDS)
            (rate_floor + maximum + WARM_TIMEOUT_MARGIN_SECONDS)) in
      \<lparr>wx_symbol_count = length symbols, wx_capability_operations = length chains,
       wx_worst_case_attempts = length attempts, wx_concurrency = concurrency,
       wx_configured_timeout = ws_warm_timeout s, wx_effective_timeout = of_int \<lceil>effective\<rceil>,
       wx_provider_attempts = sort counts,
       wx_primary_operations = sort (fold (\<lambda>chain. case chain of [] \<Rightarrow> id | p # _ \<Rightarrow> count_name (wp_name p)) chains []),
       wx_rate_floors = map (\<lambda>(name, x). (name, of_int \<lceil>x\<rceil>)) (sort floors)\<rparr>)"

text \<open>\<^verbatim>\<open>_WarmRatePacer.acquire\<close>: the delay to sleep and the next free instant.\<close>

definition pacer_acquire :: "rat \<Rightarrow> rat \<Rightarrow> rat \<Rightarrow> rat \<times> rat" where
  "pacer_acquire interval now next_at = (let scheduled = max now next_at in (max 0 (scheduled - now), scheduled + interval))"

subsection \<open>Reporting an exception\<close>

record job_error =
  je_code :: string
  je_message :: string
  je_type :: string
  je_stage :: string
  je_symbol :: "string option"
  je_capability :: "string option"
  je_cause_type :: "string option"
  je_provider :: "string option"
  je_budgets :: "budget_violation list"
  je_binding_failures :: "string list"

fun exception_name :: "job_exception \<Rightarrow> string" where
  "exception_name (CatalogWarmError _ _ _) = ''CatalogWarmError''"
| "exception_name (ExceptionGroup _) = ''ExceptionGroup''"
| "exception_name (CatalogRouteError _ _ _) = ''CatalogRouteError''"
| "exception_name (CatalogBudgetError _) = ''CatalogBudgetError''"
| "exception_name (BindingVerificationError _) = ''ProviderBindingVerificationError''"
| "exception_name (JobCompileError _) = ''RouteCompileError''"
| "exception_name JobTimeout = ''TimeoutError''"
| "exception_name (OtherException name) = name"

fun find_warm_error :: "job_exception \<Rightarrow> (string \<times> capability \<times> string) option"
and find_warm_errors :: "job_exception list \<Rightarrow> (string \<times> capability \<times> string) option" where
  "find_warm_error (CatalogWarmError symbol cap cause) = Some (symbol, cap, cause)"
| "find_warm_error (ExceptionGroup es) = find_warm_errors es"
| "find_warm_error _ = None"
| "find_warm_errors [] = None"
| "find_warm_errors (e # es) = (case find_warm_error e of None \<Rightarrow> find_warm_errors es | Some w \<Rightarrow> Some w)"

text \<open>The regular expressions of \<^verbatim>\<open>_safe_compile_context\<close>; their classes never need backtracking.\<close>

fun search :: "(string \<Rightarrow> 'a option) \<Rightarrow> string \<Rightarrow> 'a option" where
  "search match [] = match []"
| "search match (c # cs) = (case match (c # cs) of Some x \<Rightarrow> Some x | None \<Rightarrow> search match cs)"

definition context_symbol_char :: "char \<Rightarrow> bool" where "context_symbol_char c = (upper_head c \<or> c \<in> set ''._-'')"

definition match_symbol :: "string \<Rightarrow> (string \<times> string) option" where
  "match_symbol s =
     (let base = takeWhile context_symbol_char s; rest = dropWhile context_symbol_char s in
      case rest of
        [] \<Rightarrow> None
      | c # tail \<Rightarrow>
          let quote = takeWhile context_symbol_char tail in
          if base = [] \<or> c \<noteq> CHR '':'' \<or> quote = [] then None
          else Some (base @ '':'' @ quote, dropWhile context_symbol_char tail))"

definition match_symbol_capability :: "string \<Rightarrow> (string \<times> string) option" where
  "match_symbol_capability s =
     (case match_symbol s of
        Some (symbol, CHR ''/'' # rest) \<Rightarrow>
          map_option (\<lambda>cap. (symbol, cap)) (find (\<lambda>cap. is_prefix cap rest) [''quote'', ''history'', ''dividend'', ''yield''])
      | _ \<Rightarrow> None)"

definition match_provider :: "string \<Rightarrow> string option" where
  "match_provider s =
     (let name = takeWhile (\<lambda>c. lower_head c \<or> c = CHR ''_'') s in
      case name of [] \<Rightarrow> None | c # _ \<Rightarrow> if is_digit c \<or> c = CHR ''_'' then None else Some name)"

definition match_binding :: "string \<Rightarrow> (string \<times> string) option" where
  "match_binding s =
     (case match_symbol s of
        Some (symbol, c # rest) \<Rightarrow>
          if c = CHR ''/'' \<or> c = CHR '':'' then map_option (\<lambda>p. (symbol, p)) (match_provider (dropWhile py_isspace rest)) else None
      | _ \<Rightarrow> None)"

definition match_unconfigured :: "string \<Rightarrow> string option" where
  "match_unconfigured s =
     (let p = ''provider is not configured: '' in if is_prefix p s then match_provider (drop (length p) s) else None)"

definition safe_compile_context :: "string \<Rightarrow> job_error \<Rightarrow> job_error" where
  "safe_compile_context message e =
     (case search match_symbol_capability message of
        Some (symbol, cap) \<Rightarrow> e\<lparr>je_code := ''provider_route_invalid'', je_symbol := Some symbol, je_capability := Some cap\<rparr>
      | None \<Rightarrow>
     (case search match_binding message of
        Some (symbol, provider) \<Rightarrow> e\<lparr>je_code := ''provider_binding_invalid'', je_symbol := Some symbol, je_provider := Some provider\<rparr>
      | None \<Rightarrow>
     (case search match_unconfigured message of
        Some provider \<Rightarrow> e\<lparr>je_code := ''provider_not_configured'', je_provider := Some provider\<rparr>
      | None \<Rightarrow>
          let lowered = lower message in
          if is_infix ''synthetic'' lowered then e\<lparr>je_code := ''synthetic_route_invalid''\<rparr>
          else if is_infix ''treasury'' lowered \<or> is_infix ''yield strategy'' lowered \<or> is_infix ''dividend'' lowered
          then e\<lparr>je_code := ''income_policy_invalid''\<rparr>
          else e\<lparr>je_code := ''route_compile_failed''\<rparr>)))"

text \<open>The exception is \<^const>\<open>None\<close> for a cancellation.\<close>

definition safe_error :: "job_exception option \<Rightarrow> string \<Rightarrow> job_error" where
  "safe_error exc stage =
     (let base = \<lparr>je_code =
             (if exc = None then ''catalog_activation_cancelled''
              else if stage = ''warming'' \<and> exc = Some JobTimeout then ''catalog_warm_timeout'' else ''catalog_activation_failed''),
           je_message = (if exc = None then ''catalog activation was cancelled during service shutdown''
              else ''catalog validation, warm-up, or activation failed''),
           je_type = (case exc of None \<Rightarrow> ''CancelledError'' | Some e \<Rightarrow> exception_name e), je_stage = stage,
           je_symbol = None, je_capability = None, je_cause_type = None, je_provider = None, je_budgets = [],
           je_binding_failures = []\<rparr> in
      case Option.bind exc find_warm_error of
        Some (symbol, cap, cause) \<Rightarrow>
          base\<lparr>je_code := ''catalog_warm_failed'', je_symbol := Some symbol, je_capability := Some (capability_value cap),
               je_cause_type := Some cause\<rparr>
      | None \<Rightarrow>
          (case exc of
             Some (CatalogRouteError code symbol cap) \<Rightarrow>
               base\<lparr>je_code := code, je_symbol := Some symbol, je_capability := Some (capability_value cap)\<rparr>
           | Some (CatalogBudgetError vs) \<Rightarrow> base\<lparr>je_code := ''provider_credit_budget_exceeded'', je_budgets := vs\<rparr>
           | Some (BindingVerificationError fs) \<Rightarrow>
               base\<lparr>je_code := ''provider_binding_verification_failed'', je_binding_failures := fs\<rparr>
           | Some (JobCompileError message) \<Rightarrow> safe_compile_context message base
           | _ \<Rightarrow> base))"

end
