(* ===== verification/QP_Warm_Props.thy ===== *)
theory QP_Warm_Props
  imports QP_CatalogRuntime QP_Activation_Samples
begin

text \<open>
  What warming checks: the bundles handed to an activation, and the size of a warm-up.
\<close>

subsection \<open>What warming checks\<close>

definition quote_fresh :: "zone \<Rightarrow> instant \<Rightarrow> managed_definition \<Rightarrow> provider_quote \<Rightarrow> bool" where
  "quote_fresh offset now d q \<longleftrightarrow>
     max 0 (seconds_of (now - pq_as_of q)) \<le> md_stale_after_seconds d
     \<or> scheduled_market_status offset (Member (md_market_calendar d)) (Aware now) = Inr ''closed''
     \<or> md_market_calendar d \<noteq> ALWAYS_OPEN \<and> pq_market_status q = ''closed''
        \<and> (\<exists>t. pq_market_status_as_of q = Some t \<and> 0 \<le> seconds_of (now - t) \<and> seconds_of (now - t) \<le> 300)"

lemma scheduled_status_total:
  "\<exists>status. scheduled_market_status offset (Member calendar) (Aware now) = Inr status"
  by (simp add: scheduled_market_status_def enum_of_def ensure_utc_def)

lemma validate_quote_iff:
  "validate_quote offset now d q = Inr () \<longleftrightarrow>
     pq_symbol q = md_symbol d \<and> pq_as_of q \<le> now + 60 * second \<and> quote_fresh offset now d q"
proof -
  obtain status where s: "scheduled_market_status offset (Member (md_market_calendar d)) (Aware now) = Inr status"
    using scheduled_status_total by blast
  show ?thesis
    by (cases "pq_market_status_as_of q") (auto simp: validate_quote_def Let_def s raise_if_Inr_iff quote_fresh_def not_less)
qed

lemma by_symbol_key:
  assumes "dict_get (by_symbol g) s = Some d"
  shows "md_symbol d = s" and "d \<in> set (cg_instruments g)"
proof -
  have "dict_get (fold (\<lambda>d. dict_set (md_symbol d) d) ds m) s = Some d \<Longrightarrow>
      (md_symbol d = s \<and> d \<in> set ds) \<or> dict_get m s = Some d" for ds m
    by (induction ds arbitrary: m) (fastforce split: if_splits)+
  from this [of "cg_instruments g" "[]"] assms show "md_symbol d = s" "d \<in> set (cg_instruments g)"
    by (auto simp: by_symbol_def)
qed

lemma checked_answer_iff: "checked_answer check a = Inr x \<longleftrightarrow> a = Answer x \<and> check x = Inr ()"
  by (cases a) (auto simp: checked_answer_def res_simps)

lemma warm_failure_iff [simp]: "warm_failure s cap r = Inr x \<longleftrightarrow> r = Inr x"
  by (simp add: warm_failure_def split: sum.split)

lemma optional_warm_iff:
  "optional_warm needed configured s cap check a = Inr x \<longleftrightarrow>
     (if needed then configured \<and> (\<exists>y. x = Some y \<and> a = Answer y \<and> check y = Inr ()) else x = None)"
  by (auto simp: optional_warm_def res_simps checked_answer_iff)

text \<open>A bundle as the activation may rely on it.\<close>

definition sound_bundle :: "service_env \<Rightarrow> zone \<Rightarrow> (string \<Rightarrow> warm_answers) \<Rightarrow> warmed_instrument \<Rightarrow> bool" where
  "sound_bundle env offset answers w \<longleftrightarrow>
     (let d = wu_definition w; q = wu_quote w; a = answers (md_symbol d) in
      pq_symbol q = md_symbol d \<and> pq_as_of q \<le> wa_quote_now a + 60 * second \<and> quote_fresh offset (wa_quote_now a) d q
      \<and> (needs_dividend d \<longleftrightarrow> wu_dividend w \<noteq> None) \<and> (needs_yield d \<longleftrightarrow> wu_yield w \<noteq> None)
      \<and> (\<forall>e. wu_dividend w = Some e \<longrightarrow> de_symbol e = md_symbol d \<and> de_event_type e = ''regular_cash'')
      \<and> (\<forall>m. wu_yield w = Some m \<longrightarrow> ym_symbol m = md_symbol d \<and> ym_as_of m \<le> wa_yield_now a + 60 * second
           \<and> seconds_of (wa_yield_now a - ym_as_of m) \<le> default_yield_stale_after_seconds env m))"

lemma warm_one_sound:
  assumes "warm_one env offset (by_symbol g) answers s = Inr w"
  shows "dict_get (by_symbol g) s = Some (wu_definition w) \<and> md_symbol (wu_definition w) = s \<and> sound_bundle env offset answers w"
proof -
  from assms obtain d where d: "dict_get (by_symbol g) s = Some d" by (auto simp: warm_one_def split: option.splits)
  note key = by_symbol_key [OF d]
  show ?thesis
    using assms d
    by (auto simp: warm_one_def Let_def res_simps checked_answer_iff validate_quote_iff optional_warm_iff sound_bundle_def key
      validate_dividend_def validate_yield_def not_less split: if_splits)
qed

lemma warm_all_Inr:
  assumes "warm_all env offset g answers timed_out ff symbols = Inr ws"
  shows "list_all2 (\<lambda>s w. warm_one env offset (by_symbol g) answers s = Inr w) symbols ws"
proof -
  have "res_map (\<lambda>r. r) (map f xs) = Inr ys \<Longrightarrow> list_all2 (\<lambda>x y. f x = Inr y) xs ys" for f :: "string \<Rightarrow> job_exception + warmed_instrument" and xs ys
    by (induction xs arbitrary: ys) (auto split: sum.splits)
  with assms show ?thesis by (auto simp: warm_all_def Let_def split: if_splits)
qed

lemma install_income_sound:
  assumes "sound_bundle env offset answers w"
  shows "snd (install_income env w ds) = Inr ()"
  using assms by (auto simp: install_income_def sound_bundle_def Let_def split: option.split)

text \<open>
  C16. Warming is all or nothing and strict: when it succeeds there is one bundle per changed
  symbol in order, for exactly the definition of the target; its quote carries the instrument's
  symbol, is not from the future and is fresh unless the market is closed; a mandatory dividend
  or yield is present, belongs to the instrument and passes its own check. Hence installing the
  income of such a bundle cannot fail later, inside the activation.
\<close>

theorem warmed_bundles_sound:
  assumes "warm_all env offset target answers timed_out finished_first symbols = Inr ws"
  shows "map (md_symbol \<circ> wu_definition) ws = symbols
    \<and> (\<forall>w \<in> set ws. wu_definition w \<in> set (cg_instruments target) \<and> sound_bundle env offset answers w
         \<and> (\<forall>ds. snd (install_income env w ds) = Inr ()))"
proof -
  have all: "list_all2 (\<lambda>s w. md_symbol (wu_definition w) = s \<and> wu_definition w \<in> set (cg_instruments target)
      \<and> sound_bundle env offset answers w) symbols ws"
    using warm_all_Inr [OF assms] by (rule list_all2_mono) (use warm_one_sound by_symbol_key in blast)
  then have "map (md_symbol \<circ> wu_definition) ws = symbols" by (induction symbols ws rule: list_all2_induct) auto
  moreover have "\<forall>w \<in> set ws. wu_definition w \<in> set (cg_instruments target) \<and> sound_bundle env offset answers w"
    using all by (auto simp: list_all2_conv_all_nth set_conv_nth)
  ultimately show ?thesis using install_income_sound by blast
qed

definition demo_answers :: "string \<Rightarrow> warm_answers" where
  "demo_answers s = \<lparr>wa_quote = Answer (demo_quote s), wa_dividend_configured = False, wa_dividend = WrongType,
     wa_yield_configured = False, wa_yield = WrongType, wa_quote_now = 100000000, wa_yield_now = 100000000\<rparr>"

definition demo_target :: catalog_generation where
  "demo_target = \<lparr>cg_revision = ''r'', cg_instruments = [demo_definition]\<rparr>"

lemma demo_warm_all: "warm_all demo_env (\<lambda>_. 0) demo_target demo_answers False [] [''A:B''] = Inr [demo_warm]"
proof -
  have d: "dict_get (by_symbol demo_target) ''A:B'' = Some demo_definition"
    by (simp add: by_symbol_def demo_target_def demo_definition_def)
  have "validate_quote (\<lambda>_. 0) 100000000 demo_definition (demo_quote ''A:B'') = Inr ()"
    by (simp add: validate_quote_iff quote_fresh_def demo_definition_def demo_quote_def seconds_of_def time_units)
  then show ?thesis
    by (simp add: warm_all_def warm_one_def d demo_answers_def checked_answer_def warm_failure_def optional_warm_def
      needs_dividend_def needs_yield_def demo_warm_def) (simp add: demo_definition_def)
qed

theorem warmed_bundles_sound_witness:
  "warm_all demo_env (\<lambda>_. 0) demo_target demo_answers False [] [''A:B''] = Inr [demo_warm]
     \<and> sound_bundle demo_env (\<lambda>_. 0) demo_answers demo_warm"
  using warmed_bundles_sound [OF demo_warm_all] demo_warm_all by simp

subsection \<open>Warm bundles and the agreement of the market state\<close>

text \<open>What a successful installation of one bundle consists of.\<close>

lemma install_warmed_item_run:
  assumes "install_warmed_item env now reg w ds = (ds', Inr ())"
  obtains ds1 point ds3 snapshot item a where
    "install_income env w ds = (ds1, Inr ())" "canonical reg (md_symbol (wu_definition w)) item"
    "pq_symbol (wu_quote w) = md_symbol (wu_definition w)"
    "rebuild env reg now [point] (md_symbol (wu_definition w)) (accept_quote (wu_quote w) ds1) = (ds3, Inr snapshot)"
    "update_aggregate point ds3 = (ds', Inr a)" "md_symbol (wu_definition w) \<in> set (ds_complete_symbols ds')"
proof -
  have "\<not> unsupported (md_symbol (wu_definition w)) reg"
    using assms by (auto simp: install_warmed_item_def Let_def)
  then obtain item where "canonical reg (md_symbol (wu_definition w)) item" using unsupported_canonical by blast
  then show thesis using assms that
    by (auto simp: install_warmed_item_def Let_def split: if_splits prod.splits sum.splits)
qed

lemma install_income_frame:
  "ds_snapshots (fst (install_income env w ds)) = ds_snapshots ds"
  "ds_last_quotes (fst (install_income env w ds)) = ds_last_quotes ds"
  "ds_wire_cache (fst (install_income env w ds)) = ds_wire_cache ds"
  "ds_complete_symbols (fst (install_income env w ds)) = ds_complete_symbols ds"
  by (auto simp: install_income_def Let_def split: option.splits sum.splits prod.splits if_splits)

lemma install_income_ok: "state_ok env reg ds \<Longrightarrow> state_ok env reg (fst (install_income env w ds))"
  by (erule state_ok_same) (simp_all add: install_income_frame)

text \<open>The rebuild of an installation always installs the quote of the bundle.\<close>

lemma no_yield_strategy: "is_yield_strategy item = None \<Longrightarrow> rebuild_income item ds s q = Inr (d, y) \<Longrightarrow> y = None"
  by (auto simp: rebuild_income_def rebuild_yield_def res_simps split: option.splits)

lemma warm_rebuild:
  assumes "rebuild env reg now add s (accept_quote q ds) = (ds3, Inr r)" and "pq_symbol q = s" and "canonical reg s item"
  obtains snapshot hc where "qs_quote snapshot = q" "qs_published_at snapshot = now"
    "is_yield_strategy item = None \<Longrightarrow> qs_estimated_annual_yield snapshot = None"
    "ds3 = install_snapshot env item s snapshot ((accept_quote q ds)\<lparr>ds_history := hc\<rparr>)"
proof -
  have last: "dict_get (ds_last_quotes (accept_quote q ds)) s = Some q" using assms(2) by (simp add: accept_quote_def dict_get_set)
  obtain d y where dy: "rebuild_income item (accept_quote q ds) s q = Inr (d, y)"
    using assms(1) canonical_getitem [OF assms(3)] by (auto simp: rebuild_def last split: sum.splits)
  obtain hc changes where "rebuild_changes add s q (ds_history (accept_quote q ds)) = (hc, Inr changes)"
    using assms(1) canonical_getitem [OF assms(3)] by (auto simp: rebuild_def last dy split: sum.splits prod.splits)
  then show thesis
    using assms(1) canonical_getitem [OF assms(3)] no_yield_strategy [OF _ dy]
    by (intro that [of "\<lparr>qs_quote = q, qs_changes = changes, qs_dividend = d, qs_estimated_annual_yield = y, qs_published_at = now\<rparr>" hc])
       (auto simp: rebuild_def last dy Let_def)
qed

text \<open>
  A warm bundle whose quote is not older than the last one known for its symbol keeps the
  state consistent (stored snapshot, last quote, cached answer and completeness of every
  symbol agree), also when its installation raises half-way; and when it succeeds the symbol
  is complete and its stored snapshot carries the quote of the bundle.
\<close>

lemma warm_install_agrees:
  assumes "state_ok env reg ds"
    and "case dict_get (ds_last_quotes ds) (md_symbol (wu_definition w)) of None \<Rightarrow> True | Some c \<Rightarrow> pq_as_of c \<le> pq_as_of (wu_quote w)"
  shows "state_ok env reg (fst (install_warmed_item env now reg w ds))
    \<and> (snd (install_warmed_item env now reg w ds) = Inr () \<longrightarrow>
        md_symbol (wu_definition w) \<in> set (ds_complete_symbols (fst (install_warmed_item env now reg w ds)))
        \<and> (\<exists>snapshot. store_get (en_hash env) (ds_snapshots (fst (install_warmed_item env now reg w ds))) (md_symbol (wu_definition w)) = Some snapshot
             \<and> qs_quote snapshot = wu_quote w \<and> qs_published_at snapshot = now))"
proof (cases "unsupported (md_symbol (wu_definition w)) reg \<or> pq_symbol (wu_quote w) \<noteq> md_symbol (wu_definition w)
    \<or> now + future_limit < pq_as_of (wu_quote w)")
  case True
  then show ?thesis using assms(1) by (auto simp: install_warmed_item_def Let_def)
next
  case False
  let ?s = "md_symbol (wu_definition w)" and ?q = "wu_quote w"
  have sym: "pq_symbol ?q = ?s" using False by simp
  obtain item where c: "canonical reg ?s item" using False unsupported_canonical by blast
  obtain ds1 r1 where inc: "install_income env w ds = (ds1, r1)" by fastforce
  have ok1: "state_ok env reg ds1" using install_income_ok [OF assms(1), of w] inc by simp
  have last: "ds_last_quotes ds1 = ds_last_quotes ds" using install_income_frame(2) [of env w ds] inc by simp
  have ok2: "state_ok env reg (accept_quote ?q ds1)"
    by (rule set_last_quote_ok [OF ok1 sym]) (use assms(2) last sym in \<open>auto simp: accept_quote_def\<close>)
  have ok3: "state_ok env reg ds3" if "rebuild env reg now [point] ?s (accept_quote ?q ds1) = (ds3, r)" for point ds3 r
    using rebuild_ok [OF ok2 c, of now "[point]"] that by simp
  have ok4: "state_ok env reg ds4" if "rebuild env reg now [point] ?s (accept_quote ?q ds1) = (ds3, r)"
      "update_aggregate point ds3 = (ds4, r')" for point ds3 r ds4 r'
    using update_aggregate_ok [OF ok3 [OF that(1)], of point] that(2) by simp
  have ok: "state_ok env reg (fst (install_warmed_item env now reg w ds))"
    using False ok1 ok2 by (auto simp: install_warmed_item_def Let_def inc split: sum.splits prod.splits intro: ok3 ok4)
  show ?thesis
  proof (intro conjI impI)
    show "state_ok env reg (fst (install_warmed_item env now reg w ds))" by (rule ok)
    assume "snd (install_warmed_item env now reg w ds) = Inr ()"
    then obtain ds' where run: "install_warmed_item env now reg w ds = (ds', Inr ())"
      by (cases "install_warmed_item env now reg w ds") auto
    from install_warmed_item_run [OF run] obtain point ds3 snapshot a where
      reb: "rebuild env reg now [point] ?s (accept_quote ?q ds1) = (ds3, Inr snapshot)"
      and agg: "update_aggregate point ds3 = (ds', Inr a)" and mem: "?s \<in> set (ds_complete_symbols ds')"
      using inc by (metis prod.inject)
    obtain snap hc where snap: "qs_quote snap = ?q" "qs_published_at snap = now"
      "ds3 = install_snapshot env item ?s snap ((accept_quote ?q ds1)\<lparr>ds_history := hc\<rparr>)"
      using warm_rebuild [OF reb sym c] by blast
    let ?ds2 = "(accept_quote ?q ds1)\<lparr>ds_history := hc\<rparr>"
    have ok2': "state_ok env reg ?ds2" by (rule state_ok_same [OF ok2]) simp_all
    then have inv: "store_inv (en_hash env) (ds_snapshots ?ds2)" and sok: "symbol_ok env ?s item ?ds2"
      using c by (simp_all add: state_ok_def)
    have newer: "snapshot_as_of d \<le> snapshot_as_of snap" if "store_get (en_hash env) (ds_snapshots ?ds2) ?s = Some d" for d
      using sok that snap(1) by (simp add: symbol_ok_def accept_quote_def sym dict_get_set snapshot_as_of_def)
    have "snapshot_symbol snap = ?s" using snap(1) sym by (simp add: snapshot_symbol_def)
    from install_snapshot_get [OF inv this newer, where k = ?s and item = item]
    have "store_get (en_hash env) (ds_snapshots ds') ?s = Some snap"
      using snap(3) agg update_aggregate_frame(1) [of point ds3] by simp
    then show "?s \<in> set (ds_complete_symbols (fst (install_warmed_item env now reg w ds)))"
      and "\<exists>snapshot. store_get (en_hash env) (ds_snapshots (fst (install_warmed_item env now reg w ds))) ?s = Some snapshot
        \<and> qs_quote snapshot = ?q \<and> qs_published_at snapshot = now"
      using mem run snap by auto
  qed
qed


text \<open>A published quote, then a warm bundle with a quote one minute older.\<close>

definition older_warm :: warmed_instrument where
  "older_warm = demo_warm\<lparr>wu_quote := (demo_quote ''A:B'')\<lparr>pq_as_of := 30000000\<rparr>\<rparr>"

lemma older_warm_sel [simp]: "md_symbol (wu_definition older_warm) = ''A:B''" "wu_dividend older_warm = None"
  "wu_yield older_warm = None" "pq_as_of (wu_quote older_warm) = 30000000" "pq_symbol (wu_quote older_warm) = ''A:B''"
  "pq_price (wu_quote older_warm) = 5"
  by (simp_all add: older_warm_def demo_quote_def)









end
