(* ===== verification/QP_CatalogJobs.thy ===== *)
theory QP_CatalogJobs
  imports QP_CatalogRuntime
begin

text \<open>
  The activation jobs of \<^verbatim>\<open>InstrumentCatalogRuntime\<close> (\<^verbatim>\<open>quickprice/catalog_runtime.py\<close>): one job
  runs at a time as an asyncio task; requests, queries and \<^verbatim>\<open>stop\<close> interleave with it wherever
  it awaits. A step of the task is what it does between two awaits of one stage and the next,
  with the outcome of the stage as an argument; an await inside a stage that raises or is
  cancelled ends the stage.

  Cancellation. \<^verbatim>\<open>task.cancel()\<close> sets a flag that the next await delivers as \<^verbatim>\<open>CancelledError\<close>. A
  task cancelled before its first step never enters its body. While the commit has passed its
  point of no return it swallows the cancellation, otherwise a cancelled commit is undone
  (theory \<^verbatim>\<open>QP_Activation_Props\<close>).
\<close>

subsection \<open>Jobs\<close>

definition MAX_RETAINED_JOBS :: nat where "MAX_RETAINED_JOBS = 100"

datatype job_state = QUEUED | VALIDATING | WARMING | ACTIVATING | SUCCEEDED | FAILED | CANCELLED

record catalog_job =
  jb_operation :: string
  jb_requested_revision :: string
  jb_target_revision :: string
  jb_state :: job_state
  jb_created_at :: instant
  jb_updated_at :: instant
  jb_changed_symbols :: "string list"
  jb_collector_handoff :: "string option"
  jb_warm_plan :: "warm_plan option"
  jb_error :: "job_error option"

definition job_update :: "instant \<Rightarrow> job_state \<Rightarrow> catalog_job \<Rightarrow> catalog_job" where
  "job_update now state job = job\<lparr>jb_state := state, jb_updated_at := now\<rparr>"

datatype job_stage = StValidating | StPreparing | StVerifying | StWarming | StActivating

definition stage_name :: "job_stage \<Rightarrow> string" where
  "stage_name s =
     (case s of StValidating \<Rightarrow> ''validating'' | StPreparing \<Rightarrow> ''preparing_collectors''
      | StVerifying \<Rightarrow> ''verifying_bindings'' | StWarming \<Rightarrow> ''warming'' | StActivating \<Rightarrow> ''activating'')"

datatype task_point = AtStart | AtStage job_stage | AuditSuccess | AuditOther | AtCleanup | TaskDone

record job_task =
  ta_job :: string
  ta_point :: task_point
  ta_cancel :: bool

text \<open>
  \<^verbatim>\<open>ct_activated\<close> is not part of the program: it records the jobs whose commit took effect.
\<close>

record catalog_runtime =
  ct_jobs :: "(string, catalog_job) dict"
  ct_task :: "job_task option"
  ct_audit_sink :: bool
  ct_activated :: "string list"

definition mk_catalog_runtime :: "bool \<Rightarrow> catalog_runtime" where
  "mk_catalog_runtime audit_sink = \<lparr>ct_jobs = [], ct_task = None, ct_audit_sink = audit_sink, ct_activated = []\<rparr>"

definition task_running :: "catalog_runtime \<Rightarrow> bool" where
  "task_running rt = (case ct_task rt of None \<Rightarrow> False | Some t \<Rightarrow> ta_point t \<noteq> TaskDone)"

datatype catalog_runtime_error = CatalogActivationBusyError string | CatalogJobNotFoundError string

definition request_job ::
  "instant \<Rightarrow> string \<Rightarrow> string \<Rightarrow> string \<Rightarrow> catalog_generation \<Rightarrow> catalog_runtime \<Rightarrow>
   catalog_runtime \<times> (catalog_runtime_error + catalog_job)" where
  "request_job now job_id operation expected_revision target rt =
     (if task_running rt then (rt, Inl (CatalogActivationBusyError ''an instrument activation job is already running''))
      else
        let job = \<lparr>jb_operation = operation, jb_requested_revision = expected_revision,
              jb_target_revision = cg_revision target, jb_state = QUEUED, jb_created_at = now, jb_updated_at = now,
              jb_changed_symbols = [], jb_collector_handoff = None, jb_warm_plan = None, jb_error = None\<rparr>;
            jobs = dict_set job_id job (ct_jobs rt) in
        (rt\<lparr>ct_jobs := drop (length jobs - MAX_RETAINED_JOBS) jobs,
            ct_task := Some \<lparr>ta_job = job_id, ta_point = AtStart, ta_cancel = False\<rparr>\<rparr>, Inr job))"

definition job_by_id :: "string \<Rightarrow> catalog_runtime \<Rightarrow> catalog_runtime_error + catalog_job" where
  "job_by_id job_id rt =
     (case dict_get (ct_jobs rt) job_id of
        None \<Rightarrow> Inl (CatalogJobNotFoundError ''instrument catalog job was not found'') | Some job \<Rightarrow> Inr job)"

definition stop_runtime :: "catalog_runtime \<Rightarrow> catalog_runtime" where
  "stop_runtime rt =
     (if task_running rt then rt\<lparr>ct_task := map_option (\<lambda>t. t\<lparr>ta_cancel := True\<rparr>) (ct_task rt)\<rparr> else rt)"

subsection \<open>The stages of a job\<close>

record stage_data =
  sg_changed :: "string list"
  sg_warm_plan :: "warm_plan option"
  sg_handoff :: string

text \<open>
  The validating stage: the revision check of the store, the two compiled plans, the routes of
  what changed, the credit budget.
\<close>

definition validate_stage ::
  "(managed_definition \<Rightarrow> string) \<Rightarrow> credit_settings \<Rightarrow> config_error + unit \<Rightarrow> catalog_generation \<Rightarrow> catalog_generation \<Rightarrow>
   compile_error + route_plan \<Rightarrow> compile_error + route_plan \<Rightarrow> job_exception + string list" where
  "validate_stage dump settings target_check current target compiled_target compiled_current =
     (case target_check of
        Inl _ \<Rightarrow> Inl (OtherException ''RevisionConflictError'')
      | Inr _ \<Rightarrow>
          (case compiled_target of
             Inl e \<Rightarrow> Inl (compile_failure e)
           | Inr plan \<Rightarrow>
               let changed = changed_symbols dump current target in
               res_bind (require_changed_routes plan changed (cg_instruments target)) (\<lambda>_.
               case compiled_current of
                 Inl e \<Rightarrow> Inl (compile_failure e)
               | Inr active_plan \<Rightarrow>
                   let errors = incremental_budget_errors settings active_plan plan in
                   raise_if (errors \<noteq> []) (CatalogBudgetError errors) (Inr changed))))"

definition choose_handoff :: "bool \<Rightarrow> bool \<Rightarrow> bool \<Rightarrow> string" where
  "choose_handoff background_enabled can_reuse can_reconcile =
     (if background_enabled \<and> can_reuse then ''reused_metadata_only''
      else if background_enabled \<and> can_reconcile then ''reconciled''
      else if background_enabled then ''reconnected'' else ''disabled'')"

definition set_job :: "string \<Rightarrow> (catalog_job \<Rightarrow> catalog_job) \<Rightarrow> catalog_runtime \<Rightarrow> catalog_runtime" where
  "set_job job_id f rt =
     (case dict_get (ct_jobs rt) job_id of None \<Rightarrow> rt | Some job \<Rightarrow> rt\<lparr>ct_jobs := dict_set job_id (f job) (ct_jobs rt)\<rparr>)"

definition set_point :: "task_point \<Rightarrow> bool \<Rightarrow> catalog_runtime \<Rightarrow> catalog_runtime" where
  "set_point point cancel rt = rt\<lparr>ct_task := map_option (\<lambda>t. t\<lparr>ta_point := point, ta_cancel := cancel\<rparr>) (ct_task rt)\<rparr>"

text \<open>Without an audit sink \<^verbatim>\<open>_audit\<close> does not await.\<close>

definition audit_point :: "task_point \<Rightarrow> catalog_runtime \<Rightarrow> task_point" where
  "audit_point point rt = (if ct_audit_sink rt then point else AtCleanup)"

definition fail_job :: "instant \<Rightarrow> job_exception option \<Rightarrow> string \<Rightarrow> string \<Rightarrow> bool \<Rightarrow> catalog_runtime \<Rightarrow> catalog_runtime" where
  "fail_job now exc stage job_id cancel rt =
     set_point (audit_point AuditOther rt) cancel
       (set_job job_id (\<lambda>job. job_update now (if exc = None then CANCELLED else FAILED)
          (job\<lparr>jb_error := Some (safe_error exc stage)\<rparr>)) rt)"

definition pass_stage :: "instant \<Rightarrow> job_stage \<Rightarrow> stage_data \<Rightarrow> string \<Rightarrow> bool \<Rightarrow> catalog_runtime \<Rightarrow> catalog_runtime" where
  "pass_stage now stage sg job_id cancel rt =
     (case stage of
        StValidating \<Rightarrow> set_point (AtStage StPreparing) cancel (set_job job_id (\<lambda>job. job\<lparr>jb_changed_symbols := sg_changed sg\<rparr>) rt)
      | StPreparing \<Rightarrow> set_point (AtStage StVerifying) cancel rt
      | StVerifying \<Rightarrow> set_point (AtStage StWarming) cancel
          (set_job job_id (\<lambda>job. job_update now WARMING (job\<lparr>jb_warm_plan := sg_warm_plan sg\<rparr>)) rt)
      | StWarming \<Rightarrow> set_point (AtStage StActivating) cancel
          (set_job job_id (\<lambda>job. job_update now ACTIVATING (job\<lparr>jb_collector_handoff := Some (sg_handoff sg)\<rparr>)) rt)
      | StActivating \<Rightarrow> set_point (audit_point AuditSuccess rt) cancel
          (set_job job_id (job_update now SUCCEEDED) (rt\<lparr>ct_activated := job_id # ct_activated rt\<rparr>)))"

text \<open>
  One step of the task: \<^verbatim>\<open>delivered\<close> tells whether the await it was suspended at raised
  \<^verbatim>\<open>CancelledError\<close>, \<^verbatim>\<open>pending\<close> whether a cancellation is still pending afterwards.
\<close>

definition task_step ::
  "instant \<Rightarrow> bool \<Rightarrow> bool \<Rightarrow> job_exception + stage_data \<Rightarrow> job_task \<Rightarrow> catalog_runtime \<Rightarrow> catalog_runtime" where
  "task_step now delivered pending outcome task rt =
     (let job_id = ta_job task in
      case ta_point task of
        AtStart \<Rightarrow>
          if delivered then set_point TaskDone False rt
          else set_point (AtStage StValidating) pending (set_job job_id (job_update now VALIDATING) rt)
      | AtStage stage \<Rightarrow>
          if delivered then fail_job now None (stage_name stage) job_id pending rt
          else (case outcome of
                  Inl e \<Rightarrow> fail_job now (Some e) (stage_name stage) job_id pending rt
                | Inr sg \<Rightarrow> pass_stage now stage sg job_id pending rt)
      | AuditSuccess \<Rightarrow>
          if delivered then fail_job now None (stage_name StActivating) job_id pending rt
          else set_point AtCleanup pending rt
      | AuditOther \<Rightarrow> set_point AtCleanup pending rt
      | AtCleanup \<Rightarrow> set_point TaskDone pending rt
      | TaskDone \<Rightarrow> rt)"

text \<open>
  What may happen: a request with a fresh identifier, a call of \<^verbatim>\<open>stop\<close>, a step of the running
  task. Only a pending cancellation is delivered, once, and always at the first step.
\<close>

inductive runtime_step :: "catalog_runtime \<Rightarrow> catalog_runtime \<Rightarrow> bool" where
  Request: "job_id \<notin> set (dict_keys (ct_jobs rt)) \<Longrightarrow> job_id \<notin> set (ct_activated rt) \<Longrightarrow>
     runtime_step rt (fst (request_job now job_id operation expected_revision target rt))"
| Stop: "runtime_step rt (stop_runtime rt)"
| Task: "ct_task rt = Some task \<Longrightarrow> ta_point task \<noteq> TaskDone \<Longrightarrow> (delivered \<longrightarrow> ta_cancel task) \<Longrightarrow>
     (pending \<longrightarrow> ta_cancel task \<and> \<not> delivered) \<Longrightarrow> (ta_point task = AtStart \<longrightarrow> delivered = ta_cancel task) \<Longrightarrow>
     runtime_step rt (task_step now delivered pending outcome task rt)"

end
