(* ===== verification/QP_CatalogJobs_Props.thy ===== *)
theory QP_CatalogJobs_Props
  imports QP_CatalogJobs
begin

text \<open>
  Activation jobs over every interleaving of requests, \<^verbatim>\<open>stop\<close> and the running task: what the
  state of a job says about the activation, and that the task of a job passes each of its
  points at most once.
\<close>

subsection \<open>The invariant\<close>

text \<open>The state a job is left in, and whether its commit took effect.\<close>

definition settled :: "catalog_job \<Rightarrow> bool \<Rightarrow> bool" where
  "settled job committed \<longleftrightarrow>
     jb_state job \<in> {QUEUED, SUCCEEDED, FAILED, CANCELLED}
     \<and> (jb_error job \<noteq> None \<longleftrightarrow> jb_state job \<in> {FAILED, CANCELLED})
     \<and> (jb_state job = SUCCEEDED \<longrightarrow> committed) \<and> (jb_state job \<in> {QUEUED, FAILED} \<longrightarrow> \<not> committed)"

definition stage_state :: "job_stage \<Rightarrow> job_state" where
  "stage_state s = (case s of StWarming \<Rightarrow> WARMING | StActivating \<Rightarrow> ACTIVATING | _ \<Rightarrow> VALIDATING)"

definition at_point :: "task_point \<Rightarrow> catalog_job \<Rightarrow> bool \<Rightarrow> bool" where
  "at_point point job committed =
     (case point of
        AtStart \<Rightarrow> jb_state job = QUEUED \<and> jb_error job = None \<and> \<not> committed
      | AtStage s \<Rightarrow> jb_state job = stage_state s \<and> jb_error job = None \<and> \<not> committed
      | AuditSuccess \<Rightarrow> jb_state job = SUCCEEDED \<and> jb_error job = None \<and> committed
      | _ \<Rightarrow> settled job committed)"

definition job_point :: "catalog_runtime \<Rightarrow> string \<Rightarrow> task_point" where
  "job_point rt i = (case ct_task rt of None \<Rightarrow> TaskDone | Some t \<Rightarrow> if ta_job t = i then ta_point t else TaskDone)"

definition runtime_ok :: "catalog_runtime \<Rightarrow> bool" where
  "runtime_ok rt \<longleftrightarrow>
     dict_wf (ct_jobs rt) \<and> length (ct_jobs rt) \<le> MAX_RETAINED_JOBS
     \<and> (\<forall>i. job_point rt i \<noteq> TaskDone \<longrightarrow> dict_get (ct_jobs rt) i \<noteq> None)
     \<and> (\<forall>i job. dict_get (ct_jobs rt) i = Some job \<longrightarrow> at_point (job_point rt i) job (i \<in> set (ct_activated rt)))"

lemma runtime_ok_init: "runtime_ok (mk_catalog_runtime sink)"
  by (simp add: runtime_ok_def mk_catalog_runtime_def job_point_def)

lemma runtime_ok_same_jobs:
  assumes "runtime_ok rt" and "ct_jobs rt' = ct_jobs rt" and "ct_activated rt' = ct_activated rt" and "job_point rt' = job_point rt"
  shows "runtime_ok rt'"
  using assms(1) unfolding runtime_ok_def assms(2-4) .

lemma runtime_ok_stop: "runtime_ok rt \<Longrightarrow> runtime_ok (stop_runtime rt)"
  by (erule runtime_ok_same_jobs) (auto simp: stop_runtime_def job_point_def fun_eq_iff split: option.split)

lemma dict_get_drop: "dict_wf d \<Longrightarrow> dict_get (drop n d) k = Some v \<Longrightarrow> dict_get d k = Some v"
  by (metis dict_get_mem distinct_map distinct_drop drop_map in_set_dropD map_of_SomeD)

lemma drop_keeps_last:
  "k \<notin> set (dict_keys d) \<Longrightarrow> 0 < m \<Longrightarrow>
     dict_get (drop (length (dict_set k v d) - m) (dict_set k v d)) k = Some v"
proof -
  assume k: "k \<notin> set (dict_keys d)" and m: "0 < m"
  have app: "dict_set k v d = d @ [(k, v)]" using k by (induction d) auto
  have "dict_get (drop n d) k = None" for n using k by (metis drop_map in_set_dropD map_of_eq_None_iff list.set_map)
  then show ?thesis using m by (simp add: app map_add_def)
qed

lemma runtime_ok_request:
  assumes ok: "runtime_ok rt" and fresh: "i \<notin> set (dict_keys (ct_jobs rt))" "i \<notin> set (ct_activated rt)"
  shows "runtime_ok (fst (request_job now i op r target rt))"
proof (cases "task_running rt")
  case False
  obtain job where job: "snd (request_job now i op r target rt) = Inr job" and new: "jb_state job = QUEUED" "jb_error job = None"
    using False by (simp add: request_job_def Let_def)
  let ?d = "dict_set i job (ct_jobs rt)"
  let ?jobs = "drop (length ?d - MAX_RETAINED_JOBS) ?d"
  have rt: "fst (request_job now i op r target rt) =
      rt\<lparr>ct_jobs := ?jobs, ct_task := Some \<lparr>ta_job = i, ta_point = AtStart, ta_cancel = False\<rparr>\<rparr>"
    using job False by (auto simp: request_job_def Let_def)
  have idle: "job_point rt j = TaskDone" for j
    using False by (auto simp: task_running_def job_point_def split: option.splits)
  have wf: "dict_wf ?d" using ok by (simp add: runtime_ok_def dict_set_wf)
  have kept: "dict_get ?jobs i = Some job" by (rule drop_keeps_last) (use fresh in \<open>auto simp: MAX_RETAINED_JOBS_def\<close>)
  have old: "dict_get (ct_jobs rt) j = Some job'" if "dict_get ?jobs j = Some job'" "j \<noteq> i" for j job'
    using dict_get_drop [OF wf that(1)] that(2) by simp
  let ?rt = "fst (request_job now i op r target rt)"
  have point: "job_point ?rt j = (if j = i then AtStart else TaskDone)" for j by (simp add: rt job_point_def)
  have fields: "ct_jobs ?rt = ?jobs" "ct_activated ?rt = ct_activated rt" by (simp_all add: rt)
  have "at_point (job_point ?rt j) job' (j \<in> set (ct_activated rt))" if j: "dict_get ?jobs j = Some job'" for j job'
  proof (cases "j = i")
    case True
    with j kept have "job' = job" by simp
    then show ?thesis using True new fresh(2) by (simp add: point at_point_def)
  next
    case False
    then have "at_point (job_point rt j) job' (j \<in> set (ct_activated rt))"
      using ok old [OF j] by (simp add: runtime_ok_def)
    then show ?thesis using False by (simp add: point idle)
  qed
  moreover have "dict_wf ?jobs" using wf by (metis distinct_drop drop_map)
  moreover have "length ?jobs \<le> MAX_RETAINED_JOBS" by simp
  ultimately show ?thesis
    unfolding runtime_ok_def fields using kept by (auto simp: point simp del: map_of_eq_Some_iff)
qed (use ok in \<open>simp add: request_job_def\<close>)

text \<open>A step of the task changes the job it runs and nothing else.\<close>

lemma runtime_ok_task:
  assumes ok: "runtime_ok rt" and task: "ct_task rt = Some t" "ta_point t \<noteq> TaskDone"
    and jobs: "ct_jobs rt' = dict_set (ta_job t) job' (ct_jobs rt)"
    and point: "ct_task rt' = Some (t\<lparr>ta_point := p', ta_cancel := c\<rparr>)"
    and activated: "\<And>i. i \<noteq> ta_job t \<Longrightarrow> i \<in> set (ct_activated rt') \<longleftrightarrow> i \<in> set (ct_activated rt)"
    and at: "at_point p' job' (ta_job t \<in> set (ct_activated rt'))"
  shows "runtime_ok rt'"
proof -
  have known: "ta_job t \<in> set (dict_keys (ct_jobs rt))"
    using ok task unfolding runtime_ok_def job_point_def by (auto dest!: spec [of _ "ta_job t"] simp: map_of_eq_None_iff image_iff)
  have points: "job_point rt' i = (if i = ta_job t then p' else TaskDone)" "job_point rt i = (if i = ta_job t then ta_point t else TaskDone)" for i
    using task point by (auto simp: job_point_def)
  have len: "length (ct_jobs rt') = length (ct_jobs rt)" unfolding jobs using known by (simp add: length_dict_set)
  have wf: "dict_wf (ct_jobs rt')" unfolding jobs using ok by (simp add: runtime_ok_def dict_set_wf)
  show ?thesis
    unfolding runtime_ok_def points
  proof (intro conjI allI impI)
    fix i
    show "dict_wf (ct_jobs rt')" "length (ct_jobs rt') \<le> MAX_RETAINED_JOBS"
      using wf len ok by (auto simp: runtime_ok_def)
    show "dict_get (ct_jobs rt') i \<noteq> None" if "(if i = ta_job t then p' else TaskDone) \<noteq> TaskDone"
      using that jobs by (simp split: if_splits)
    show "at_point (if i = ta_job t then p' else TaskDone) job (i \<in> set (ct_activated rt'))"
      if "dict_get (ct_jobs rt') i = Some job" for job
    proof (cases "i = ta_job t")
      case True
      then show ?thesis using that at jobs by simp
    next
      case False
      with that jobs have "dict_get (ct_jobs rt) i = Some job" by simp
      then have "at_point (job_point rt i) job (i \<in> set (ct_activated rt))" using ok by (simp add: runtime_ok_def)
      then show ?thesis using False activated points by simp
    qed
  qed
qed

lemma dict_set_same: "dict_get d k = Some v \<Longrightarrow> dict_set k v d = d"
  by (induction d) (auto split: if_splits)

lemma set_job_simps:
  assumes "dict_get (ct_jobs rt) i = Some job"
  shows "ct_jobs (set_job i f rt) = dict_set i (f job) (ct_jobs rt)" "ct_task (set_job i f rt) = ct_task rt"
    "ct_activated (set_job i f rt) = ct_activated rt"
  using assms by (simp_all add: set_job_def)

lemma set_point_simps [simp]:
  "ct_jobs (set_point p c rt) = ct_jobs rt" "ct_activated (set_point p c rt) = ct_activated rt"
  "ct_task (set_point p c rt) = map_option (\<lambda>t. t\<lparr>ta_point := p, ta_cancel := c\<rparr>) (ct_task rt)"
  by (simp_all add: set_point_def)

lemma settled_point: "p \<in> {AuditOther, AtCleanup, TaskDone} \<Longrightarrow> at_point p job c = settled job c"
  by (auto simp: at_point_def)

lemma audit_point_cases: "audit_point p rt = p \<or> audit_point p rt = AtCleanup"
  by (simp add: audit_point_def)

text \<open>What a step makes of the job it runs.\<close>

lemma task_step_effect:
  assumes "ct_task rt = Some t" and "dict_get (ct_jobs rt) (ta_job t) = Some job"
    and "at_point (ta_point t) job (ta_job t \<in> set (ct_activated rt))" and "ta_point t \<noteq> TaskDone"
  obtains job' p' c where
    "ct_jobs (task_step now delivered pending outcome t rt) = dict_set (ta_job t) job' (ct_jobs rt)"
    "ct_task (task_step now delivered pending outcome t rt) = Some (t\<lparr>ta_point := p', ta_cancel := c\<rparr>)"
    "set (ct_activated (task_step now delivered pending outcome t rt)) =
       set (ct_activated rt) \<union> (if \<not> delivered \<and> ta_point t = AtStage StActivating \<and> \<not> isl outcome then {ta_job t} else {})"
    "at_point p' job' (ta_job t \<in> set (ct_activated (task_step now delivered pending outcome t rt)))"
proof -
  note same = dict_set_same [OF assms(2), symmetric]
  note simps = task_step_def Let_def fail_job_def pass_stage_def set_job_simps [OF assms(2)] assms(1)
  note fail = at_point_def settled_def job_update_def audit_point_def
  consider (start) "ta_point t = AtStart" | (stage) s where "ta_point t = AtStage s" | (success) "ta_point t = AuditSuccess"
    | (tail) "ta_point t \<in> {AuditOther, AtCleanup}" using assms(4) by (cases "ta_point t") auto
  then show thesis
  proof cases
    case start
    then show ?thesis using assms(3) same
      by (intro that [where job' = "if delivered then job else job_update now VALIDATING job"
            and p' = "if delivered then TaskDone else AtStage StValidating" and c = "\<not> delivered \<and> pending"])
        (auto simp: simps fail stage_state_def)
  next
    case success
    then show ?thesis using assms(3) same
      by (intro that [where job' = "if delivered then job_update now CANCELLED (job\<lparr>jb_error := Some (safe_error None (stage_name StActivating))\<rparr>) else job"
            and p' = "if delivered then audit_point AuditOther rt else AtCleanup" and c = pending])
        (auto simp: simps fail)
  next
    case tail
    then show ?thesis using assms(3) same
      by (intro that [where job' = job and p' = "if ta_point t = AuditOther then AtCleanup else TaskDone" and c = pending]) (auto simp: simps fail)
  next
    case stage
    define exc where "exc = (if delivered then Some None else case outcome of Inl e \<Rightarrow> Some (Some e) | Inr _ \<Rightarrow> None)"
    show ?thesis
    proof (cases exc)
      case (Some e)
      then have step: "task_step now delivered pending outcome t rt = fail_job now e (stage_name s) (ta_job t) pending rt"
        using stage by (auto simp: task_step_def Let_def exc_def split: if_splits sum.splits)
      then show ?thesis
        using assms(3) stage Some
        by (intro that [where job' = "job_update now (if e = None then CANCELLED else FAILED) (job\<lparr>jb_error := Some (safe_error e (stage_name s))\<rparr>)"
              and p' = "audit_point AuditOther rt" and c = pending])
          (auto simp: simps fail exc_def split: if_splits sum.splits)
    next
      case None
      then obtain sg where step: "\<not> delivered" "outcome = Inr sg" by (auto simp: exc_def split: if_splits sum.splits)
      show ?thesis
        using assms(3) stage step same
        by (intro that [where job' = "case s of
                StValidating \<Rightarrow> job\<lparr>jb_changed_symbols := sg_changed sg\<rparr> | StPreparing \<Rightarrow> job
              | StVerifying \<Rightarrow> job_update now WARMING (job\<lparr>jb_warm_plan := sg_warm_plan sg\<rparr>)
              | StWarming \<Rightarrow> job_update now ACTIVATING (job\<lparr>jb_collector_handoff := Some (sg_handoff sg)\<rparr>)
              | StActivating \<Rightarrow> job_update now SUCCEEDED job"
            and p' = "case s of StValidating \<Rightarrow> AtStage StPreparing | StPreparing \<Rightarrow> AtStage StVerifying
              | StVerifying \<Rightarrow> AtStage StWarming | StWarming \<Rightarrow> AtStage StActivating
              | StActivating \<Rightarrow> audit_point AuditSuccess rt" and c = pending])
          (cases s; auto simp: task_step_def Let_def pass_stage_def set_job_def assms(1,2) fail stage_state_def)+
    qed
  qed
qed

lemma runtime_ok_step: "runtime_step rt rt' \<Longrightarrow> runtime_ok rt \<Longrightarrow> runtime_ok rt'"
proof (induction rule: runtime_step.induct)
  case (Task rt task delivered pending now outcome)
  obtain job where job: "dict_get (ct_jobs rt) (ta_job task) = Some job"
    using Task unfolding runtime_ok_def job_point_def by (auto dest!: spec [of _ "ta_job task"] simp del: map_of_eq_Some_iff)
  have at: "at_point (ta_point task) job (ta_job task \<in> set (ct_activated rt))"
    using Task job unfolding runtime_ok_def job_point_def by (auto dest!: spec [of _ "ta_job task"] simp del: map_of_eq_Some_iff)
  show ?case
    by (rule task_step_effect [OF Task(1) job at Task(2), of now delivered pending outcome], rule runtime_ok_task [OF Task(6,1,2)])
      (auto split: if_splits)
qed (auto intro: runtime_ok_request runtime_ok_stop)

lemma runtime_ok_reachable: "rtranclp runtime_step (mk_catalog_runtime sink) rt \<Longrightarrow> runtime_ok rt"
  by (induction rule: rtranclp_induct) (auto intro: runtime_ok_init runtime_ok_step)

subsection \<open>What the state of a job says\<close>

text \<open>
  C13. In every state an activation runtime can reach, at most one hundred jobs are retained, the
  job of the running task among them; a job reported as succeeded has taken effect, a failed,
  queued or unfinished one has not; an error is recorded exactly for failed and cancelled jobs;
  and a job whose task has ended is in a terminal state, or still queued because it was
  cancelled before its first step.
\<close>

theorem catalog_jobs_safe:
  assumes "rtranclp runtime_step (mk_catalog_runtime sink) rt"
  shows "length (ct_jobs rt) \<le> 100 \<and> distinct (dict_keys (ct_jobs rt))
    \<and> (\<forall>t. ct_task rt = Some t \<and> ta_point t \<noteq> TaskDone \<longrightarrow> ta_job t \<in> set (dict_keys (ct_jobs rt)))
    \<and> (\<forall>(i, job) \<in> set (ct_jobs rt).
         (jb_state job = SUCCEEDED \<longrightarrow> i \<in> set (ct_activated rt))
         \<and> (jb_state job \<notin> {SUCCEEDED, CANCELLED} \<longrightarrow> i \<notin> set (ct_activated rt))
         \<and> (jb_error job \<noteq> None \<longleftrightarrow> jb_state job \<in> {FAILED, CANCELLED})
         \<and> (job_point rt i = TaskDone \<longrightarrow> jb_state job \<in> {QUEUED, SUCCEEDED, FAILED, CANCELLED}))"
proof -
  note ok = runtime_ok_reachable [OF assms, unfolded runtime_ok_def]
  have "ta_job t \<in> set (dict_keys (ct_jobs rt))" if "ct_task rt = Some t" "ta_point t \<noteq> TaskDone" for t
  proof -
    have "dict_get (ct_jobs rt) (ta_job t) \<noteq> None" using that ok by (auto simp: job_point_def simp del: map_of_eq_Some_iff)
    then show ?thesis by (simp add: map_of_eq_None_iff)
  qed
  moreover have "(jb_state job = SUCCEEDED \<longrightarrow> i \<in> set (ct_activated rt))
         \<and> (jb_state job \<notin> {SUCCEEDED, CANCELLED} \<longrightarrow> i \<notin> set (ct_activated rt))
         \<and> (jb_error job \<noteq> None \<longleftrightarrow> jb_state job \<in> {FAILED, CANCELLED})
         \<and> (job_point rt i = TaskDone \<longrightarrow> jb_state job \<in> {QUEUED, SUCCEEDED, FAILED, CANCELLED})"
    if "(i, job) \<in> set (ct_jobs rt)" for i job
  proof -
    have "at_point (job_point rt i) job (i \<in> set (ct_activated rt))" using that ok by (auto simp: dict_get_mem)
    then show ?thesis
      by (cases "job_point rt i") (auto simp: at_point_def settled_def stage_state_def split: job_stage.splits)
  qed
  ultimately show ?thesis using ok by (auto simp: MAX_RETAINED_JOBS_def)
qed

subsection \<open>Termination\<close>

fun point_rank :: "task_point \<Rightarrow> nat" where
  "point_rank AtStart = 9"
| "point_rank (AtStage s) =
     (case s of StValidating \<Rightarrow> 8 | StPreparing \<Rightarrow> 7 | StVerifying \<Rightarrow> 6 | StWarming \<Rightarrow> 5 | StActivating \<Rightarrow> 4)"
| "point_rank AuditSuccess = 3"
| "point_rank AuditOther = 2"
| "point_rank AtCleanup = 1"
| "point_rank TaskDone = 0"

definition task_rank :: "catalog_runtime \<Rightarrow> nat" where
  "task_rank rt = (case ct_task rt of None \<Rightarrow> 0 | Some t \<Rightarrow> point_rank (ta_point t))"

lemma point_rank_le: "point_rank p \<le> 9"
  by (cases p) (auto split: job_stage.split)

lemma task_rank_0: "task_rank rt = 0 \<longleftrightarrow> \<not> task_running rt"
proof -
  have "point_rank p = 0 \<longleftrightarrow> p = TaskDone" for p by (cases p) (auto split: job_stage.split)
  then show ?thesis by (auto simp: task_rank_def task_running_def split: option.split)
qed

lemma set_job_task [simp]: "ct_task (set_job i f rt) = ct_task rt"
  by (simp add: set_job_def split: option.split)

lemma task_step_rank:
  assumes "ct_task rt = Some t" and "ta_point t \<noteq> TaskDone"
  shows "task_rank (task_step now delivered pending outcome t rt) < task_rank rt"
  using assms
  by (cases "ta_point t")
    (auto simp: task_step_def task_rank_def Let_def fail_job_def pass_stage_def audit_point_def
      split: sum.split job_stage.splits)

text \<open>
  A run of the steps of the program in which the task takes \<^verbatim>\<open>n\<close> steps, while requests are turned
  down and \<^verbatim>\<open>stop\<close> is called any number of times in between.
\<close>

inductive busy_run :: "nat \<Rightarrow> catalog_runtime \<Rightarrow> catalog_runtime \<Rightarrow> bool" where
  Begin: "busy_run 0 rt rt"
| Other: "busy_run n rt rt' \<Longrightarrow> task_running rt' \<Longrightarrow>
     rt'' \<in> {stop_runtime rt', fst (request_job now i op r target rt')} \<Longrightarrow> busy_run n rt rt''"
| Own: "busy_run n rt rt' \<Longrightarrow> ct_task rt' = Some t \<Longrightarrow> ta_point t \<noteq> TaskDone \<Longrightarrow>
     busy_run (Suc n) rt (task_step now delivered pending outcome t rt')"

lemma busy_run_rank: "busy_run n rt rt' \<Longrightarrow> n + task_rank rt' \<le> task_rank rt"
proof (induction rule: busy_run.induct)
  case (Other n rt rt' rt'' now i op r target)
  then have "task_rank rt'' = task_rank rt'"
    by (auto simp: stop_runtime_def request_job_def task_rank_def split: option.split)
  then show ?case using Other by simp
next
  case (Own n rt rt' t now delivered pending outcome)
  then show ?case using task_step_rank [OF Own(2,3), of now delivered pending outcome] by simp
qed simp

text \<open>
  An activation job always ends: whatever its stages return, wherever it is cancelled and
  whatever is called meanwhile, its task takes at most nine steps, and after nine it has ended.
\<close>

lemma catalog_job_terminates:
  assumes "busy_run n rt rt'"
  shows "n \<le> 9 \<and> (n = 9 \<longrightarrow> \<not> task_running rt')"
proof -
  have "task_rank rt \<le> 9" using point_rank_le by (auto simp: task_rank_def split: option.split)
  with busy_run_rank [OF assms] show ?thesis by (auto simp: task_rank_0 [symmetric])
qed

subsection \<open>A cancellation after the commit\<close>

definition sample_target :: catalog_generation where
  "sample_target = \<lparr>cg_revision = ''r2'', cg_instruments = []\<rparr>"

definition sample_stage :: stage_data where
  "sample_stage = \<lparr>sg_changed = [], sg_warm_plan = None, sg_handoff = ''disabled''\<rparr>"

definition step_ok :: "catalog_runtime \<Rightarrow> catalog_runtime" where
  "step_ok rt = (case ct_task rt of None \<Rightarrow> rt | Some t \<Rightarrow> task_step 0 False False (Inr sample_stage) t rt)"

definition step_cancelled :: "catalog_runtime \<Rightarrow> catalog_runtime" where
  "step_cancelled rt = (case ct_task rt of None \<Rightarrow> rt | Some t \<Rightarrow> task_step 0 True False (Inr sample_stage) t rt)"

definition sample_request :: catalog_runtime where
  "sample_request = fst (request_job 0 ''job'' ''activate'' ''f1'' sample_target (mk_catalog_runtime True))"

definition cancelled_run :: catalog_runtime where
  "cancelled_run = step_cancelled (stop_runtime ((step_ok ^^ 6) sample_request))"

lemma step_ok_reachable:
  assumes "rtranclp runtime_step rt0 rt" and "ct_task rt = Some t" and "ta_point t \<noteq> TaskDone"
    and "ta_point t = AtStart \<longrightarrow> \<not> ta_cancel t"
  shows "rtranclp runtime_step rt0 (step_ok rt)"
  using assms by (auto simp: step_ok_def intro!: rtranclp.rtrancl_into_rtrancl [OF assms(1)] runtime_step.Task)

lemma cancelled_run_reachable: "rtranclp runtime_step (mk_catalog_runtime True) cancelled_run"
proof -
  have start: "rtranclp runtime_step (mk_catalog_runtime True) sample_request"
    unfolding sample_request_def
    by (rule r_into_rtranclp, rule runtime_step.Request) (simp_all add: mk_catalog_runtime_def)
  have points: "case ct_task ((step_ok ^^ n) sample_request) of None \<Rightarrow> False
      | Some t \<Rightarrow> ta_point t \<noteq> TaskDone \<and> \<not> ta_cancel t \<and> (n = 6 \<longrightarrow> ta_point t = AuditSuccess)" if "n \<le> 6" for n
  proof -
    have "n \<in> {0, 1, 2, 3, 4, 5, 6}" using that by auto
    then show ?thesis
      by (elim insertE emptyE) (simp_all only:, code_simp+)
  qed
  have steps: "rtranclp runtime_step (mk_catalog_runtime True) ((step_ok ^^ n) sample_request)" if "n \<le> 6" for n
    using that
  proof (induction n)
    case (Suc n)
    then show ?case using points [of n] by (auto intro!: step_ok_reachable split: option.splits)
  qed (use start in simp)
  obtain t where t: "ct_task ((step_ok ^^ 6) sample_request) = Some t" "ta_point t = AuditSuccess"
    using points [of 6] by (auto split: option.splits)
  have "rtranclp runtime_step (mk_catalog_runtime True) (stop_runtime ((step_ok ^^ 6) sample_request))"
    using steps [of 6] by (auto intro: rtranclp.rtrancl_into_rtrancl runtime_step.Stop)
  moreover have "ct_task (stop_runtime ((step_ok ^^ 6) sample_request)) = Some (t\<lparr>ta_cancel := True\<rparr>)"
    using t by (simp add: stop_runtime_def task_running_def)
  moreover from this have "runtime_step (stop_runtime ((step_ok ^^ 6) sample_request)) cancelled_run"
    unfolding cancelled_run_def step_cancelled_def by (simp, intro runtime_step.Task) (use t in auto)
  ultimately show ?thesis by (blast intro: rtranclp.rtrancl_into_rtrancl)
qed

text \<open>
  C40. A job can be reported as cancelled although its activation took effect: when \<^verbatim>\<open>stop\<close> is called
  while \<^verbatim>\<open>_run_job\<close> awaits the audit of a success, the handler of \<^verbatim>\<open>CancelledError\<close> overwrites the
  state of the job that has already been committed.
\<close>

theorem commit_reported_cancelled:
  "\<exists>rt job. rtranclp runtime_step (mk_catalog_runtime True) rt \<and> dict_get (ct_jobs rt) ''job'' = Some job
     \<and> jb_state job = CANCELLED \<and> ''job'' \<in> set (ct_activated rt)"
proof -
  have "case dict_get (ct_jobs cancelled_run) ''job'' of None \<Rightarrow> False
      | Some job \<Rightarrow> jb_state job = CANCELLED \<and> ''job'' \<in> set (ct_activated cancelled_run)" by code_simp
  then show ?thesis using cancelled_run_reachable by (auto split: option.splits)
qed

subsection \<open>Samples\<close>

lemma cancelled_run_job:
  "case ct_jobs cancelled_run of [(i, job)] \<Rightarrow> i = ''job'' \<and> jb_state job = CANCELLED | _ \<Rightarrow> False"
  by code_simp

theorem catalog_jobs_safe_witness:
  "rtranclp runtime_step (mk_catalog_runtime True) cancelled_run
    \<and> (case ct_jobs cancelled_run of [(i, job)] \<Rightarrow> i = ''job'' \<and> jb_state job = CANCELLED \<and> jb_error job \<noteq> None | _ \<Rightarrow> False)"
  using catalog_jobs_safe [OF cancelled_run_reachable] cancelled_run_job cancelled_run_reachable
  by (auto split: list.splits)

end
