(* ===== verification/Spec2Isabelle.thy ===== *)
theory Spec2Isabelle
  imports QP_Snapshots QP_History_Props QP_Quota QP_Fx QP_Market QP_Router_Props QP_Synthetic QP_Auth
    QP_Builtin_Props QP_Generation_Props QP_Service_Samples QP_Aggregates QP_Activation_Samples QP_Compiler_Props QP_Budget_Props QP_Warm_Props QP_CatalogJobs_Props
begin

text \<open>
  A verification development for QuickPrice, a service that collects market prices and yields
  from third-party providers and serves them over HTTP. The Python sources are under
  \<^verbatim>\<open>src/src/quickprice/\<close>; file names below are relative to it. The root theory imports every
  other theory and holds this overview.

  \<^bold>\<open>How the program works.\<close> A registry (\<^verbatim>\<open>registry.py\<close>) holds the instruments. Collectors ask
  the router (\<^verbatim>\<open>providers/router.py\<close>) for quotes, histories, dividends and yields; the router
  tries the providers of a chain in order, guarded by circuit breakers and quota gates, and
  checks that what comes back belongs to the instrument. Some providers are synthetic: they
  combine two other instruments. The service (\<^verbatim>\<open>service.py\<close>) publishes results: a history cache
  of three rings per symbol yields rolling changes, a snapshot is rebuilt, and a request reads
  one immutable snapshot. Administrators edit the catalogue of instruments in a file
  (\<^verbatim>\<open>managed_config.py\<close>); a staged generation is compiled to provider chains
  (\<^verbatim>\<open>providers/compiler.py\<close>), warmed, and activated in the file and in the service together.

  \<^bold>\<open>Theories and code.\<close>
  \<^item> \<^verbatim>\<open>QP_Prelude\<close>: exceptions as sums, strings, insertion-ordered dictionaries, instants;
    \<^verbatim>\<open>QP_Graph\<close>: depth-first walks and reachability; \<^verbatim>\<open>QP_Decimal\<close>: \<^verbatim>\<open>decimal.Decimal\<close> with the
    default context.
  \<^item> \<^verbatim>\<open>QP_Domain\<close>: \<^verbatim>\<open>domain.py\<close>, each dataclass a record, each \<^verbatim>\<open>__post_init__\<close> a fallible
    constructor. \<^verbatim>\<open>QP_Analytics\<close>: \<^verbatim>\<open>analytics.py\<close>, \<^verbatim>\<open>staking.py\<close>. \<^verbatim>\<open>QP_Fx\<close>: \<^verbatim>\<open>fx.py\<close>.
    \<^verbatim>\<open>QP_Market\<close>: \<^verbatim>\<open>market.py\<close>. \<^verbatim>\<open>QP_Wire\<close>: \<^verbatim>\<open>schemas.py\<close>.
  \<^item> \<^verbatim>\<open>QP_History\<close>, \<^verbatim>\<open>QP_History_Inv\<close>, \<^verbatim>\<open>QP_History_Refs\<close>, \<^verbatim>\<open>QP_History_Props\<close>: \<^verbatim>\<open>HistoryCache\<close> of
    \<^verbatim>\<open>cache.py\<close>; \<^verbatim>\<open>QP_Snapshots\<close>: its \<^verbatim>\<open>SnapshotStore\<close>.
  \<^item> \<^verbatim>\<open>QP_Quota\<close>: \<^verbatim>\<open>providers/quota.py\<close>. \<^verbatim>\<open>QP_Router\<close>, \<^verbatim>\<open>QP_Router_Props\<close>: \<^verbatim>\<open>providers/router.py\<close>
    and the errors of \<^verbatim>\<open>providers/base.py\<close>. \<^verbatim>\<open>QP_Synthetic\<close>: \<^verbatim>\<open>providers/synthetic.py\<close>.
    \<^verbatim>\<open>QP_Auth\<close>: \<^verbatim>\<open>auth.py\<close>, \<^verbatim>\<open>api_keys.py\<close>.
  \<^item> \<^verbatim>\<open>QP_PluginApi\<close>, \<^verbatim>\<open>QP_Registry\<close>: \<^verbatim>\<open>plugin_api.py\<close>, \<^verbatim>\<open>registry.py\<close>. \<^verbatim>\<open>QP_Builtin\<close>,
    \<^verbatim>\<open>QP_Builtin_Props\<close>: \<^verbatim>\<open>equities.py\<close>, \<^verbatim>\<open>builtin_plugin.py\<close>, \<^verbatim>\<open>instrument_policy.py\<close>.
  \<^item> \<^verbatim>\<open>QP_Catalog\<close>, \<^verbatim>\<open>QP_Generation\<close>, \<^verbatim>\<open>QP_Generation_Props\<close>: \<^verbatim>\<open>catalog.py\<close>. \<^verbatim>\<open>QP_Policy\<close>,
    \<^verbatim>\<open>QP_PolicyStore\<close>, \<^verbatim>\<open>QP_PolicyEdit\<close> and their \<^verbatim>\<open>_Props\<close>: the instrument policy store of
    \<^verbatim>\<open>managed_config.py\<close>, from the migration of its file to the activation lease.
  \<^item> \<^verbatim>\<open>QP_Descriptors\<close>, \<^verbatim>\<open>QP_Compiler\<close>, \<^verbatim>\<open>QP_Compiler_Props\<close>: \<^verbatim>\<open>providers/descriptors.py\<close> and
    the route compiler of \<^verbatim>\<open>providers/compiler.py\<close>. \<^verbatim>\<open>QP_Credits\<close>: its credit estimates and the
    route plan. \<^verbatim>\<open>QP_Budget\<close>, \<^verbatim>\<open>QP_Budget_Props\<close>: credit admission in \<^verbatim>\<open>catalog_runtime.py\<close> and in
    the compiler.
  \<^item> \<^verbatim>\<open>QP_CatalogRuntime\<close>, \<^verbatim>\<open>QP_Warm_Props\<close>: \<^verbatim>\<open>catalog_runtime.py\<close>, comparison of generations,
    warming and error reports. \<^verbatim>\<open>QP_CatalogJobs\<close>, \<^verbatim>\<open>QP_CatalogJobs_Props\<close>: its activation jobs as
    a step relation.
  \<^item> \<^verbatim>\<open>QP_Service\<close>, \<^verbatim>\<open>QP_ServiceRead\<close>, \<^verbatim>\<open>QP_Service_Inv\<close>, \<^verbatim>\<open>QP_Service_Props\<close>, \<^verbatim>\<open>QP_Aggregates\<close>:
    publications, reads and readiness of \<^verbatim>\<open>service.py\<close> over the generations of \<^verbatim>\<open>runtime.py\<close>.
    \<^verbatim>\<open>QP_Activation\<close>, \<^verbatim>\<open>QP_Activation_Props\<close>: activation of a generation in the service and the
    file. The \<^verbatim>\<open>_Samples\<close> theories hold concrete instances the properties are applied to.

  \<^bold>\<open>State and operations.\<close> An object is a record of its attributes and a method a function from
  the record and the arguments to the result and the new record. A method that runs under a
  lock is one step; sequences of steps stand for concurrent executions. Clock readings, random
  identifiers, outcomes of provider calls and of storage calls are arguments. A raised
  exception is an \<^verbatim>\<open>Inl\<close> value whose constructor is the exception class; state written before
  the exception is returned with it.

  \<^bold>\<open>What the lemmas show.\<close> For the history cache: the representation invariant, the exact effect
  of each operation, and that cached references equal a fresh computation, which in turn equals
  \<^verbatim>\<open>analytics.py\<close> on the merged history. The references agree under the condition that points
  arrive on time; a concrete run shows that a late point breaks them. For the router: fallback
  order, identity of results and the breaker under every interleaving, and what bounds the
  probes in flight. For the gates and limiters: bounds on every sliding interval, also when a
  full table evicts. For API keys: a created key works until its requested expiry, a revoked
  one is refused after any further operations. For the service, over the publications of one
  generation: a reader gets a fresh projection of the stored snapshot, timestamps never go back,
  the readiness counter agrees with a full scan, the aggregates refine OHLC bars; the warm
  installation of an activation keeps that agreement when its quote is not older than the
  known one (\<^verbatim>\<open>warm_install_agrees\<close>) and breaks it when the stored snapshot is newer.
  For the catalogue: exact acceptance, acyclicity and bounded depth, stability of migration,
  the lease over every interleaving, and atomicity of an activation over file and service. For
  the compiler: what a compiled plan guarantees and that it accepts every generation the
  catalogue accepts; that credit admission lets a metered provider exceed its limit only by
  demand it already had, request by request. For activation jobs: what a reported state says
  about the activation, the soundness of warmed bundles, and the one
  run in which a committed activation is reported as cancelled. Interfaces are locales interpreted on the model: the ring of a history, the
  latest-version store, the sliding window and others stand in the theory that provides them.

  \<^bold>\<open>Bounds and fuel.\<close> Depth-first walks recurse on the number of nodes not yet visited, so they
  need no fuel. Loops over dates carry the bound the code has. Nothing else can run out.

  \<^bold>\<open>Parameters.\<close> SHA-256, JSON and pydantic decoding, the time-zone database, CPython's string
  hash, \<^verbatim>\<open>float()\<close> of a decimal and \<^verbatim>\<open>ln\<close>/\<^verbatim>\<open>exp\<close> are arguments of the definitions that use them.
  Floats used as clocks and durations are rationals, so statements about exact instants are
  exact only up to the rounding of floats. The revision a legacy migration gives to a changed
  generation is the digest of the dumped definitions, not of the JSON text of the file.

  \<^bold>\<open>Not modelled.\<close> HTTP and WebSocket clients of third parties (\<^verbatim>\<open>providers/*.py\<close> adapters), the
  FastAPI layer (\<^verbatim>\<open>api.py\<close>, \<^verbatim>\<open>admin_api.py\<close>), SQL statements (\<^verbatim>\<open>storage/\<close>), task scheduling
  (\<^verbatim>\<open>collectors.py\<close>), failures of \<^verbatim>\<open>fsync\<close> after a file has been replaced, logging and process entry: they are input and output around the modelled
  core, or glue of frameworks the repository does not contain.
\<close>

end
